(* ===== verification/Py_Prelude.thy ===== *)
theory Py_Prelude
  imports Complex_Main "HOL-Library.AList" "HOL-Library.Sublist"
    "HOL-Library.Char_ord" "HOL-Library.List_Lexorder" "HOL-Library.Product_Lexorder"
begin

text \<open>
  What the components share: Python's exceptions as values, the insertion-ordered
  dictionary, negative slices, the text operations the code uses, and points in time.

  Strings are lists of \<^typ>\<open>char\<close>; the text operations follow Python's on ASCII
  (case mapping and digits) and Latin-1 (white space).  A \<open>datetime\<close> is an \<^typ>\<open>int\<close>,
  the microseconds since 0001-01-01T00:00 UTC (proleptic Gregorian, as in Python's
  \<open>datetime\<close>).  Python floats that only carry configuration, scores and durations are
  exact rationals: rounding to binary64 is not modelled.
\<close>

named_theorems result_simps \<open>how results are bound and mapped\<close>
named_theorems dict_simps \<open>lookup, update and deletion in an ordered dictionary\<close>
named_theorems text_simps \<open>evaluation of the text operations\<close>

section \<open>Exceptions as values\<close>

datatype exn =
    AttributeError
  | IndexError
  | OverflowError
  | IntegrityError
  | KeyError string
  | TypeError
  | ValueError string
  | BindingError string string      \<comment> \<open>code, path\<close>
  | PredicateError string           \<comment> \<open>code\<close>
  | ProcedureError string           \<comment> \<open>code\<close>
  | InvalidCronError string
  | IllegalGoalTransition string
  | GoalGraphError string
  | PermissionDenied string
  | RuntimeError string
  | ScriptRefused string

type_synonym 'a result = "exn + 'a"

fun bind_res :: "'a result \<Rightarrow> ('a \<Rightarrow> 'b result) \<Rightarrow> 'b result" where
  "bind_res (Inl e) f = Inl e"
| "bind_res (Inr x) f = f x"

lemma bind_res_Inr [result_simps]:
  "(bind_res m f = Inr y) = (\<exists>x. m = Inr x \<and> f x = Inr y)"
  by (cases m) auto

lemma bind_res_Inl [result_simps]:
  "(bind_res m f = Inl e) = (m = Inl e \<or> (\<exists>x. m = Inr x \<and> f x = Inl e))"
  by (cases m) auto

lemma bind_res_cong [fundef_cong]:
  assumes "m = n" "\<And>x. n = Inr x \<Longrightarrow> f x = g x"
  shows "bind_res m f = bind_res n g"
  using assms by (cases n) auto

lemma map_sum_Inr [result_simps]: "(map_sum id f m = Inr y) = (\<exists>x. m = Inr x \<and> f x = y)"
  by (cases m) auto

text \<open>A comprehension whose body may raise: the first exception wins.\<close>

fun map_res :: "('a \<Rightarrow> 'b result) \<Rightarrow> 'a list \<Rightarrow> 'b list result" where
  "map_res f [] = Inr []"
| "map_res f (x # xs) =
     bind_res (f x) (\<lambda>y. bind_res (map_res f xs) (\<lambda>ys. Inr (y # ys)))"

lemma map_res_cong [fundef_cong]:
  assumes "xs = ys" "\<And>x. x \<in> set ys \<Longrightarrow> f x = g x"
  shows "map_res f xs = map_res g ys"
proof -
  have "(\<And>x. x \<in> set ys \<Longrightarrow> f x = g x) \<Longrightarrow> map_res f ys = map_res g ys"
    by (induction ys) simp_all
  with assms show ?thesis by simp
qed

lemma map_res_Inr [result_simps]:
  "(map_res f xs = Inr ys) = (list_all2 (\<lambda>x y. f x = Inr y) xs ys)"
proof (induction xs arbitrary: ys)
  case Nil
  then show ?case by auto
next
  case (Cons x xs)
  then show ?case by (cases ys) (auto simp: bind_res_Inr)
qed

lemma map_res_all:
  "map_res f xs = Inr ys \<Longrightarrow> length ys = length xs \<and> (\<forall>y\<in>set ys. \<exists>x\<in>set xs. f x = Inr y)"
proof (induction xs arbitrary: ys)
  case Nil
  then show ?case by simp
next
  case (Cons x xs)
  then obtain y ys' where "f x = Inr y" "map_res f xs = Inr ys'" "ys = y # ys'"
    by (auto simp: bind_res_Inr)
  with Cons.IH [of ys'] show ?case by auto
qed

lemma map_res_total:
  assumes "\<And>x. x \<in> set xs \<Longrightarrow> f x = Inr (g x)"
  shows "map_res f xs = Inr (map g xs)"
  using assms by (induction xs) simp_all

definition concat_res :: "('a \<Rightarrow> 'b list result) \<Rightarrow> 'a list \<Rightarrow> 'b list result" where
  "concat_res f xs = bind_res (map_res f xs) (\<lambda>yss. Inr (concat yss))"

lemma concat_res_cong [fundef_cong]:
  assumes "xs = ys" "\<And>x. x \<in> set ys \<Longrightarrow> f x = g x"
  shows "concat_res f xs = concat_res g ys"
  using map_res_cong [OF assms] by (simp add: concat_res_def)

lemma concat_res_Nil [simp]: "concat_res f [] = Inr []"
  by (simp add: concat_res_def)

lemma concat_res_Cons [simp]:
  "concat_res f (x # xs) = bind_res (f x) (\<lambda>ys. bind_res (concat_res f xs) (\<lambda>zs. Inr (ys @ zs)))"
  by (cases "f x"; cases "map_res f xs") (simp_all add: concat_res_def)

lemma concat_res_empty [result_simps]: "(concat_res f xs = Inr []) = (\<forall>x\<in>set xs. f x = Inr [])"
  by (induction xs) (auto simp: bind_res_Inr)

text \<open>A \<open>for\<close> loop whose body updates a state and may raise.\<close>

fun fold_res :: "('a \<Rightarrow> 's \<Rightarrow> 's result) \<Rightarrow> 'a list \<Rightarrow> 's \<Rightarrow> 's result" where
  "fold_res f [] s = Inr s"
| "fold_res f (x # xs) s = bind_res (f x s) (fold_res f xs)"

lemma fold_res_append [simp]:
  "fold_res f (xs @ ys) s = bind_res (fold_res f xs s) (fold_res f ys)"
proof (induction xs arbitrary: s)
  case Nil
  then show ?case by simp
next
  case (Cons x xs)
  then show ?case by (cases "f x s") auto
qed

text \<open>The loop rule: an invariant that every iteration keeps holds at the end.\<close>

lemma fold_res_invariant:
  assumes "fold_res f xs s = Inr t" "P s"
    and "\<And>x u v. x \<in> set xs \<Longrightarrow> P u \<Longrightarrow> f x u = Inr v \<Longrightarrow> P v"
  shows "P t"
  using assms
proof (induction xs arbitrary: s)
  case Nil
  then show ?case by simp
next
  case (Cons x xs)
  from Cons.prems(1) obtain u where u: "f x s = Inr u" and t: "fold_res f xs u = Inr t"
    by (auto simp: bind_res_Inr)
  from Cons.prems(2,3) u have "P u" by auto
  from Cons.IH [OF t this] Cons.prems(3) show ?case by auto
qed

lemma fold_res_total:
  assumes "P s"
    and "\<And>x u. x \<in> set xs \<Longrightarrow> P u \<Longrightarrow> \<exists>v. f x u = Inr v \<and> P v"
  shows "\<exists>t. fold_res f xs s = Inr t \<and> P t"
  using assms
proof (induction xs arbitrary: s)
  case Nil
  then show ?case by simp
next
  case (Cons x xs)
  from Cons.prems(2) [of x s] Cons.prems(1) obtain u where "f x s = Inr u" "P u" by auto
  with Cons.IH [of u] Cons.prems(2) show ?case by simp
qed

text \<open>\<open>any(...)\<close> and \<open>all(...)\<close> over a generator that may raise: they stop at the first answer.\<close>

fun any_res :: "('a \<Rightarrow> bool result) \<Rightarrow> 'a list \<Rightarrow> bool result" where
  "any_res p [] = Inr False"
| "any_res p (x # xs) = bind_res (p x) (\<lambda>b. if b then Inr True else any_res p xs)"

fun all_res :: "('a \<Rightarrow> bool result) \<Rightarrow> 'a list \<Rightarrow> bool result" where
  "all_res p [] = Inr True"
| "all_res p (x # xs) = bind_res (p x) (\<lambda>b. if b then all_res p xs else Inr False)"

lemma any_res_True: "any_res p xs = Inr True \<Longrightarrow> \<exists>x\<in>set xs. p x = Inr True"
  by (induction xs) (auto simp: bind_res_Inr split: if_splits)

lemma all_res_True: "all_res p xs = Inr True \<Longrightarrow> \<forall>x\<in>set xs. p x = Inr True"
  by (induction xs) (auto simp: bind_res_Inr split: if_splits)

section \<open>Methods that mutate and may raise\<close>

text \<open>
  A method is a function from the object's state to its result and the state it leaves:
  what was assigned before a \<open>raise\<close> stays assigned.
\<close>

type_synonym ('s, 'a) op = "'s \<Rightarrow> 'a result \<times> 's"

definition ret_op :: "'a \<Rightarrow> ('s, 'a) op" where
  "ret_op x = (\<lambda>s. (Inr x, s))"

definition raise_op :: "exn \<Rightarrow> ('s, 'a) op" where
  "raise_op e = (\<lambda>s. (Inl e, s))"

definition bind_op :: "('s, 'a) op \<Rightarrow> ('a \<Rightarrow> ('s, 'b) op) \<Rightarrow> ('s, 'b) op" where
  "bind_op m f = (\<lambda>s. case m s of (Inl e, t) \<Rightarrow> (Inl e, t) | (Inr x, t) \<Rightarrow> f x t)"

definition seq_op :: "('s, 'a) op \<Rightarrow> ('s, 'b) op \<Rightarrow> ('s, 'b) op" where
  "seq_op m n = bind_op m (\<lambda>_. n)"

definition read_op :: "('s \<Rightarrow> ('s, 'a) op) \<Rightarrow> ('s, 'a) op" where
  "read_op f = (\<lambda>s. f s s)"

definition modify_op :: "('s \<Rightarrow> 's) \<Rightarrow> ('s, unit) op" where
  "modify_op f = (\<lambda>s. (Inr (), f s))"

definition lift_op :: "'a result \<Rightarrow> ('s, 'a) op" where
  "lift_op r = (\<lambda>s. (r, s))"

fun for_op :: "('a \<Rightarrow> ('s, unit) op) \<Rightarrow> 'a list \<Rightarrow> ('s, unit) op" where
  "for_op f [] = ret_op ()"
| "for_op f (x # xs) = seq_op (f x) (for_op f xs)"

lemmas op_defs [result_simps] =
  ret_op_def raise_op_def bind_op_def seq_op_def read_op_def modify_op_def lift_op_def

lemma for_op_snoc: "for_op f (xs @ [x]) = seq_op (for_op f xs) (f x)"
  by (induction xs) (auto simp: op_defs split: prod.splits sum.splits)

text \<open>The loop rule: what every iteration keeps, and does without raising, the loop does too.\<close>

lemma for_op_invariant:
  assumes "P s"
    and "\<And>x u. x \<in> set xs \<Longrightarrow> P u \<Longrightarrow> \<exists>v. f x u = (Inr (), v) \<and> P v"
  shows "\<exists>t. for_op f xs s = (Inr (), t) \<and> P t"
  using assms
proof (induction xs arbitrary: s)
  case Nil
  then show ?case by (simp add: op_defs)
next
  case (Cons x xs)
  from Cons.prems(2) [of x s] Cons.prems(1) obtain u where u: "f x s = (Inr (), u)" "P u" by auto
  with Cons.IH [of u] Cons.prems(2) show ?case by (simp add: op_defs)
qed

text \<open>The body of a loop over the objects of a list, which sees the list as it is by then.\<close>

definition on_item :: "nat \<Rightarrow> ('a list \<Rightarrow> ('a, 'b) op) \<Rightarrow> ('a list, 'b) op" where
  "on_item i f xs = (case f xs (xs ! i) of (r, y) \<Rightarrow> (r, xs[i := y]))"

section \<open>Dictionaries: association lists in insertion order\<close>

text \<open>
  \<open>d[k] = v\<close> keeps a key's place or appends it (\<^const>\<open>AList.update\<close>), \<open>d.pop(k, None)\<close>
  removes it (\<^const>\<open>AList.delete\<close>), \<open>d.get(k)\<close> is \<^const>\<open>map_of\<close>.
\<close>

type_synonym ('k, 'v) dict = "('k \<times> 'v) list"

definition dict_ok :: "('k, 'v) dict \<Rightarrow> bool" where
  "dict_ok d \<longleftrightarrow> distinct (map fst d)"

definition dict_set :: "'k \<Rightarrow> 'v \<Rightarrow> ('k, 'v) dict \<Rightarrow> ('k, 'v) dict" where
  "dict_set k v d = AList.update k v d"

definition dict_del :: "'k \<Rightarrow> ('k, 'v) dict \<Rightarrow> ('k, 'v) dict" where
  "dict_del k d = AList.delete k d"

definition dict_get :: "('k, 'v) dict \<Rightarrow> 'k \<Rightarrow> 'v option" where
  "dict_get d k = map_of d k"

definition dict_get_or :: "('k, 'v) dict \<Rightarrow> 'k \<Rightarrow> 'v \<Rightarrow> 'v" where
  "dict_get_or d k dflt = (case dict_get d k of None \<Rightarrow> dflt | Some v \<Rightarrow> v)"

lemma dict_get_set [dict_simps]: "dict_get (dict_set k v d) j = (if j = k then Some v else dict_get d j)"
  by (simp add: dict_get_def dict_set_def update_conv)

lemma dict_get_del [dict_simps]: "dict_get (dict_del k d) j = (if j = k then None else dict_get d j)"
  by (simp add: dict_get_def dict_del_def delete_conv)

lemma dict_get_empty [dict_simps]: "dict_get [] k = None"
  by (simp add: dict_get_def)

lemma dict_ok_set [intro]: "dict_ok d \<Longrightarrow> dict_ok (dict_set k v d)"
  unfolding dict_ok_def dict_set_def by (rule distinct_update)

lemma dict_ok_del [intro]: "dict_ok d \<Longrightarrow> dict_ok (dict_del k d)"
  unfolding dict_ok_def dict_del_def by (rule distinct_delete)

lemma dict_ok_Nil [simp]: "dict_ok []"
  by (simp add: dict_ok_def)

lemma keys_dict_set [dict_simps]: "fst ` set (dict_set k v d) = insert k (fst ` set d)"
  by (simp add: dict_set_def dom_update)

lemma keys_dict_del [dict_simps]: "fst ` set (dict_del k d) = fst ` set d - {k}"
  unfolding dict_del_def by (induction d) auto

lemma dict_get_Cons [dict_simps]: "dict_get ((k, v) # d) j = (if j = k then Some v else dict_get d j)"
  by (simp add: dict_get_def)

lemma dict_ok_Cons [dict_simps]: "dict_ok ((k, v) # d) = (k \<notin> fst ` set d \<and> dict_ok d)"
  by (simp add: dict_ok_def)

lemma dict_del_absent: "k \<notin> fst ` set d \<Longrightarrow> dict_del k d = d"
  by (simp add: dict_del_def delete_id)

lemma dict_set_absent: "k \<notin> fst ` set d \<Longrightarrow> dict_set k v d = d @ [(k, v)]"
  unfolding dict_set_def by (induction d) auto

lemma dict_set_entries: "e \<in> set (dict_set k v d) \<Longrightarrow> e = (k, v) \<or> e \<in> set d"
  unfolding dict_set_def by (induction d) (auto split: if_splits)

lemma dict_del_entries: "set (dict_del k d) \<subseteq> set d"
  unfolding dict_del_def by (induction d) auto

lemma dict_get_None: "(dict_get d k = None) = (k \<notin> fst ` set d)"
  by (simp add: dict_get_def map_of_eq_None_iff)

lemma dict_get_in: "dict_get d k = Some v \<Longrightarrow> (k, v) \<in> set d"
  by (simp add: dict_get_def map_of_SomeD)

lemma dict_get_in_iff: "dict_ok d \<Longrightarrow> (dict_get d k = Some v) = ((k, v) \<in> set d)"
  by (simp add: dict_get_def dict_ok_def)

text \<open>The interface every keyed component uses; the laws are those of a finite map.\<close>

locale keyed_store =
  fixes get :: "'s \<Rightarrow> 'k \<Rightarrow> 'v option"
    and put :: "'k \<Rightarrow> 'v \<Rightarrow> 's \<Rightarrow> 's"
    and del :: "'k \<Rightarrow> 's \<Rightarrow> 's"
  assumes get_put: "get (put k v s) j = (if j = k then Some v else get s j)"
    and get_del: "get (del k s) j = (if j = k then None else get s j)"
begin

lemma put_same: "get (put k v s) k = Some v"
  by (simp add: get_put)

lemma put_other: "j \<noteq> k \<Longrightarrow> get (put k v s) j = get s j"
  by (simp add: get_put)

lemma put_put: "get (put k w (put k v s)) = get (put k w s)"
  by (rule ext) (simp add: get_put)

lemma put_commute: "j \<noteq> k \<Longrightarrow> get (put j w (put k v s)) = get (put k v (put j w s))"
  by (rule ext) (simp add: get_put)

lemma del_put: "get (del k (put k v s)) = get (del k s)"
  by (rule ext) (simp add: get_put get_del)

text \<open>Writing the pairs of a list in order: the last write of each key is what is read.\<close>

lemma fold_put: "get (fold (\<lambda>(k, v). put k v) ps s) j =
    (case map_of (rev ps) j of Some v \<Rightarrow> Some v | None \<Rightarrow> get s j)"
  by (induction ps arbitrary: s) (auto simp: get_put map_add_def split: option.splits)

end

interpretation dict: keyed_store dict_get dict_set dict_del
  by unfold_locales (simp_all add: dict_simps)

section \<open>Indexed lists\<close>

definition indexed :: "'a list \<Rightarrow> (nat \<times> 'a) list" where
  "indexed xs = zip [0..<length xs] xs"

lemma in_indexed: "(i, x) \<in> set (indexed xs) \<Longrightarrow> x \<in> set xs"
  unfolding indexed_def by (rule set_zip_rightD)

lemma indexed_snd: "map snd (indexed xs) = xs"
  by (simp add: indexed_def)

lemma ex_indexed: "x \<in> set xs \<Longrightarrow> \<exists>i. (i, x) \<in> set (indexed xs)"
  by (auto simp: indexed_def in_set_conv_nth set_zip)

section \<open>Searching sorted lists\<close>

lemma find_Some_in: "find P xs = Some x \<Longrightarrow> x \<in> set xs \<and> P x"
  by (induction xs) (auto split: if_splits)

lemma find_None_all: "find P xs = None \<Longrightarrow> x \<in> set xs \<Longrightarrow> \<not> P x"
  by (simp add: find_None_iff)

lemma find_filter: "find P xs = (case filter P xs of [] \<Rightarrow> None | x # _ \<Rightarrow> Some x)"
  by (induction xs) auto

lemma find_sorted_least:
  fixes x :: "'a::linorder"
  assumes "sorted xs" "find P xs = Some x" "y \<in> set xs" "P y"
  shows "x \<le> y"
  using assms by (induction xs) (auto split: if_splits)

lemma sorted_product:
  fixes xs :: "'a::linorder list" and ys :: "'b::linorder list"
  assumes "sorted_wrt (<) xs" "sorted ys"
  shows "sorted (List.product xs ys)"
  using assms(1)
proof (induction xs)
  case Nil
  then show ?case by simp
next
  case (Cons x xs)
  from assms(2) have "sorted (map (Pair x) ys)"
    by (induction ys) auto
  moreover from Cons.prems have "\<forall>a\<in>set xs. x < a" "sorted_wrt (<) xs" by auto
  ultimately show ?case using Cons.IH by (auto simp: sorted_append)
qed

section \<open>Negative slices and bounded logs\<close>

text \<open>
  \<open>xs[-n:]\<close> for a non-negative \<open>n\<close>: the last \<open>n\<close> items, but \<^emph>\<open>all\<close> of them for \<open>n = 0\<close>,
  since \<open>-0\<close> is \<open>0\<close>.
\<close>

definition py_last :: "nat \<Rightarrow> 'a list \<Rightarrow> 'a list" where
  "py_last n xs = (if n = 0 then xs else drop (length xs - n) xs)"

lemma length_py_last: "0 < n \<Longrightarrow> length (py_last n xs) = min n (length xs)"
  by (simp add: py_last_def)

lemma py_last_short [simp]: "length xs \<le> n \<Longrightarrow> py_last n xs = xs"
  by (simp add: py_last_def)

lemma suffix_py_last: "suffix (py_last n xs) xs"
  by (simp add: py_last_def suffix_drop)

lemma set_py_last: "set (py_last n xs) \<subseteq> set xs"
  by (auto simp: py_last_def dest: in_set_dropD)

lemma last_py_last: "xs \<noteq> [] \<Longrightarrow> py_last n xs \<noteq> [] \<and> last (py_last n xs) = last xs"
  by (cases "n = 0") (auto simp: py_last_def last_drop, metis Suc_diff_1 diff_less length_greater_0_conv not_le)

lemma py_last_snoc: "py_last n (py_last n xs @ [x]) = py_last n (xs @ [x])"
proof (cases "length xs \<le> n")
  case True
  then show ?thesis by simp
next
  case False
  then have "length (drop (length xs - n) xs @ [x]) - n = 1" if "0 < n" using that by simp
  with False show ?thesis by (cases "n = 0") (auto simp: py_last_def Suc_diff_le drop_Suc tl_drop)
qed

text \<open>
  \<open>log = [*log, item][-cap:]\<close> is how the mesh bounds every history it keeps.  The
  contract: the view after a push is the clipped extension of the view before it.
\<close>

locale bounded_log =
  fixes view :: "'s \<Rightarrow> 'a list"
    and push :: "'a \<Rightarrow> 's \<Rightarrow> 's"
    and cap :: "'s \<Rightarrow> nat"
  assumes view_push: "view (push x s) = py_last (cap s) (view s @ [x])"
    and cap_push: "cap (push x s) = cap s"
begin

lemma cap_pushes: "cap (fold push xs s) = cap s"
  by (induction xs arbitrary: s) (simp_all add: cap_push)

lemma newest_kept: "view (push x s) \<noteq> [] \<and> last (view (push x s)) = x"
  using last_py_last [of "view s @ [x]" "cap s"] by (simp add: view_push)

lemma bounded: "0 < cap s \<Longrightarrow> length (view (push x s)) \<le> cap s"
  by (simp add: view_push length_py_last)

text \<open>After any number of pushes the log holds exactly the newest entries, in order.\<close>

lemma view_pushes: "xs \<noteq> [] \<Longrightarrow> view (fold push xs s) = py_last (cap s) (view s @ xs)"
proof (induction xs rule: rev_induct)
  case Nil
  then show ?case by simp
next
  case (snoc x xs)
  show ?case
  proof (cases "xs = []")
    case True
    then show ?thesis by (simp add: view_push)
  next
    case False
    with snoc.IH show ?thesis
      by (simp add: view_push cap_pushes py_last_snoc del: append_assoc flip: append_assoc)
  qed
qed

lemma bounded_pushes: "0 < cap s \<Longrightarrow> xs \<noteq> [] \<Longrightarrow> length (view (fold push xs s)) \<le> cap s"
  by (simp add: view_pushes length_py_last)

lemma unbounded_zero: "cap s = 0 \<Longrightarrow> xs \<noteq> [] \<Longrightarrow> view (fold push xs s) = view s @ xs"
  by (simp add: view_pushes py_last_def)

end

section \<open>Text\<close>

definition is_space :: "char \<Rightarrow> bool" where
  "is_space c \<longleftrightarrow> (let n = of_char c :: nat in
     (9 \<le> n \<and> n \<le> 13) \<or> (28 \<le> n \<and> n \<le> 32) \<or> n = 133 \<or> n = 160)"

definition is_digit :: "char \<Rightarrow> bool" where
  "is_digit c \<longleftrightarrow> (let n = of_char c :: nat in 48 \<le> n \<and> n \<le> 57)"

definition upper_char :: "char \<Rightarrow> char" where
  "upper_char c = (let n = of_char c :: nat in if 97 \<le> n \<and> n \<le> 122 then char_of (n - 32) else c)"

definition lower_char :: "char \<Rightarrow> char" where
  "lower_char c = (let n = of_char c :: nat in if 65 \<le> n \<and> n \<le> 90 then char_of (n + 32) else c)"

definition py_upper :: "string \<Rightarrow> string" where
  "py_upper s = map upper_char s"

definition py_lower :: "string \<Rightarrow> string" where
  "py_lower s = map lower_char s"

definition py_isdigit :: "string \<Rightarrow> bool" where
  "py_isdigit s \<longleftrightarrow> s \<noteq> [] \<and> list_all is_digit s"

definition digit_value :: "char \<Rightarrow> nat" where
  "digit_value c = of_char c - 48"

definition py_int :: "string \<Rightarrow> nat" where
  "py_int s = foldl (\<lambda>n c. 10 * n + digit_value c) 0 s"

text \<open>\<open>s.split()\<close>: the words between runs of white space.\<close>

fun words_acc :: "string \<Rightarrow> string \<Rightarrow> string list" where
  "words_acc w [] = (if w = [] then [] else [rev w])"
| "words_acc w (c # cs) =
     (if is_space c then (if w = [] then words_acc [] cs else rev w # words_acc [] cs)
      else words_acc (c # w) cs)"

definition py_split :: "string \<Rightarrow> string list" where
  "py_split s = words_acc [] s"

text \<open>\<open>s.split(c)\<close> for a one-character separator, empty pieces kept.\<close>

fun split_on :: "char \<Rightarrow> string \<Rightarrow> string list" where
  "split_on c [] = [[]]"
| "split_on c (x # xs) =
     (if x = c then [] # split_on c xs
      else (case split_on c xs of [] \<Rightarrow> [[x]] | p # ps \<Rightarrow> (x # p) # ps))"

text \<open>\<open>s.split(c, 1)\<close> where \<open>c\<close> occurs in \<open>s\<close>.\<close>

definition split_once :: "char \<Rightarrow> string \<Rightarrow> string \<times> string" where
  "split_once c s = (takeWhile (\<lambda>x. x \<noteq> c) s, drop 1 (dropWhile (\<lambda>x. x \<noteq> c) s))"

fun py_join :: "string \<Rightarrow> string list \<Rightarrow> string" where
  "py_join sep [] = []"
| "py_join sep [s] = s"
| "py_join sep (s # t # ss) = s @ sep @ py_join sep (t # ss)"

definition py_strip :: "string \<Rightarrow> string" where
  "py_strip s = rev (dropWhile is_space (rev (dropWhile is_space s)))"

fun show_nat :: "nat \<Rightarrow> string" where
  "show_nat n = (if n < 10 then [char_of (48 + n)] else show_nat (n div 10) @ [char_of (48 + n mod 10)])"

declare show_nat.simps [simp del]

definition show_int :: "int \<Rightarrow> string" where
  "show_int i = (if i < 0 then ''-'' @ show_nat (nat (- i)) else show_nat (nat i))"

lemma split_on_nonempty [simp]: "split_on c s \<noteq> []"
  by (induction s) (auto split: list.splits)

lemma join_split_on: "py_join [c] (split_on c s) = s"
proof (induction s)
  case Nil
  then show ?case by simp
next
  case (Cons x xs)
  obtain p ps where p: "split_on c xs = p # ps" by (cases "split_on c xs") auto
  with Cons have "py_join [c] (p # ps) = xs" by simp
  with p show ?case by (cases ps) auto
qed

lemma words_acc_nonspace:
  assumes "list_all (\<lambda>c. \<not> is_space c) w" "v \<in> set (words_acc w s)"
  shows "v \<noteq> [] \<and> list_all (\<lambda>c. \<not> is_space c) v"
  using assms
proof (induction s arbitrary: w)
  case Nil
  then show ?case by (auto simp: list_all_iff split: if_splits)
next
  case (Cons c s)
  from Cons.prems consider
      "v \<in> set (words_acc [] s)" | "w \<noteq> []" "v = rev w" | "\<not> is_space c" "v \<in> set (words_acc (c # w) s)"
    by (auto split: if_splits)
  then show ?case
    by cases (use Cons.prems(1) Cons.IH [of "[]"] Cons.IH [of "c # w"] in \<open>simp_all add: list_all_iff\<close>)
qed

lemma py_split_words: "v \<in> set (py_split s) \<Longrightarrow> v \<noteq> [] \<and> list_all (\<lambda>c. \<not> is_space c) v"
  unfolding py_split_def by (rule words_acc_nonspace [of "[]"]) simp_all

text \<open>\<open>len(s.encode())\<close>.\<close>

definition utf8_length :: "string \<Rightarrow> nat" where
  "utf8_length s = sum_list (map (\<lambda>c. if (of_char c :: nat) < 128 then 1 else 2) s)"

section \<open>Time\<close>

type_synonym time = int

definition seconds :: "rat \<Rightarrow> time" where
  \<comment> \<open>\<open>timedelta(seconds=s)\<close>: microseconds, ties to even\<close>
  "seconds s = (let x = s * 1000000; f = \<lfloor>x\<rfloor>; d = x - of_int f in
     if d < 1/2 then f else if d > 1/2 then f + 1 else if even f then f else f + 1)"

definition total_seconds :: "time \<Rightarrow> rat" where
  "total_seconds d = of_int d / 1000000"

lemma seconds_of_int [simp]: "seconds (of_int n) = n * 1000000"
proof -
  have "(of_int n :: rat) * 1000000 = of_int (n * 1000000)" by simp
  then have "\<lfloor>(of_int n :: rat) * 1000000\<rfloor> = n * 1000000" by (metis floor_of_int)
  then show ?thesis by (simp add: seconds_def Let_def)
qed

lemma seconds_nonneg: "0 \<le> s \<Longrightarrow> 0 \<le> seconds s"
  by (auto simp: seconds_def Let_def)

lemma seconds_pos: "1 \<le> s \<Longrightarrow> 0 < seconds s"
proof -
  assume "1 \<le> s"
  then have "1 \<le> \<lfloor>s * 1000000\<rfloor>" by (simp add: le_floor_iff)
  then show ?thesis by (auto simp: seconds_def Let_def)
qed

end
