(* ===== verification/Cron.thy ===== *)
theory Cron
  imports Py_Prelude
begin

text \<open>
  The five-field cron matcher of \<open>cron.py\<close>: \<open>_parse_field\<close>, \<open>parse\<close>, \<open>_day_matches\<close>,
  \<open>next_after\<close>, \<open>is_valid_cron_expression\<close>.  A moment is a count of microseconds; the
  calendar part (\<open>datetime.day\<close>, \<open>.month\<close>, \<open>.weekday()\<close>) is the standard library's own
  algorithm on day numbers.  The search is bounded by \<open>_SEARCH_LIMIT_DAYS\<close>, so it needs
  no fuel of its own.
\<close>

section \<open>The calendar\<close>

definition day_us :: int where "day_us = 86400000000"
definition hour_us :: int where "hour_us = 3600000000"
definition minute_us :: int where "minute_us = 60000000"

definition day_of :: "time \<Rightarrow> int" where "day_of t = t div day_us"

definition minute_of_day :: "time \<Rightarrow> int" where "minute_of_day t = (t mod day_us) div minute_us"

definition hour_of :: "time \<Rightarrow> nat" where "hour_of t = nat (minute_of_day t div 60)"

definition minute_of :: "time \<Rightarrow> nat" where "minute_of t = nat (minute_of_day t mod 60)"

definition at_time :: "int \<Rightarrow> nat \<Rightarrow> nat \<Rightarrow> time" where
  "at_time d h m = d * day_us + int h * hour_us + int m * minute_us"

definition days_before_month :: "nat list" where
  "days_before_month = [0, 0, 31, 59, 90, 120, 151, 181, 212, 243, 273, 304, 334]"

definition days_in_month :: "nat list" where
  "days_in_month = [0, 31, 28, 31, 30, 31, 30, 31, 31, 30, 31, 30, 31]"

text \<open>The day numbered \<open>n\<close> of its year, and the day numbered \<open>d\<close> (0 is 0001-01-01), as
  \<open>(month, day of month)\<close>.\<close>

definition year_day :: "nat \<Rightarrow> bool \<Rightarrow> nat \<times> nat" where
  "year_day n leap =
     (let month = (n + 50) div 32;
          ahead = days_before_month ! month + (if month > 2 \<and> leap then 1 else 0)
      in if ahead > n
         then (month - 1,
               n - (ahead - (days_in_month ! (month - 1) + (if month = 3 \<and> leap then 1 else 0))) + 1)
         else (month, n - ahead + 1))"

definition month_day :: "int \<Rightarrow> nat \<times> nat" where
  "month_day d =
     (let n = nat (d mod 146097);
          n100 = n div 36524; n = n mod 36524;
          n4 = n div 1461; n = n mod 1461;
          n1 = n div 365
      in if n1 = 4 \<or> n100 = 4 then (12, 31)
         else year_day (n mod 365) (n1 = 3 \<and> (n4 \<noteq> 24 \<or> n100 = 3)))"

definition month_of :: "int \<Rightarrow> nat" where "month_of d = fst (month_day d)"
definition dom_of :: "int \<Rightarrow> nat" where "dom_of d = snd (month_day d)"
definition weekday :: "int \<Rightarrow> nat" where "weekday d = nat (d mod 7)"

lemma at_time_split:
  "h < 24 \<Longrightarrow> m < 60 \<Longrightarrow> day_of (at_time d h m) = d \<and> hour_of (at_time d h m) = h
     \<and> minute_of (at_time d h m) = m \<and> at_time d h m mod minute_us = 0"
proof -
  assume h: "h < 24" and m: "m < 60"
  have eq: "at_time d h m = d * day_us + (int h * 60 + int m) * minute_us"
    by (simp add: at_time_def hour_us_def minute_us_def)
  have small: "0 \<le> (int h * 60 + int m) * minute_us" "(int h * 60 + int m) * minute_us < day_us"
    using h m by (auto simp: minute_us_def day_us_def)
  from small have d: "day_of (at_time d h m) = d"
    unfolding day_of_def eq by (simp add: day_us_def)
  from small have "at_time d h m mod day_us = (int h * 60 + int m) * minute_us"
    unfolding eq by (simp add: day_us_def)
  then have md: "minute_of_day (at_time d h m) = int h * 60 + int m"
    by (simp add: minute_of_day_def minute_us_def)
  have "at_time d h m mod minute_us = 0"
    by (simp add: at_time_def day_us_def hour_us_def minute_us_def mod_eq_0_iff_dvd)
  with d m md show ?thesis by (simp add: hour_of_def minute_of_def)
qed

lemma whole_minute:
  assumes "t mod minute_us = 0"
  shows "t = at_time (day_of t) (hour_of t) (minute_of t)"
proof -
  have nn: "0 \<le> minute_of_day t" by (simp add: minute_of_day_def minute_us_def day_us_def)
  have dm: "(t mod day_us) mod minute_us = 0"
    using assms by (simp add: day_us_def minute_us_def mod_mod_cancel)
  then have "t mod day_us = minute_of_day t * minute_us"
    unfolding minute_of_day_def by (metis add_0_right div_mult_mod_eq)
  moreover have "minute_of_day t = int (hour_of t) * 60 + int (minute_of t)"
    using nn by (simp add: hour_of_def minute_of_def pos_imp_zdiv_nonneg_iff)
  ultimately have "t mod day_us = int (hour_of t) * hour_us + int (minute_of t) * minute_us"
    by (simp add: hour_us_def minute_us_def algebra_simps)
  then show ?thesis
    unfolding at_time_def day_of_def by (metis add.assoc div_mult_mod_eq)
qed

lemma hour_minute_bounds: "hour_of t < 24 \<and> minute_of t < 60"
proof -
  have "minute_of_day t < 1440" by (simp add: minute_of_day_def minute_us_def day_us_def)
  then show ?thesis by (auto simp: hour_of_def minute_of_def)
qed

section \<open>Parsing\<close>

definition search_limit_days :: nat where "search_limit_days = 4 * 366 + 1"

definition month_names :: "(string, nat) dict" where
  "month_names = [(''JAN'', 1), (''FAB'', 2), (''FEB'', 2), (''MAR'', 3), (''APR'', 4), (''MAY'', 5),
     (''JUN'', 6), (''JUL'', 7), (''AUG'', 8), (''SEP'', 9), (''OCT'', 10), (''NOV'', 11), (''DEC'', 12)]"

definition weekday_names :: "(string, nat) dict" where
  "weekday_names = [(''MON'', 1), (''TUE'', 2), (''TUES'', 2), (''WED'', 3), (''WEDS'', 3), (''THU'', 4),
     (''THUR'', 4), (''THURS'', 4), (''FRI'', 5), (''SAT'', 6), (''SATU'', 6), (''SUN'', 0)]"

text \<open>\<open>set(range(start, stop, step))\<close>.\<close>

definition py_range :: "nat \<Rightarrow> nat \<Rightarrow> nat \<Rightarrow> nat list" where
  "py_range start stop step = filter (\<lambda>v. (v - start) mod step = 0) [start..<stop]"

definition translate_names :: "(string, nat) dict option \<Rightarrow> string \<Rightarrow> string" where
  "translate_names names part = (case names of None \<Rightarrow> part
     | Some ns \<Rightarrow> py_join ''-'' (map (\<lambda>seg. case dict_get ns (py_upper seg) of
         Some n \<Rightarrow> show_nat n | None \<Rightarrow> seg) (split_on CHR ''-'' part)))"

definition parse_step :: "string \<Rightarrow> string \<Rightarrow> (string \<times> nat) result" where
  "parse_step name part =
     (if CHR ''/'' \<in> set part then
        let (base, step_text) = split_once CHR ''/'' part in
        if \<not> py_isdigit step_text \<or> py_int step_text \<le> 0
        then Inl (InvalidCronError (''bad step in '' @ name @ '' field''))
        else Inr (base, py_int step_text)
      else Inr (part, 1))"

definition parse_bounds :: "string \<Rightarrow> nat \<Rightarrow> nat \<Rightarrow> string \<Rightarrow> nat \<Rightarrow> (nat \<times> nat) result" where
  "parse_bounds name low high part step =
     (if part = ''*'' then Inr (low, high)
      else if CHR ''-'' \<in> set part then
        let (start_text, end_text) = split_once CHR ''-'' part in
        if \<not> (py_isdigit start_text \<and> py_isdigit end_text)
        then Inl (InvalidCronError (''bad range in '' @ name @ '' field''))
        else Inr (py_int start_text, py_int end_text)
      else if py_isdigit part then
        let start = py_int part in
        Inr (start, if step > 1 then (if name = ''day of week'' then high - 1 else high) else start)
      else Inl (InvalidCronError (''unrecognised '' @ name @ '' field'')))"

definition parse_part :: "string \<Rightarrow> nat \<Rightarrow> nat \<Rightarrow> string \<Rightarrow> nat list result" where
  "parse_part name low high part =
     (let names = (if name = ''month'' then Some month_names
                   else if name = ''day of week'' then Some weekday_names else None) in
      bind_res (parse_step name part) (\<lambda>(base, step).
      bind_res (parse_bounds name low high (translate_names names base) step) (\<lambda>(start, stop).
      if \<not> (low \<le> start \<and> start \<le> high \<and> low \<le> stop \<and> stop \<le> high \<and> start \<le> stop)
      then Inl (InvalidCronError (name @ '' field out of range''))
      else Inr (py_range start (stop + 1) step))))"

definition parse_field :: "string \<Rightarrow> string \<Rightarrow> nat \<Rightarrow> nat \<Rightarrow> nat set result" where
  "parse_field field name low high =
     bind_res (map_res (parse_part name low high) (split_on CHR '','' field))
       (\<lambda>vss. Inr (set (concat vss)))"

record cron_spec =
  c_minute :: "nat set"
  c_hour :: "nat set"
  c_day :: "nat set"
  c_month :: "nat set"
  c_weekday :: "nat set"

definition parse_cron :: "string \<Rightarrow> cron_spec result" where
  "parse_cron expression = (case py_split expression of
      [f0, f1, f2, f3, f4] \<Rightarrow>
        bind_res (parse_field f0 ''minute'' 0 59) (\<lambda>minute.
        bind_res (parse_field f1 ''hour'' 0 23) (\<lambda>hour.
        bind_res (parse_field f2 ''day of month'' 1 31) (\<lambda>day.
        bind_res (parse_field f3 ''month'' 1 12) (\<lambda>month.
        bind_res (parse_field f4 ''day of week'' 0 7) (\<lambda>weekday.
        Inr \<lparr>c_minute = minute, c_hour = hour, c_day = day, c_month = month,
             c_weekday = (\<lambda>value. value mod 7) ` weekday\<rparr>)))))
    | _ \<Rightarrow> Inl (InvalidCronError ''expected 5 fields''))"

definition is_valid_cron_expression :: "string \<Rightarrow> bool" where
  "is_valid_cron_expression expression =
     (case parse_cron expression of Inl _ \<Rightarrow> False | Inr _ \<Rightarrow> True)"

section \<open>The search\<close>

definition day_matches :: "int \<Rightarrow> nat set \<Rightarrow> nat set \<Rightarrow> bool \<Rightarrow> bool \<Rightarrow> bool" where
  "day_matches day day_set weekday_set dom_wild dow_wild =
     (let dom_ok = dom_of day \<in> day_set;
          dow_ok = ((weekday day + 1) mod 7) \<in> weekday_set
      in if dom_wild \<and> dow_wild then True
         else if dom_wild then dow_ok
         else if dow_wild then dom_ok
         else dom_ok \<or> dow_ok)"

definition times_of_day :: "cron_spec \<Rightarrow> (nat \<times> nat) list" where
  "times_of_day spec = List.product (sorted_list_of_set (c_hour spec)) (sorted_list_of_set (c_minute spec))"

definition try_day :: "cron_spec \<Rightarrow> bool \<Rightarrow> bool \<Rightarrow> time \<Rightarrow> nat \<Rightarrow> time option" where
  "try_day spec dom_wild dow_wild start offset =
     (let day = day_of start + int offset in
      if month_of day \<notin> c_month spec then None
      else if \<not> day_matches day (c_day spec) (c_weekday spec) dom_wild dow_wild then None
      else map_option (\<lambda>(hour, minute). at_time day hour minute)
        (find (\<lambda>(hour, minute). \<not> (offset = 0 \<and> int (hour * 60 + minute) \<le> minute_of_day start))
          (times_of_day spec)))"

fun search_days :: "(nat \<Rightarrow> time option) \<Rightarrow> nat \<Rightarrow> nat \<Rightarrow> time option" where
  "search_days try 0 offset = None"
| "search_days try (Suc n) offset =
     (case try offset of Some t \<Rightarrow> Some t | None \<Rightarrow> search_days try n (Suc offset))"

lemma search_days_numeral [simp]: "search_days try (numeral k) offset =
    (case try offset of Some t \<Rightarrow> Some t | None \<Rightarrow> search_days try (pred_numeral k) (Suc offset))"
  by (simp add: numeral_eq_Suc)

definition next_after :: "string \<Rightarrow> time \<Rightarrow> time result" where
  "next_after expression after =
     bind_res (parse_cron expression) (\<lambda>spec.
       let fields = py_split expression;
           dom_wild = fields ! 2 = ''*''; dow_wild = fields ! 4 = ''*'' in
       if times_of_day spec = [] then Inl (InvalidCronError ''no time of day'')
       else (case search_days (try_day spec dom_wild dow_wild after) search_limit_days 0 of
           Some t \<Rightarrow> Inr t
         | None \<Rightarrow> Inl (InvalidCronError ''never matches within four years'')))"

text \<open>What it means for a moment to match an expression: a whole minute whose fields do.\<close>

definition cron_matches :: "string \<Rightarrow> time \<Rightarrow> bool" where
  "cron_matches expression t = (case parse_cron expression of
      Inl _ \<Rightarrow> False
    | Inr spec \<Rightarrow> t mod minute_us = 0 \<and> minute_of t \<in> c_minute spec \<and> hour_of t \<in> c_hour spec
        \<and> month_of (day_of t) \<in> c_month spec
        \<and> day_matches (day_of t) (c_day spec) (c_weekday spec)
            (py_split expression ! 2 = ''*'') (py_split expression ! 4 = ''*''))"

section \<open>What parsing guarantees\<close>

lemma set_py_range: "0 < step \<Longrightarrow> start < stop \<Longrightarrow>
    start \<in> set (py_range start stop step) \<and> set (py_range start stop step) \<subseteq> {start..<stop}"
  by (auto simp: py_range_def)

lemma parse_step_pos: "parse_step name part = Inr (base, step) \<Longrightarrow> 0 < step"
  by (auto simp: parse_step_def split: if_splits prod.splits)

lemma parse_part_bounds:
  assumes "parse_part name low high part = Inr vs"
  shows "set vs \<noteq> {} \<and> set vs \<subseteq> {low..high}"
proof -
  from assms obtain base step start stop where
      "0 < step" "low \<le> start" "stop \<le> high" "start \<le> stop" "vs = py_range start (stop + 1) step"
    by (auto simp: parse_part_def Let_def bind_res_Inr dest: parse_step_pos split: if_splits prod.splits)
  with set_py_range [of step start "stop + 1"] show ?thesis by fastforce
qed

lemma parse_field_bounds:
  assumes "parse_field field name low high = Inr vs"
  shows "vs \<noteq> {} \<and> vs \<subseteq> {low..high} \<and> finite vs"
proof -
  from assms obtain vss where vs: "vs = set (concat vss)"
    and all: "map_res (parse_part name low high) (split_on CHR '','' field) = Inr vss"
    by (auto simp: parse_field_def bind_res_Inr)
  have good: "set v \<noteq> {} \<and> set v \<subseteq> {low..high}" if "v \<in> set vss" for v
    using map_res_all [OF all] that by (blast dest: parse_part_bounds)
  have "vss \<noteq> []" using map_res_all [OF all] by auto
  then obtain v where "v \<in> set vss" by (cases vss) auto
  with good [of v] have "vs \<noteq> {}" unfolding vs by fastforce
  moreover have "vs \<subseteq> {low..high}" unfolding vs using good by fastforce
  ultimately show ?thesis unfolding vs by simp
qed

lemma parse_cron_bounds:
  assumes "parse_cron expression = Inr spec"
  shows "c_minute spec \<noteq> {} \<and> c_minute spec \<subseteq> {0..59} \<and> c_hour spec \<noteq> {} \<and> c_hour spec \<subseteq> {0..23}
    \<and> c_day spec \<noteq> {} \<and> c_day spec \<subseteq> {1..31} \<and> c_month spec \<noteq> {} \<and> c_month spec \<subseteq> {1..12}
    \<and> c_weekday spec \<noteq> {} \<and> c_weekday spec \<subseteq> {0..6} \<and> length (py_split expression) = 5"
proof -
  from assms obtain f0 f1 f2 f3 f4 w where fs: "py_split expression = [f0, f1, f2, f3, f4]"
    and p: "parse_field f0 ''minute'' 0 59 = Inr (c_minute spec)"
      "parse_field f1 ''hour'' 0 23 = Inr (c_hour spec)"
      "parse_field f2 ''day of month'' 1 31 = Inr (c_day spec)"
      "parse_field f3 ''month'' 1 12 = Inr (c_month spec)"
      "parse_field f4 ''day of week'' 0 7 = Inr w" "c_weekday spec = (\<lambda>v. v mod 7) ` w"
    unfolding parse_cron_def
    by (simp add: bind_res_Inr split: list.splits) (elim exE conjE, hypsubst, simp)
  have "(\<lambda>v. v mod 7) ` w \<subseteq> {0..6::nat}" by auto
  with fs p(1-5) [THEN parse_field_bounds] p(6) show ?thesis by simp
qed

lemma times_of_day_set:
  assumes "parse_cron expression = Inr spec"
  shows "set (times_of_day spec) = c_hour spec \<times> c_minute spec"
proof -
  have "finite (c_hour spec)" "finite (c_minute spec)"
    using parse_cron_bounds [OF assms] by (auto intro: finite_subset)
  then show ?thesis by (simp add: times_of_day_def)
qed

section \<open>Correctness of the search\<close>

lemma search_days_Some:
  "search_days try n k = Some t \<longleftrightarrow> (\<exists>j<n. try (k + j) = Some t \<and> (\<forall>i<j. try (k + i) = None))"
proof (induction n arbitrary: k)
  case 0
  then show ?case by simp
next
  case (Suc n)
  show ?case
    by (cases "try k") (simp_all add: Suc.IH Ex_less_Suc2 All_less_Suc2)
qed

lemma search_days_None: "search_days try n k = None \<longleftrightarrow> (\<forall>j<n. try (k + j) = None)"
proof (induction n arbitrary: k)
  case 0
  then show ?case by simp
next
  case (Suc n)
  then show ?case
    by (cases "try k") (auto simp: less_Suc_eq_0_disj)
qed

text \<open>The order of two whole minutes, read off the parts of the clock.\<close>

lemma at_time_less:
  assumes "h < 24" "m < 60" "h' < 24" "m' < 60"
  shows "at_time d h m < at_time d' h' m' \<longleftrightarrow>
    d < d' \<or> d = d' \<and> (h, m) < (h', m')"
proof -
  have "at_time d h m = (d * 1440 + int h * 60 + int m) * minute_us" for d h m
    by (simp add: at_time_def day_us_def hour_us_def minute_us_def)
  then have "at_time d h m < at_time d' h' m' \<longleftrightarrow>
      d * 1440 + int h * 60 + int m < d' * 1440 + int h' * 60 + int m'"
    by (simp only: minute_us_def mult_less_cancel_right_pos zero_less_numeral)
  also have "\<dots> \<longleftrightarrow> d < d' \<or> d = d' \<and> (h < h' \<or> h = h' \<and> m < m')"
  proof (cases d d' rule: linorder_cases)
    case equal
    with assms show ?thesis by (simp, arith)
  qed (use assms in auto)
  finally show ?thesis by auto
qed

lemma less_at_time:
  assumes "h < 24" "m < 60"
  shows "t < at_time d h m \<longleftrightarrow>
    day_of t < d \<or> day_of t = d \<and> minute_of_day t < int (h * 60 + m)"
proof -
  let ?x = "t mod day_us" and ?y = "int (h * 60 + m)"
  have t: "t = day_of t * day_us + ?x" by (simp add: day_of_def)
  have x: "0 \<le> ?x" "?x < day_us" by (simp_all add: day_us_def)
  have y: "0 \<le> ?y * minute_us" "?y * minute_us < day_us"
    using assms by (auto simp: minute_us_def day_us_def)
  have r: "at_time d h m = d * day_us + ?y * minute_us"
    by (simp add: at_time_def hour_us_def minute_us_def)
  have "x < y * 60000000 \<longleftrightarrow> x div 60000000 < y" for x y :: int by linarith
  then have "?x < ?y * minute_us \<longleftrightarrow> minute_of_day t < ?y"
    unfolding minute_of_day_def minute_us_def by blast
  moreover have "day_of t < d \<Longrightarrow> t < at_time d h m"
    using t x y unfolding r day_us_def by linarith
  moreover have "d < day_of t \<Longrightarrow> \<not> t < at_time d h m"
    using t x y unfolding r day_us_def by linarith
  moreover have "day_of t = d \<Longrightarrow> t < at_time d h m \<longleftrightarrow> ?x < ?y * minute_us"
    using t unfolding r by auto
  ultimately show ?thesis by (metis linorder_neqE_linordered_idom less_irrefl)
qed

definition spec_matches :: "cron_spec \<Rightarrow> bool \<Rightarrow> bool \<Rightarrow> time \<Rightarrow> bool" where
  "spec_matches spec dom_wild dow_wild t \<longleftrightarrow>
     t mod minute_us = 0 \<and> minute_of t \<in> c_minute spec \<and> hour_of t \<in> c_hour spec
     \<and> month_of (day_of t) \<in> c_month spec
     \<and> day_matches (day_of t) (c_day spec) (c_weekday spec) dom_wild dow_wild"

lemma cron_matches_spec: "parse_cron expression = Inr spec \<Longrightarrow>
    cron_matches expression t = spec_matches spec (py_split expression ! 2 = ''*'') (py_split expression ! 4 = ''*'') t"
  by (simp add: cron_matches_def spec_matches_def)

lemma sorted_times: "sorted (times_of_day spec)"
  unfolding times_of_day_def by (intro sorted_product) simp_all

lemma spec_matches_time:
  assumes "parse_cron expression = Inr spec" "spec_matches spec dw ww u"
  shows "u = at_time (day_of u) (hour_of u) (minute_of u)
    \<and> (hour_of u, minute_of u) \<in> set (times_of_day spec)"
  using assms whole_minute [of u] times_of_day_set [OF assms(1)] by (simp add: spec_matches_def)

text \<open>One day of the search, both outcomes.\<close>

lemma try_day_None:
  assumes p: "parse_cron expression = Inr spec" and n: "try_day spec dw ww t off = None"
    and u: "day_of u = day_of t + int off" "t < u"
  shows "\<not> spec_matches spec dw ww u"
proof
  assume m: "spec_matches spec dw ww u"
  note um = spec_matches_time [OF p m]
  from n m u(1) have "find (\<lambda>(h, m). \<not> (off = 0 \<and> int (h * 60 + m) \<le> minute_of_day t)) (times_of_day spec) = None"
    by (simp add: try_day_def spec_matches_def Let_def)
  from find_None_all [OF this] um
  have "off = 0 \<and> int (hour_of u * 60 + minute_of u) \<le> minute_of_day t" by fastforce
  moreover have "t < at_time (day_of u) (hour_of u) (minute_of u)" using um u(2) by simp
  ultimately show False
    using less_at_time [of "hour_of u" "minute_of u"] hour_minute_bounds [of u] u(1) by auto
qed

lemma try_day_Some:
  assumes p: "parse_cron expression = Inr spec" and s: "try_day spec dw ww t off = Some r"
  shows "t < r \<and> day_of r = day_of t + int off \<and> spec_matches spec dw ww r
    \<and> (\<forall>u. day_of u = day_of r \<and> t < u \<and> u < r \<longrightarrow> \<not> spec_matches spec dw ww u)"
proof -
  let ?d = "day_of t + int off"
  let ?P = "\<lambda>(h, m). \<not> (off = 0 \<and> int (h * 60 + m) \<le> minute_of_day t)"
  from s obtain h m where f: "find ?P (times_of_day spec) = Some (h, m)" and r: "r = at_time ?d h m"
    and day: "month_of ?d \<in> c_month spec" "day_matches ?d (c_day spec) (c_weekday spec) dw ww"
    by (auto simp: try_day_def Let_def split: if_splits)
  from find_Some_in [OF f] times_of_day_set [OF p]
  have hm0: "h \<in> c_hour spec" "m \<in> c_minute spec" "?P (h, m)" by simp_all
  with parse_cron_bounds [OF p] have "h \<in> {0..23}" "m \<in> {0..59}" by blast+
  with hm0 have hm: "h \<in> c_hour spec" "m \<in> c_minute spec" "h < 24" "m < 60" "?P (h, m)" by simp_all
  note parts = at_time_split [OF hm(3,4), of ?d, folded r]
  have "t < r" unfolding r less_at_time [OF hm(3,4)] using hm(5) by auto
  moreover have "spec_matches spec dw ww r"
    using parts hm(1,2) day by (simp add: spec_matches_def)
  moreover have "\<not> spec_matches spec dw ww u" if "day_of u = day_of r" "t < u" "u < r" for u
  proof
    assume m: "spec_matches spec dw ww u"
    note um = spec_matches_time [OF p m]
    have ub: "hour_of u < 24" "minute_of u < 60" using hour_minute_bounds by auto
    from that(2) um have "t < at_time (day_of u) (hour_of u) (minute_of u)" by simp
    then have "?P (hour_of u, minute_of u)"
      unfolding less_at_time [OF ub] using that(1) parts by auto
    with find_sorted_least [OF sorted_times f] um have "(h, m) \<le> (hour_of u, minute_of u)" by blast
    moreover from that(1,3) um parts r
    have "at_time ?d (hour_of u) (minute_of u) < at_time ?d h m" by metis
    ultimately show False unfolding at_time_less [OF ub hm(3,4)] by auto
  qed
  ultimately show ?thesis using parts by blast
qed

text \<open>
  C31. \<open>next_after\<close> returns the first matching moment after the given one: it is strictly later,
  it matches the expression in every field, and no moment in between matches.
\<close>

theorem next_after_least:
  assumes "next_after expression t = Inr r"
  shows "t < r \<and> cron_matches expression r
    \<and> (\<forall>u. t < u \<and> u < r \<longrightarrow> \<not> cron_matches expression u)"
proof -
  let ?dw = "py_split expression ! 2 = ''*''" and ?ww = "py_split expression ! 4 = ''*''"
  from assms obtain spec where p: "parse_cron expression = Inr spec"
    and s: "search_days (try_day spec ?dw ?ww t) search_limit_days 0 = Some r"
    by (auto simp: next_after_def bind_res_Inr Let_def split: if_splits option.splits)
  from s obtain j where j: "try_day spec ?dw ?ww t j = Some r"
    and before: "\<And>i. i < j \<Longrightarrow> try_day spec ?dw ?ww t i = None"
    unfolding search_days_Some by auto
  note found = try_day_Some [OF p j]
  have "\<not> spec_matches spec ?dw ?ww u" if "t < u" "u < r" for u
  proof -
    from that have "day_of t \<le> day_of u" "day_of u \<le> day_of r"
      by (auto simp: day_of_def day_us_def zdiv_mono1)
    then consider "day_of u = day_of r" | i where "i < j" "day_of u = day_of t + int i"
      using found by (metis zle_iff_zadd add_left_cancel add_le_cancel_left of_nat_less_iff order_le_less)
    then show ?thesis
      using that found try_day_None [OF p before] by cases auto
  qed
  with found show ?thesis by (simp add: cron_matches_spec [OF p])
qed

lemma next_after_least_witness:
  "cron_matches ''30 9 * * MON'' (at_time 7 9 30) \<and> at_time 0 9 30 < at_time 7 9 30"
proof -
  let ?spec = "\<lparr>c_minute = {30}, c_hour = {9}, c_day = set [1..<32],
        c_month = set [1..<13], c_weekday = {1}\<rparr>"
  have p: "parse_cron ''30 9 * * MON'' = Inr ?spec" by code_simp
  have f: "py_split ''30 9 * * MON'' = [''30'', ''9'', ''*'', ''*'', ''MON'']" by code_simp
  have t: "times_of_day ?spec = [(9, 30)]" by (simp add: times_of_day_def)
  have at: "day_of (at_time 0 9 30) = 0" "minute_of_day (at_time 0 9 30) = 570" 
    by (simp_all add: day_of_def minute_of_day_def at_time_def day_us_def hour_us_def minute_us_def)
  have early: "try_day ?spec True False (at_time 0 9 30) i = None" if "i < 7" for i
  proof -
    from that have "i \<in> {0, 1, 2, 3, 4, 5, 6}" by auto
    then show ?thesis
      by (elim insertE) (simp_all add: try_day_def Let_def times_of_day_def at day_matches_def weekday_def)
  qed
  have late: "try_day ?spec True False (at_time 0 9 30) 7 = Some (at_time 7 9 30)"
    by (simp add: try_day_def Let_def times_of_day_def at day_matches_def weekday_def month_of_def month_day_def year_day_def days_before_month_def)
  have "next_after ''30 9 * * MON'' (at_time 0 9 30) = Inr (at_time 7 9 30)"
  proof -
    have "search_days (try_day ?spec True False (at_time 0 9 30)) search_limit_days 0 = Some (at_time 7 9 30)"
      unfolding search_days_Some using early late by (intro exI [of _ 7]) (simp add: search_limit_days_def)
    then show ?thesis using t by (simp add: next_after_def p f)
  qed
  from next_after_least [OF this] show ?thesis by simp
qed

text \<open>
  When a valid expression is given up on, it is because it matches nothing after the given
  moment in any of the \<open>_SEARCH_LIMIT_DAYS\<close> days searched, and the only error is that one.
\<close>

theorem next_after_never:
  assumes "is_valid_cron_expression expression" and "next_after expression t = Inl e"
  shows "e = InvalidCronError ''never matches within four years''
    \<and> (\<forall>u. t < u \<and> day_of u < day_of t + 1465 \<longrightarrow> \<not> cron_matches expression u)"
proof -
  let ?dw = "py_split expression ! 2 = ''*''" and ?ww = "py_split expression ! 4 = ''*''"
  from assms(1) obtain spec where p: "parse_cron expression = Inr spec"
    by (auto simp: is_valid_cron_expression_def split: sum.splits)
  from times_of_day_set [OF p] parse_cron_bounds [OF p] have ne: "times_of_day spec \<noteq> []" by auto
  with assms(2) p have e: "e = InvalidCronError ''never matches within four years''"
    and n: "search_days (try_day spec ?dw ?ww t) search_limit_days 0 = None"
    by (auto simp: next_after_def Let_def split: option.splits)
  have "\<not> spec_matches spec ?dw ?ww u" if "t < u" "day_of u < day_of t + 1465" for u
  proof -
    from that(1) have "day_of t \<le> day_of u" by (simp add: day_of_def day_us_def zdiv_mono1)
    then obtain i where i: "day_of u = day_of t + int i" by (metis zle_iff_zadd)
    with that(2) n have "try_day spec ?dw ?ww t i = None"
      unfolding search_days_None by (simp add: search_limit_days_def)
    from try_day_None [OF p this i that(1)] show ?thesis .
  qed
  with e show ?thesis by (simp add: cron_matches_spec [OF p])
qed

lemma february_year_day: "fst (year_day n leap) = 2 \<Longrightarrow> snd (year_day n leap) \<le> 29"
proof -
  assume y: "fst (year_day n leap) = 2"
  have "m = 2 \<or> m = 3" if "m - 1 = (2::nat) \<or> m = 2" for m using that by linarith
  moreover from y have "(n + 50) div 32 - 1 = 2 \<and> n < days_before_month ! ((n + 50) div 32) + (if leap then 1 else 0)
      \<or> (n + 50) div 32 = 2"
    by (auto simp: year_day_def Let_def split: if_splits)
  ultimately consider "(n + 50) div 32 = 2" | "(n + 50) div 32 = 3" "n < days_before_month ! 3 + (if leap then 1 else 0)"
    by metis
  then show ?thesis
  proof cases
    case 1
    then have "n < 46" by linarith
    with 1 y show ?thesis
      by (auto simp: year_day_def days_before_month_def days_in_month_def split: if_splits)
  next
    case 2
    then show ?thesis
      by (cases leap) (simp_all add: year_day_def days_before_month_def days_in_month_def)
  qed
qed

lemma february_bound:
  assumes "month_of d = 2"
  shows "dom_of d \<le> 29"
proof -
  have "month_day d = (12, 31) \<or> (\<exists>n leap. month_day d = year_day n leap)"
    unfolding month_day_def Let_def by metis
  with assms february_year_day show ?thesis by (auto simp: month_of_def dom_of_def)
qed

text \<open>
  The bound matters: 30 February never comes, and the search says so.
\<close>

lemma next_after_never_witness:
  "\<not> cron_matches ''0 0 30 2 *'' (at_time 59 0 0)"
proof -
  let ?spec = "\<lparr>c_minute = {0}, c_hour = {0}, c_day = {30},
        c_month = {2}, c_weekday = set [0,1,2,3,4,5,6]\<rparr>"
  have p: "parse_cron ''0 0 30 2 *'' = Inr ?spec" by code_simp
  have f: "py_split ''0 0 30 2 *'' = [''0'', ''0'', ''30'', ''2'', ''*'']" by code_simp
  have t: "times_of_day ?spec \<noteq> []" by (simp add: times_of_day_def)
  have none: "try_day ?spec False True 0 i = None" for i
    using february_bound [of "day_of 0 + int i"] by (auto simp: try_day_def Let_def day_matches_def)
  have n: "next_after ''0 0 30 2 *'' 0 = Inl (InvalidCronError ''never matches within four years'')"
    using t none by (simp add: next_after_def p f search_days_None option.case_eq_if)
  have v: "is_valid_cron_expression ''0 0 30 2 *''" by (simp add: is_valid_cron_expression_def p)
  from next_after_never [OF v n] show ?thesis
    by (simp add: day_of_def at_time_def day_us_def hour_us_def minute_us_def)
qed

end
