(* ===== verification/Py_Value.thy ===== *)
theory Py_Value
  imports Py_Prelude
begin

text \<open>
  The dynamically typed values (\<open>Any\<close>) that goals, facts and procedure definitions carry:
  JSON values as \<open>json.loads\<close> yields them, non-finite floats included, plus \<open>POther\<close> for a
  value of any other Python type (named by its type).  Finite floats are rationals, so
  comparison of integers and floats is exact, as it is in Python.
\<close>

datatype pyfloat = Fin rat | PosInf | NegInf | NaN

datatype pyval =
    PNone
  | PBool bool
  | PInt int
  | PFloat pyfloat
  | PStr string
  | PList "pyval list"
  | PDict "(string \<times> pyval) list"
  | POther string

section \<open>Types, truth, numbers\<close>

fun type_name :: "pyval \<Rightarrow> string" where
  "type_name PNone = ''NoneType''"
| "type_name (PBool _) = ''bool''"
| "type_name (PInt _) = ''int''"
| "type_name (PFloat _) = ''float''"
| "type_name (PStr _) = ''str''"
| "type_name (PList _) = ''list''"
| "type_name (PDict _) = ''dict''"
| "type_name (POther t) = t"

fun truthy :: "pyval \<Rightarrow> bool" where
  "truthy PNone = False"
| "truthy (PBool b) = b"
| "truthy (PInt i) = (i \<noteq> 0)"
| "truthy (PFloat f) = (f \<noteq> Fin 0)"
| "truthy (PStr s) = (s \<noteq> [])"
| "truthy (PList xs) = (xs \<noteq> [])"
| "truthy (PDict d) = (d \<noteq> [])"
| "truthy (POther _) = True"

fun is_str :: "pyval \<Rightarrow> bool" where
  "is_str (PStr _) = True"
| "is_str _ = False"

fun hashable :: "pyval \<Rightarrow> bool" where
  "hashable (PList _) = False"
| "hashable (PDict _) = False"
| "hashable _ = True"

fun is_finite :: "pyfloat \<Rightarrow> bool" where
  "is_finite (Fin _) = True"
| "is_finite _ = False"

text \<open>Numbers as floats; booleans are integers in Python.\<close>

fun as_float :: "pyval \<Rightarrow> pyfloat option" where
  "as_float (PBool b) = Some (Fin (if b then 1 else 0))"
| "as_float (PInt i) = Some (Fin (of_int i))"
| "as_float (PFloat f) = Some f"
| "as_float _ = None"

fun float_eq :: "pyfloat \<Rightarrow> pyfloat \<Rightarrow> bool" where
  "float_eq NaN _ = False"
| "float_eq _ NaN = False"
| "float_eq x y = (x = y)"

fun float_less :: "pyfloat \<Rightarrow> pyfloat \<Rightarrow> bool" where
  "float_less NaN _ = False"
| "float_less _ NaN = False"
| "float_less (Fin x) (Fin y) = (x < y)"
| "float_less NegInf y = (y \<noteq> NegInf)"
| "float_less x PosInf = (x \<noteq> PosInf)"
| "float_less _ _ = False"

definition float_le :: "pyfloat \<Rightarrow> pyfloat \<Rightarrow> bool" where
  "float_le x y \<longleftrightarrow> float_less x y \<or> float_eq x y"

section \<open>Equality\<close>

lemma size_snd_less: "(k, v) \<in> set d \<Longrightarrow> size v < Suc (size_list (size_prod (\<lambda>x. 0) size) d)"
  by (induction d) auto

lemma size_map_of: "map_of d k = Some v \<Longrightarrow> size v < Suc (size_list (size_prod (\<lambda>x. 0) size) d)"
  using size_snd_less [OF map_of_SomeD] .

lemma size_in_list: "v \<in> set xs \<Longrightarrow> size v < Suc (size_list size xs)"
  by (simp add: le_imp_less_Suc size_list_estimation')

text \<open>
  \<open>==\<close>: numbers (booleans among them) by value, NaN unlike everything, dictionaries regardless
  of order.  Python's identity shortcut inside containers only matters for NaN and is not
  modelled.
\<close>

function (sequential) py_eq :: "pyval \<Rightarrow> pyval \<Rightarrow> bool" where
  "py_eq PNone PNone = True"
| "py_eq (PStr s) (PStr t) = (s = t)"
| "py_eq (PList xs) (PList ys) = (length xs = length ys \<and> list_all (\<lambda>(x, y). py_eq x y) (zip xs ys))"
| "py_eq (PDict d) (PDict e) = (length d = length e \<and>
     list_all (\<lambda>(k, v). case map_of e k of None \<Rightarrow> False | Some w \<Rightarrow> py_eq v w) d)"
| "py_eq (POther s) (POther t) = (s = t)"
| "py_eq x y = (case (as_float x, as_float y) of (Some f, Some g) \<Rightarrow> float_eq f g | _ \<Rightarrow> False)"
  by pat_completeness auto
termination
  by (relation "measure (size \<circ> fst)")
    (auto dest!: set_zip_leftD intro: size_in_list size_snd_less)

section \<open>Subscripts, iteration, membership, order\<close>

lemma size_indexed: "(i, v) \<in> set (indexed xs) \<Longrightarrow> size v < Suc (size_list size xs)"
  by (rule size_in_list [OF in_indexed])

text \<open>\<open>v[key]\<close> for a string key.\<close>

fun get_item :: "pyval \<Rightarrow> string \<Rightarrow> pyval result" where
  "get_item (PDict d) k = (case map_of d k of None \<Rightarrow> Inl (KeyError k) | Some v \<Rightarrow> Inr v)"
| "get_item _ k = Inl TypeError"

text \<open>\<open>v.get(key, default)\<close>.\<close>

fun get_attr :: "pyval \<Rightarrow> string \<Rightarrow> pyval \<Rightarrow> pyval result" where
  "get_attr (PDict d) k dflt = Inr (case map_of d k of None \<Rightarrow> dflt | Some v \<Rightarrow> v)"
| "get_attr _ k dflt = Inl AttributeError"

text \<open>\<open>for x in v\<close>.\<close>

fun iterate :: "pyval \<Rightarrow> pyval list result" where
  "iterate (PList xs) = Inr xs"
| "iterate (PStr s) = Inr (map (\<lambda>c. PStr [c]) s)"
| "iterate (PDict d) = Inr (map (\<lambda>(k, v). PStr k) d)"
| "iterate _ = Inl TypeError"

fun contains_text :: "string \<Rightarrow> string \<Rightarrow> bool" where
  "contains_text t [] = (t = [])"
| "contains_text t (c # cs) = (prefix t (c # cs) \<or> contains_text t cs)"

text \<open>\<open>v in container\<close>; looking an unhashable value up in a set or dictionary raises.\<close>

fun py_in :: "pyval \<Rightarrow> pyval \<Rightarrow> bool result" where
  "py_in v (PList xs) = Inr (list_ex (py_eq v) xs)"
| "py_in (PStr t) (PStr s) = Inr (contains_text t s)"
| "py_in v (PDict d) = (if \<not> hashable v then Inl TypeError
     else Inr (case v of PStr k \<Rightarrow> k \<in> fst ` set d | _ \<Rightarrow> False))"
| "py_in _ _ = Inl TypeError"

definition in_names :: "pyval \<Rightarrow> string set \<Rightarrow> bool result" where
  \<comment> \<open>membership in a set of strings\<close>
  "in_names v names = (if \<not> hashable v then Inl TypeError
     else Inr (case v of PStr k \<Rightarrow> k \<in> names | _ \<Rightarrow> False))"

definition num_less :: "pyval \<Rightarrow> pyval \<Rightarrow> bool result" where
  \<comment> \<open>\<open>x < y\<close> where \<open>x\<close> or \<open>y\<close> is known to be a number\<close>
  "num_less x y = (case (as_float x, as_float y) of (Some f, Some g) \<Rightarrow> Inr (float_less f g) | _ \<Rightarrow> Inl TypeError)"

text \<open>\<open>float(i)\<close> raises when \<open>i\<close> rounds beyond the largest binary64 number.\<close>

definition float_overflows :: "int \<Rightarrow> bool" where
  "float_overflows i \<longleftrightarrow> \<bar>i\<bar> \<ge> 2 ^ 1024 - 2 ^ 970"

text \<open>\<open>int(value)\<close>: floats are truncated, a text is a signed decimal, with single underscores between digits.\<close>

definition int_of_text :: "string \<Rightarrow> int result" where
  "int_of_text s = (let (sign, body) = (case s of [] \<Rightarrow> (1, []) | c # cs \<Rightarrow>
       if c = CHR ''-'' then (- 1, cs) else if c = CHR ''+'' then (1, cs) else (1, s)) in
     if list_all py_isdigit (split_on CHR ''_'' body) then Inr (sign * int (py_int (concat (split_on CHR ''_'' body))))
     else Inl (ValueError ''int''))"

fun int_of_value :: "pyval \<Rightarrow> int result" where
  "int_of_value (PInt i) = Inr i"
| "int_of_value (PBool b) = Inr (if b then 1 else 0)"
| "int_of_value (PFloat (Fin q)) = Inr (if q < 0 then \<lceil>q\<rceil> else \<lfloor>q\<rfloor>)"
| "int_of_value (PFloat NaN) = Inl (ValueError ''int'')"
| "int_of_value (PFloat _) = Inl OverflowError"
| "int_of_value (PStr s) = int_of_text (py_strip s)"
| "int_of_value _ = Inl TypeError"

fun is_number :: "pyval \<Rightarrow> bool" where
  "is_number (PInt _) = True"
| "is_number (PFloat _) = True"
| "is_number _ = False"

end
