(* ===== verification/Mind.thy ===== *)
theory Mind
  imports Cron Py_Value
begin

text \<open>
  The persisted state of one agent, \<open>MindState\<close> of \<open>contracts.py\<close>: goals, beliefs,
  intentions, plan statistics, episodes, procedures and execution traces, with the
  operations of the class.  Pydantic models are records, their enumerations datatypes.
  Where the code reads \<open>now_utc()\<close> or draws a fresh identifier the model takes it as an
  argument (\<open>now\<close>, \<open>new_id\<close>), one moment per call.
\<close>

section \<open>Goals\<close>

datatype goal_status = Pending | Runnable | Active | Blocked | Stalled | Done | Failed | Cancelled

definition open_goal_statuses :: "goal_status set" where
  "open_goal_statuses = {Pending, Runnable, Active, Blocked}"

definition closed_goal_statuses :: "goal_status set" where
  "closed_goal_statuses = {Done, Failed, Cancelled}"

definition keep_closed_goals :: nat where "keep_closed_goals = 30"

datatype goal_condition_kind = Belief_Equals | Artifact_Exists | Tool_Result
  | Child_Goals_Complete | Validator_Passes | Human_Approval

record goal_condition =
  gc_kind :: goal_condition_kind
  gc_key :: string
  gc_value :: pyval
  gc_path :: string

record goal_retry_policy =
  rp_max_attempts :: "int option"
  rp_backoff_seconds :: rat
  rp_backoff_multiplier :: rat

record goal_utility =
  u_expected_value :: rat
  u_estimated_effort :: rat
  u_risk :: rat
  u_strategic_value :: rat

record goal_evidence =
  ev_kind :: string
  ev_reference :: string
  ev_metadata :: "(string, pyval) dict"
  ev_created_at :: time

record goal =
  g_id :: string
  g_description :: string
  g_kind :: string
  g_parameters :: "(string, pyval) dict"
  g_status :: goal_status
  g_priority :: int
  g_utility :: goal_utility
  g_parent_goal_id :: "string option"
  g_child_goal_ids :: "string list"
  g_dependency_goal_ids :: "string list"
  g_owner_agent_id :: "string option"
  g_delegated_to_agent_id :: "string option"
  g_blocked_reason :: "string option"
  g_success_conditions :: "goal_condition list"
  g_failure_conditions :: "goal_condition list"
  g_deadline :: "time option"
  g_attempts :: nat
  g_max_attempts :: int
  g_stalls :: nat
  g_occurrence :: nat
  g_retry_policy :: goal_retry_policy
  g_recurring :: bool
  g_interval_seconds :: "int option"
  g_cron :: "string option"
  g_next_attempt_at :: "time option"
  g_notify :: bool
  g_report_pattern :: "string option"
  g_progress :: rat
  g_evidence :: "goal_evidence list"
  g_artifacts :: "string list"
  g_notes :: "string list"
  g_last_error :: "string option"
  g_created_at :: time
  g_updated_at :: time
  g_completed_at :: "time option"

definition attempt_limit :: "goal \<Rightarrow> int" where
  "attempt_limit g = (case rp_max_attempts (g_retry_policy g) of
      None \<Rightarrow> g_max_attempts g
    | Some n \<Rightarrow> if n = 0 then g_max_attempts g else n)"

definition is_open :: "time \<Rightarrow> goal \<Rightarrow> bool" where
  "is_open now g =
     (if g_status g \<notin> open_goal_statuses then False
      else if (case g_next_attempt_at g of None \<Rightarrow> False | Some t \<Rightarrow> now < t) then False
      else g_recurring g \<or> int (g_attempts g) < attempt_limit g)"

definition goal_note :: "nat \<Rightarrow> time \<Rightarrow> string \<Rightarrow> goal \<Rightarrow> goal" where
  "goal_note keep now text g =
     (let cleaned = py_strip text;
          g = (if cleaned \<noteq> [] then g\<lparr>g_notes := py_last keep (g_notes g @ [cleaned])\<rparr> else g)
      in g\<lparr>g_updated_at := now\<rparr>)"

text \<open>A goal as its class's defaults make it, for the fields \<open>add_goal\<close> passes.\<close>

definition new_goal :: "string \<Rightarrow> time \<Rightarrow> string \<Rightarrow> goal" where
  "new_goal new_id now description =
     \<lparr>g_id = new_id, g_description = description, g_kind = ''goal'', g_parameters = [],
      g_status = Pending, g_priority = 5,
      g_utility = \<lparr>u_expected_value = 0, u_estimated_effort = 0, u_risk = 0, u_strategic_value = 0\<rparr>,
      g_parent_goal_id = None, g_child_goal_ids = [], g_dependency_goal_ids = [],
      g_owner_agent_id = None, g_delegated_to_agent_id = None, g_blocked_reason = None,
      g_success_conditions = [], g_failure_conditions = [], g_deadline = None,
      g_attempts = 0, g_max_attempts = 6, g_stalls = 0, g_occurrence = 0,
      g_retry_policy = \<lparr>rp_max_attempts = None, rp_backoff_seconds = 0, rp_backoff_multiplier = 1\<rparr>,
      g_recurring = False, g_interval_seconds = None, g_cron = None, g_next_attempt_at = None,
      g_notify = False, g_report_pattern = None, g_progress = 0, g_evidence = [],
      g_artifacts = [], g_notes = [], g_last_error = None, g_created_at = now,
      g_updated_at = now, g_completed_at = None\<rparr>"

section \<open>Beliefs\<close>

record belief =
  b_key :: string
  b_statement :: string
  b_source :: string
  b_confidence :: rat
  b_created_at :: time
  b_updated_at :: time

definition is_alnum :: "char \<Rightarrow> bool" where
  "is_alnum c \<longleftrightarrow> is_digit c \<or> (let n = of_char c :: nat in (65 \<le> n \<and> n \<le> 90) \<or> (97 \<le> n \<and> n \<le> 122))"

definition belief_key :: "string \<Rightarrow> string" where
  "belief_key statement =
     (let key = py_join ''.'' (take 6 (py_split
        (map (\<lambda>c. if is_alnum c then c else CHR '' '') (py_lower statement))))
      in if key = [] then ''belief'' else key)"

text \<open>The constructor, with its validator \<open>_ensure_key\<close>.\<close>

definition mk_belief :: "time \<Rightarrow> string \<Rightarrow> string \<Rightarrow> string \<Rightarrow> rat \<Rightarrow> belief" where
  "mk_belief now key statement source confidence =
     \<lparr>b_key = (if key = [] then belief_key statement else key), b_statement = statement,
      b_source = source, b_confidence = confidence, b_created_at = now, b_updated_at = now\<rparr>"

section \<open>Intentions and plans\<close>

datatype step_status = Step_Pending | Step_Done | Step_Failed

record plan_step =
  ps_description :: string
  ps_action :: string
  ps_status :: step_status
  ps_result :: string
  ps_job :: int

datatype intention_status = Int_Active | Int_Achieved | Int_Impossible | Int_Dropped

record intention =
  i_id :: string
  i_goal_id :: string
  i_plan :: string
  i_steps :: "plan_step list"
  i_cursor :: nat
  i_status :: intention_status
  i_context_keys :: "string list"
  i_execution_id :: "string option"
  i_created_at :: time
  i_updated_at :: time

definition step_render :: "plan_step \<Rightarrow> string" where
  "step_render s = ''['' @ (case ps_status s of Step_Done \<Rightarrow> ''x'' | Step_Failed \<Rightarrow> ''!''
     | Step_Pending \<Rightarrow> '' '') @ ''] '' @ ps_description s"

definition intention_current :: "intention \<Rightarrow> plan_step option" where
  "intention_current i =
     (if i_status i \<noteq> Int_Active then None
      else if i_cursor i < length (i_steps i) then Some (i_steps i ! i_cursor i) else None)"

definition intention_exhausted :: "intention \<Rightarrow> bool" where
  "intention_exhausted i \<longleftrightarrow> i_cursor i \<ge> length (i_steps i)"

definition intention_advance :: "time \<Rightarrow> string \<Rightarrow> bool \<Rightarrow> intention \<Rightarrow> intention" where
  "intention_advance now result failed i =
     (let i = (case intention_current i of
          None \<Rightarrow> i
        | Some step \<Rightarrow> i\<lparr>i_steps := (i_steps i)[i_cursor i :=
            step\<lparr>ps_status := (if failed then Step_Failed else Step_Done), ps_result := take 300 result\<rparr>]\<rparr>)
      in i\<lparr>i_cursor := i_cursor i + 1, i_updated_at := now\<rparr>)"

definition intention_finish :: "time \<Rightarrow> intention_status \<Rightarrow> intention \<Rightarrow> intention" where
  "intention_finish now status i = i\<lparr>i_status := status, i_updated_at := now\<rparr>"

definition intention_render :: "intention \<Rightarrow> string" where
  "intention_render i = (let s = py_join [CHR 0x0A] (map step_render (i_steps i)) in
     if s = [] then ''(no steps)'' else s)"

record plan_usage =
  pu_selected :: nat
  pu_succeeded :: nat
  pu_failed :: nat

section \<open>Episodes, procedures and traces\<close>

record memory_episode =
  ep_kind :: string
  ep_summary :: string
  ep_goal_id :: string
  ep_agent_id :: string
  ep_outcome :: string
  ep_metadata :: "(string, pyval) dict"
  ep_created_at :: time

datatype procedure_status = Observed | Candidate | Validated | Promoted | Degraded | Retired

record learned_procedure =
  lp_name :: string
  lp_trigger :: string
  lp_steps :: "string list"
  lp_successes :: nat
  lp_failures :: nat
  lp_source_goal_id :: string
  lp_pattern :: string
  lp_goal_kind :: string
  lp_parameter_schema :: "(string, string) dict"
  lp_required_capabilities :: "string list"
  lp_context_predicates :: "(string, pyval) dict"
  lp_success_conditions :: "goal_condition list"
  lp_status :: procedure_status
  lp_approved :: bool
  lp_confidence :: rat
  lp_uses :: nat
  lp_model_calls_saved :: int
  lp_total_duration_seconds :: rat
  lp_validator_passes :: nat
  lp_validator_failures :: nat
  lp_last_used_at :: "time option"
  lp_updated_at :: time

record execution_trace =
  tr_goal_type :: string
  tr_context_signature :: string
  tr_plan_name :: string
  tr_steps :: "string list"
  tr_tools :: "string list"
  tr_agents :: "string list"
  tr_goal_parameters :: "(string, pyval) dict"
  tr_capabilities :: "string list"
  tr_context_predicates :: "(string, pyval) dict"
  tr_success_conditions :: "goal_condition list"
  tr_succeeded :: bool
  tr_model_calls :: nat
  tr_duration_seconds :: rat
  tr_validator_passed :: "bool option"
  tr_created_at :: time

definition trace_pattern :: "(string \<Rightarrow> string) \<Rightarrow> execution_trace \<Rightarrow> string" where
  \<comment> \<open>\<open>sha256_hex\<close> stands for \<open>hashlib.sha256(s.encode()).hexdigest()\<close>\<close>
  "trace_pattern sha256_hex t = take 16 (sha256_hex
     (py_join ''|'' ([tr_goal_type t, tr_context_signature t] @ tr_steps t)))"

record mind =
  m_beliefs :: "belief list"
  m_goals :: "goal list"
  m_intentions :: "intention list"
  m_plan_statistics :: "(string, plan_usage) dict"
  m_episodes :: "memory_episode list"
  m_procedures :: "(string, learned_procedure) dict"
  m_execution_traces :: "execution_trace list"

end
