(* ===== verification/Mind_State.thy ===== *)
theory Mind_State
  imports Mind
begin

text \<open>
  The operations of \<open>MindState\<close> (\<open>contracts.py\<close>) on the records of \<^theory_text>\<open>Mind\<close>: goals are
  added, adopted and pruned; percepts revise beliefs; a plan is committed to; histories are
  recorded.  A goal held by the caller is the object in \<open>mind.goals\<close>, so a reference to it is
  its identifier (the first goal that has it, as \<open>mind.goal\<close> finds it).
\<close>

section \<open>Goals\<close>

definition find_goal :: "goal list \<Rightarrow> string \<Rightarrow> goal option" where
  "find_goal gs i = find (\<lambda>g. g_id g = i) gs"

definition mind_goal :: "mind \<Rightarrow> string \<Rightarrow> goal result" where
  "mind_goal m i = (case find_goal (m_goals m) i of None \<Rightarrow> Inl (KeyError i) | Some g \<Rightarrow> Inr g)"

text \<open>Assigning through the reference \<open>mind.goal(i)\<close>: the first goal with that identifier.\<close>

fun update_goal :: "string \<Rightarrow> (goal \<Rightarrow> goal) \<Rightarrow> goal list \<Rightarrow> goal list" where
  "update_goal i f [] = []"
| "update_goal i f (g # gs) = (if g_id g = i then f g # gs else g # update_goal i f gs)"

definition closed_goals :: "goal list \<Rightarrow> goal list" where
  "closed_goals gs = filter (\<lambda>g. g_status g \<in> closed_goal_statuses) gs"

definition goal_references :: "goal \<Rightarrow> string list" where
  "goal_references g = filter (\<lambda>related. related \<noteq> [])
     (g_dependency_goal_ids g @ g_child_goal_ids g
       @ (case g_parent_goal_id g of None \<Rightarrow> [] | Some p \<Rightarrow> [p]))"

definition referenced_by_open :: "goal list \<Rightarrow> string set" where
  "referenced_by_open gs =
     set (concat (map goal_references (filter (\<lambda>g. g_status g \<notin> closed_goal_statuses) gs)))"

definition forgettable :: "nat \<Rightarrow> goal list \<Rightarrow> string set" where
  "forgettable keep gs =
     (let closed = closed_goals gs;
          old = (if keep = 0 then [] else take (length closed - keep) closed)  \<comment> \<open>\<open>closed[:-keep]\<close>\<close>
      in set (map g_id (filter (\<lambda>g. g_id g \<notin> referenced_by_open gs) old)))"

definition prune_closed_goals :: "nat \<Rightarrow> goal list \<Rightarrow> goal list" where
  "prune_closed_goals keep gs =
     (if length (closed_goals gs) \<le> keep then gs
      else filter (\<lambda>g. g_id g \<notin> forgettable keep gs) gs)"

record goal_fields =
  f_description :: string
  f_priority :: int
  f_recurring :: bool
  f_interval_seconds :: "int option"
  f_cron_expression :: "string option"
  f_notify :: bool
  f_report_pattern :: "string option"
  f_kind :: string
  f_parameters :: "(string, pyval) dict"
  f_parent_goal_id :: "string option"
  f_dependency_goal_ids :: "string list"
  f_success_conditions :: "goal_condition list"
  f_failure_conditions :: "goal_condition list"
  f_deadline :: "time option"
  f_owner_agent_id :: "string option"

definition goal_fields_of :: "string \<Rightarrow> goal_fields" where
  \<comment> \<open>the defaults of \<open>add_goal\<close>\<close>
  "goal_fields_of description = \<lparr>f_description = description, f_priority = 5, f_recurring = False,
     f_interval_seconds = None, f_cron_expression = None, f_notify = False, f_report_pattern = None,
     f_kind = ''goal'', f_parameters = [], f_parent_goal_id = None, f_dependency_goal_ids = [],
     f_success_conditions = [], f_failure_conditions = [], f_deadline = None, f_owner_agent_id = None\<rparr>"

definition goal_of_fields :: "string \<Rightarrow> time \<Rightarrow> goal_fields \<Rightarrow> goal" where
  "goal_of_fields new_id now f = (new_goal new_id now (py_strip (f_description f)))
     \<lparr>g_kind := f_kind f, g_parameters := f_parameters f, g_priority := f_priority f,
      g_parent_goal_id := f_parent_goal_id f, g_dependency_goal_ids := f_dependency_goal_ids f,
      g_success_conditions := f_success_conditions f, g_failure_conditions := f_failure_conditions f,
      g_deadline := f_deadline f, g_owner_agent_id := f_owner_agent_id f,
      g_recurring := f_recurring f, g_interval_seconds := f_interval_seconds f,
      g_cron := f_cron_expression f, g_notify := f_notify f, g_report_pattern := f_report_pattern f\<rparr>"

definition first_appointment :: "time \<Rightarrow> string option \<Rightarrow> time option result" where
  "first_appointment now cron_expression = (case cron_expression of
      None \<Rightarrow> Inr None
    | Some expr \<Rightarrow>
        if expr = [] then Inr None
        else if \<not> is_valid_cron_expression expr then Inl (ValueError ''invalid cron expression'')
        else bind_res (next_after expr now) (\<lambda>t. Inr (Some t)))"

definition add_child :: "string \<Rightarrow> goal \<Rightarrow> goal" where
  "add_child i g = (if i \<notin> set (g_child_goal_ids g) then g\<lparr>g_child_goal_ids := g_child_goal_ids g @ [i]\<rparr> else g)"

text \<open>Every check of \<open>add_goal\<close> precedes its first assignment, so an error leaves the mind alone.\<close>

definition add_goal :: "string \<Rightarrow> time \<Rightarrow> goal_fields \<Rightarrow> mind \<Rightarrow> mind result" where
  "add_goal new_id now f m =
     bind_res (case f_parent_goal_id f of None \<Rightarrow> Inr () | Some p \<Rightarrow> bind_res (mind_goal m p) (\<lambda>_. Inr ())) (\<lambda>_.
     if filter (\<lambda>i. i \<notin> g_id ` set (m_goals m)) (f_dependency_goal_ids f) \<noteq> []
     then Inl (ValueError ''goal depends on unknown goal(s)'')
     else bind_res (first_appointment now (f_cron_expression f)) (\<lambda>next_attempt.
       let goal = (goal_of_fields new_id now f)\<lparr>g_next_attempt_at := next_attempt\<rparr>;
           goals = m_goals m @ [goal];
           goals = (case f_parent_goal_id f of None \<Rightarrow> goals | Some p \<Rightarrow> update_goal p (add_child new_id) goals)
       in Inr (m\<lparr>m_goals := prune_closed_goals keep_closed_goals goals\<rparr>)))"

definition adopt_goal :: "goal \<Rightarrow> mind \<Rightarrow> mind" where
  "adopt_goal g m =
     (if list_all (\<lambda>existing. g_id existing \<noteq> g_id g) (m_goals m)
      then m\<lparr>m_goals := prune_closed_goals keep_closed_goals (m_goals m @ [g])\<rparr>
      else m)"

section \<open>Beliefs\<close>

definition belief_of :: "belief list \<Rightarrow> string \<Rightarrow> belief option" where
  "belief_of bs key = find (\<lambda>b. b_key b = key) bs"

definition believes :: "mind \<Rightarrow> string \<Rightarrow> string \<Rightarrow> bool" where
  "believes m key statement = (case belief_of (m_beliefs m) key of
      None \<Rightarrow> False | Some held \<Rightarrow> b_statement held = statement)"

fun update_belief :: "string \<Rightarrow> (belief \<Rightarrow> belief) \<Rightarrow> belief list \<Rightarrow> belief list" where
  "update_belief key f [] = []"
| "update_belief key f (b # bs) = (if b_key b = key then f b # bs else b # update_belief key f bs)"

text \<open>The state of the loop: the belief base, the keys added, the keys updated.\<close>

definition revise_one :: "time \<Rightarrow> belief \<Rightarrow> belief list \<times> string list \<times> string list
    \<Rightarrow> belief list \<times> string list \<times> string list" where
  "revise_one now percept = (\<lambda>(bs, added, updated).
     if py_strip (b_statement percept) = [] then (bs, added, updated)
     else (case belief_of bs (b_key percept) of
         None \<Rightarrow> (bs @ [percept], added @ [b_key percept], updated)
       | Some held \<Rightarrow>
           if b_statement held \<noteq> b_statement percept
           then (update_belief (b_key percept) (\<lambda>b. b\<lparr>b_statement := b_statement percept,
                    b_source := b_source percept, b_confidence := b_confidence percept,
                    b_updated_at := now\<rparr>) bs, added, updated @ [b_key percept])
           else (update_belief (b_key percept) (\<lambda>b. b\<lparr>b_updated_at := now\<rparr>) bs, added, updated)))"

definition keep_recent :: "nat \<Rightarrow> belief list \<Rightarrow> belief list" where
  "keep_recent keep bs =
     (if length bs > keep then py_last keep (sort_key b_updated_at bs) else bs)"

definition revise :: "time \<Rightarrow> nat \<Rightarrow> belief list \<Rightarrow> mind \<Rightarrow> (string list \<times> string list) \<times> mind" where
  "revise now keep percepts m =
     (case fold (revise_one now) percepts (m_beliefs m, [], []) of
        (bs, added, updated) \<Rightarrow> ((added, updated), m\<lparr>m_beliefs := keep_recent keep bs\<rparr>))"

definition belief_change_keys :: "string list \<times> string list \<Rightarrow> string set" where
  "belief_change_keys c = set (fst c) \<union> set (snd c)"

definition belief_change_true :: "string list \<times> string list \<Rightarrow> bool" where
  "belief_change_true c \<longleftrightarrow> fst c \<noteq> [] \<or> snd c \<noteq> []"

definition remember :: "time \<Rightarrow> nat \<Rightarrow> string \<Rightarrow> string \<Rightarrow> mind \<Rightarrow> mind" where
  "remember now keep statement source m =
     (let cleaned = py_strip statement in
      if cleaned \<noteq> [] then snd (revise now keep [mk_belief now [] cleaned source 1] m) else m)"

definition forget :: "string \<Rightarrow> mind \<Rightarrow> bool \<times> mind" where
  "forget key m =
     (let bs = filter (\<lambda>b. b_key b \<noteq> key) (m_beliefs m)
      in (length bs \<noteq> length (m_beliefs m), m\<lparr>m_beliefs := bs\<rparr>))"

section \<open>Intentions\<close>

definition current_intention :: "mind \<Rightarrow> intention option" where
  "current_intention m = find (\<lambda>i. i_status i = Int_Active) (m_intentions m)"

definition commit_intention :: "string \<Rightarrow> time \<Rightarrow> nat \<Rightarrow> string \<Rightarrow> string list \<Rightarrow> string \<Rightarrow> string
    \<Rightarrow> string list \<Rightarrow> mind \<Rightarrow> intention \<times> mind" where
  "commit_intention new_id now keep goal_id steps plan action context_keys m =
     (let dropped = map (\<lambda>i. if i_status i = Int_Active then intention_finish now Int_Dropped i else i)
            (m_intentions m);
          intention = \<lparr>i_id = new_id, i_goal_id = goal_id, i_plan = plan,
            i_steps = map (\<lambda>text. \<lparr>ps_description = text, ps_action = action, ps_status = Step_Pending,
                                   ps_result = [], ps_job = 0\<rparr>)
                        (filter (\<lambda>text. py_strip text \<noteq> []) steps),
            i_cursor = 0, i_status = Int_Active, i_context_keys = context_keys,
            i_execution_id = None, i_created_at = now, i_updated_at = now\<rparr>
      in (intention, m\<lparr>m_intentions := py_last keep (dropped @ [intention])\<rparr>))"

definition intend :: "string \<Rightarrow> time \<Rightarrow> nat \<Rightarrow> string \<Rightarrow> string \<Rightarrow> mind \<Rightarrow> intention \<times> mind" where
  "intend new_id now keep goal_id step m =
     commit_intention new_id now keep goal_id [step] ''ad-hoc'' ''think'' [] m"

section \<open>Statistics and histories\<close>

definition no_usage :: plan_usage where
  "no_usage = \<lparr>pu_selected = 0, pu_succeeded = 0, pu_failed = 0\<rparr>"

definition record_plan_selected :: "string \<Rightarrow> mind \<Rightarrow> mind" where
  "record_plan_selected name m =
     (let u = dict_get_or (m_plan_statistics m) name no_usage
      in m\<lparr>m_plan_statistics := dict_set name (u\<lparr>pu_selected := pu_selected u + 1\<rparr>) (m_plan_statistics m)\<rparr>)"

definition record_plan_outcome :: "string \<Rightarrow> bool \<Rightarrow> mind \<Rightarrow> mind" where
  "record_plan_outcome name success m =
     (let u = dict_get_or (m_plan_statistics m) name no_usage;
          u = (if success then u\<lparr>pu_succeeded := pu_succeeded u + 1\<rparr> else u\<lparr>pu_failed := pu_failed u + 1\<rparr>)
      in m\<lparr>m_plan_statistics := dict_set name u (m_plan_statistics m)\<rparr>)"

definition record_episode :: "nat \<Rightarrow> memory_episode \<Rightarrow> mind \<Rightarrow> mind" where
  "record_episode keep episode m = m\<lparr>m_episodes := py_last keep (m_episodes m @ [episode])\<rparr>"

definition remember_procedure :: "learned_procedure \<Rightarrow> mind \<Rightarrow> mind" where
  "remember_procedure p m = m\<lparr>m_procedures := dict_set (lp_name p) p (m_procedures m)\<rparr>"

definition record_trace :: "nat \<Rightarrow> execution_trace \<Rightarrow> mind \<Rightarrow> mind" where
  "record_trace keep trace m = m\<lparr>m_execution_traces := py_last keep (m_execution_traces m @ [trace])\<rparr>"

interpretation episodes: bounded_log m_episodes "record_episode keep" "\<lambda>_. keep" for keep
  by unfold_locales (simp_all add: record_episode_def)

interpretation traces: bounded_log m_execution_traces "record_trace keep" "\<lambda>_. keep" for keep
  by unfold_locales (simp_all add: record_trace_def)

section \<open>Looking goals up\<close>

lemma find_goal_Some: "find_goal gs i = Some g \<Longrightarrow> g \<in> set gs \<and> g_id g = i"
  unfolding find_goal_def using find_Some_in by fastforce

lemma find_goal_None: "(find_goal gs i = None) = (i \<notin> g_id ` set gs)"
  by (auto simp: find_goal_def find_None_iff)

lemma find_goal_ex: "i \<in> g_id ` set gs \<Longrightarrow> \<exists>g. find_goal gs i = Some g"
  using find_goal_None by fastforce

lemma find_goal_distinct:
  "distinct (map g_id gs) \<Longrightarrow> g \<in> set gs \<Longrightarrow> find_goal gs (g_id g) = Some g"
  by (induction gs) (auto simp: find_goal_def)

lemma update_goal_ids:
  "(\<And>g. g_id (f g) = g_id g) \<Longrightarrow> map g_id (update_goal i f gs) = map g_id gs"
  by (induction gs) auto

lemma set_update_goal:
  "set (update_goal i f gs) \<subseteq> set gs \<union> f ` {g \<in> set gs. g_id g = i}"
  by (induction gs) auto

lemma map_update_goal:
  "(\<And>g. h (f g) = h g) \<Longrightarrow> map h (update_goal i f gs) = map h gs"
  by (induction gs) auto

lemma find_update_goal:
  assumes "\<And>g. g_id (f g) = g_id g"
  shows "find_goal (update_goal i f gs) j =
    (if j = i then map_option f (find_goal gs i) else find_goal gs j)"
  using assms by (induction gs) (auto simp: find_goal_def)

section \<open>Pruning\<close>

lemma forgettable_id:
  assumes "i \<in> forgettable keep gs"
  shows "i \<notin> referenced_by_open gs \<and> i \<in> g_id ` set (closed_goals gs)"
  using assms by (auto simp: forgettable_def Let_def split: if_splits dest: in_set_takeD)

lemma prune_subset: "set (prune_closed_goals keep gs) \<subseteq> set gs"
  by (auto simp: prune_closed_goals_def)

lemma prune_sublist: "subseq (prune_closed_goals keep gs) gs"
  by (simp add: prune_closed_goals_def)

lemma prune_distinct: "distinct (map g_id gs) \<Longrightarrow> distinct (map g_id (prune_closed_goals keep gs))"
  by (simp add: prune_closed_goals_def distinct_map inj_on_def)

lemma prune_keeps:
  assumes "distinct (map g_id gs)" "g \<in> set gs"
    and "g_status g \<notin> closed_goal_statuses \<or> g_id g \<in> referenced_by_open gs"
  shows "g \<in> set (prune_closed_goals keep gs)"
proof -
  have "g_id g \<notin> forgettable keep gs"
  proof
    assume "g_id g \<in> forgettable keep gs"
    from forgettable_id [OF this] assms(3) obtain c where
        "c \<in> set gs" "g_id c = g_id g" "g_status c \<in> closed_goal_statuses" "g_status g \<notin> closed_goal_statuses"
      by (auto simp: closed_goals_def)
    with assms(1,2) show False by (metis eq_key_imp_eq_value map_of_eq_None_iff inj_onD distinct_map)
  qed
  with assms(2) show ?thesis by (simp add: prune_closed_goals_def)
qed

lemma prune_newest:
  assumes "distinct (map g_id gs)" "0 < keep"
  shows "set (py_last keep (closed_goals gs)) \<subseteq> set (prune_closed_goals keep gs)"
proof (cases "length (closed_goals gs) \<le> keep")
  case True
  then show ?thesis by (auto simp: prune_closed_goals_def closed_goals_def)
next
  case False
  let ?c = "closed_goals gs" and ?n = "length (closed_goals gs) - keep"
  have dc: "distinct (map g_id ?c)" using assms(1) by (simp add: closed_goals_def distinct_map inj_on_def)
  have "map g_id ?c = map g_id (take ?n ?c) @ map g_id (drop ?n ?c)" by (simp flip: map_append)
  with dc have "g_id ` set (take ?n ?c) \<inter> g_id ` set (drop ?n ?c) = {}"
    by (metis distinct_append set_map)
  moreover have "forgettable keep gs \<subseteq> g_id ` set (take ?n ?c)"
    using assms(2) by (auto simp: forgettable_def Let_def)
  moreover have "set (drop ?n ?c) \<subseteq> set gs" by (auto simp: closed_goals_def dest: in_set_dropD)
  ultimately show ?thesis using False assms(2) by (auto simp: prune_closed_goals_def py_last_def)
qed

lemma prune_bound:
  assumes "0 < keep" "distinct (map g_id gs)"
  shows "length (filter (\<lambda>g. g_id g \<notin> referenced_by_open gs) (closed_goals (prune_closed_goals keep gs))) \<le> keep"
proof (cases "length (closed_goals gs) \<le> keep")
  case True
  then have "prune_closed_goals keep gs = gs" by (simp add: prune_closed_goals_def)
  with True show ?thesis by (metis length_filter_le order_trans)
next
  case False
  let ?c = "closed_goals gs" and ?n = "length (closed_goals gs) - keep"
  let ?u = "\<lambda>g. g_id g \<notin> referenced_by_open gs"
  have f: "forgettable keep gs = g_id ` set (filter ?u (take ?n ?c))"
    using assms(1) by (simp add: forgettable_def Let_def)
  have "filter ?u (closed_goals (prune_closed_goals keep gs)) = filter (\<lambda>g. ?u g \<and> g_id g \<notin> forgettable keep gs) ?c"
    using False by (auto simp: prune_closed_goals_def closed_goals_def intro: filter_cong)
  also have "\<dots> = filter (\<lambda>g. ?u g \<and> g_id g \<notin> forgettable keep gs) (take ?n ?c @ drop ?n ?c)" by simp
  also have "\<dots> = filter (\<lambda>g. ?u g \<and> g_id g \<notin> forgettable keep gs) (drop ?n ?c)"
    unfolding filter_append f by (auto simp: filter_empty_conv)
  finally have eq: "filter ?u (closed_goals (prune_closed_goals keep gs)) =
      filter (\<lambda>g. ?u g \<and> g_id g \<notin> forgettable keep gs) (drop ?n ?c)" .
  have "length (drop ?n ?c) = keep" using False by simp
  then show ?thesis unfolding eq by (metis length_filter_le)
qed

text \<open>
  Pruning forgets only old finished work: every open goal, every goal an open goal points at
  and the thirty most recently listed closed goals stay, in their order, and of the closed goals
  that no open goal points at at most thirty remain.
\<close>

theorem prune_keeps_live_work:
  assumes "distinct (map g_id gs)"
  shows "subseq (prune_closed_goals keep_closed_goals gs) gs
    \<and> (\<forall>g\<in>set gs. g_status g \<notin> closed_goal_statuses \<or> g_id g \<in> referenced_by_open gs
          \<longrightarrow> g \<in> set (prune_closed_goals keep_closed_goals gs))
    \<and> set (py_last keep_closed_goals (closed_goals gs)) \<subseteq> set (prune_closed_goals keep_closed_goals gs)
    \<and> length (filter (\<lambda>g. g_id g \<notin> referenced_by_open gs)
          (closed_goals (prune_closed_goals keep_closed_goals gs))) \<le> keep_closed_goals"
proof -
  have "0 < keep_closed_goals" by (simp add: keep_closed_goals_def)
  with assms prune_sublist prune_keeps prune_newest prune_bound show ?thesis by metis
qed

lemma prune_keeps_live_work_witness:
  "new_goal ''a'' 0 ''open work'' \<in> set (prune_closed_goals keep_closed_goals [new_goal ''a'' 0 ''open work''])"
  using prune_keeps_live_work [of "[new_goal ''a'' 0 ''open work'']"]
  by (simp add: new_goal_def closed_goal_statuses_def)

section \<open>Belief revision\<close>

lemma belief_of_Some: "belief_of bs k = Some b \<Longrightarrow> b \<in> set bs \<and> b_key b = k"
  unfolding belief_of_def using find_Some_in by fastforce

lemma belief_of_None: "(belief_of bs k = None) = (k \<notin> b_key ` set bs)"
  by (auto simp: belief_of_def find_None_iff)

lemma belief_of_append: "belief_of (bs @ cs) k =
    (case belief_of bs k of None \<Rightarrow> belief_of cs k | Some b \<Rightarrow> Some b)"
  by (induction bs) (auto simp: belief_of_def)

lemma belief_of_distinct:
  "distinct (map b_key bs) \<Longrightarrow> (belief_of bs k = Some b) = (b \<in> set bs \<and> b_key b = k)"
  by (induction bs) (auto simp: belief_of_def)

lemma update_belief_keys:
  "(\<And>b. b_key (f b) = b_key b) \<Longrightarrow> map b_key (update_belief k f bs) = map b_key bs"
  by (induction bs) auto

lemma belief_of_update:
  assumes "\<And>b. b_key (f b) = b_key b"
  shows "belief_of (update_belief k f bs) j =
    (if j = k then map_option f (belief_of bs k) else belief_of bs j)"
  using assms by (induction bs) (auto simp: belief_of_def)

text \<open>What the mind holds under a key, and what a sequence of percepts says of it last.\<close>

definition held_statement :: "belief list \<Rightarrow> string \<Rightarrow> string option" where
  "held_statement bs k = map_option b_statement (belief_of bs k)"

fun perceived :: "belief list \<Rightarrow> string \<Rightarrow> string option" where
  "perceived [] k = None"
| "perceived (p # ps) k = (case perceived ps k of Some s \<Rightarrow> Some s
     | None \<Rightarrow> if b_key p = k \<and> py_strip (b_statement p) \<noteq> [] then Some (b_statement p) else None)"

lemma revise_one_keys:
  assumes "revise_one now p (bs, a, u) = (bs', a', u')" "distinct (map b_key bs)"
  shows "distinct (map b_key bs')"
  using assms by (auto simp: revise_one_def update_belief_keys belief_of_None split: if_splits option.splits)

lemma revise_one_held:
  assumes "revise_one now p (bs, a, u) = (bs', a', u')"
  shows "held_statement bs' k = (case perceived [p] k of Some s \<Rightarrow> Some s | None \<Rightarrow> held_statement bs k)"
  using assms unfolding revise_one_def held_statement_def
  by (auto simp: belief_of_update belief_of_append split: if_splits option.splits)
    (auto simp: belief_of_def)

lemma revise_one_report:
  assumes "revise_one now p (bs, a, u) = (bs', a', u')"
  shows "set a \<subseteq> set a' \<and> set u \<subseteq> set u'
    \<and> set a' \<union> set u' \<subseteq> set a \<union> set u \<union> {k. perceived [p] k \<noteq> None}
    \<and> (\<forall>k. held_statement bs' k \<noteq> held_statement bs k \<longrightarrow> k \<in> set a' \<union> set u')"
proof -
  have keys: "b_key ` set (update_belief k f bs) = b_key ` set bs"
    if "\<And>b. b_key (f b) = b_key b" for k f
    using update_belief_keys [OF that] by (metis set_map)
  define f where "f = (\<lambda>b :: belief. b\<lparr>b_statement := b_statement p, b_source := b_source p,
      b_confidence := b_confidence p, b_updated_at := now\<rparr>)"
  define g where "g = (\<lambda>b :: belief. b\<lparr>b_updated_at := now\<rparr>)"
  have f_key: "b_key (f b) = b_key b" and g_key: "b_key (g b) = b_key b"
    and g_statement: "b_statement (g b) = b_statement b" for b :: belief by (simp_all add: f_def g_def)
  from assms consider
      "bs' = bs" "a' = a" "u' = u"
    | "belief_of bs (b_key p) = None" "bs' = bs @ [p]" "a' = a @ [b_key p]" "u' = u" "py_strip (b_statement p) \<noteq> []"
    | "bs' = update_belief (b_key p) f bs" "a' = a" "u' = u @ [b_key p]" "py_strip (b_statement p) \<noteq> []"
    | "bs' = update_belief (b_key p) g bs" "a' = a" "u' = u" "py_strip (b_statement p) \<noteq> []"
    unfolding f_def g_def by (auto simp: revise_one_def split: if_splits option.splits)
  then show ?thesis
  proof cases
    case 2
    then show ?thesis
      by (auto simp: held_statement_def belief_of_append split: option.splits)
        (auto simp: belief_of_def split: if_splits)
  next
    case 3
    then show ?thesis using keys [of f, OF f_key]
      by (auto simp: held_statement_def belief_of_update [of f, OF f_key])
  next
    case 4
    have "held_statement bs' k = held_statement bs k" for k
      unfolding 4 by (simp add: held_statement_def belief_of_update [of g, OF g_key] option.map_comp comp_def g_statement)
    with 4 show ?thesis using keys [of g, OF g_key] by auto
  qed simp
qed

lemma revise_fold_held:
  assumes "fold (revise_one now) ps (bs, a, u) = (bs', a', u')" "distinct (map b_key bs)"
  shows "distinct (map b_key bs')"
    and "held_statement bs' k = (case perceived ps k of Some s \<Rightarrow> Some s | None \<Rightarrow> held_statement bs k)"
proof -
  have "distinct (map b_key bs')
    \<and> held_statement bs' k = (case perceived ps k of Some s \<Rightarrow> Some s | None \<Rightarrow> held_statement bs k)"
    using assms
  proof (induction ps arbitrary: bs a u)
    case Nil
    then show ?case by simp
  next
    case (Cons p ps)
    obtain bs1 a1 u1 where one: "revise_one now p (bs, a, u) = (bs1, a1, u1)"
      by (cases "revise_one now p (bs, a, u)") auto
    with Cons.prems have "fold (revise_one now) ps (bs1, a1, u1) = (bs', a', u')" by simp
    from Cons.IH [OF this revise_one_keys [OF one Cons.prems(2)]] revise_one_held [OF one, of k]
    show ?case by (auto split: option.splits)
  qed
  then show "distinct (map b_key bs')"
    and "held_statement bs' k = (case perceived ps k of Some s \<Rightarrow> Some s | None \<Rightarrow> held_statement bs k)"
    by simp_all
qed

lemma revise_fold_report:
  assumes "fold (revise_one now) ps (bs, a, u) = (bs', a', u')"
  shows "set a \<union> set u \<subseteq> set a' \<union> set u'
    \<and> set a' \<union> set u' \<subseteq> set a \<union> set u \<union> {k. perceived ps k \<noteq> None}
    \<and> (held_statement bs' k \<noteq> held_statement bs k \<longrightarrow> k \<in> set a' \<union> set u')"
  using assms
proof (induction ps arbitrary: bs a u)
  case Nil
  then show ?case by simp
next
  case (Cons p ps)
  obtain bs1 a1 u1 where one: "revise_one now p (bs, a, u) = (bs1, a1, u1)"
    by (cases "revise_one now p (bs, a, u)") auto
  with Cons.prems have "fold (revise_one now) ps (bs1, a1, u1) = (bs', a', u')" by simp
  note later = Cons.IH [OF this]
  define A B C where "A = set a \<union> set u" and "B = set a1 \<union> set u1" and "C = set a' \<union> set u'"
  from revise_one_report [OF one] have "A \<subseteq> B" "B \<subseteq> A \<union> {k. perceived [p] k \<noteq> None}"
    "held_statement bs1 k \<noteq> held_statement bs k \<longrightarrow> k \<in> B"
    unfolding A_def B_def by blast+
  moreover from later have "B \<subseteq> C" "C \<subseteq> B \<union> {k. perceived ps k \<noteq> None}"
    "held_statement bs' k \<noteq> held_statement bs1 k \<longrightarrow> k \<in> C"
    unfolding B_def C_def by simp_all
  moreover have "{k. perceived [p] k \<noteq> None} \<union> {k. perceived ps k \<noteq> None} \<subseteq> {k. perceived (p # ps) k \<noteq> None}"
    by (auto split: option.splits)
  ultimately have "A \<subseteq> C" "C \<subseteq> A \<union> {k. perceived (p # ps) k \<noteq> None}"
      "held_statement bs' k \<noteq> held_statement bs k \<longrightarrow> k \<in> C"
    by (blast, blast, fastforce)
  then have "A \<subseteq> C \<and> C \<subseteq> A \<union> {k. perceived (p # ps) k \<noteq> None}
      \<and> (held_statement bs' k \<noteq> held_statement bs k \<longrightarrow> k \<in> C)" by blast
  then show ?case unfolding A_def C_def .
qed

lemma keep_recent_props:
  assumes "0 < keep" "distinct (map b_key bs)"
  shows "distinct (map b_key (keep_recent keep bs)) \<and> length (keep_recent keep bs) \<le> keep
    \<and> set (keep_recent keep bs) \<subseteq> set bs \<and> (length bs \<le> keep \<longrightarrow> keep_recent keep bs = bs)"
proof -
  from assms(2) have "distinct (map b_key (sort_key b_updated_at bs))" by (simp add: distinct_map)
  then have "distinct (map b_key (py_last keep (sort_key b_updated_at bs)))"
    by (auto simp: py_last_def drop_map [symmetric])
  then show ?thesis
    using assms set_py_last [of keep "sort_key b_updated_at bs"] by (auto simp: keep_recent_def length_py_last)
qed

text \<open>The forgotten beliefs are the ones confirmed longest ago.\<close>

lemma keep_recent_oldest:
  assumes "b \<in> set bs" "b \<notin> set (keep_recent keep bs)" "c \<in> set (keep_recent keep bs)"
  shows "b_updated_at b \<le> b_updated_at c"
proof -
  from assms(1,2) have long: "length bs > keep" by (auto simp: keep_recent_def split: if_splits)
  let ?s = "sort_key b_updated_at bs" and ?n = "length bs - keep"
  from long assms(1,2) have k: "keep \<noteq> 0" by (auto simp: keep_recent_def py_last_def split: if_splits)
  with long assms(2,3) have c: "c \<in> set (drop ?n ?s)" and nb: "b \<notin> set (drop ?n ?s)"
    by (auto simp: keep_recent_def py_last_def)
  from assms(1) have "b \<in> set (take ?n ?s @ drop ?n ?s)" by simp
  with nb have b: "b \<in> set (take ?n ?s)" by (metis UnE set_append)
  have "sorted (map b_updated_at (take ?n ?s @ drop ?n ?s))" by simp
  then have "sorted (map b_updated_at (take ?n ?s) @ map b_updated_at (drop ?n ?s))"
    unfolding map_append .
  with b c show ?thesis unfolding sorted_append by auto
qed

text \<open>
  Belief revision keeps one belief per key and at most \<open>keep\<close> of them; what is held says what
  the last non-blank percept of its key said, or what it said before; nothing is dropped while
  there is room, and what is dropped was confirmed no later than what stays; and the reported
  change names every key whose statement changed and only perceived ones.
\<close>

theorem revise_exact:
  assumes "distinct (map b_key (m_beliefs m))" "0 < keep"
    and "revise now keep percepts m = ((added, updated), m')"
  shows "distinct (map b_key (m_beliefs m')) \<and> length (m_beliefs m') \<le> keep
    \<and> (\<forall>b\<in>set (m_beliefs m'). Some (b_statement b) =
          (case perceived percepts (b_key b) of Some s \<Rightarrow> Some s | None \<Rightarrow> held_statement (m_beliefs m) (b_key b)))
    \<and> (\<forall>b\<in>set (m_beliefs m'). b_key b \<notin> belief_change_keys (added, updated)
          \<longrightarrow> held_statement (m_beliefs m) (b_key b) = Some (b_statement b))
    \<and> (\<forall>k\<in>belief_change_keys (added, updated). perceived percepts k \<noteq> None)"
proof -
  obtain bs where f: "fold (revise_one now) percepts (m_beliefs m, [], []) = (bs, added, updated)"
    and m': "m_beliefs m' = keep_recent keep bs"
    using assms(3) by (auto simp: revise_def split: prod.splits)
  note d = revise_fold_held(1) [OF f assms(1)] and said = revise_fold_held(2) [OF f assms(1)]
    and report = revise_fold_report [OF f]
  note K = keep_recent_props [OF assms(2) d]
  have held: "held_statement bs (b_key b) = Some (b_statement b)" if "b \<in> set (keep_recent keep bs)" for b
    using that K belief_of_distinct [OF d] by (auto simp: held_statement_def)
  have "Some (b_statement b) =
      (case perceived percepts (b_key b) of Some s \<Rightarrow> Some s | None \<Rightarrow> held_statement (m_beliefs m) (b_key b))"
    if "b \<in> set (keep_recent keep bs)" for b
    using said held [OF that] by metis
  moreover have "held_statement (m_beliefs m) (b_key b) = Some (b_statement b)"
    if "b \<in> set (keep_recent keep bs)" "b_key b \<notin> set added \<union> set updated" for b
    using report held [OF that(1)] that(2) by metis
  moreover have "perceived percepts k \<noteq> None" if "k \<in> set added \<union> set updated" for k
    using report that by auto
  ultimately show ?thesis using K unfolding m' belief_change_keys_def fst_conv snd_conv by blast
qed

lemma revise_exact_witness:
  "let r = revise 9 40 [mk_belief 9 ''disk'' ''90% full'' ''monitor'' 1]
      \<lparr>m_beliefs = [mk_belief 1 ''disk'' ''50% full'' ''monitor'' 1], m_goals = [], m_intentions = [],
       m_plan_statistics = [], m_episodes = [], m_procedures = [], m_execution_traces = []\<rparr>
   in distinct (map b_key (m_beliefs (snd r))) \<and> map b_statement (m_beliefs (snd r)) = [''90% full'']"
proof -
  let ?p = "[mk_belief 9 ''disk'' ''90% full'' ''monitor'' 1]"
  let ?m = "\<lparr>m_beliefs = [mk_belief 1 ''disk'' ''50% full'' ''monitor'' 1], m_goals = [], m_intentions = [],
       m_plan_statistics = [], m_episodes = [], m_procedures = [], m_execution_traces = []\<rparr>"
  obtain added updated m' where r: "revise 9 40 ?p ?m = ((added, updated), m')" by (metis prod.collapse)
  have "map b_statement (m_beliefs (snd (revise 9 40 ?p ?m))) = [''90% full'']" by code_simp
  moreover have "distinct (map b_key (m_beliefs ?m))" by simp
  from revise_exact [OF this _ r] have "distinct (map b_key (m_beliefs m'))" by simp
  ultimately show ?thesis unfolding r Let_def by simp
qed

section \<open>Commitment\<close>

text \<open>
  A mind commits to one plan at a time: after \<open>commit\<close> the new intention is the only active
  one and the current one, at its first non-blank step, every earlier intention kept is no longer
  active, and at most \<open>keep\<close> are remembered.
\<close>

theorem commit_single_intention:
  assumes "commit_intention new_id now keep goal_id steps plan action keys m = (i, m')" "0 < keep"
  shows "filter (\<lambda>j. i_status j = Int_Active) (m_intentions m') = [i] \<and> current_intention m' = Some i
    \<and> length (m_intentions m') \<le> keep \<and> i_goal_id i = goal_id
    \<and> map ps_description (i_steps i) = filter (\<lambda>s. py_strip s \<noteq> []) steps
    \<and> (intention_current i = None \<longleftrightarrow> (\<forall>s\<in>set steps. py_strip s = []))"
proof -
  let ?drop = "\<lambda>j. if i_status j = Int_Active then intention_finish now Int_Dropped j else j"
  let ?d = "map ?drop (m_intentions m)"
  from assms(1) have m': "m_intentions m' = py_last keep (?d @ [i])" and act: "i_status i = Int_Active"
    and rest: "i_goal_id i = goal_id" "map ps_description (i_steps i) = filter (\<lambda>s. py_strip s \<noteq> []) steps"
    and cur: "i_cursor i = 0" "length (i_steps i) = length (filter (\<lambda>s. py_strip s \<noteq> []) steps)"
    unfolding commit_intention_def Let_def prod.inject using assms(1) [unfolded commit_intention_def Let_def prod.inject]
    by (auto simp: comp_def)
  have none: "filter (\<lambda>j. i_status j = Int_Active) (drop n ?d) = []" for n
  proof -
    have "\<forall>j \<in> set ?d. i_status j \<noteq> Int_Active" by (auto simp: intention_finish_def)
    then have "\<forall>j \<in> set (drop n ?d). \<not> i_status j = Int_Active" using set_drop_subset [of n ?d] by blast
    then show ?thesis by (rule filter_False)
  qed
  define d where "d = ?d"
  have last: "py_last keep (?d @ [i]) = drop (length d + 1 - keep) ?d @ [i]"
    unfolding d_def [symmetric] using assms(2) by (simp add: py_last_def)
  have one: "filter (\<lambda>j. i_status j = Int_Active) (m_intentions m') = [i]"
    unfolding m' last using none act by simp
  have "find (\<lambda>j. i_status j = Int_Active) (m_intentions m') = Some i"
    using one by (simp add: find_filter)
  moreover have "length (m_intentions m') \<le> keep"
    using assms(2) by (simp add: m' length_py_last)
  moreover have "intention_current i = None \<longleftrightarrow> (\<forall>s\<in>set steps. py_strip s = [])"
    using act cur by (auto simp: intention_current_def filter_empty_conv)
  ultimately show ?thesis using one rest by (simp add: current_intention_def)
qed

lemma commit_single_intention_witness:
  "\<exists>i m'. commit_intention ''i1'' 5 12 ''g'' [''look'', '' '', ''act''] ''plan'' ''think'' []
      \<lparr>m_beliefs = [], m_goals = [], m_intentions = [], m_plan_statistics = [], m_episodes = [],
       m_procedures = [], m_execution_traces = []\<rparr> = (i, m')
    \<and> current_intention m' = Some i \<and> map ps_description (i_steps i) = [''look'', ''act'']"
proof -
  let ?m = "\<lparr>m_beliefs = [], m_goals = [], m_intentions = [], m_plan_statistics = [], m_episodes = [],
       m_procedures = [], m_execution_traces = []\<rparr>"
  obtain i m' where c: "commit_intention ''i1'' 5 12 ''g'' [''look'', '' '', ''act''] ''plan'' ''think'' [] ?m = (i, m')"
    by fastforce
  have "filter (\<lambda>s. py_strip s \<noteq> []) [''look'', '' '', ''act''] = [''look'', ''act'']" by code_simp
  with commit_single_intention [OF c] c show ?thesis by auto
qed

section \<open>Adding goals\<close>

lemma set_add_child [simp]: "set (g_child_goal_ids (add_child i g)) = insert i (set (g_child_goal_ids g))"
  by (auto simp: add_child_def)

lemma add_child_keeps [simp]:
  "g_id (add_child i g) = g_id g" "g_status (add_child i g) = g_status g"
  "g_dependency_goal_ids (add_child i g) = g_dependency_goal_ids g"
  "g_parent_goal_id (add_child i g) = g_parent_goal_id g"
  by (simp_all add: add_child_def)

lemma goal_of_fields_keeps [simp]:
  "g_id (goal_of_fields i now f) = i" "g_status (goal_of_fields i now f) = Pending"
  "g_dependency_goal_ids (goal_of_fields i now f) = f_dependency_goal_ids f"
  "g_parent_goal_id (goal_of_fields i now f) = f_parent_goal_id f"
  "g_child_goal_ids (goal_of_fields i now f) = []"
  by (simp_all add: goal_of_fields_def new_goal_def)

end
