(* ===== verification/Goal_Manager.thy ===== *)
theory Goal_Manager
  imports Mind_State
begin

text \<open>
  The goal lifecycle of \<open>goal_manager.py\<close>: legal transitions, the refresh policy (deadlines,
  dependencies, schedules, budgets), completion and failure, stalls, the dependency graph,
  success and failure conditions, and the choice of the next goal.  The manager holds no state
  of its own: methods on one goal are operations on that goal, methods on the mind are
  operations on its list of goals, where a goal held by the caller is addressed by its place.
\<close>

section \<open>Transitions\<close>

definition terminal_goal_statuses :: "goal_status set" where
  "terminal_goal_statuses = {Done, Failed, Cancelled}"

definition paused :: string where "paused = ''paused''"

fun legal_transitions :: "goal_status \<Rightarrow> goal_status set" where
  "legal_transitions Pending = {Runnable, Blocked, Failed, Cancelled}"
| "legal_transitions Runnable = {Active, Blocked, Stalled, Done, Failed, Cancelled}"
| "legal_transitions Active = {Runnable, Blocked, Stalled, Done, Failed, Cancelled}"
| "legal_transitions Blocked = {Runnable, Stalled, Failed, Cancelled}"
| "legal_transitions Stalled = {Runnable, Blocked, Failed, Cancelled}"
| "legal_transitions Done = {}"
| "legal_transitions Failed = {}"
| "legal_transitions Cancelled = {}"

definition transition :: "goal_status \<Rightarrow> string option \<Rightarrow> time \<Rightarrow> bool \<Rightarrow> (goal, bool) op" where
  "transition status reason moment human_override g =
     (if g_status g = status then
        (Inr False, if status \<in> {Blocked, Stalled} \<and> reason \<noteq> None
                    then g\<lparr>g_blocked_reason := reason, g_updated_at := moment\<rparr> else g)
      else if \<not> human_override \<and> status \<notin> legal_transitions (g_status g)
      then (Inl (IllegalGoalTransition (g_id g)), g)
      else let g = g\<lparr>g_status := status, g_updated_at := moment,
                     g_blocked_reason := (if status \<in> {Blocked, Stalled} then reason else None)\<rparr>
           in (Inr True, if status = Done then g\<lparr>g_progress := 1, g_completed_at := Some moment\<rparr> else g))"

section \<open>Scoring and preemption\<close>

record utility_policy =
  w_priority :: rat
  w_urgency :: rat
  w_expected_value :: rat
  w_strategic_value :: rat
  w_effort :: rat
  w_risk :: rat
  w_age :: rat

definition utility_defaults :: utility_policy where
  "utility_defaults = \<lparr>w_priority = 100, w_urgency = 20, w_expected_value = 5,
     w_strategic_value = 5, w_effort = 1, w_risk = 2, w_age = 1/100\<rparr>"

definition utility_score :: "utility_policy \<Rightarrow> goal \<Rightarrow> time \<Rightarrow> rat" where
  "utility_score w g moment =
     (let priority = of_int (10 - g_priority g) * w_priority w;
          urgency = (case g_deadline g of None \<Rightarrow> 0
            | Some d \<Rightarrow> let remaining = total_seconds (d - moment)
                in w_urgency w * (if remaining \<le> 0 then 2 else 1 / max 1 remaining));
          age_seconds = max 0 (total_seconds (moment - g_created_at g));
          u = g_utility g
      in priority + urgency + u_expected_value u * w_expected_value w
         + u_strategic_value u * w_strategic_value w - u_estimated_effort u * w_effort w
         - u_risk u * w_risk w + (age_seconds / 86400) * w_age w)"

record preemption_policy =
  pp_enabled :: bool
  pp_minimum_score_delta :: rat
  pp_non_preemptible_goal_kinds :: "string set"
  pp_deadline_override_seconds :: rat
  pp_override_parameter :: string

definition preemption_defaults :: preemption_policy where
  "preemption_defaults = \<lparr>pp_enabled = True, pp_minimum_score_delta = 50,
     pp_non_preemptible_goal_kinds = {}, pp_deadline_override_seconds = 300,
     pp_override_parameter = ''preempt_override''\<rparr>"

definition should_preempt :: "(goal \<Rightarrow> time \<Rightarrow> rat) \<Rightarrow> preemption_policy \<Rightarrow> time \<Rightarrow> goal \<Rightarrow> goal \<Rightarrow> bool" where
  "should_preempt score policy moment current candidate =
     (if g_id current = g_id candidate \<or> \<not> pp_enabled policy then False
      else if g_status current \<in> terminal_goal_statuses \<union> {Blocked, Stalled} then True
      else let explicit_override = truthy (dict_get_or (g_parameters candidate) (pp_override_parameter policy) PNone);
               emergency = g_kind candidate \<in> {''human_override'', ''emergency''};
               deadline_override = (case g_deadline candidate of None \<Rightarrow> False
                 | Some d \<Rightarrow> total_seconds (d - moment) \<le> pp_deadline_override_seconds policy)
           in if explicit_override \<or> emergency \<or> deadline_override then True
              else if g_kind current \<in> pp_non_preemptible_goal_kinds policy then False
              else score candidate moment - score current moment \<ge> max 0 (pp_minimum_score_delta policy))"

section \<open>The dependency graph\<close>

definition goal_dict :: "goal list \<Rightarrow> (string, goal) dict" where
  "goal_dict gs = fold (\<lambda>g. dict_set (g_id g) g) gs []"

definition check_references :: "(string, goal) dict \<Rightarrow> goal \<Rightarrow> unit result" where
  "check_references goals g =
     (if list_ex (\<lambda>related. dict_get goals related = None) (g_dependency_goal_ids g @ g_child_goal_ids g)
      then Inl (GoalGraphError ''references missing goal'')
      else if (case g_parent_goal_id g of None \<Rightarrow> False | Some p \<Rightarrow> dict_get goals p = None)
      then Inl (GoalGraphError ''references missing parent'')
      else if g_id g \<in> set (g_dependency_goal_ids g) then Inl (GoalGraphError ''depends on itself'')
      else Inr ())"

text \<open>
  \<open>visit\<close> for each identifier of a list.  \<open>visiting\<close> is the path from the root: the code adds an
  identifier before it visits the dependencies and removes it after, so it is an argument here;
  \<open>visited\<close> is threaded through.
\<close>

function visit_all :: "(string, goal) dict \<Rightarrow> string set \<Rightarrow> string list \<Rightarrow> string set \<Rightarrow> string set result" where
  "visit_all goals visiting [] visited = Inr visited"
| "visit_all goals visiting (i # is) visited =
     (if i \<in> visiting then Inl (GoalGraphError ''goal dependency cycle'')
      else bind_res
        (if i \<in> visited then Inr visited
         else case dict_get goals i of None \<Rightarrow> Inl (KeyError i)
           | Some g \<Rightarrow> map_sum id (insert i)
               (visit_all goals (insert i visiting) (g_dependency_goal_ids g) visited))
        (\<lambda>visited. visit_all goals visiting is visited))"
  by pat_completeness auto
termination
proof (relation "measures [\<lambda>(goals, visiting, is, _). card (fst ` set goals - visiting),
      \<lambda>(_, _, is, _). length is]")
  fix goals :: "(string, goal) dict" and visiting :: "string set" and i "is" visited g
  assume "i \<notin> visiting" "dict_get goals i = Some g"
  then have "i \<in> fst ` set goals - visiting" using dict_get_None [of goals i] by auto
  then have "card (fst ` set goals - insert i visiting) < card (fst ` set goals - visiting)"
    by (metis Diff_insert List.finite_set card_Diff1_less finite_Diff finite_imageI)
  then show "((goals, insert i visiting, g_dependency_goal_ids g, visited), goals, visiting, i # is, visited)
      \<in> measures [\<lambda>(goals, visiting, is, _). card (fst ` set goals - visiting), \<lambda>(_, _, is, _). length is]"
    by simp
qed auto

definition validate_graph :: "goal list \<Rightarrow> unit result" where
  "validate_graph gs =
     (let goals = goal_dict gs in
      bind_res (map_res (check_references goals) (map snd goals)) (\<lambda>_.
      bind_res (visit_all goals {} (map fst goals) {}) (\<lambda>_. Inr ())))"

definition dependencies_complete :: "goal list \<Rightarrow> goal \<Rightarrow> bool" where
  "dependencies_complete gs g = list_all (\<lambda>i. case find_goal gs i of
     None \<Rightarrow> False | Some d \<Rightarrow> g_status d = Done) (g_dependency_goal_ids g)"

section \<open>Refresh\<close>

definition is_due :: "time \<Rightarrow> goal \<Rightarrow> bool" where
  "is_due moment g \<longleftrightarrow> (case g_next_attempt_at g of None \<Rightarrow> True | Some t \<Rightarrow> moment \<ge> t)"

definition attempts_left :: "goal \<Rightarrow> bool" where
  "attempts_left g \<longleftrightarrow> g_recurring g \<or> int (g_attempts g) < attempt_limit g"

definition past_deadline :: "time \<Rightarrow> goal \<Rightarrow> bool" where
  "past_deadline moment g \<longleftrightarrow> (case g_deadline g of None \<Rightarrow> False | Some d \<Rightarrow> moment \<ge> d) \<and> \<not> g_recurring g"

definition skip_op :: "('s, unit) op" where "skip_op = ret_op ()"

definition move :: "goal_status \<Rightarrow> string option \<Rightarrow> time \<Rightarrow> (goal, unit) op" where
  "move status reason moment = bind_op (transition status reason moment False) (\<lambda>_. ret_op ())"

text \<open>One turn of the loop of \<open>_refresh\<close>; \<open>gs\<close> is \<open>mind.goals\<close> as it is by then.\<close>

definition refresh_goal :: "time \<Rightarrow> goal list \<Rightarrow> (goal, unit) op" where
  "refresh_goal moment gs g =
     (if g_status g \<in> terminal_goal_statuses then skip_op g
      else if g_status g = Blocked \<and> g_blocked_reason g = Some paused then skip_op g
      else if past_deadline moment g then
        seq_op (move Failed None moment) (modify_op (\<lambda>g. g\<lparr>g_blocked_reason := Some ''deadline'',
          g_last_error := Some ''deadline passed before the goal completed'', g_updated_at := moment\<rparr>)) g
      else if g_status g = Stalled then
        (if is_due moment g then move Runnable None moment g else skip_op g)
      else
        let found = map (find_goal gs) (g_dependency_goal_ids g);
            dependencies = map the (filter (\<lambda>d. d \<noteq> None) found);
            missing_dependency = (None \<in> set found);
            complete = list_all (\<lambda>d. g_status d = Done) dependencies
        in case find (\<lambda>d. g_status d \<in> {Failed, Cancelled}) dependencies of
          Some failed \<Rightarrow>
            seq_op (move Failed None moment) (modify_op (\<lambda>g. g\<lparr>
              g_last_error := Some (''dependency '' @ g_id failed @ '' did not complete''),
              g_blocked_reason := Some ''dependency_failed''\<rparr>)) g
        | None \<Rightarrow>
            if missing_dependency then move Blocked (Some ''missing_dependency'') moment g
            else if \<not> complete \<or> \<not> is_due moment g \<or> \<not> attempts_left g then
              move (if \<not> attempts_left g \<and> \<not> g_recurring g then Failed else Blocked)
                (Some (if \<not> attempts_left g then ''attempts''
                       else if \<not> complete then ''dependencies'' else ''schedule'')) moment g
            else if g_status g = Blocked \<and> g_blocked_reason g \<notin> Some ` {''dependencies'', ''schedule'', ''retry''}
            then skip_op g
            else if g_status g \<noteq> Active then move Runnable None moment g
            else skip_op g)"

definition refresh_goals :: "time \<Rightarrow> (goal list, unit) op" where
  "refresh_goals moment gs = for_op (\<lambda>i. on_item i (refresh_goal moment)) [0..<length gs] gs"

record goal_transition =
  gt_goal :: goal
  gt_before :: goal_status
  gt_after :: goal_status

definition status_changes :: "goal list \<Rightarrow> goal list \<Rightarrow> goal_transition list" where
  "status_changes old new =
     (let before = goal_dict old in
      concat (map (\<lambda>g. case dict_get before (g_id g) of None \<Rightarrow> []
        | Some b \<Rightarrow> if g_status b \<noteq> g_status g
            then [\<lparr>gt_goal = g, gt_before = g_status b, gt_after = g_status g\<rparr>] else []) new))"

definition refresh :: "time \<Rightarrow> (goal list, goal_transition list) op" where
  "refresh moment = read_op (\<lambda>old. seq_op (refresh_goals moment) (read_op (\<lambda>new. ret_op (status_changes old new))))"

definition runnable_goals :: "(goal \<Rightarrow> time \<Rightarrow> rat) \<Rightarrow> time \<Rightarrow> time \<Rightarrow> (goal list, goal list) op" where
  "runnable_goals score now moment =
     seq_op (refresh moment) (read_op (\<lambda>gs. ret_op (sort_key
       (\<lambda>g. (- score g moment, g_created_at g, g_id g))
       (filter (\<lambda>g. g_status g \<in> {Runnable, Active} \<and> is_open now g) gs))))"

definition next_goal :: "(goal \<Rightarrow> time \<Rightarrow> rat) \<Rightarrow> time \<Rightarrow> time \<Rightarrow> (goal list, goal option) op" where
  "next_goal score now moment = bind_op (runnable_goals score now moment)
     (\<lambda>gs. ret_op (case gs of [] \<Rightarrow> None | g # _ \<Rightarrow> Some g))"

definition stalled_goals :: "time \<Rightarrow> time \<Rightarrow> goal list \<Rightarrow> goal list" where
  "stalled_goals older_than moment gs =
     filter (\<lambda>g. g_status g \<in> {Active, Runnable} \<and> moment - g_updated_at g \<ge> older_than) gs"

section \<open>One goal's lifecycle\<close>

definition stall_cooldown_seconds :: rat where "stall_cooldown_seconds = 300"
definition stall_cooldown_max_seconds :: rat where "stall_cooldown_max_seconds = 3600"
definition stall_limit :: nat where "stall_limit = 3"

definition pause :: "time \<Rightarrow> (goal, bool) op" where
  "pause moment = read_op (\<lambda>g. if g_status g \<in> terminal_goal_statuses then ret_op False
     else seq_op (transition Blocked (Some paused) moment True)
       (read_op (\<lambda>g. ret_op (g_status g = Blocked \<and> g_blocked_reason g = Some paused))))"

definition record_failure :: "string \<Rightarrow> time \<Rightarrow> (goal, unit) op" where
  "record_failure reason moment = read_op (\<lambda>g.
     let was_blocked = (g_status g = Blocked) in
     seq_op (modify_op (\<lambda>g. g\<lparr>g_attempts := g_attempts g + 1, g_last_error := Some reason, g_updated_at := moment\<rparr>))
       (read_op (\<lambda>g.
          if \<not> g_recurring g \<and> int (g_attempts g) \<ge> attempt_limit g then move Failed None moment
          else let delay = rp_backoff_seconds (g_retry_policy g)
                     * rp_backoff_multiplier (g_retry_policy g) ^ (g_attempts g - 1)
               in if delay > 0 then
                    seq_op (modify_op (\<lambda>g. g\<lparr>g_next_attempt_at := Some (moment + seconds delay)\<rparr>))
                      (move Blocked (Some ''retry'') moment)
                  else if was_blocked then
                    (if g_status g \<noteq> Blocked then move Blocked (g_blocked_reason g) moment else skip_op)
                  else move Runnable None moment)))"

definition activate :: "time \<Rightarrow> (goal, unit) op" where
  "activate moment = read_op (\<lambda>g. seq_op (if g_status g = Pending then move Runnable None moment else skip_op)
     (move Active None moment))"

definition block :: "string \<Rightarrow> time \<Rightarrow> (goal, unit) op" where
  "block reason moment = move Blocked (Some reason) moment"

definition stall_cooldown :: "nat \<Rightarrow> rat" where
  "stall_cooldown stalls = min stall_cooldown_max_seconds (stall_cooldown_seconds * 2 ^ (stalls - 1))"

definition mark_stalled :: "string \<Rightarrow> time \<Rightarrow> (goal, unit) op" where
  "mark_stalled reason moment =
     seq_op (modify_op (\<lambda>g. g\<lparr>g_stalls := g_stalls g + 1, g_last_error := Some reason\<rparr>))
       (read_op (\<lambda>g.
          if \<not> g_recurring g \<and> g_stalls g \<ge> stall_limit then
            seq_op (move Failed None moment) (modify_op (\<lambda>g. g\<lparr>g_blocked_reason := Some ''stalled''\<rparr>))
          else seq_op (modify_op (\<lambda>g. g\<lparr>g_next_attempt_at := Some (moment + seconds (stall_cooldown (g_stalls g)))\<rparr>))
            (move Stalled (Some reason) moment)))"

definition cancel :: "string \<Rightarrow> time \<Rightarrow> (goal, unit) op" where
  "cancel reason moment = seq_op (modify_op (\<lambda>g. g\<lparr>g_recurring := False\<rparr>)) (move Cancelled (Some reason) moment)"

text \<open>A method on one goal, applied to the goal at place \<open>i\<close> of the mind.\<close>

definition at_goal :: "nat \<Rightarrow> (goal, 'a) op \<Rightarrow> (goal list, 'a) op" where
  "at_goal i f = on_item i (\<lambda>_. f)"

definition resume :: "nat \<Rightarrow> time \<Rightarrow> (goal list, bool) op" where
  "resume i moment = read_op (\<lambda>gs. let g = gs ! i in
     if g_status g \<noteq> Blocked \<or> g_blocked_reason g \<noteq> Some paused then ret_op False
     else seq_op (at_goal i (seq_op (modify_op (\<lambda>g. g\<lparr>g_blocked_reason := None\<rparr>))
                               (transition Runnable None moment True)))
            (seq_op (refresh moment) (ret_op True)))"

text \<open>\<open>if goal.cron: ... elif goal.interval_seconds: ...\<close>\<close>

definition reschedule :: "time \<Rightarrow> (goal, unit) op" where
  "reschedule moment = read_op (\<lambda>g. case g_cron g of
       Some (c # cs) \<Rightarrow> bind_op (lift_op (next_after (c # cs) moment))
         (\<lambda>t. modify_op (\<lambda>g. g\<lparr>g_next_attempt_at := Some t\<rparr>))
     | _ \<Rightarrow> (case g_interval_seconds g of
           Some n \<Rightarrow> if n \<noteq> 0 then modify_op (\<lambda>g. g\<lparr>g_next_attempt_at := Some (moment + seconds (of_int n))\<rparr>) else skip_op
         | None \<Rightarrow> skip_op))"

definition complete_goal :: "time \<Rightarrow> bool \<Rightarrow> (goal, unit) op" where
  "complete_goal moment human_override = read_op (\<lambda>g.
     if g_recurring g then
       seq_op (modify_op (\<lambda>g. g\<lparr>g_occurrence := g_occurrence g + 1\<rparr>))
      (seq_op (reschedule moment)
       (read_op (\<lambda>g. if g_next_attempt_at g \<noteq> None then move Blocked (Some ''schedule'') moment
                     else move Runnable None moment)))
     else bind_op (transition Done None moment human_override) (\<lambda>_. ret_op ()))"

definition complete :: "nat \<Rightarrow> time \<Rightarrow> bool \<Rightarrow> (goal list, goal_transition list) op" where
  "complete i moment human_override = read_op (\<lambda>gs.
     seq_op (if g_status (gs ! i) = Pending then seq_op (refresh moment) (ret_op ()) else ret_op ())
    (seq_op (at_goal i (complete_goal moment human_override)) (refresh moment)))"

section \<open>Conditions\<close>

record evaluation_context =
  ec_artifact_root :: "string option"
  ec_tool_results :: "(string, pyval) dict"
  ec_validator_results :: "(string, bool) dict"
  ec_human_approvals :: "string set"

definition empty_context :: evaluation_context where
  "empty_context = \<lparr>ec_artifact_root = None, ec_tool_results = [], ec_validator_results = [],
     ec_human_approvals = {}\<rparr>"

text \<open>\<open>str(value)\<close>; the text of floats, lists and dictionaries is the argument \<open>repr\<close>.\<close>

fun py_str :: "(pyval \<Rightarrow> string) \<Rightarrow> pyval \<Rightarrow> string" where
  "py_str repr PNone = ''None''"
| "py_str repr (PBool b) = (if b then ''True'' else ''False'')"
| "py_str repr (PInt i) = show_int i"
| "py_str repr (PStr s) = s"
| "py_str repr v = repr v"

definition is_absolute :: "string \<Rightarrow> bool" where
  "is_absolute path \<longleftrightarrow> (case path of [] \<Rightarrow> False | c # _ \<Rightarrow> c = CHR ''/'')"

definition goal_of :: "goal list \<Rightarrow> string \<Rightarrow> goal result" where
  "goal_of gs i = (case find_goal gs i of None \<Rightarrow> Inl (KeyError i) | Some g \<Rightarrow> Inr g)"

definition condition_met :: "(pyval \<Rightarrow> string) \<Rightarrow> (string \<Rightarrow> bool) \<Rightarrow> evaluation_context \<Rightarrow> belief list
    \<Rightarrow> goal list \<Rightarrow> goal_condition \<Rightarrow> bool result" where
  "condition_met repr path_exists context bs gs c = (case gc_kind c of
      Belief_Equals \<Rightarrow> Inr (case belief_of bs (gc_key c) of None \<Rightarrow> False
        | Some b \<Rightarrow> b_statement b = py_str repr (gc_value c))
    | Artifact_Exists \<Rightarrow>
        (if is_absolute (gc_path c) then Inr (path_exists (gc_path c))
         else (case ec_artifact_root context of None \<Rightarrow> Inr False
           | Some base \<Rightarrow> Inr (path_exists (base @ ''/'' @ gc_path c))))
    | Tool_Result \<Rightarrow> Inr (py_eq (dict_get_or (ec_tool_results context) (gc_key c) PNone) (gc_value c))
    | Child_Goals_Complete \<Rightarrow> bind_res (goal_of gs (gc_key c)) (\<lambda>g.
        if g_child_goal_ids g = [] then Inr False
        else all_res (\<lambda>i. bind_res (goal_of gs i) (\<lambda>child. Inr (g_status child = Done))) (g_child_goal_ids g))
    | Validator_Passes \<Rightarrow> Inr (dict_get (ec_validator_results context) (gc_key c) = Some (truthy (gc_value c)))
    | Human_Approval \<Rightarrow> Inr (gc_key c \<in> ec_human_approvals context))"

text \<open>\<open>evaluate\<close> on the goal at place \<open>i\<close>; \<open>met\<close> is \<open>condition_met\<close> in a context.\<close>

definition evaluate_goal :: "(goal list \<Rightarrow> goal_condition \<Rightarrow> bool result) \<Rightarrow> nat \<Rightarrow> time
    \<Rightarrow> (goal list, goal_status option) op" where
  "evaluate_goal met i moment = read_op (\<lambda>gs. let g = gs ! i in
     bind_op (lift_op (if g_failure_conditions g = [] then Inr False else any_res (met gs) (g_failure_conditions g)))
       (\<lambda>failed. if failed then seq_op (at_goal i (move Failed None moment)) (read_op (\<lambda>gs. ret_op (Some (g_status (gs ! i)))))
         else bind_op (lift_op (if g_success_conditions g = [] then Inr False else all_res (met gs) (g_success_conditions g)))
           (\<lambda>succeeded. if succeeded
              then seq_op (complete i moment False) (read_op (\<lambda>gs. ret_op (Some (g_status (gs ! i)))))
              else ret_op None)))"

section \<open>Creation\<close>

definition remove_child :: "string \<Rightarrow> goal \<Rightarrow> goal" where
  "remove_child i g = g\<lparr>g_child_goal_ids := filter (\<lambda>c. c \<noteq> i) (g_child_goal_ids g)\<rparr>"

definition create :: "string \<Rightarrow> time \<Rightarrow> goal_fields \<Rightarrow> (mind, unit) op" where
  "create new_id now f m = (case add_goal new_id now f m of
      Inl e \<Rightarrow> (Inl e, m)
    | Inr m1 \<Rightarrow> (case validate_graph (m_goals m1) of
        Inr _ \<Rightarrow> (case refresh now (m_goals m1) of (r, gs) \<Rightarrow> (map_sum id (\<lambda>_. ()) r, m1\<lparr>m_goals := gs\<rparr>))
      | Inl (GoalGraphError e) \<Rightarrow>
          let gs = filter (\<lambda>g. g_id g \<noteq> new_id) (m_goals m1)
          in (case f_parent_goal_id f of
                Some (c # cs) \<Rightarrow>
                  (case find_goal gs (c # cs) of
                     None \<Rightarrow> (Inl (KeyError (c # cs)), m1\<lparr>m_goals := gs\<rparr>)
                   | Some _ \<Rightarrow> (Inl (GoalGraphError e), m1\<lparr>m_goals := update_goal (c # cs) (remove_child new_id) gs\<rparr>))
              | _ \<Rightarrow> (Inl (GoalGraphError e), m1\<lparr>m_goals := gs\<rparr>))
      | Inl e \<Rightarrow> (Inl e, m1)))"

end
