(* ===== verification/Goal_Lifecycle.thy ===== *)
theory Goal_Lifecycle
  imports Goal_Manager
begin

text \<open>
  What the goal lifecycle guarantees: \<open>refresh\<close> never raises and only moves goals along legal
  transitions, what it leaves runnable is ready to run, failure and stall budgets close a goal,
  and the chosen goal is the best one.  The runs of the manager are a step relation, so what
  holds of every run is proved by rule induction.
\<close>

named_theorems goal_ops \<open>definitions of the operations on one goal\<close>

declare op_defs [goal_ops] move_def [goal_ops] transition_def [goal_ops] skip_op_def [goal_ops]

text \<open>A goal to try things on.\<close>

definition sample_goal :: "string \<Rightarrow> string list \<Rightarrow> goal_status \<Rightarrow> goal" where
  "sample_goal i deps st = (new_goal i 0 i)\<lparr>g_dependency_goal_ids := deps, g_status := st\<rparr>"

section \<open>One goal\<close>

lemma legal_from_terminal: "s \<in> terminal_goal_statuses \<Longrightarrow> legal_transitions s = {}"
  by (auto simp: terminal_goal_statuses_def)

lemma legal_failed: "s \<notin> terminal_goal_statuses \<Longrightarrow> Failed \<in> legal_transitions s"
  by (cases s) (auto simp: terminal_goal_statuses_def)

text \<open>A goal an operation of the manager may leave: same identity, links, schedule and budget.\<close>

definition refreshed :: "goal \<Rightarrow> goal \<Rightarrow> bool" where
  "refreshed g h \<longleftrightarrow>
     h\<lparr>g_status := g_status g, g_updated_at := g_updated_at g, g_blocked_reason := g_blocked_reason g,
       g_last_error := g_last_error g\<rparr> = g
     \<and> (g_status h = g_status g \<or> g_status h \<in> legal_transitions (g_status g))"

lemma refreshed_refl [simp]: "refreshed g g"
  by (simp add: refreshed_def)

lemma refreshed_keeps:
  assumes "refreshed g h"
  shows "g_id h = g_id g" "g_dependency_goal_ids h = g_dependency_goal_ids g"
    "g_child_goal_ids h = g_child_goal_ids g" "g_parent_goal_id h = g_parent_goal_id g"
    "g_next_attempt_at h = g_next_attempt_at g" "g_attempts h = g_attempts g"
    "attempt_limit h = attempt_limit g" "g_recurring h = g_recurring g" "g_deadline h = g_deadline g"
    "g_created_at h = g_created_at g"
proof -
  let ?h = "h\<lparr>g_status := g_status g, g_updated_at := g_updated_at g, g_blocked_reason := g_blocked_reason g,
       g_last_error := g_last_error g\<rparr>"
  from assms have eq: "?h = g" by (simp add: refreshed_def)
  have "attempt_limit ?h = attempt_limit h" by (simp add: attempt_limit_def split: option.split)
  then show "attempt_limit h = attempt_limit g" unfolding eq by simp
  show "g_id h = g_id g" using arg_cong [OF eq, of g_id] by simp
  show "g_dependency_goal_ids h = g_dependency_goal_ids g" using arg_cong [OF eq, of g_dependency_goal_ids] by simp
  show "g_child_goal_ids h = g_child_goal_ids g" using arg_cong [OF eq, of g_child_goal_ids] by simp
  show "g_parent_goal_id h = g_parent_goal_id g" using arg_cong [OF eq, of g_parent_goal_id] by simp
  show "g_next_attempt_at h = g_next_attempt_at g" using arg_cong [OF eq, of g_next_attempt_at] by simp
  show "g_attempts h = g_attempts g" using arg_cong [OF eq, of g_attempts] by simp
  show "g_recurring h = g_recurring g" using arg_cong [OF eq, of g_recurring] by simp
  show "g_deadline h = g_deadline g" using arg_cong [OF eq, of g_deadline] by simp
  show "g_created_at h = g_created_at g" using arg_cong [OF eq, of g_created_at] by simp
qed

lemma move_legal:
  assumes "status = g_status g \<or> status \<in> legal_transitions (g_status g)" "status \<noteq> Done"
  shows "\<exists>h. move status reason moment g = (Inr (), h) \<and> refreshed g h \<and> g_status h = status"
  using assms by (auto simp: goal_ops refreshed_def)

text \<open>One turn of the refresh loop, case by case.\<close>

lemma refresh_goal_open:
  assumes "g_status g \<notin> terminal_goal_statuses"
  shows "\<exists>h. refresh_goal moment gs g = (Inr (), h) \<and> refreshed g h"
proof -
  define ok where "ok r \<longleftrightarrow> (\<exists>h. r = (Inr (), h) \<and> refreshed g h)" for r :: "unit result \<times> goal"
  have skip: "ok (skip_op g)" by (simp add: ok_def goal_ops)
  have plain: "ok (move st r moment g)"
    if "st = g_status g \<or> st \<in> legal_transitions (g_status g)" "st \<noteq> Done" for st r
    using move_legal [OF that, of r moment] by (auto simp: ok_def)
  have noted: "ok (seq_op (move st r moment) (modify_op f) g)"
    if "st = g_status g \<or> st \<in> legal_transitions (g_status g)" "st \<noteq> Done"
      and "\<And>h. refreshed g h \<Longrightarrow> refreshed g (f h)" for st r f
    using move_legal [OF that(1,2), of r moment] that(3) by (auto simp: op_defs ok_def)
  have if_ok: "ok a \<Longrightarrow> ok b \<Longrightarrow> ok (if c then a else b)" for a b c by simp
  have case_ok: "(\<And>x. ok (f x)) \<Longrightarrow> ok n \<Longrightarrow> ok (case x of None \<Rightarrow> n | Some y \<Rightarrow> f y)"
    for f n and x :: "goal option" by (cases x) auto
  have legal: "st = g_status g \<or> st \<in> legal_transitions (g_status g)" if "st \<in> {Failed, Blocked, Runnable}" for st
    using that assms by (cases "g_status g") (auto simp: terminal_goal_statuses_def)
  have "ok (refresh_goal moment gs g)"
    unfolding refresh_goal_def Let_def
    by (intro if_ok case_ok skip plain noted legal) (simp_all add: refreshed_def)
  then show ?thesis by (simp add: ok_def)
qed

lemma refresh_goal_skips:
  assumes "g_status g \<in> terminal_goal_statuses \<or> g_status g = Blocked \<and> g_blocked_reason g = Some paused"
  shows "refresh_goal moment gs g = (Inr (), g)"
proof (cases "g_status g \<in> terminal_goal_statuses")
  case True
  then show ?thesis unfolding refresh_goal_def by (simp only: if_True skip_op_def ret_op_def)
next
  case False
  with assms have "(g_status g = Blocked \<and> g_blocked_reason g = Some paused) = True" by simp
  with False show ?thesis unfolding refresh_goal_def by (simp only: if_True if_False skip_op_def ret_op_def)
qed

lemma refresh_goal_run:
  "\<exists>h. refresh_goal moment gs g = (Inr (), h) \<and> refreshed g h
    \<and> (g_status g \<in> terminal_goal_statuses \<longrightarrow> h = g)
    \<and> (g_status g = Blocked \<and> g_blocked_reason g = Some paused \<longrightarrow> h = g)"
proof (cases "g_status g \<in> terminal_goal_statuses \<or> g_status g = Blocked \<and> g_blocked_reason g = Some paused")
  case True
  with refresh_goal_skips show ?thesis by (metis refreshed_refl)
next
  case False
  with refresh_goal_open [of g moment gs] show ?thesis by auto
qed

section \<open>The whole mind\<close>

text \<open>The loop processes every goal once, seeing those before it as it left them.\<close>

lemma refresh_goals_run:
  "\<exists>gs'. refresh_goals moment gs = (Inr (), gs') \<and> length gs' = length gs
    \<and> (\<forall>i < length gs. refresh_goal moment (take i gs' @ drop i gs) (gs ! i) = (Inr (), gs' ! i))"
proof -
  have "\<exists>hs. for_op (\<lambda>i. on_item i (refresh_goal moment)) [0..<n] gs = (Inr (), hs @ drop n gs) \<and> length hs = n
      \<and> (\<forall>i < n. refresh_goal moment (take i hs @ drop i gs) (gs ! i) = (Inr (), hs ! i))"
    if "n \<le> length gs" for n
    using that
  proof (induction n)
    case 0
    then show ?case by (simp add: op_defs)
  next
    case (Suc n)
    then obtain hs where run: "for_op (\<lambda>i. on_item i (refresh_goal moment)) [0..<n] gs = (Inr (), hs @ drop n gs)"
      and len: "length hs = n"
      and each: "\<forall>i < n. refresh_goal moment (take i hs @ drop i gs) (gs ! i) = (Inr (), hs ! i)" by auto
    obtain h where h: "refresh_goal moment (hs @ drop n gs) (gs ! n) = (Inr (), h)"
      using refresh_goal_run [of moment "hs @ drop n gs" "gs ! n"] by blast
    have d: "drop n gs = gs ! n # drop (Suc n) gs" using Suc.prems by (simp add: Cons_nth_drop_Suc)
    then have "(hs @ drop n gs) ! n = gs ! n" "(hs @ drop n gs)[n := h] = (hs @ [h]) @ drop (Suc n) gs"
      using len by (simp_all add: nth_append list_update_append)
    with run h have "for_op (\<lambda>i. on_item i (refresh_goal moment)) [0..<Suc n] gs = (Inr (), (hs @ [h]) @ drop (Suc n) gs)"
      by (simp add: for_op_snoc on_item_def op_defs)
    moreover have "\<forall>i < Suc n. refresh_goal moment (take i (hs @ [h]) @ drop i gs) (gs ! i) = (Inr (), (hs @ [h]) ! i)"
      using each h len by (auto simp: nth_append less_Suc_eq)
    ultimately show ?case using len by (intro exI [of _ "hs @ [h]"]) simp
  qed
  from this [of "length gs"] show ?thesis by (auto simp: refresh_goals_def)
qed

lemma refresh_goals_each:
  assumes "refresh_goals moment gs = (r, gs')"
  shows "r = Inr ()" "length gs' = length gs"
    "\<And>i. i < length gs \<Longrightarrow> refresh_goal moment (take i gs' @ drop i gs) (gs ! i) = (Inr (), gs' ! i)"
    "list_all2 refreshed gs gs'"
proof -
  note run = refresh_goals_run [of moment gs]
  from run assms show "r = Inr ()" "length gs' = length gs" by auto
  from run assms show each: "refresh_goal moment (take i gs' @ drop i gs) (gs ! i) = (Inr (), gs' ! i)"
    if "i < length gs" for i using that by auto
  have "refreshed (gs ! i) (gs' ! i)" if "i < length gs" for i
    using each [OF that] refresh_goal_run [of moment "take i gs' @ drop i gs" "gs ! i"] by auto
  with \<open>length gs' = length gs\<close> show "list_all2 refreshed gs gs'" by (simp add: list_all2_conv_all_nth)
qed

lemma refresh_result:
  "refresh moment gs = (Inr (status_changes gs (snd (refresh_goals moment gs))), snd (refresh_goals moment gs))"
  using refresh_goals_each(1) [of moment gs] by (cases "refresh_goals moment gs") (simp add: refresh_def op_defs)

lemma refresh_keeps_held:
  "\<exists>changes gs'. refresh moment gs = (Inr changes, gs') \<and> list_all2 refreshed gs gs'
    \<and> (\<forall>i < length gs. g_status (gs ! i) \<in> terminal_goal_statuses
          \<or> g_status (gs ! i) = Blocked \<and> g_blocked_reason (gs ! i) = Some paused \<longrightarrow> gs' ! i = gs ! i)"
proof -
  obtain r gs' where run: "refresh_goals moment gs = (r, gs')" by fastforce
  note each = refresh_goals_each [OF run]
  have "gs' ! i = gs ! i" if "i < length gs"
      "g_status (gs ! i) \<in> terminal_goal_statuses \<or> g_status (gs ! i) = Blocked \<and> g_blocked_reason (gs ! i) = Some paused" for i
    using each(3) [OF that(1)] refresh_goal_skips [OF that(2)] by simp
  with each run show ?thesis by (simp add: refresh_result)
qed

text \<open>
  C32. Refreshing never raises an illegal transition.  It keeps every goal in its place with its
  identity, links, schedule and budget, moves a status only along a legal edge, and leaves
  closed goals and goals a human paused exactly as they were.
\<close>

theorem refresh_safe:
  "\<exists>changes gs'. refresh moment gs = (Inr changes, gs') \<and> list_all2 refreshed gs gs'
    \<and> (\<forall>i < length gs. g_status (gs ! i) \<in> terminal_goal_statuses
          \<or> g_status (gs ! i) = Blocked \<and> g_blocked_reason (gs ! i) = Some paused \<longrightarrow> gs' ! i = gs ! i)"
  by (rule refresh_keeps_held)

lemma refresh_safe_witness:
  "snd (refresh 99 [(sample_goal ''a'' [] Blocked)\<lparr>g_blocked_reason := Some paused\<rparr>]) ! 0
    = (sample_goal ''a'' [] Blocked)\<lparr>g_blocked_reason := Some paused\<rparr>"
  using refresh_safe [of 99 "[(sample_goal ''a'' [] Blocked)\<lparr>g_blocked_reason := Some paused\<rparr>]"]
  by (auto simp: sample_goal_def)

section \<open>What is left runnable is ready\<close>

definition ready :: "time \<Rightarrow> goal list \<Rightarrow> goal \<Rightarrow> bool" where
  "ready moment gs g \<longleftrightarrow> \<not> past_deadline moment g \<and> is_due moment g
     \<and> (g_status g \<noteq> Stalled \<longrightarrow> attempts_left g \<and> dependencies_complete gs g)"

lemma found_complete:
  assumes "None \<notin> set (map (find_goal gs) ds)"
    and "list_all (\<lambda>d. g_status d = Done) (map the (filter (\<lambda>d. d \<noteq> None) (map (find_goal gs) ds)))"
  shows "list_all (\<lambda>i. case find_goal gs i of None \<Rightarrow> False | Some d \<Rightarrow> g_status d = Done) ds"
  using assms by (induction ds) (auto split: option.splits)

lemma refresh_goal_ready:
  assumes "refresh_goal moment gs g = (Inr (), h)" "g_status h \<in> {Runnable, Active}"
  shows "ready moment gs g"
proof (cases "g_status g \<in> terminal_goal_statuses \<or> g_status g = Blocked \<and> g_blocked_reason g = Some paused")
  case True
  with assms refresh_goal_skips [OF True, of moment gs] show ?thesis by (auto simp: terminal_goal_statuses_def)
next
  case False
  define ok where "ok r \<longleftrightarrow> (\<exists>h. r = (Inr (), h) \<and> (g_status h \<in> {Runnable, Active} \<longrightarrow> ready moment gs g))"
    for r :: "unit result \<times> goal"
  have legal: "st = g_status g \<or> st \<in> legal_transitions (g_status g)" if "st \<in> {Failed, Blocked, Runnable}" for st
    using that False by (cases "g_status g") (auto simp: terminal_goal_statuses_def)
  have closing: "ok (move st r moment g)" if "st \<in> {Failed, Blocked}" for st r
    using move_legal [OF legal, of st r moment] that by (auto simp: ok_def)
  have noted: "ok (seq_op (move Failed r moment) (modify_op f) g)" if "\<And>h. g_status (f h) = g_status h" for r f
    using move_legal [OF legal, of Failed r moment] that by (auto simp: op_defs ok_def)
  have ready_op: "ready moment gs g \<Longrightarrow> ok (move Runnable None moment g)" "ready moment gs g \<Longrightarrow> ok (skip_op g)"
    using move_legal [OF legal, of Runnable None moment] by (auto simp: ok_def skip_op_def ret_op_def)
  have waiting: "g_status g \<notin> {Runnable, Active} \<Longrightarrow> ok (skip_op g)" by (simp add: ok_def skip_op_def ret_op_def)
  have if_ok: "(c \<Longrightarrow> ok a) \<Longrightarrow> (\<not> c \<Longrightarrow> ok b) \<Longrightarrow> ok (if c then a else b)" for a b c by simp
  have case_ok: "(\<And>y. ok (f y)) \<Longrightarrow> ok n \<Longrightarrow> ok (case x of None \<Rightarrow> n | Some y \<Rightarrow> f y)"
    for f n and x :: "goal option" by (cases x) auto
  have "ok (refresh_goal moment gs g)"
    unfolding refresh_goal_def Let_def
    apply (intro if_ok case_ok)
    apply ((rule closing, simp; fail) | (rule noted, simp; fail) | (rule waiting, auto simp: terminal_goal_statuses_def; fail)
      | (rule ready_op, unfold ready_def dependencies_complete_def, intro conjI impI found_complete; simp; fail))+
    done
  with assms show ?thesis by (auto simp: ok_def)
qed

lemma refreshed_done: "refreshed g h \<Longrightarrow> g_status g = Done \<Longrightarrow> g_status h = Done"
  by (auto simp: refreshed_def)

text \<open>A dependency found complete during the loop is complete at its end.\<close>

lemma dependency_done_stable:
  assumes "list_all2 refreshed cs hs" "find_goal cs d = Some c" "g_status c = Done"
  shows "\<exists>h. find_goal hs d = Some h \<and> g_status h = Done"
  using assms
proof (induction cs hs rule: list_all2_induct)
  case Nil
  then show ?case by (simp add: find_goal_def)
next
  case (Cons x xs y ys)
  then show ?case using refreshed_keeps(1) [OF Cons.hyps(1)] refreshed_done [OF Cons.hyps(1)]
    by (auto simp: find_goal_def split: if_splits)
qed

lemma dependencies_complete_stable:
  assumes "list_all2 refreshed cs hs" "dependencies_complete cs g"
  shows "dependencies_complete hs g"
  using assms(2) dependency_done_stable [OF assms(1)]
  unfolding dependencies_complete_def list_all_iff by (fastforce split: option.splits)

lemma take_drop_refreshed:
  assumes "list_all2 refreshed gs hs"
  shows "list_all2 refreshed (take i hs @ drop i gs) hs"
proof -
  have "list_all2 refreshed (drop i gs) (drop i hs)" by (rule list_all2_dropI [OF assms])
  moreover have "list_all2 refreshed (take i hs) (take i hs)" by (simp add: list_all2_same)
  ultimately have "list_all2 refreshed (take i hs @ drop i gs) (take i hs @ drop i hs)" by (rule list_all2_appendI [rotated])
  then show ?thesis by simp
qed

text \<open>
  After a refresh every runnable or active goal is ready: it is past its waiting time and not
  past its deadline, and unless it has just come out of a stall it has attempts left and all its
  dependencies are done.
\<close>

theorem refresh_leaves_ready_goals:
  assumes "i < length gs" "g_status (snd (refresh moment gs) ! i) \<in> {Runnable, Active}"
  shows "is_due moment (gs ! i) \<and> \<not> past_deadline moment (gs ! i)
    \<and> (g_status (gs ! i) = Stalled \<or> attempts_left (gs ! i)
         \<and> dependencies_complete (snd (refresh moment gs)) (snd (refresh moment gs) ! i))"
proof -
  obtain r hs where run: "refresh_goals moment gs = (r, hs)" by fastforce
  note each = refresh_goals_each [OF run]
  have hs: "snd (refresh moment gs) = hs" using run by (simp add: refresh_result)
  have ready: "ready moment (take i hs @ drop i gs) (gs ! i)"
    using refresh_goal_ready [OF each(3) [OF assms(1)]] assms(2) hs by simp
  have "refreshed (gs ! i) (hs ! i)" using each(4) assms(1) by (auto simp: list_all2_conv_all_nth)
  from refreshed_keeps(2) [OF this] have "dependencies_complete hs (gs ! i) = dependencies_complete hs (hs ! i)"
    by (simp add: dependencies_complete_def)
  with ready dependencies_complete_stable [OF take_drop_refreshed [OF each(4)]] show ?thesis
    unfolding hs ready_def by blast
qed

lemma refresh_leaves_ready_goals_witness:
  "attempts_left (sample_goal ''a'' [] Pending) \<and>
    g_status (snd (refresh 5 [sample_goal ''a'' [] Pending]) ! 0) = Runnable"
proof -
  have s: "g_status (snd (refresh 5 [sample_goal ''a'' [] Pending]) ! 0) = Runnable" by code_simp
  with refresh_leaves_ready_goals [of 0 "[sample_goal ''a'' [] Pending]" 5] show ?thesis
    by (simp add: sample_goal_def new_goal_def)
qed

section \<open>The choice of the next goal\<close>

text \<open>
  The next goal is a runnable or active open goal of the refreshed mind that no other such
  goal beats: none scores higher, and among equal scores none is older.  There is none exactly
  when no such goal exists.
\<close>

theorem next_goal_best:
  "\<exists>r gs'. next_goal score now moment gs = (Inr r, gs') \<and> gs' = snd (refresh moment gs)
    \<and> (let open = {g \<in> set gs'. g_status g \<in> {Runnable, Active} \<and> is_open now g}
       in case r of None \<Rightarrow> open = {}
          | Some best \<Rightarrow> best \<in> open \<and> (\<forall>g\<in>open. score g moment < score best moment
               \<or> score g moment = score best moment \<and> g_created_at best \<le> g_created_at g))"
proof -
  let ?key = "\<lambda>g. (- score g moment, g_created_at g, g_id g)"
  obtain changes hs where refresh: "refresh moment gs = (Inr changes, hs)" using refresh_result by blast
  let ?gs = hs
  let ?open = "filter (\<lambda>g. g_status g \<in> {Runnable, Active} \<and> is_open now g) ?gs"
  have run: "next_goal score now moment gs =
      (Inr (case sort_key ?key ?open of [] \<Rightarrow> None | g # _ \<Rightarrow> Some g), ?gs)"
    unfolding next_goal_def runnable_goals_def op_defs refresh by simp
  have snd: "snd (refresh moment gs) = hs" by (simp add: refresh)
  show ?thesis
  proof (cases "sort_key ?key ?open")
    case Nil
    have "set ?open = set (sort_key ?key ?open)" by (rule set_sort [symmetric])
    then have "set ?open = {}" unfolding Nil by simp
    then show ?thesis
      unfolding run Let_def snd Nil by (intro exI [of _ None] exI [of _ ?gs]) (simp add: set_filter)
  next
    case (Cons best rest)
    have sorted: "sorted (map ?key (sort_key ?key ?open))" by simp
    have s: "set (best # rest) = set ?open" unfolding Cons [symmetric] by (rule set_sort)
    from sorted [unfolded Cons] have "\<forall>g\<in>set (best # rest). ?key best \<le> ?key g" by auto
    with s have "\<forall>g\<in>set ?open. ?key best \<le> ?key g" by simp
    then have "\<forall>g\<in>set ?open. score g moment < score best moment
        \<or> score g moment = score best moment \<and> g_created_at best \<le> g_created_at g"
      by auto
    moreover have "best \<in> set ?open" using s by auto
    ultimately show ?thesis
      unfolding run Let_def snd Cons by (intro exI [of _ "Some best"] exI [of _ ?gs]) (simp add: set_filter)
  qed
qed

lemma next_goal_best_witness:
  "\<exists>r gs'. next_goal (utility_score utility_defaults) 5 5 [sample_goal ''a'' [] Pending, sample_goal ''b'' [] Pending]
      = (Inr (Some r), gs') \<and> r \<in> set gs'"
proof -
  let ?n = "next_goal (utility_score utility_defaults) 5 5 [sample_goal ''a'' [] Pending, sample_goal ''b'' [] Pending]"
  have "(case fst ?n of Inr (Some g) \<Rightarrow> g_id g = ''a'' | _ \<Rightarrow> False)" by code_simp
  with next_goal_best [of "utility_score utility_defaults" 5 5 "[sample_goal ''a'' [] Pending, sample_goal ''b'' [] Pending]"]
  show ?thesis by (auto simp: Let_def split: option.splits)
qed

section \<open>Budgets\<close>

lemma move_open:
  assumes "g_status g \<notin> terminal_goal_statuses" "status \<in> {Failed, Blocked, Runnable}"
  shows "\<exists>h. move status reason moment g = (Inr (), h) \<and> g_status h = status
    \<and> g_next_attempt_at h = g_next_attempt_at g \<and> g_attempts h = g_attempts g \<and> g_stalls h = g_stalls g"
  using assms by (cases "g_status g") (auto simp: goal_ops terminal_goal_statuses_def)

lemma move_stalled:
  assumes "g_status g \<in> {Runnable, Active, Blocked, Stalled}"
  shows "\<exists>h. move Stalled reason moment g = (Inr (), h) \<and> g_status h = Stalled
    \<and> g_next_attempt_at h = g_next_attempt_at g \<and> g_stalls h = g_stalls g"
  using assms by (auto simp: goal_ops)

text \<open>The delay before the next attempt, after the given number of failures.\<close>

definition retry_delay :: "goal \<Rightarrow> nat \<Rightarrow> rat" where
  "retry_delay g attempts = rp_backoff_seconds (g_retry_policy g)
     * rp_backoff_multiplier (g_retry_policy g) ^ (attempts - 1)"

text \<open>
  Recording a failure on an open goal counts it and never raises.  A one-shot goal fails for
  good exactly when the count reaches its limit; otherwise a positive back-off blocks it until
  that much later, a goal that was blocked stays so, and any other becomes runnable.
\<close>

theorem record_failure_budget:
  assumes "g_status g \<notin> terminal_goal_statuses"
  shows "\<exists>h. record_failure reason moment g = (Inr (), h) \<and> g_attempts h = g_attempts g + 1
    \<and> (g_status h = Failed \<longleftrightarrow> \<not> g_recurring g \<and> attempt_limit g \<le> int (g_attempts g + 1))
    \<and> (g_status h \<noteq> Failed \<longrightarrow>
         (if retry_delay g (g_attempts g + 1) > 0
          then g_status h = Blocked
            \<and> g_next_attempt_at h = Some (moment + seconds (retry_delay g (g_attempts g + 1)))
          else g_status h = (if g_status g = Blocked then Blocked else Runnable)))"
proof -
  let ?g = "g\<lparr>g_attempts := g_attempts g + 1, g_last_error := Some reason, g_updated_at := moment\<rparr>"
  let ?d = "retry_delay g (g_attempts g + 1)"
  let ?w = "?g\<lparr>g_next_attempt_at := Some (moment + seconds ?d)\<rparr>"
  have lim: "attempt_limit (g\<lparr>g_attempts := a, g_last_error := e, g_updated_at := u\<rparr>) = attempt_limit g" for a e u
    by (simp add: attempt_limit_def split: option.split)
  have run: "record_failure reason moment g =
      (if \<not> g_recurring g \<and> attempt_limit g \<le> int (g_attempts g + 1) then move Failed None moment ?g
       else if ?d > 0 then move Blocked (Some ''retry'') moment ?w
       else if g_status g = Blocked then skip_op ?g
       else move Runnable None moment ?g)"
    by (simp add: record_failure_def op_defs Let_def lim retry_delay_def)
  from assms have op: "g_status ?g \<notin> terminal_goal_statuses" "g_status ?w \<notin> terminal_goal_statuses" by simp_all
  show ?thesis
    using move_open [OF op(1), of Failed None moment] move_open [OF op(2), of Blocked "Some ''retry''" moment]
      move_open [OF op(1), of Runnable None moment] assms
    unfolding run by (auto simp: skip_op_def ret_op_def terminal_goal_statuses_def)
qed

lemma record_failure_budget_witness:
  "\<exists>h. record_failure ''boom'' 9 ((sample_goal ''a'' [] Active)\<lparr>g_attempts := 5\<rparr>) = (Inr (), h) \<and> g_status h = Failed"
  using record_failure_budget [of "(sample_goal ''a'' [] Active)\<lparr>g_attempts := 5\<rparr>" "''boom''" 9]
  by (auto simp: sample_goal_def new_goal_def terminal_goal_statuses_def attempt_limit_def)

lemma stall_cooldown_int: "stall_cooldown n = of_int (min 3600 (300 * 2 ^ (n - 1)))"
  by (simp add: stall_cooldown_def stall_cooldown_max_seconds_def stall_cooldown_seconds_def of_int_min)

text \<open>
  A stall pauses a goal for five minutes at least and an hour at most, doubling with each
  stall, and the third stall of a one-shot goal fails it.
\<close>

theorem mark_stalled_bounds:
  assumes "g_status g \<in> {Runnable, Active, Blocked, Stalled}"
  shows "\<exists>h. mark_stalled reason moment g = (Inr (), h) \<and> g_stalls h = g_stalls g + 1
    \<and> (if \<not> g_recurring g \<and> g_stalls g + 1 \<ge> 3 then g_status h = Failed
       else g_status h = Stalled
         \<and> g_next_attempt_at h = Some (moment + 1000000 * min 3600 (300 * 2 ^ g_stalls g))
         \<and> \<not> is_due (moment + 300000000 - 1) h \<and> is_due (moment + 3600000000) h)"
proof -
  let ?g = "g\<lparr>g_stalls := g_stalls g + 1, g_last_error := Some reason\<rparr>"
  define t where "t = moment + 1000000 * min 3600 (300 * 2 ^ g_stalls g)"
  let ?w = "?g\<lparr>g_next_attempt_at := Some t\<rparr>"
  have cool: "moment + seconds (stall_cooldown (g_stalls g + 1)) = t"
    unfolding stall_cooldown_int seconds_of_int t_def by simp
  have run: "mark_stalled reason moment g =
      (if \<not> g_recurring g \<and> g_stalls g + 1 \<ge> 3
       then seq_op (move Failed None moment) (modify_op (\<lambda>g. g\<lparr>g_blocked_reason := Some ''stalled''\<rparr>)) ?g
       else move Stalled (Some reason) moment ?w)"
    using cool by (simp add: mark_stalled_def op_defs stall_limit_def)
  have "(1::int) \<le> 2 ^ g_stalls g" by simp
  then have t: "moment + 300000000 \<le> t" "t \<le> moment + 3600000000" unfolding t_def by (simp_all add: min_def)
  from assms have op: "g_status ?g \<notin> terminal_goal_statuses" "g_status ?w \<in> {Runnable, Active, Blocked, Stalled}"
    by (auto simp: terminal_goal_statuses_def)
  show ?thesis
    using move_open [OF op(1), of Failed None moment] move_stalled [OF op(2), of "Some reason" moment] t
    unfolding run is_due_def t_def [symmetric] by (auto simp: op_defs)
qed

lemma mark_stalled_bounds_witness:
  "\<exists>h. mark_stalled ''no progress'' 0 ((sample_goal ''a'' [] Active)\<lparr>g_stalls := 1\<rparr>) = (Inr (), h)
    \<and> g_next_attempt_at h = Some 600000000"
  using mark_stalled_bounds [of "(sample_goal ''a'' [] Active)\<lparr>g_stalls := 1\<rparr>" "''no progress''" 0]
  by (auto simp: sample_goal_def new_goal_def)

section \<open>Runs of the manager\<close>

text \<open>
  One call of the manager on the goals of a mind, without a human override; a call that raises
  leaves what it had assigned.
\<close>

inductive goal_step :: "goal list \<Rightarrow> goal list \<Rightarrow> bool" where
  step_refresh: "goal_step gs (snd (refresh moment gs))"
| step_failure: "i < length gs \<Longrightarrow> goal_step gs (snd (at_goal i (record_failure reason moment) gs))"
| step_activate: "i < length gs \<Longrightarrow> goal_step gs (snd (at_goal i (activate moment) gs))"
| step_block: "i < length gs \<Longrightarrow> goal_step gs (snd (at_goal i (block reason moment) gs))"
| step_stall: "i < length gs \<Longrightarrow> goal_step gs (snd (at_goal i (mark_stalled reason moment) gs))"
| step_cancel: "i < length gs \<Longrightarrow> goal_step gs (snd (at_goal i (cancel reason moment) gs))"
| step_pause: "i < length gs \<Longrightarrow> goal_step gs (snd (at_goal i (pause moment) gs))"
| step_resume: "i < length gs \<Longrightarrow> goal_step gs (snd (resume i moment gs))"
| step_complete: "i < length gs \<Longrightarrow> goal_step gs (snd (complete i moment False gs))"
| step_evaluate: "i < length gs \<Longrightarrow> goal_step gs (snd (evaluate_goal met i moment gs))"

inductive goal_run :: "goal list \<Rightarrow> goal list \<Rightarrow> bool" where
  run_start: "goal_run gs gs"
| run_step: "goal_run gs hs \<Longrightarrow> goal_step hs ks \<Longrightarrow> goal_run gs ks"

inductive_cases goal_stepE: "goal_step gs hs"

text \<open>What every step keeps of a goal: its identity and links, and a closed status.\<close>

definition same_goal :: "goal \<Rightarrow> goal \<Rightarrow> bool" where
  "same_goal g h \<longleftrightarrow> g_id h = g_id g \<and> g_dependency_goal_ids h = g_dependency_goal_ids g
     \<and> g_child_goal_ids h = g_child_goal_ids g \<and> g_parent_goal_id h = g_parent_goal_id g
     \<and> (g_status g \<in> terminal_goal_statuses \<longrightarrow> g_status h = g_status g)"

lemma same_goal_refl [simp]: "same_goal g g"
  by (simp add: same_goal_def)

lemma same_goal_trans: "same_goal g h \<Longrightarrow> same_goal h k \<Longrightarrow> same_goal g k"
  by (simp add: same_goal_def)

lemma refreshed_same: "refreshed g h \<Longrightarrow> same_goal g h"
  using refreshed_keeps [of g h] legal_from_terminal by (auto simp: same_goal_def refreshed_def)

definition safe_op :: "(goal, 'a) op \<Rightarrow> bool" where
  "safe_op f \<longleftrightarrow> (\<forall>g. same_goal g (snd (f g)))"

named_theorems safe \<open>operations that keep a goal's identity and a closed status\<close>

lemma safe_ret [safe]: "safe_op (ret_op x)" "safe_op (lift_op r)" "safe_op skip_op"
  by (simp_all add: safe_op_def op_defs skip_op_def)

lemma safe_bind [safe]: "safe_op m \<Longrightarrow> (\<And>x. safe_op (f x)) \<Longrightarrow> safe_op (bind_op m f)"
  unfolding safe_op_def bind_op_def
  by (auto split: prod.splits sum.splits) (metis same_goal_trans snd_conv)+

lemma safe_seq [safe]: "safe_op m \<Longrightarrow> safe_op n \<Longrightarrow> safe_op (seq_op m n)"
  by (simp add: seq_op_def safe_bind)

lemma safe_read [safe]: "(\<And>g. safe_op (f g)) \<Longrightarrow> safe_op (read_op f)"
  by (simp add: safe_op_def read_op_def)

lemma safe_if [safe]: "safe_op m \<Longrightarrow> safe_op n \<Longrightarrow> safe_op (if c then m else n)"
  by simp

lemma safe_modify [safe]: "(\<And>g. same_goal g (f g)) \<Longrightarrow> safe_op (modify_op f)"
  by (simp add: safe_op_def modify_op_def)

lemma safe_transition [safe]: "safe_op (transition status reason moment False)"
  by (auto simp: safe_op_def transition_def same_goal_def Let_def dest: legal_from_terminal)

lemma safe_move [safe]: "safe_op (move status reason moment)"
  unfolding move_def by (intro safe)

lemma safe_lifecycle [safe]:
  "safe_op (record_failure reason moment)" "safe_op (activate moment)" "safe_op (block reason moment)"
  "safe_op (mark_stalled reason moment)" "safe_op (cancel reason moment)"
  unfolding record_failure_def activate_def block_def mark_stalled_def cancel_def Let_def
  by (intro safe; simp add: same_goal_def)+

lemma safe_pause [safe]: "safe_op (pause moment)"
  by (auto simp: safe_op_def pause_def op_defs transition_def same_goal_def Let_def
      split: prod.splits sum.splits)

lemma safe_reschedule [safe]: "safe_op (reschedule moment)"
  unfolding reschedule_def
  by (intro safe_read) (auto split: option.split list.split intro!: safe simp: same_goal_def)

lemma safe_complete_goal [safe]: "safe_op (complete_goal moment False)"
  unfolding complete_goal_def by (intro safe; simp add: same_goal_def)

text \<open>The same for operations on the whole mind.\<close>

definition safe_all :: "(goal list, 'a) op \<Rightarrow> bool" where
  "safe_all f \<longleftrightarrow> (\<forall>gs. list_all2 same_goal gs (snd (f gs)))"

lemma same_goals_refl [simp]: "list_all2 same_goal gs gs"
  by (simp add: list_all2_same)

lemma same_goals_trans:
  "list_all2 same_goal gs hs \<Longrightarrow> list_all2 same_goal hs ks \<Longrightarrow> list_all2 same_goal gs ks"
  by (rule list_all2_trans [OF same_goal_trans])

lemma safe_all_ret: "safe_all (ret_op x)" "safe_all (lift_op r)"
  by (simp_all add: safe_all_def op_defs)

lemma safe_all_bind: "safe_all m \<Longrightarrow> (\<And>x. safe_all (f x)) \<Longrightarrow> safe_all (bind_op m f)"
  unfolding safe_all_def bind_op_def
  by (auto split: prod.splits sum.splits) (metis same_goals_trans snd_conv)+

lemma safe_all_seq: "safe_all m \<Longrightarrow> safe_all n \<Longrightarrow> safe_all (seq_op m n)"
  by (simp add: seq_op_def safe_all_bind)

lemma safe_all_read: "(\<And>gs. safe_all (f gs)) \<Longrightarrow> safe_all (read_op f)"
  by (simp add: safe_all_def read_op_def)

lemma safe_all_if: "safe_all m \<Longrightarrow> safe_all n \<Longrightarrow> safe_all (if c then m else n)"
  by simp

lemma safe_all_refresh: "safe_all (refresh moment)"
  unfolding safe_all_def refresh_result
  using refresh_goals_each(4) refreshed_same by (metis list_all2_mono prod.collapse snd_conv)

lemma safe_all_at:
  assumes "safe_op f"
  shows "safe_all (at_goal i f)"
  unfolding safe_all_def
proof
  fix gs
  obtain r h where h: "f (gs ! i) = (r, h)" by fastforce
  with assms have "same_goal (gs ! i) h" unfolding safe_op_def by (metis snd_conv)
  then have "same_goal (gs ! j) (gs[i := h] ! j)" if "j < length gs" for j
    using that by (cases "j = i") simp_all
  then show "list_all2 same_goal gs (snd (at_goal i f gs))"
    by (simp add: at_goal_def on_item_def h list_all2_conv_all_nth)
qed

lemmas safe_all_rules = safe_all_ret safe_all_bind safe_all_seq safe_all_read safe_all_if
  safe_all_refresh safe_all_at

lemma safe_all_complete: "safe_all (complete i moment False)"
  unfolding complete_def by (intro safe_all_rules safe)

lemma safe_all_evaluate: "safe_all (evaluate_goal met i moment)"
  unfolding evaluate_goal_def Let_def by (intro safe_all_rules safe safe_all_complete)

lemma resume_same:
  assumes "i < length gs"
  shows "list_all2 same_goal gs (snd (resume i moment gs))"
proof (cases "g_status (gs ! i) = Blocked \<and> g_blocked_reason (gs ! i) = Some paused")
  case True
  let ?f = "seq_op (modify_op (\<lambda>g. g\<lparr>g_blocked_reason := None\<rparr>)) (transition Runnable None moment True)"
  obtain r hs where first: "at_goal i ?f gs = (r, hs)" by fastforce
  have "list_all2 same_goal gs hs"
    using True assms first by (auto simp: at_goal_def on_item_def op_defs transition_def Let_def same_goal_def
        list_all2_conv_all_nth nth_list_update terminal_goal_statuses_def)
  moreover have "list_all2 same_goal hs (snd (seq_op (refresh moment) (ret_op True) hs))"
    using safe_all_seq [OF safe_all_refresh safe_all_ret(1) [of True]] by (simp add: safe_all_def)
  ultimately show ?thesis
    using True first by (auto simp: resume_def Let_def read_op_def seq_op_def bind_op_def
        split: sum.split intro: same_goals_trans)
next
  case False
  then have "resume i moment gs = (Inr False, gs)" by (auto simp: resume_def read_op_def ret_op_def)
  then show ?thesis by simp
qed

lemma goal_step_same: "goal_step gs hs \<Longrightarrow> list_all2 same_goal gs hs"
proof (erule goal_stepE)
  show ?thesis if "hs = snd (refresh moment gs)" for moment
    using that safe_all_refresh by (simp add: safe_all_def)
qed (use safe_all_at [OF safe_lifecycle(1)] safe_all_at [OF safe_lifecycle(2)] safe_all_at [OF safe_lifecycle(3)]
    safe_all_at [OF safe_lifecycle(4)] safe_all_at [OF safe_lifecycle(5)] safe_all_at [OF safe_pause]
    safe_all_complete safe_all_evaluate resume_same in \<open>simp_all add: safe_all_def\<close>)

text \<open>
  C33. Closed is closed: along any run of the manager without a human override, refreshes,
  failures, stalls, pauses, resumptions, completions and evaluations included and even those that
  raise, the goals keep their places and links and a finished, failed or cancelled goal keeps
  that status.
\<close>

theorem closed_goals_stay_closed:
  assumes "goal_run gs hs"
  shows "map g_id hs = map g_id gs
    \<and> (\<forall>i < length gs. g_status (gs ! i) \<in> {Done, Failed, Cancelled} \<longrightarrow> g_status (hs ! i) = g_status (gs ! i))"
proof -
  from assms have "list_all2 same_goal gs hs"
    by (induction rule: goal_run.induct) (auto dest: goal_step_same intro: same_goals_trans)
  then show ?thesis
    by (auto simp: list_all2_conv_all_nth same_goal_def terminal_goal_statuses_def intro: nth_equalityI)
qed

lemma closed_goals_stay_closed_witness:
  "g_status (snd (refresh 5 [sample_goal ''a'' [] Failed]) ! 0) = Failed"
  using closed_goals_stay_closed [OF run_step [OF run_start step_refresh [of "[sample_goal ''a'' [] Failed]" 5]]]
  by (simp add: sample_goal_def)

lemma refresh_goal_reason:
  assumes "refresh_goal moment gs g = (Inr (), h)" "g_blocked_reason g \<noteq> Some paused"
  shows "g_blocked_reason h \<noteq> Some paused"
proof -
  define ok where "ok r \<longleftrightarrow> g_blocked_reason (snd r) \<noteq> Some paused" for r :: "unit result \<times> goal"
  have moved: "ok (move st r moment g)" if "r \<noteq> Some paused" for st r
    using that assms(2) by (simp add: ok_def goal_ops Let_def)
  have noted: "ok (seq_op (move st None moment) (modify_op f) g)" if "\<And>h. g_blocked_reason (f h) \<noteq> Some paused" for st f
    using that assms(2) by (simp add: ok_def goal_ops Let_def)
  have skip: "ok (skip_op g)" using assms(2) by (simp add: ok_def goal_ops)
  have if_ok: "ok a \<Longrightarrow> ok b \<Longrightarrow> ok (if c then a else b)" for a b c by simp
  have case_ok: "(\<And>x. ok (f x)) \<Longrightarrow> ok n \<Longrightarrow> ok (case x of None \<Rightarrow> n | Some y \<Rightarrow> f y)"
    for f n and x :: "goal option" by (cases x) auto
  have "ok (refresh_goal moment gs g)"
    unfolding refresh_goal_def Let_def
    by (intro if_ok case_ok skip noted moved) (simp_all add: paused_def)
  with assms(1) show ?thesis by (simp add: ok_def)
qed

text \<open>
  Only \<open>resume\<close> reopens a paused goal: whatever the times, however often the mind is
  refreshed, the goal stays exactly as it was; resuming it succeeds and leaves it no longer held.
\<close>

theorem paused_until_resumed:
  assumes "i < length gs" "g_status (gs ! i) = Blocked" "g_blocked_reason (gs ! i) = Some paused"
  shows "fold (\<lambda>t gs. snd (refresh t gs)) moments gs ! i = gs ! i
    \<and> (\<exists>hs. resume i moment gs = (Inr True, hs) \<and> g_blocked_reason (hs ! i) \<noteq> Some paused)"
proof -
  have "length hs = length gs \<and> hs ! i = gs ! i \<Longrightarrow> fold (\<lambda>t gs. snd (refresh t gs)) moments hs ! i = gs ! i" for hs
  proof (induction moments arbitrary: hs)
    case Nil
    then show ?case by simp
  next
    case (Cons t ts)
    obtain changes ks where k: "refresh t hs = (Inr changes, ks)" "list_all2 refreshed hs ks"
        "\<forall>j < length hs. g_status (hs ! j) \<in> terminal_goal_statuses
          \<or> g_status (hs ! j) = Blocked \<and> g_blocked_reason (hs ! j) = Some paused \<longrightarrow> ks ! j = hs ! j"
      using refresh_keeps_held [of t hs] by blast
    with assms Cons.prems have "length ks = length gs \<and> ks ! i = gs ! i"
      by (auto dest: list_all2_lengthD)
    from Cons.IH [OF this] k(1) show ?case by simp
  qed
  moreover have "\<exists>hs. resume i moment gs = (Inr True, hs) \<and> g_blocked_reason (hs ! i) \<noteq> Some paused"
  proof -
    let ?g = "(gs ! i)\<lparr>g_blocked_reason := None, g_status := Runnable, g_updated_at := moment, g_blocked_reason := None\<rparr>"
    let ?gs = "gs[i := ?g]"
    obtain r hs where run: "refresh_goals moment ?gs = (r, hs)" by fastforce
    note each = refresh_goals_each [OF run]
    have "g_blocked_reason (hs ! i) \<noteq> Some paused"
      using refresh_goal_reason [OF each(3) [of i]] assms(1) by simp
    moreover have "resume i moment gs = (Inr True, hs)"
      using assms run by (simp add: resume_def op_defs at_goal_def on_item_def transition_def Let_def refresh_result)
    ultimately show ?thesis by blast
  qed
  ultimately show ?thesis by simp
qed

lemma paused_until_resumed_witness:
  "\<exists>hs. resume 0 9 [(sample_goal ''a'' [] Blocked)\<lparr>g_blocked_reason := Some paused\<rparr>] = (Inr True, hs)
    \<and> g_blocked_reason (hs ! 0) \<noteq> Some paused"
  using paused_until_resumed [of 0 "[(sample_goal ''a'' [] Blocked)\<lparr>g_blocked_reason := Some paused\<rparr>]" "[]" 9]
  by (auto simp: sample_goal_def)

end
