(* ===== verification/Py_Graph.thy ===== *)
theory Py_Graph
  imports Py_Prelude
begin

text \<open>
  Directed graphs as relations: what a depth-first search has established about the nodes it has
  finished, and paths as lists of nodes.  Shared by the goal graph and the procedure graph.
\<close>

section \<open>Settled nodes\<close>

text \<open>What a search keeps while it succeeds: finished nodes are closed under edges and on no cycle.\<close>

definition settled :: "('a \<times> 'a) set \<Rightarrow> 'a set \<Rightarrow> bool" where
  "settled R vs \<longleftrightarrow> (\<forall>i \<in> vs. R `` {i} \<subseteq> vs \<and> (i, i) \<notin> R\<^sup>+)"

lemma settled_empty [simp]: "settled R {}"
  by (simp add: settled_def)

lemma settled_closed: "settled R vs \<Longrightarrow> i \<in> vs \<Longrightarrow> (i, j) \<in> R\<^sup>+ \<Longrightarrow> j \<in> vs"
proof (rotate_tac 2, induction rule: trancl_induct)
  case (base y)
  then show ?case by (auto simp: settled_def)
next
  case (step y z)
  then show ?case by (auto simp: settled_def)
qed

lemma settled_insert:
  assumes "settled R vs" "R `` {i} \<subseteq> vs" "i \<notin> vs"
  shows "settled R (insert i vs)"
proof -
  have "(i, i) \<notin> R\<^sup>+"
  proof
    assume "(i, i) \<in> R\<^sup>+"
    then consider "(i, i) \<in> R" | d where "(i, d) \<in> R" "(d, i) \<in> R\<^sup>+"
      by (meson converse_tranclE)
    then show False using assms(2,3) settled_closed [OF assms(1)] by cases blast+
  qed
  with assms(1,2) show ?thesis by (auto simp: settled_def)
qed

section \<open>Paths\<close>

text \<open>\<open>walk R p\<close>: consecutive nodes of \<open>p\<close> are joined by edges.\<close>

fun walk :: "('a \<times> 'a) set \<Rightarrow> 'a list \<Rightarrow> bool" where
  "walk R (x # y # p) = ((x, y) \<in> R \<and> walk R (y # p))"
| "walk R _ = True"

lemma walk_snoc: "walk R (p @ [x, y]) = (walk R (p @ [x]) \<and> (x, y) \<in> R)"
  by (induction R p rule: walk.induct) auto

lemma walk_reaches: "walk R (x # p) \<Longrightarrow> y \<in> set (x # p) \<Longrightarrow> (x, y) \<in> R\<^sup>*"
proof (induction p arbitrary: x)
  case (Cons z p)
  then show ?case by (auto intro: converse_rtrancl_into_rtrancl)
qed simp

lemma reaches_walk: "(x, y) \<in> R\<^sup>* \<Longrightarrow> \<exists>p. walk R (p @ [y]) \<and> hd (p @ [y]) = x"
proof (induction rule: rtrancl_induct)
  case base
  show ?case by (rule exI [of _ "[]"]) simp
next
  case (step y z)
  then obtain p where "walk R (p @ [y])" "hd (p @ [y]) = x" by blast
  with step(2) walk_snoc [of R p y z] show ?case by (intro exI [of _ "p @ [y]"]) (cases p; simp)
qed

end
