(* ===== verification/Goal_Graph.thy ===== *)
theory Goal_Graph
  imports Goal_Lifecycle Py_Graph
begin

text \<open>
  The dependency graph check of \<open>GoalManager.validate_graph\<close> against its specification: every
  reference names a goal of the mind, and the dependency relation has no cycle.
\<close>

definition depends :: "(string, goal) dict \<Rightarrow> (string \<times> string) set" where
  "depends goals = {(i, d). \<exists>g. dict_get goals i = Some g \<and> d \<in> set (g_dependency_goal_ids g)}"

definition references_known :: "(string, goal) dict \<Rightarrow> goal \<Rightarrow> bool" where
  "references_known goals g \<longleftrightarrow>
     (\<forall>r \<in> set (g_dependency_goal_ids g) \<union> set (g_child_goal_ids g) \<union> set_option (g_parent_goal_id g).
        r \<in> fst ` set goals)"

section \<open>The depth-first search\<close>

lemma visit_all_settles:
  assumes "visit_all goals path is vs = Inr vs'" "settled (depends goals) vs" "path \<inter> vs = {}"
  shows "settled (depends goals) vs' \<and> vs \<union> set is \<subseteq> vs' \<and> path \<inter> vs' = {}"
  using assms
proof (induction goals path "is" vs arbitrary: vs' rule: visit_all.induct)
  case (1 goals path vs)
  then show ?case by simp
next
  case (2 goals path i "is" vs)
  from 2(3) have i: "i \<notin> path" by (auto split: if_splits)
  with 2(3) obtain vs1 where
      first: "(if i \<in> vs then Inr vs
         else case dict_get goals i of None \<Rightarrow> Inl (KeyError i)
           | Some g \<Rightarrow> map_sum id (insert i) (visit_all goals (insert i path) (g_dependency_goal_ids g) vs)) = Inr vs1"
    and rest: "visit_all goals path is vs1 = Inr vs'"
    by (auto simp: bind_res_Inr)
  have one: "settled (depends goals) vs1 \<and> vs \<union> {i} \<subseteq> vs1 \<and> path \<inter> vs1 = {}"
  proof (cases "i \<in> vs")
    case True
    with first 2(4,5) show ?thesis by auto
  next
    case False
    with first obtain g vs0 where g: "dict_get goals i = Some g" and vs1: "vs1 = insert i vs0"
      and sub: "visit_all goals (insert i path) (g_dependency_goal_ids g) vs = Inr vs0"
      by (auto split: option.splits simp: map_sum_Inr)
    from 2(1) [OF i False g sub 2(4)] 2(5) False
    have "settled (depends goals) vs0" "vs \<union> set (g_dependency_goal_ids g) \<subseteq> vs0" "insert i path \<inter> vs0 = {}" by auto
    moreover from this g have "depends goals `` {i} \<subseteq> vs0" by (auto simp: depends_def)
    ultimately show ?thesis using settled_insert [of "depends goals" vs0 i] vs1 i by auto
  qed
  from 2(2) [OF i first rest] one show ?case by auto
qed

text \<open>It does not fail on a graph without cycles or missing references.\<close>

lemma visit_all_acyclic:
  assumes "acyclic (depends goals)" "set is \<subseteq> fst ` set goals"
    and "\<And>g. g \<in> snd ` set goals \<Longrightarrow> references_known goals g"
    and "path \<times> set is \<subseteq> (depends goals)\<^sup>+"
  shows "\<exists>vs'. visit_all goals path is vs = Inr vs'"
  using assms
proof (induction goals path "is" vs rule: visit_all.induct)
  case (1 goals path vs)
  then show ?case by simp
next
  case (2 goals path i "is" vs)
  from 2(3,6) have i: "i \<notin> path" by (auto simp: acyclic_def)
  from 2(4) obtain g where g: "dict_get goals i = Some g"
    by (metis dict_get_None list.set_intros(1) not_None_eq subsetD)
  have known: "references_known goals g" using 2(5) dict_get_in [OF g] by force
  have "\<exists>vs1. (if i \<in> vs then Inr vs
         else case dict_get goals i of None \<Rightarrow> Inl (KeyError i)
           | Some g \<Rightarrow> map_sum id (insert i) (visit_all goals (insert i path) (g_dependency_goal_ids g) vs)) = Inr vs1"
  proof (cases "i \<in> vs")
    case False
    have "insert i path \<times> set (g_dependency_goal_ids g) \<subseteq> (depends goals)\<^sup>+"
    proof -
      have "\<forall>d \<in> set (g_dependency_goal_ids g). (i, d) \<in> depends goals" using g by (auto simp: depends_def)
      moreover have "\<forall>p \<in> path. (p, i) \<in> (depends goals)\<^sup>+" using 2(6) by auto
      ultimately show ?thesis by (auto intro: trancl_into_trancl)
    qed
    moreover have "set (g_dependency_goal_ids g) \<subseteq> fst ` set goals"
      using known by (auto simp: references_known_def)
    ultimately obtain vs0 where "visit_all goals (insert i path) (g_dependency_goal_ids g) vs = Inr vs0"
      using 2(1) [OF i False g 2(3) _ 2(5)] by blast
    with False g show ?thesis by simp
  qed simp
  then obtain vs1 where first: "(if i \<in> vs then Inr vs
         else case dict_get goals i of None \<Rightarrow> Inl (KeyError i)
           | Some g \<Rightarrow> map_sum id (insert i) (visit_all goals (insert i path) (g_dependency_goal_ids g) vs)) = Inr vs1" ..
  with 2(2) [OF i first 2(3) _ 2(5)] 2(4,6) i show ?case by auto
qed

section \<open>The check\<close>

lemma goal_dict_keys: "fst ` set (goal_dict gs) = g_id ` set gs"
proof -
  have "fst ` set (fold (\<lambda>g. dict_set (g_id g) g) gs d) = fst ` set d \<union> g_id ` set gs" for d
    by (induction gs arbitrary: d) (auto simp: dict_simps)
  then show ?thesis by (simp add: goal_dict_def)
qed

lemma goal_dict_ok: "dict_ok (goal_dict gs)"
proof -
  have "dict_ok d \<Longrightarrow> dict_ok (fold (\<lambda>g. dict_set (g_id g) g) gs d)" for d
    by (induction gs arbitrary: d) auto
  then show ?thesis by (simp add: goal_dict_def)
qed

lemma goal_dict_entry: "(i, g) \<in> set (goal_dict gs) \<Longrightarrow> i = g_id g"
proof -
  have "\<forall>e \<in> set d. fst e = g_id (snd e) \<Longrightarrow>
      \<forall>e \<in> set (fold (\<lambda>g. dict_set (g_id g) g) gs d). fst e = g_id (snd e)" for d
  proof (induction gs arbitrary: d)
    case (Cons g gs)
    have "\<forall>e \<in> set (dict_set (g_id g) g d). fst e = g_id (snd e)"
      using Cons.prems by (auto dest: dict_set_entries)
    from Cons.IH [OF this] show ?case by simp
  qed simp
  from this [of "[]"] show "(i, g) \<in> set (goal_dict gs) \<Longrightarrow> i = g_id g" by (auto simp: goal_dict_def)
qed

lemma goal_dict_distinct:
  assumes "distinct (map g_id gs)"
  shows "goal_dict gs = map (\<lambda>g. (g_id g, g)) gs"
proof -
  have "distinct (map fst d @ map g_id gs) \<Longrightarrow>
      fold (\<lambda>g. dict_set (g_id g) g) gs d = d @ map (\<lambda>g. (g_id g, g)) gs" for d :: "(string, goal) dict"
    by (induction gs arbitrary: d) (auto simp: dict_set_absent)
  from this [of "[]"] assms show ?thesis by (simp add: goal_dict_def)
qed

lemma check_references_ok:
  "(check_references goals g = Inr ()) =
     (references_known goals g \<and> g_id g \<notin> set (g_dependency_goal_ids g))"
  by (auto simp: check_references_def references_known_def list_ex_iff dict_get_None split: option.splits)

lemma map_res_checks:
  "(\<exists>ys. map_res (check_references goals) gs = Inr ys) = (\<forall>g\<in>set gs. check_references goals g = Inr ())"
  by (induction gs) (auto simp: bind_res_Inr)

lemma validate_graph_dict:
  "(validate_graph gs = Inr ()) =
     ((\<forall>g \<in> snd ` set (goal_dict gs). references_known (goal_dict gs) g) \<and> acyclic (depends (goal_dict gs)))"
  (is "?l = (?refs \<and> ?acyc)")
proof -
  let ?d = "goal_dict gs"
  have l: "?l = ((\<forall>g \<in> snd ` set ?d. check_references ?d g = Inr ())
      \<and> (\<exists>vs. visit_all ?d {} (map fst ?d) {} = Inr vs))"
    using map_res_checks [of ?d "map snd ?d"] by (auto simp: validate_graph_def Let_def bind_res_Inr)
  show ?thesis
  proof
    assume ?l
    with l obtain vs where refs: "\<forall>g \<in> snd ` set ?d. check_references ?d g = Inr ()"
      and v: "visit_all ?d {} (map fst ?d) {} = Inr vs" by blast
    from visit_all_settles [OF v] have s: "settled (depends ?d) vs" "fst ` set ?d \<subseteq> vs" by (auto simp: settled_def)
    have "(i, i) \<notin> (depends ?d)\<^sup>+" for i
    proof
      assume c: "(i, i) \<in> (depends ?d)\<^sup>+"
      then obtain d where "(i, d) \<in> depends ?d" by (meson converse_tranclE)
      then have "i \<in> fst ` set ?d" using dict_get_None [of ?d i] by (auto simp: depends_def)
      with s c show False by (auto simp: settled_def)
    qed
    with refs show "?refs \<and> ?acyc" by (auto simp: check_references_ok acyclic_def)
  next
    assume r: "?refs \<and> ?acyc"
    have "g_id g \<notin> set (g_dependency_goal_ids g)" if "g \<in> snd ` set ?d" for g
    proof
      assume "g_id g \<in> set (g_dependency_goal_ids g)"
      moreover have "dict_get ?d (g_id g) = Some g"
        using that goal_dict_entry [of _ g gs] goal_dict_ok [of gs] by (auto simp: dict_get_in_iff)
      ultimately have "(g_id g, g_id g) \<in> depends ?d" by (auto simp: depends_def)
      with r show False by (auto simp: acyclic_def)
    qed
    moreover have "\<exists>vs. visit_all ?d {} (map fst ?d) {} = Inr vs"
      using visit_all_acyclic [of ?d "map fst ?d" "{}" "{}"] r by auto
    ultimately show ?l unfolding l using r by (auto simp: check_references_ok)
  qed
qed

definition goal_depends :: "goal list \<Rightarrow> (string \<times> string) set" where
  "goal_depends gs = {(g_id g, d) | g d. g \<in> set gs \<and> d \<in> set (g_dependency_goal_ids g)}"

definition goal_refs :: "goal \<Rightarrow> string set" where
  "goal_refs g = set (g_dependency_goal_ids g) \<union> set (g_child_goal_ids g) \<union> set_option (g_parent_goal_id g)"

lemma validate_graph_spec:
  assumes "distinct (map g_id gs)"
  shows "(validate_graph gs = Inr ()) =
    ((\<forall>g\<in>set gs. goal_refs g \<subseteq> g_id ` set gs) \<and> acyclic (goal_depends gs))"
proof -
  have d: "goal_dict gs = map (\<lambda>g. (g_id g, g)) gs" by (rule goal_dict_distinct [OF assms])
  have "dict_get (goal_dict gs) i = Some g \<longleftrightarrow> g \<in> set gs \<and> g_id g = i" for i g
    unfolding dict_get_in_iff [OF goal_dict_ok] unfolding d by auto
  then have "depends (goal_dict gs) = goal_depends gs" by (auto simp: depends_def goal_depends_def)
  moreover have "references_known (goal_dict gs) g = (goal_refs g \<subseteq> g_id ` set gs)" for g
    by (auto simp: references_known_def goal_refs_def goal_dict_keys)
  moreover have "snd ` set (goal_dict gs) = set gs" unfolding d by force
  ultimately show ?thesis by (simp add: validate_graph_dict)
qed

text \<open>
  C34. The graph check of \<open>GoalManager\<close> accepts exactly the goal lists in which every dependency,
  child and parent is a goal of the list and the dependencies have no cycle.
\<close>

theorem validate_graph_correct:
  assumes "distinct (map g_id gs)"
  shows "(validate_graph gs = Inr ()) \<longleftrightarrow>
    (\<forall>g\<in>set gs. \<forall>r \<in> set (g_dependency_goal_ids g) \<union> set (g_child_goal_ids g) \<union> set_option (g_parent_goal_id g).
        r \<in> g_id ` set gs)
    \<and> acyclic {(g_id g, d) | g d. g \<in> set gs \<and> d \<in> set (g_dependency_goal_ids g)}"
  using validate_graph_spec [OF assms] by (auto simp: goal_refs_def goal_depends_def subset_iff)

lemma validate_graph_correct_witness:
  "\<not> acyclic {(g_id g, d) | g d. g \<in> set [sample_goal ''a'' [''b''] Pending, sample_goal ''b'' [''a''] Pending]
      \<and> d \<in> set (g_dependency_goal_ids g)}"
proof -
  let ?gs = "[sample_goal ''a'' [''b''] Pending, sample_goal ''b'' [''a''] Pending]"
  have "distinct (map g_id ?gs)" by (simp add: sample_goal_def new_goal_def)
  note spec = validate_graph_correct [OF this]
  have "validate_graph ?gs \<noteq> Inr ()" by code_simp
  moreover have "\<forall>g\<in>set ?gs. \<forall>r \<in> set (g_dependency_goal_ids g) \<union> set (g_child_goal_ids g) \<union> set_option (g_parent_goal_id g).
        r \<in> g_id ` set ?gs"
    by (simp add: sample_goal_def new_goal_def)
  ultimately show ?thesis using spec by blast
qed

section \<open>Creation\<close>

lemma same_goals_graph:
  assumes "list_all2 same_goal gs hs" "distinct (map g_id gs)" "validate_graph gs = Inr ()"
  shows "validate_graph hs = Inr ()"
proof -
  have ids: "map g_id hs = map g_id gs"
    using assms(1) by (auto simp: list_all2_conv_all_nth same_goal_def intro: nth_equalityI)
  have each: "\<forall>h\<in>set hs. \<exists>g\<in>set gs. same_goal g h"
    using assms(1) by (metis list_all2_iff set_zip_rightD list_all2_lengthD in_set_zip in_set_conv_nth list_all2_conv_all_nth nth_mem)
  have "goal_depends hs \<subseteq> goal_depends gs"
    using each by (fastforce simp: goal_depends_def same_goal_def)
  moreover have "\<forall>h\<in>set hs. goal_refs h \<subseteq> g_id ` set hs"
  proof
    fix h assume "h \<in> set hs"
    with each obtain g where "g \<in> set gs" "same_goal g h" by blast
    moreover have "g_id ` set hs = g_id ` set gs" using ids by (metis set_map)
    ultimately show "goal_refs h \<subseteq> g_id ` set hs"
      using assms(2,3) validate_graph_spec by (auto simp: goal_refs_def same_goal_def)
  qed
  ultimately show ?thesis
    using assms(2,3) ids validate_graph_spec acyclic_subset by metis
qed

lemma add_goal_distinct:
  assumes "add_goal new_id now f m = Inr m'" "distinct (map g_id (m_goals m))" "new_id \<notin> g_id ` set (m_goals m)"
  shows "distinct (map g_id (m_goals m'))"
proof -
  have up: "map g_id (update_goal p (add_child new_id) gs) = map g_id gs" for p gs
    by (rule update_goal_ids) simp
  from assms(1) obtain next_attempt where m': "m_goals m' = prune_closed_goals keep_closed_goals
      (case f_parent_goal_id f of None \<Rightarrow> m_goals m @ [(goal_of_fields new_id now f)\<lparr>g_next_attempt_at := next_attempt\<rparr>]
       | Some p \<Rightarrow> update_goal p (add_child new_id) (m_goals m @ [(goal_of_fields new_id now f)\<lparr>g_next_attempt_at := next_attempt\<rparr>]))"
    by (auto simp: add_goal_def bind_res_Inr Let_def split: if_splits)
  show ?thesis unfolding m'
    using assms(2,3) by (intro prune_distinct) (auto split: option.split simp: up)
qed

lemma create_sound:
  assumes "create new_id now f m = (Inr (), m')"
    and "distinct (map g_id (m_goals m))" "new_id \<notin> g_id ` set (m_goals m)"
  shows "distinct (map g_id (m_goals m')) \<and> validate_graph (m_goals m') = Inr ()"
proof -
  from assms(1) obtain m1 where add: "add_goal new_id now f m = Inr m1"
    by (auto simp: create_def split: sum.splits)
  have v: "validate_graph (m_goals m1) = Inr ()"
    using assms(1) add by (auto simp: create_def Let_def split: sum.splits exn.splits option.splits list.splits)
  obtain changes hs where r: "refresh now (m_goals m1) = (Inr changes, hs)" "list_all2 refreshed (m_goals m1) hs"
    using refresh_keeps_held by blast
  with assms(1) add v have m': "m_goals m' = hs" by (auto simp: create_def)
  have d: "distinct (map g_id (m_goals m1))" by (rule add_goal_distinct [OF add assms(2,3)])
  have same: "list_all2 same_goal (m_goals m1) hs" using r(2) by (rule list_all2_mono) (rule refreshed_same)
  then have "map g_id hs = map g_id (m_goals m1)"
    by (auto simp: list_all2_conv_all_nth same_goal_def intro: nth_equalityI)
  with d same_goals_graph [OF same d v] show ?thesis unfolding m' by simp
qed

text \<open>
  A goal that \<open>create\<close> accepts leaves the mind with distinct identifiers and a dependency
  graph that passes the check: no dangling reference and no cycle, whatever was pruned.
\<close>

theorem create_keeps_graph_sound:
  assumes "create new_id now f m = (Inr (), m')"
    and "distinct (map g_id (m_goals m))" "new_id \<notin> g_id ` set (m_goals m)"
  shows "distinct (map g_id (m_goals m')) \<and> validate_graph (m_goals m') = Inr ()"
  using assms by (rule create_sound)

definition example_mind :: "goal list \<Rightarrow> mind" where
  "example_mind gs = \<lparr>m_beliefs = [], m_goals = gs, m_intentions = [], m_plan_statistics = [],
     m_episodes = [], m_procedures = [], m_execution_traces = []\<rparr>"

lemma create_keeps_graph_sound_witness:
  "validate_graph (m_goals (snd (create ''b'' 7 ((goal_fields_of ''second'')\<lparr>f_dependency_goal_ids := [''a'']\<rparr>)
     (example_mind [sample_goal ''a'' [] Pending])))) = Inr ()"
proof -
  let ?c = "create ''b'' 7 ((goal_fields_of ''second'')\<lparr>f_dependency_goal_ids := [''a'']\<rparr>)
     (example_mind [sample_goal ''a'' [] Pending])"
  have "fst ?c = Inr ()" by code_simp
  then have "?c = (Inr (), snd ?c)" by (metis prod.collapse)
  from create_keeps_graph_sound [OF this] show ?thesis
    by (simp add: example_mind_def sample_goal_def new_goal_def)
qed

definition worn_mind :: mind where
  \<comment> \<open>thirty-one finished goals, the second of which depended on the first\<close>
  "worn_mind = example_mind (sample_goal ''0'' [] Done # sample_goal ''1'' [''0''] Done
     # map (\<lambda>n. sample_goal (show_nat n) [] Done) [2..<31])"


end
