(* ===== verification/Rule_Engine.thy ===== *)
theory Rule_Engine
  imports Goal_Graph
begin

text \<open>
  The forward-chaining rules of \<open>rules.py\<close>: tests on beliefs, events and goals, effects that assert
  beliefs, propose goals, emit events and request actions, and the engine that fires matching rules,
  each at most once and at most \<open>max_firings\<close> of them.  What Python's \<open>repr\<close> and \<open>float()\<close> make of
  a value, a fresh identifier, and what pydantic makes of the keyword arguments a rule passes to
  \<open>create\<close> are the fields of a record of parameters; a belief or goal in a result is its key.
\<close>

section \<open>Rules\<close>

datatype rule_source = Src_Belief | Src_Event | Src_Goal
datatype rule_operator = Equals | Exists | Greater_Or_Equal | Starts_With
datatype rule_effect_kind = Assert_Belief | Propose_Goal | Emit_Event | Request_Action

type_synonym payload = "(string, pyval) dict"

record runtime_event =
  re_type :: string
  re_payload :: payload

record rule_test =
  rt_source :: rule_source
  rt_key :: string
  rt_operator :: rule_operator
  rt_value :: pyval

record rule_effect =
  rx_kind :: rule_effect_kind
  rx_key :: string
  rx_value :: pyval
  rx_payload :: payload

record rule =
  ru_name :: string
  ru_when :: "rule_test list"
  ru_then :: "rule_effect list"

record rule_result =
  rr_fired :: "string list"
  rr_derived_beliefs :: "string list"
  rr_proposed_goals :: "string list"
  rr_events :: "runtime_event list"
  rr_requested_actions :: "rule_effect list"

record rule_engine =
  en_rules :: "rule list"
  en_max_firings :: nat

definition new_engine :: "rule list \<Rightarrow> int \<Rightarrow> rule_engine result" where
  "new_engine rules max_firings = (if max_firings < 1 then Inl (ValueError ''max_firings must be positive'')
     else Inr \<lparr>en_rules = rules, en_max_firings = nat max_firings\<rparr>)"

definition with_rules :: "rule list \<Rightarrow> rule_engine \<Rightarrow> rule_engine result" where
  "with_rules extra e = new_engine (en_rules e @ extra) (int (en_max_firings e))"

section \<open>Parameters\<close>

record rule_env =
  rv_repr :: "pyval \<Rightarrow> string"
  rv_float :: "string \<Rightarrow> pyfloat option"
  rv_fields :: "string \<Rightarrow> string \<Rightarrow> payload \<Rightarrow> goal_fields result"
  rv_new_id :: "mind \<Rightarrow> string"
  rv_now :: time

section \<open>Tests\<close>

fun goal_status_text :: "goal_status \<Rightarrow> string" where
  "goal_status_text Pending = ''pending''"
| "goal_status_text Runnable = ''runnable''"
| "goal_status_text Active = ''active''"
| "goal_status_text Blocked = ''blocked''"
| "goal_status_text Stalled = ''stalled''"
| "goal_status_text Done = ''done''"
| "goal_status_text Failed = ''failed''"
| "goal_status_text Cancelled = ''cancelled''"

text \<open>\<open>_number\<close>; \<open>float\<close> of an integer beyond its range raises what the code does not catch.\<close>

fun number_of :: "rule_env \<Rightarrow> pyval \<Rightarrow> pyfloat result" where
  "number_of E (PBool b) = Inr (Fin (if b then 1 else 0))"
| "number_of E (PInt i) = (if float_overflows i then Inl OverflowError else Inr (Fin (of_int i)))"
| "number_of E (PFloat f) = Inr f"
| "number_of E (PStr s) = Inr (case rv_float E s of None \<Rightarrow> NegInf | Some f \<Rightarrow> f)"
| "number_of E v = Inr NegInf"

definition candidates_of :: "mind \<Rightarrow> runtime_event list \<Rightarrow> rule_test \<Rightarrow> pyval list" where
  "candidates_of m events t = (case rt_source t of
      Src_Belief \<Rightarrow> (case belief_of (m_beliefs m) (rt_key t) of None \<Rightarrow> [] | Some b \<Rightarrow> [PStr (b_statement b)])
    | Src_Event \<Rightarrow> map (\<lambda>e. dict_get_or (re_payload e) ''value'' (PBool True)) (filter (\<lambda>e. re_type e = rt_key t) events)
    | Src_Goal \<Rightarrow> map (\<lambda>g. PStr (goal_status_text (g_status g)))
        (filter (\<lambda>g. g_id g = rt_key t \<or> g_kind g = rt_key t) (m_goals m)))"

definition starts_with :: "string \<Rightarrow> string \<Rightarrow> bool" where
  "starts_with s p \<longleftrightarrow> take (length p) s = p"

definition test_rule :: "rule_env \<Rightarrow> mind \<Rightarrow> runtime_event list \<Rightarrow> rule_test \<Rightarrow> bool result" where
  "test_rule E m events t =
     (let cs = candidates_of m events t; str = py_str (rv_repr E) in
      case rt_operator t of
        Exists \<Rightarrow> Inr ((cs \<noteq> []) = truthy (rt_value t))
      | Starts_With \<Rightarrow> Inr (list_ex (\<lambda>v. starts_with (str v) (str (rt_value t))) cs)
      | Greater_Or_Equal \<Rightarrow> any_res (\<lambda>v. bind_res (number_of E v) (\<lambda>x. bind_res (number_of E (rt_value t)) (\<lambda>y.
            Inr (float_le y x)))) cs
      | Equals \<Rightarrow> Inr (list_ex (\<lambda>v. py_eq v (rt_value t) \<or> str v = str (rt_value t)) cs))"

definition rule_matches :: "rule_env \<Rightarrow> mind \<Rightarrow> runtime_event list \<Rightarrow> rule \<Rightarrow> bool result" where
  "rule_matches E m events r = all_res (test_rule E m events) (ru_when r)"

section \<open>Effects\<close>

text \<open>\<open>{belief:<key>}\<close> in a text is replaced by what is believed, or by nothing.\<close>

definition placeholder_head :: string where "placeholder_head = ''{belief:''"

definition no_brace :: "char \<Rightarrow> bool" where "no_brace c \<longleftrightarrow> c \<notin> {CHR ''{'', CHR ''}''}"

definition placeholder :: "string \<Rightarrow> (string \<times> string) option" where
  "placeholder s = (if \<not> starts_with s placeholder_head then None
     else let rest = drop (length placeholder_head) s; key = takeWhile no_brace rest in
       case dropWhile no_brace rest of
         [] \<Rightarrow> None
       | c # after \<Rightarrow> if key \<noteq> [] \<and> c = CHR ''}'' then Some (key, after) else None)"

lemma placeholder_shorter: "placeholder s = Some (k, after) \<Longrightarrow> length after < length s"
  using length_dropWhile_le [of no_brace "drop (length placeholder_head) s"]
  by (auto simp: placeholder_def Let_def split: if_splits list.splits)

function render_text :: "mind \<Rightarrow> string \<Rightarrow> string" where
  "render_text m [] = []"
| "render_text m (c # cs) = (case placeholder (c # cs) of
      None \<Rightarrow> c # render_text m cs
    | Some (key, after) \<Rightarrow> (case belief_of (m_beliefs m) (py_strip key) of None \<Rightarrow> [] | Some b \<Rightarrow> b_statement b) @ render_text m after)"
  by pat_completeness auto
termination
  by (relation "measure (length \<circ> snd)") (auto dest: placeholder_shorter)

record fire_state =
  fs_mind :: mind
  fs_result :: rule_result

definition keep_beliefs :: nat where "keep_beliefs = 40"

definition assert_belief :: "rule_env \<Rightarrow> rule_effect \<Rightarrow> (fire_state, unit) op" where
  "assert_belief E x = modify_op (\<lambda>s.
     let b = mk_belief (rv_now E) (rx_key x) (py_str (rv_repr E) (rx_value x)) ''rule'' 1 in
     case revise (rv_now E) keep_beliefs [b] (fs_mind s) of (change, m) \<Rightarrow>
       s\<lparr>fs_mind := m, fs_result := (if belief_change_true change
          then (fs_result s)\<lparr>rr_derived_beliefs := rr_derived_beliefs (fs_result s) @ [b_key b]\<rparr> else fs_result s)\<rparr>)"

definition goal_field_names :: "string set" where
  "goal_field_names = {''priority'', ''parameters'', ''dependency_goal_ids'', ''success_conditions'', ''failure_conditions'',
     ''deadline'', ''owner_agent_id''}"

text \<open>\<open>payload.get(key) or otherwise\<close>\<close>

definition given :: "payload \<Rightarrow> string \<Rightarrow> pyval option" where
  "given p key = (case dict_get p key of None \<Rightarrow> None | Some v \<Rightarrow> if truthy v then Some v else None)"

definition proposal :: "rule_env \<Rightarrow> mind \<Rightarrow> rule_effect \<Rightarrow> string \<times> string" where
  "proposal E m x =
     (let str = py_str (rv_repr E) in
      (py_strip (render_text m (str (case given (rx_payload x) ''description'' of Some v \<Rightarrow> v | None \<Rightarrow> rx_value x))),
       (case given (rx_payload x) ''kind'' of Some v \<Rightarrow> str v | None \<Rightarrow> if rx_key x \<noteq> [] then rx_key x else ''goal'')))"

definition on_mind :: "(mind, 'a) op \<Rightarrow> (fire_state, 'a) op" where
  "on_mind f s = (case f (fs_mind s) of (r, m) \<Rightarrow> (r, s\<lparr>fs_mind := m\<rparr>))"

definition propose_goal :: "rule_env \<Rightarrow> rule_effect \<Rightarrow> (fire_state, unit) op" where
  "propose_goal E x = read_op (\<lambda>s. case proposal E (fs_mind s) x of (description, kind) \<Rightarrow>
     if list_ex (\<lambda>g. g_kind g = kind \<and> g_description g = description \<and> is_open (rv_now E) g) (m_goals (fs_mind s))
        \<or> description = [] then ret_op ()
     else bind_op (lift_op (rv_fields E description kind (filter (\<lambda>(k, _). k \<in> goal_field_names) (rx_payload x)))) (\<lambda>f.
       let new_id = rv_new_id E (fs_mind s) in
       seq_op (on_mind (create new_id (rv_now E) f))
         (modify_op (\<lambda>s. s\<lparr>fs_result := (fs_result s)\<lparr>rr_proposed_goals := rr_proposed_goals (fs_result s) @ [new_id]\<rparr>\<rparr>))))"

definition apply_effect :: "rule_env \<Rightarrow> rule_effect \<Rightarrow> (fire_state, unit) op" where
  "apply_effect E x = (case rx_kind x of
      Assert_Belief \<Rightarrow> assert_belief E x
    | Propose_Goal \<Rightarrow> propose_goal E x
    | Emit_Event \<Rightarrow> modify_op (\<lambda>s. s\<lparr>fs_result := (fs_result s)\<lparr>rr_events := rr_events (fs_result s)
          @ [\<lparr>re_type = rx_key x, re_payload = rx_payload x\<rparr>]\<rparr>\<rparr>)
    | Request_Action \<Rightarrow> modify_op (\<lambda>s. s\<lparr>fs_result := (fs_result s)\<lparr>rr_requested_actions := rr_requested_actions (fs_result s)
          @ [x\<lparr>rx_value := (case rx_value x of PStr t \<Rightarrow> PStr (render_text (fs_mind s) t) | v \<Rightarrow> v)\<rparr>]\<rparr>\<rparr>))"

section \<open>The engine\<close>

text \<open>A rule that has not fired and matches: the first one, and whether there is one.\<close>

definition ready_rule :: "rule_env \<Rightarrow> fire_state \<Rightarrow> rule \<Rightarrow> bool result" where
  "ready_rule E s r = (if ru_name r \<in> set (rr_fired (fs_result s)) then Inr False
     else rule_matches E (fs_mind s) (rr_events (fs_result s)) r)"

fun first_ready :: "(rule \<Rightarrow> bool result) \<Rightarrow> rule list \<Rightarrow> rule option result" where
  "first_ready p [] = Inr None"
| "first_ready p (r # rs) = bind_res (p r) (\<lambda>b. if b then Inr (Some r) else first_ready p rs)"

definition note_fired :: "rule \<Rightarrow> (fire_state, unit) op" where
  "note_fired r = modify_op (\<lambda>s. s\<lparr>fs_result := (fs_result s)\<lparr>rr_fired := rr_fired (fs_result s) @ [ru_name r]\<rparr>\<rparr>)"

text \<open>The loop, for as many firings as are left.\<close>

fun fire_loop :: "rule_env \<Rightarrow> rule list \<Rightarrow> nat \<Rightarrow> (fire_state, unit) op" where
  "fire_loop E rules 0 = ret_op ()"
| "fire_loop E rules (Suc n) = read_op (\<lambda>s. bind_op (lift_op (first_ready (ready_rule E s) rules)) (\<lambda>matched. case matched of
      None \<Rightarrow> ret_op ()
    | Some r \<Rightarrow> seq_op (note_fired r) (seq_op (for_op (apply_effect E) (ru_then r)) (fire_loop E rules n))))"

definition fire_rules :: "rule_env \<Rightarrow> rule_engine \<Rightarrow> runtime_event list \<Rightarrow> (mind, rule_result \<times> bool) op" where
  "fire_rules E en events m =
     (let start = \<lparr>fs_mind = m, fs_result = \<lparr>rr_fired = [], rr_derived_beliefs = [], rr_proposed_goals = [],
            rr_events = events, rr_requested_actions = []\<rparr>\<rparr> in
      case fire_loop E (en_rules en) (en_max_firings en) start of
        (Inl e, s) \<Rightarrow> (Inl e, fs_mind s)
      | (Inr _, s) \<Rightarrow>
          (if length (rr_fired (fs_result s)) \<ge> en_max_firings en
           then (map_sum id (\<lambda>capped. (fs_result s, capped)) (any_res (ready_rule E s) (en_rules en)), fs_mind s)
           else (Inr (fs_result s, False), fs_mind s)))"

section \<open>Rules from configuration\<close>

definition source_of :: "string \<Rightarrow> rule_source result" where
  "source_of s = (if s = ''belief'' then Inr Src_Belief else if s = ''event'' then Inr Src_Event
     else if s = ''goal'' then Inr Src_Goal else Inl (ValueError s))"

definition operator_of :: "string \<Rightarrow> rule_operator result" where
  "operator_of s = (if s = ''equals'' then Inr Equals else if s = ''exists'' then Inr Exists
     else if s = ''greater_or_equal'' then Inr Greater_Or_Equal else if s = ''starts_with'' then Inr Starts_With
     else Inl (ValueError s))"

definition effect_kind_of :: "string \<Rightarrow> rule_effect_kind result" where
  "effect_kind_of s = (if s = ''assert_belief'' then Inr Assert_Belief else if s = ''propose_goal'' then Inr Propose_Goal
     else if s = ''emit_event'' then Inr Emit_Event else if s = ''request_action'' then Inr Request_Action
     else Inl (ValueError s))"

text \<open>\<open>item.get(key) or otherwise\<close>, and \<open>dict(...)\<close>, which of anything but a dictionary is a parameter.\<close>

definition got :: "pyval \<Rightarrow> string \<Rightarrow> pyval \<Rightarrow> pyval result" where
  "got item key otherwise = bind_res (get_attr item key PNone) (\<lambda>v. Inr (if truthy v then v else otherwise))"

definition as_dict :: "(pyval \<Rightarrow> payload result) \<Rightarrow> pyval \<Rightarrow> payload result" where
  "as_dict dict_of v = (case v of PDict d \<Rightarrow> Inr d | _ \<Rightarrow> dict_of v)"

definition test_from_config :: "(pyval \<Rightarrow> string) \<Rightarrow> pyval \<Rightarrow> rule_test result" where
  "test_from_config repr item =
     bind_res (get_item item ''source'') (\<lambda>s. bind_res (source_of (py_str repr s)) (\<lambda>src.
     bind_res (get_item item ''key'') (\<lambda>k.
     bind_res (got item ''operator'' (PStr ''equals'')) (\<lambda>oper. bind_res (operator_of (py_str repr oper)) (\<lambda>oper.
     bind_res (get_attr item ''value'' (PBool True)) (\<lambda>v.
       Inr \<lparr>rt_source = src, rt_key = py_str repr k, rt_operator = oper, rt_value = v\<rparr>))))))"

definition effect_from_config :: "(pyval \<Rightarrow> string) \<Rightarrow> (pyval \<Rightarrow> payload result) \<Rightarrow> pyval \<Rightarrow> rule_effect result" where
  "effect_from_config repr dict_of item =
     bind_res (get_item item ''kind'') (\<lambda>s. bind_res (effect_kind_of (py_str repr s)) (\<lambda>kind.
     bind_res (got item ''key'' (PStr [])) (\<lambda>k.
     bind_res (get_attr item ''value'' (PBool True)) (\<lambda>v.
     bind_res (got item ''payload'' (PDict [])) (\<lambda>p. bind_res (as_dict dict_of p) (\<lambda>p.
       Inr \<lparr>rx_kind = kind, rx_key = py_str repr k, rx_value = v, rx_payload = p\<rparr>))))))"

fun malformed :: "'a result \<Rightarrow> 'a result" where
  "malformed (Inl (KeyError k)) = Inl (ValueError ''malformed'')"
| "malformed (Inl TypeError) = Inl (ValueError ''malformed'')"
| "malformed (Inl (ValueError t)) = Inl (ValueError ''malformed'')"
| "malformed r = r"

fun listed :: "pyval option \<Rightarrow> pyval list" where
  "listed (Some (PList xs)) = xs"
| "listed _ = []"

definition rule_from_config :: "(pyval \<Rightarrow> string) \<Rightarrow> (pyval \<Rightarrow> payload result) \<Rightarrow> payload \<Rightarrow> rule result" where
  "rule_from_config repr dict_of raw =
     (let name = py_strip (case given raw ''name'' of None \<Rightarrow> [] | Some v \<Rightarrow> py_str repr v);
          tests = listed (dict_get raw ''when''); effects = listed (dict_get raw ''then'')
      in if name = [] then Inl (ValueError ''a rule needs a name'')
         else if tests = [] \<or> effects = [] then Inl (ValueError ''empty'')
         else malformed (bind_res (map_res (test_from_config repr) tests) (\<lambda>ts.
           bind_res (map_res (effect_from_config repr dict_of) effects) (\<lambda>es.
           Inr \<lparr>ru_name = name, ru_when = ts, ru_then = es\<rparr>))))"

definition rules_from_config :: "(pyval \<Rightarrow> string) \<Rightarrow> (pyval \<Rightarrow> payload result) \<Rightarrow> payload list \<Rightarrow> rule list result" where
  "rules_from_config repr dict_of raws = map_res (rule_from_config repr dict_of) raws"

section \<open>Firing reaches a fixed point\<close>

lemma assert_belief_fired: "rr_fired (fs_result (snd (assert_belief E x s))) = rr_fired (fs_result s)"
  by (simp add: assert_belief_def op_defs Let_def split: prod.splits)

lemma apply_effect_fired: "rr_fired (fs_result (snd (apply_effect E x s))) = rr_fired (fs_result s)"
  using assert_belief_fired
  by (simp add: apply_effect_def propose_goal_def on_mind_def op_defs Let_def split: rule_effect_kind.split prod.splits sum.splits)

lemma for_effects_fired: "rr_fired (fs_result (snd (for_op (apply_effect E) xs s))) = rr_fired (fs_result s)"
proof (induction xs arbitrary: s)
  case (Cons x xs)
  with apply_effect_fired [of E x s] show ?case by (auto simp: op_defs split: prod.splits sum.splits)
qed (simp add: op_defs)

lemma first_ready_None: "first_ready p rs = Inr None \<longleftrightarrow> (\<forall>r \<in> set rs. p r = Inr False)"
  by (induction rs) (auto simp: bind_res_Inr)

lemma first_ready_Some: "first_ready p rs = Inr (Some r) \<Longrightarrow> r \<in> set rs \<and> p r = Inr True"
  by (induction rs) (auto simp: bind_res_Inr split: if_splits)

lemma any_res_False: "any_res p xs = Inr False \<longleftrightarrow> (\<forall>x \<in> set xs. p x = Inr False)"
  by (induction xs) (auto simp: bind_res_Inr split: if_splits)

lemma ready_fresh: "ready_rule E s r = Inr True \<Longrightarrow> ru_name r \<notin> set (rr_fired (fs_result s))"
  by (auto simp: ready_rule_def split: if_splits)

lemma fire_loop_result:
  assumes "fire_loop E rules n s = (Inr (), s')" "distinct (rr_fired (fs_result s))" "set (rr_fired (fs_result s)) \<subseteq> ru_name ` set rules"
  shows "distinct (rr_fired (fs_result s')) \<and> set (rr_fired (fs_result s')) \<subseteq> ru_name ` set rules
    \<and> length (rr_fired (fs_result s')) \<le> length (rr_fired (fs_result s)) + n
    \<and> (length (rr_fired (fs_result s')) < length (rr_fired (fs_result s)) + n \<longrightarrow> (\<forall>r \<in> set rules. ready_rule E s' r = Inr False))"
  using assms
proof (induction n arbitrary: s)
  case 0
  then show ?case by (simp add: op_defs)
next
  case (Suc n)
  from Suc.prems(1) consider
      (none) "first_ready (ready_rule E s) rules = Inr None" "s' = s"
    | (fired) r s1 where "first_ready (ready_rule E s) rules = Inr (Some r)"
        "for_op (apply_effect E) (ru_then r) (snd (note_fired r s)) = (Inr (), s1)" "fire_loop E rules n s1 = (Inr (), s')"
    by (auto simp: op_defs note_fired_def split: sum.splits option.splits prod.splits)
  then show ?case
  proof cases
    case none
    with Suc.prems show ?thesis by (simp add: first_ready_None)
  next
    case fired
    let ?f = "rr_fired (fs_result s)"
    from first_ready_Some [OF fired(1)] have r: "r \<in> set rules" "ru_name r \<notin> set ?f" using ready_fresh by auto
    have s1: "rr_fired (fs_result s1) = ?f @ [ru_name r]"
      using for_effects_fired [of E "ru_then r" "snd (note_fired r s)"] fired(2) by (simp add: note_fired_def op_defs)
    with Suc.IH [OF fired(3)] Suc.prems r show ?thesis by auto
  qed
qed

text \<open>
  C22. Rules fire to a fixed point, each at most once: what fired is a list of distinct rules no longer
  than the limit; unless the run was capped no rule that has not fired matches any more, and it is
  capped only when the limit was reached and a rule that has not fired still matches.
\<close>

theorem fire_reaches_fixed_point:
  assumes "fire_rules E en events m = (Inr (res, capped), m')"
  shows "distinct (rr_fired res) \<and> set (rr_fired res) \<subseteq> ru_name ` set (en_rules en) \<and> length (rr_fired res) \<le> en_max_firings en
    \<and> (if capped then length (rr_fired res) = en_max_firings en
          \<and> (\<exists>r \<in> set (en_rules en). ru_name r \<notin> set (rr_fired res) \<and> rule_matches E m' (rr_events res) r = Inr True)
       else (\<forall>r \<in> set (en_rules en). ru_name r \<in> set (rr_fired res) \<or> rule_matches E m' (rr_events res) r = Inr False))"
proof -
  let ?start = "\<lparr>fs_mind = m, fs_result = \<lparr>rr_fired = [], rr_derived_beliefs = [], rr_proposed_goals = [],
            rr_events = events, rr_requested_actions = []\<rparr>\<rparr>"
  from assms obtain s where s: "fire_loop E (en_rules en) (en_max_firings en) ?start = (Inr (), s)"
    and out: "res = fs_result s" "m' = fs_mind s"
      "if en_max_firings en \<le> length (rr_fired (fs_result s)) then any_res (ready_rule E s) (en_rules en) = Inr capped else \<not> capped"
    by (auto simp: fire_rules_def Let_def map_sum_Inr split: prod.splits sum.splits if_splits)
  from fire_loop_result [OF s] have f: "distinct (rr_fired res)" "set (rr_fired res) \<subseteq> ru_name ` set (en_rules en)"
    "length (rr_fired res) \<le> en_max_firings en"
    "length (rr_fired res) < en_max_firings en \<Longrightarrow> (\<forall>r \<in> set (en_rules en). ready_rule E s r = Inr False)"
    by (auto simp: out)
  show ?thesis
  proof (cases capped)
    case True
    with out f(3) any_res_True [of "ready_rule E s" "en_rules en"] have
      "length (rr_fired res) = en_max_firings en" "\<exists>r \<in> set (en_rules en). ready_rule E s r = Inr True"
      by (auto split: if_splits)
    with f True show ?thesis by (auto simp: ready_rule_def out split: if_splits)
  next
    case False
    with out f have "\<forall>r \<in> set (en_rules en). ready_rule E s r = Inr False"
      by (auto simp: any_res_False split: if_splits)
    with f False show ?thesis by (auto simp: ready_rule_def out split: if_splits)
  qed
qed

section \<open>Firing keeps the mind sound\<close>

definition sound_mind :: "mind \<Rightarrow> bool" where
  "sound_mind m \<longleftrightarrow> distinct (map g_id (m_goals m)) \<and> validate_graph (m_goals m) = Inr () \<and> distinct (map b_key (m_beliefs m))"

definition fresh_ids :: "rule_env \<Rightarrow> bool" where
  "fresh_ids E \<longleftrightarrow> (\<forall>m. rv_new_id E m \<notin> g_id ` set (m_goals m))"

lemma revise_sound: "sound_mind m \<Longrightarrow> 0 < keep \<Longrightarrow> sound_mind (snd (revise now keep ps m))"
  using revise_fold_held(1) keep_recent_props
  by (fastforce simp: sound_mind_def revise_def split: prod.splits)

lemma create_beliefs: "m_beliefs (snd (create new_id now f m)) = m_beliefs m"
  by (auto simp: create_def add_goal_def bind_res_Inr Let_def split: sum.splits prod.splits exn.splits option.splits list.splits if_splits)

lemma create_keeps_sound:
  assumes "create new_id now f m = (Inr (), m')" "sound_mind m" "new_id \<notin> g_id ` set (m_goals m)"
  shows "sound_mind m'"
  using create_sound [OF assms(1)] assms(2,3) create_beliefs [of new_id now f m] assms(1) by (simp add: sound_mind_def)

lemma apply_effect_sound:
  assumes "apply_effect E x s = (Inr (), s')" "sound_mind (fs_mind s)" "fresh_ids E"
  shows "sound_mind (fs_mind s')"
proof (cases "rx_kind x")
  case Assert_Belief
  with assms revise_sound [OF assms(2), of keep_beliefs "rv_now E"] show ?thesis
    by (auto simp: apply_effect_def assert_belief_def op_defs Let_def keep_beliefs_def split: prod.splits) (metis snd_conv)
next
  case Propose_Goal
  with assms show ?thesis
    by (auto simp: apply_effect_def propose_goal_def op_defs on_mind_def Let_def fresh_ids_def
        split: prod.splits if_splits sum.splits) (metis create_keeps_sound)
qed (use assms in \<open>auto simp: apply_effect_def op_defs\<close>)

lemma for_effects_sound:
  "for_op (apply_effect E) xs s = (Inr (), s') \<Longrightarrow> sound_mind (fs_mind s) \<Longrightarrow> fresh_ids E \<Longrightarrow> sound_mind (fs_mind s')"
proof (induction xs arbitrary: s)
  case (Cons x xs)
  from Cons.prems(1) obtain u where "apply_effect E x s = (Inr (), u)" "for_op (apply_effect E) xs u = (Inr (), s')"
    by (auto simp: op_defs split: prod.splits sum.splits)
  with Cons apply_effect_sound show ?case by blast
qed (simp add: op_defs)

lemma fire_loop_sound:
  "fire_loop E rules n s = (Inr (), s') \<Longrightarrow> sound_mind (fs_mind s) \<Longrightarrow> fresh_ids E \<Longrightarrow> sound_mind (fs_mind s')"
proof (induction n arbitrary: s)
  case (Suc n)
  from Suc.prems(1) consider "s' = s"
    | r s1 where "for_op (apply_effect E) (ru_then r) (snd (note_fired r s)) = (Inr (), s1)" "fire_loop E rules n s1 = (Inr (), s')"
    by (auto simp: op_defs note_fired_def split: sum.splits option.splits prod.splits)
  then show ?case
  proof cases
    case 2
    have "sound_mind (fs_mind (snd (note_fired r s)))" using Suc.prems(2) by (simp add: note_fired_def op_defs)
    with 2 Suc for_effects_sound show ?thesis by blast
  qed (use Suc.prems in simp)
qed (simp add: op_defs)


section \<open>Reading rules\<close>

text \<open>
  A configured rule is read whole or refused: the only error is a \<open>ValueError\<close>, and an accepted rule
  has a name, a test for every entry of its \<open>when\<close> and an effect for every entry of its \<open>then\<close>,
  at least one of each.
\<close>

theorem rule_read_or_refused:
  assumes "\<And>v e. dict_of v = Inl e \<Longrightarrow> e = TypeError \<or> (\<exists>t. e = ValueError t)"
  shows "case rule_from_config repr dict_of raw of
      Inl e \<Rightarrow> (\<exists>t. e = ValueError t)
    | Inr r \<Rightarrow> ru_name r \<noteq> [] \<and> ru_when r \<noteq> [] \<and> ru_then r \<noteq> []
        \<and> (\<exists>tests effects. dict_get raw ''when'' = Some (PList tests) \<and> dict_get raw ''then'' = Some (PList effects)
           \<and> list_all2 (\<lambda>v t. test_from_config repr v = Inr t) tests (ru_when r)
           \<and> list_all2 (\<lambda>v x. effect_from_config repr dict_of v = Inr x) effects (ru_then r))"
proof -
  let ?c = "\<lambda>e. e = TypeError \<or> (\<exists>k. e = KeyError k) \<or> (\<exists>t. e = ValueError t)"
  have got: "got (PDict d) k z = Inr (if truthy (dict_get_or d k PNone) then dict_get_or d k PNone else z)" for d k z
    by (simp add: got_def dict_get_or_def dict_get_def)
  have t: "?c e" if "test_from_config repr v = Inl e" for v e
  proof (cases v)
    case (PDict d)
    with that show ?thesis
      by (auto simp: test_from_config_def bind_res_Inl source_of_def operator_of_def got split: if_splits option.splits)
  qed (use that in \<open>simp_all add: test_from_config_def\<close>)
  have x: "?c e" if "effect_from_config repr dict_of v = Inl e" for v e
  proof (cases v)
    case (PDict d)
    with that assms show ?thesis
      by (auto simp: effect_from_config_def bind_res_Inl effect_kind_of_def got as_dict_def split: if_splits option.splits pyval.splits)
  qed (use that in \<open>simp_all add: effect_from_config_def\<close>)
  have mr: "\<exists>v \<in> set vs. f v = Inl e" if "map_res f vs = Inl e" for f :: "pyval \<Rightarrow> 'b result" and vs e
    using that by (induction vs) (auto simp: bind_res_Inl)
  have m: "\<exists>t. e = ValueError t" if "malformed r = Inl e" "\<And>e. r = Inl e \<Longrightarrow> ?c e" for r :: "rule result" and e
    using that by (cases r) auto
  have l: "\<exists>xs. v = Some (PList xs) \<and> listed v = xs" if "listed v \<noteq> []" for v
    using that by (cases v rule: listed.cases) auto
  have i: "malformed r = Inr y \<longleftrightarrow> r = Inr y" for r :: "rule result" and y
    by (cases r rule: malformed.cases) auto
  show ?thesis
  proof (cases "rule_from_config repr dict_of raw")
    case (Inl e)
    let ?tests = "map_res (test_from_config repr) (listed (dict_get raw ''when''))"
    let ?effects = "map_res (effect_from_config repr dict_of) (listed (dict_get raw ''then''))"
    let ?read = "bind_res ?tests (\<lambda>ts. bind_res ?effects (\<lambda>es. Inr \<lparr>ru_name = py_strip (case given raw ''name'' of None \<Rightarrow> [] | Some v \<Rightarrow> py_str repr v),
        ru_when = ts, ru_then = es\<rparr>))"
    have "?c e'" if "?read = Inl e'" for e'
      using that t x mr [of "test_from_config repr"] mr [of "effect_from_config repr dict_of"] unfolding bind_res_Inl by blast
    with m [of ?read e] have "malformed ?read = Inl e \<Longrightarrow> \<exists>t. e = ValueError t" by blast
    with Inl have "\<exists>t. e = ValueError t" by (auto simp: rule_from_config_def Let_def split: if_splits)
    with Inl show ?thesis by simp
  next
    case (Inr r)
    then have "ru_name r \<noteq> []" "listed (dict_get raw ''when'') \<noteq> []" "listed (dict_get raw ''then'') \<noteq> []"
      "list_all2 (\<lambda>v t. test_from_config repr v = Inr t) (listed (dict_get raw ''when'')) (ru_when r)"
      "list_all2 (\<lambda>v x. effect_from_config repr dict_of v = Inr x) (listed (dict_get raw ''then'')) (ru_then r)"
      by (auto simp: rule_from_config_def Let_def i bind_res_Inr map_res_Inr split: if_splits)
    with Inr l show ?thesis by fastforce
  qed
qed

section \<open>A rule at work\<close>

definition sample_env :: rule_env where
  "sample_env = \<lparr>rv_repr = (\<lambda>_. []), rv_float = (\<lambda>_. None), rv_fields = (\<lambda>d k _. Inr ((goal_fields_of d)\<lparr>f_kind := k\<rparr>)),
     rv_new_id = (\<lambda>m. CHR ''x'' # concat (map g_id (m_goals m))), rv_now = 0\<rparr>"

definition sample_rule :: rule where
  "sample_rule = \<lparr>ru_name = ''r'',
     ru_when = [\<lparr>rt_source = Src_Event, rt_key = ''tick'', rt_operator = Exists, rt_value = PBool True\<rparr>],
     ru_then = [\<lparr>rx_kind = Propose_Goal, rx_key = ''look'', rx_value = PStr ''look around'', rx_payload = []\<rparr>]\<rparr>"

definition sample_fire :: "rule_result \<times> mind" where
  "sample_fire = (case fire_rules sample_env \<lparr>en_rules = [sample_rule], en_max_firings = 32\<rparr>
     [\<lparr>re_type = ''tick'', re_payload = []\<rparr>] (example_mind []) of (r, m) \<Rightarrow> (fst (projr r), m))"

lemma sample_fires: "fire_rules sample_env \<lparr>en_rules = [sample_rule], en_max_firings = 32\<rparr>
     [\<lparr>re_type = ''tick'', re_payload = []\<rparr>] (example_mind []) = (Inr (fst sample_fire, False), snd sample_fire)"
  "rr_fired (fst sample_fire) = [''r'']" "map g_description (m_goals (snd sample_fire)) = [''look around'']"
  by code_simp+

lemma sample_env_fresh: "fresh_ids sample_env"
proof -
  have longer: "length i \<le> length (concat (map g_id gs))" if "i \<in> g_id ` set gs" for i gs
    using that by (induction gs) auto
  have "rv_new_id sample_env m \<notin> g_id ` set (m_goals m)" for m
  proof
    assume "rv_new_id sample_env m \<in> g_id ` set (m_goals m)"
    from longer [OF this] show False by (simp add: sample_env_def)
  qed
  then show ?thesis by (simp add: fresh_ids_def)
qed

lemma fire_reaches_fixed_point_witness:
  "rr_fired (fst sample_fire) = [''r''] \<and> length (rr_fired (fst sample_fire)) \<le> 32"
  using fire_reaches_fixed_point [OF sample_fires(1)] sample_fires(2) by simp


definition sample_config :: payload where
  "sample_config = [(''name'', PStr ''r''), (''when'', PList [PDict [(''source'', PStr ''event''), (''key'', PStr ''tick'')]]),
     (''then'', PList [PDict [(''kind'', PStr ''emit_event''), (''key'', PStr ''tock'')]])]"

lemma rule_read_or_refused_witness:
  "\<exists>r. rule_from_config (\<lambda>_. []) (\<lambda>_. Inl TypeError) sample_config = Inr r \<and> ru_when r \<noteq> []"
proof -
  have ok: "isl (rule_from_config (\<lambda>_. []) (\<lambda>_. Inl TypeError) sample_config) = False" by code_simp
  have "e = TypeError \<or> (\<exists>t. e = ValueError t)" if "(\<lambda>_. Inl TypeError) v = Inl e" for v :: pyval and e
    using that by simp
  from rule_read_or_refused [where dict_of = "\<lambda>_. Inl TypeError" and repr = "\<lambda>_. []" and raw = sample_config, OF this] ok show ?thesis
    by (cases "rule_from_config (\<lambda>_. []) (\<lambda>_. Inl TypeError) sample_config") auto
qed

end
