(* ===== verification/Agent_Ids.thy ===== *)
theory Agent_Ids
  imports Py_Prelude
begin

text \<open>
  The hierarchical identifiers of \<open>_agent_ids.py\<close>: their syntax, parents and children, the assembly
  of parts, the counter that numbers new agents, and the registry of known identifiers.
\<close>

section \<open>Syntax\<close>

definition allowed_char :: "char \<Rightarrow> bool" where
  "allowed_char c \<longleftrightarrow> c = CHR ''_'' \<or> is_digit c \<or> (let n = of_char c :: nat in (65 \<le> n \<and> n \<le> 90) \<or> (97 \<le> n \<and> n \<le> 122))"

definition separator :: char where "separator = CHR ''.''"
definition min_len :: nat where "min_len = 1"
definition max_len :: nat where "max_len = 128"

definition segment_ok :: "string \<Rightarrow> bool" where
  "segment_ok s \<longleftrightarrow> min_len \<le> length s \<and> length s \<le> max_len \<and> list_all allowed_char s"

definition valid_id :: "string \<Rightarrow> bool" where
  "valid_id v \<longleftrightarrow> list_all segment_ok (split_on separator v)"

definition agent_id :: "string \<Rightarrow> string result" where
  "agent_id v = (if valid_id v then Inr v else Inl (ValueError ''invalid agent identifier''))"

text \<open>The part before the last separator (\<open>rpartition\<close>), and a name appended.\<close>

definition parent_id :: "string \<Rightarrow> string" where
  "parent_id v = rev (drop 1 (dropWhile (\<lambda>c. c \<noteq> separator) (rev v)))"

definition child_id :: "string \<Rightarrow> string \<Rightarrow> string result" where
  "child_id v name = agent_id (v @ separator # name)"

fun check_segments :: "string list \<Rightarrow> unit result" where
  "check_segments [] = Inr ()"
| "check_segments (s # ss) =
     (if \<not> (min_len \<le> length s \<and> length s \<le> max_len) then Inl (ValueError ''identifier segment out of range'')
      else if \<not> list_all allowed_char s then Inl (ValueError ''identifier segment has illegal characters'')
      else check_segments ss)"

definition make_id :: "string list \<Rightarrow> string result" where
  "make_id parts = (let cleaned = filter (\<lambda>p. p \<noteq> []) parts in
     if cleaned = [] then Inl (ValueError ''make_id requires at least one non-empty part'')
     else bind_res (check_segments cleaned) (\<lambda>_. agent_id (py_join [separator] cleaned)))"

section \<open>Numbers and the registry\<close>

text \<open>\<open>next_id\<close>: the counter advances, and its number is padded with zeros to the width.\<close>

definition next_id :: "nat \<Rightarrow> nat \<Rightarrow> string \<times> nat" where
  "next_id width seq = (let s = show_nat (seq + 1) in (replicate (width - length s) CHR ''0'' @ s, seq + 1))"

definition register_id :: "string \<Rightarrow> string set \<Rightarrow> bool \<times> string set" where
  "register_id i ids = (if \<not> valid_id i \<or> i \<in> ids then (False, ids) else (True, insert i ids))"

definition contains_id :: "string \<Rightarrow> string set \<Rightarrow> bool" where
  "contains_id i ids \<longleftrightarrow> i \<in> ids"

section \<open>What identifiers are\<close>

lemma split_on_append: "split_on c (xs @ c # ys) = split_on c xs @ split_on c ys"
  by (induction xs) (auto split: list.splits)

lemma split_on_none: "c \<notin> set xs \<Longrightarrow> split_on c xs = [xs]"
  by (induction xs) auto

lemma separator_not_allowed: "\<not> allowed_char separator"
  by code_simp

lemma segment_plain: "segment_ok s \<Longrightarrow> separator \<notin> set s"
  using separator_not_allowed by (auto simp: segment_ok_def list_all_iff)

lemma check_segments_ok: "check_segments ss = Inr () \<longleftrightarrow> list_all segment_ok ss"
  by (induction ss) (auto simp: segment_ok_def)

lemma split_join: "list_all segment_ok ss \<Longrightarrow> ss \<noteq> [] \<Longrightarrow> split_on separator (py_join [separator] ss) = ss"
  by (induction ss rule: induct_list012) (auto simp: split_on_append split_on_none segment_plain)

lemma parent_append: "separator \<notin> set name \<Longrightarrow> parent_id (v @ separator # name) = v"
  by (simp add: parent_id_def dropWhile_append3 dropWhile_append)

lemma make_cleaned:
  assumes "ps \<noteq> []"
  shows "bind_res (check_segments ps) (\<lambda>_. agent_id (py_join [separator] ps)) = Inr i \<longleftrightarrow> list_all segment_ok ps \<and> i = py_join [separator] ps"
  using split_join [OF _ assms] by (auto simp: bind_res_Inr check_segments_ok agent_id_def valid_id_def)

lemma make_id_Inr: "make_id parts = Inr i \<longleftrightarrow> filter (\<lambda>p. p \<noteq> []) parts \<noteq> [] \<and> list_all segment_ok (filter (\<lambda>p. p \<noteq> []) parts)
    \<and> i = py_join [separator] (filter (\<lambda>p. p \<noteq> []) parts)"
  using make_cleaned [of "filter (\<lambda>p. p \<noteq> []) parts" i] by (cases "filter (\<lambda>p. p \<noteq> []) parts = []") (simp_all only: make_id_def Let_def if_False if_True, simp_all)

text \<open>
  Identifiers are made and taken apart consistently: parts make an identifier exactly when, the
  empty ones aside, there is one and all are legal segments, and then the identifier splits into
  exactly these parts; and the child of an identifier under a legal segment is an identifier whose
  parent it is.
\<close>

theorem agent_ids_roundtrip:
  "(\<forall>i. make_id parts = Inr i \<longleftrightarrow> filter (\<lambda>p. p \<noteq> []) parts \<noteq> [] \<and> list_all segment_ok (filter (\<lambda>p. p \<noteq> []) parts)
       \<and> i = py_join [separator] (filter (\<lambda>p. p \<noteq> []) parts))
    \<and> (\<forall>i. make_id parts = Inr i \<longrightarrow> valid_id i \<and> split_on separator i = filter (\<lambda>p. p \<noteq> []) parts)
    \<and> (\<forall>v name. valid_id v \<and> segment_ok name \<longrightarrow> child_id v name = Inr (v @ separator # name) \<and> parent_id (v @ separator # name) = v)"
proof -
  let ?ps = "filter (\<lambda>p. p \<noteq> []) parts"
  have made: "make_id parts = Inr i \<longleftrightarrow> ?ps \<noteq> [] \<and> list_all segment_ok ?ps \<and> i = py_join [separator] ?ps" for i
    by (rule make_id_Inr)
  moreover have "valid_id i \<and> split_on separator i = ?ps" if "make_id parts = Inr i" for i
    using that split_join [of ?ps] unfolding made valid_id_def by simp
  moreover have "child_id v name = Inr (v @ separator # name) \<and> parent_id (v @ separator # name) = v"
    if "valid_id v" "segment_ok name" for v name
    using that by (simp add: child_id_def agent_id_def valid_id_def split_on_append split_on_none segment_plain parent_append)
  ultimately show ?thesis by blast
qed

lemma agent_ids_roundtrip_witness:
  "make_id [''root'', [], ''child''] = Inr ''root.child'' \<and> parent_id ''root.child'' = ''root''"
proof -
  have "list_all segment_ok [''root'', ''child'']" "valid_id ''root''" "segment_ok ''child''" by code_simp+
  moreover have "py_join [separator] [''root'', ''child''] = ''root.child''" "''root'' @ separator # ''child'' = ''root.child''"
    by (simp_all add: separator_def)
  moreover note all = agent_ids_roundtrip [of "[''root'', [], ''child'']"]
  moreover from conjunct1 [OF all] have "make_id [''root'', [], ''child''] = Inr ''root.child''" using calculation(1,4) by simp
  moreover from conjunct2 [OF conjunct2 [OF all]] have "parent_id (''root'' @ separator # ''child'') = ''root''"
    using calculation(2,3) by blast
  ultimately show ?thesis by simp
qed

text \<open>The identifiers of the counter are not in the order of strings: the ten-thousandth is before the one before it.\<close>

lemma next_id_not_sorted: "fst (next_id 4 9999) < fst (next_id 4 9998)"
proof -
  have "fst (next_id 4 9999) = ''10000''" "fst (next_id 4 9998) = ''9999''"
    by (simp_all add: next_id_def show_nat.simps char_of_def bit_0)
  moreover have "''10000'' < (''9999'' :: string)" by (simp add: less_char_def)
  ultimately show ?thesis by simp
qed

end
