(* ===== verification/Fs_Policy.thy ===== *)
theory Fs_Policy
  imports Py_Prelude
begin

text \<open>
  Filesystem grants: the policy of \<open>permissions.py\<close> over the grant table of \<open>storage.py\<close>.  A
  resolved path (\<open>Path(...).expanduser().resolve()\<close>, the argument \<open>normalise\<close>) is the list of
  its components, so \<open>root in target.parents\<close> is a strict prefix.  A table row is a grant under
  its identifier, in insertion order.
\<close>

type_synonym path = "string list"

record filesystem_grant =
  fg_id :: string
  fg_agent_id :: string
  fg_path :: path
  fg_read :: bool
  fg_write :: bool

type_synonym grant_table = "(string, filesystem_grant) dict"

section \<open>The table\<close>

definition save_grant :: "filesystem_grant \<Rightarrow> grant_table \<Rightarrow> grant_table" where
  "save_grant g t = dict_set (fg_id g) g t"

definition load_grants :: "string option \<Rightarrow> grant_table \<Rightarrow> filesystem_grant list" where
  "load_grants agent_id t = filter (\<lambda>g. agent_id = None \<or> Some (fg_agent_id g) = agent_id) (map snd t)"

definition delete_grants_by_id :: "string list \<Rightarrow> grant_table \<Rightarrow> grant_table" where
  "delete_grants_by_id ids t = fold dict_del ids t"

definition delete_grants :: "string \<Rightarrow> path \<Rightarrow> grant_table \<Rightarrow> grant_table" where
  "delete_grants agent_id path t =
     fold dict_del (map fg_id (filter (\<lambda>g. fg_path g = path) (load_grants (Some agent_id) t))) t"

definition delete_all_grants :: "string \<Rightarrow> grant_table \<Rightarrow> grant_table" where
  "delete_all_grants agent_id t = fold dict_del (map fg_id (load_grants (Some agent_id) t)) t"

section \<open>The policy\<close>

definition grant :: "(path \<Rightarrow> path) \<Rightarrow> filesystem_grant \<Rightarrow> grant_table \<Rightarrow> grant_table" where
  "grant normalise g t = save_grant (g\<lparr>fg_path := normalise (fg_path g)\<rparr>) t"

definition revoke :: "(path \<Rightarrow> path) \<Rightarrow> string \<Rightarrow> path \<Rightarrow> grant_table \<Rightarrow> grant_table" where
  "revoke normalise agent_id path t = delete_grants agent_id (normalise path) t"

definition revoke_all :: "string \<Rightarrow> grant_table \<Rightarrow> grant_table" where
  "revoke_all agent_id t = delete_all_grants agent_id t"

definition prune_missing_paths :: "(path \<Rightarrow> bool) \<Rightarrow> grant_table \<Rightarrow> nat \<times> grant_table" where
  "prune_missing_paths path_exists t =
     (let stale = filter (\<lambda>g. \<not> path_exists (fg_path g)) (load_grants None t)
      in (length stale, if stale \<noteq> [] then delete_grants_by_id (map fg_id stale) t else t))"

definition covers :: "path \<Rightarrow> path \<Rightarrow> bool" where
  "covers root_path target \<longleftrightarrow> target = root_path \<or> strict_prefix root_path target"

text \<open>\<open>require\<close>: the grants in table order; \<open>operation\<close> is \<open>"read"\<close> or \<open>"write"\<close>.\<close>

definition allows :: "string \<Rightarrow> filesystem_grant \<Rightarrow> bool" where
  "allows operation g \<longleftrightarrow> operation = ''read'' \<and> fg_read g \<or> operation = ''write'' \<and> fg_write g"

fun first_allowing :: "(path \<Rightarrow> path) \<Rightarrow> path \<Rightarrow> string \<Rightarrow> filesystem_grant list \<Rightarrow> path option" where
  "first_allowing normalise target operation [] = None"
| "first_allowing normalise target operation (g # gs) =
     (if covers (normalise (fg_path g)) target \<and> allows operation g then Some target
      else first_allowing normalise target operation gs)"

definition require :: "(path \<Rightarrow> path) \<Rightarrow> string \<Rightarrow> path \<Rightarrow> string \<Rightarrow> grant_table \<Rightarrow> path result" where
  "require normalise agent_id path operation t =
     (let target = normalise path in
      case first_allowing normalise target operation (load_grants (Some agent_id) t) of
        Some p \<Rightarrow> Inr p
      | None \<Rightarrow> Inl (PermissionDenied operation))"

section \<open>What it guarantees\<close>

lemma covers_prefix: "covers r p \<longleftrightarrow> prefix r p"
  by (auto simp: covers_def prefix_order.le_less)

lemma first_allowing_Some: "first_allowing normalise target operation gs =
    (if \<exists>g\<in>set gs. covers (normalise (fg_path g)) target \<and> allows operation g then Some target else None)"
  by (induction gs) auto

lemma fold_dict_del_get: "dict_get (fold dict_del ks t) k = (if k \<in> set ks then None else dict_get t k)"
  by (induction ks arbitrary: t) (auto simp: dict_simps)

lemma fold_dict_del_ok: "dict_ok t \<Longrightarrow> dict_ok (fold dict_del ks t)"
  by (induction ks arbitrary: t) (auto intro: dict_ok_del)

lemma fold_dict_del_set: "set (fold dict_del ks t) = {e \<in> set t. fst e \<notin> set ks}"
proof (induction ks arbitrary: t)
  case (Cons k ks)
  have "set (dict_del k t) = {e \<in> set t. fst e \<noteq> k}" by (auto simp: dict_del_def AList.delete_eq)
  with Cons show ?case by auto
qed simp

text \<open>The rows of a table are filed under their own identifiers.\<close>

definition grants_ok :: "grant_table \<Rightarrow> bool" where
  "grants_ok t \<longleftrightarrow> dict_ok t \<and> (\<forall>e \<in> set t. fst e = fg_id (snd e))"

lemma grants_ok_save: "grants_ok t \<Longrightarrow> grants_ok (save_grant g t)"
  by (auto simp: grants_ok_def save_grant_def dest: dict_set_entries)

lemma grants_ok_del: "grants_ok t \<Longrightarrow> grants_ok (fold dict_del ks t)"
  by (auto simp: grants_ok_def fold_dict_del_ok fold_dict_del_set)

lemma grants_ok_unique: "grants_ok t \<Longrightarrow> g \<in> snd ` set t \<Longrightarrow> h \<in> snd ` set t \<Longrightarrow> fg_id g = fg_id h \<Longrightarrow> g = h"
  by (auto simp: grants_ok_def dict_ok_def) (metis eq_key_imp_eq_value fst_conv prod.collapse snd_conv)

lemma grants_ok_keep: "grants_ok t \<Longrightarrow> snd ` set (fold dict_del (map fg_id (filter P (map snd t))) t) = {g \<in> snd ` set t. \<not> P g}"
proof -
  assume ok: "grants_ok t"
  have "fg_id g \<in> set (map fg_id (filter P (map snd t))) \<longleftrightarrow> P g" if g: "g \<in> snd ` set t" for g
  proof
    assume "fg_id g \<in> set (map fg_id (filter P (map snd t)))"
    then obtain h where "h \<in> snd ` set t" "P h" "fg_id g = fg_id h" by auto
    with grants_ok_unique [OF ok g] show "P g" by metis
  qed (use g in auto)
  moreover have "fst e = fg_id (snd e)" if "e \<in> set t" for e using ok that by (simp add: grants_ok_def)
  ultimately have "{e \<in> set t. fst e \<notin> set (map fg_id (filter P (map snd t)))} = {e \<in> set t. \<not> P (snd e)}"
    by (metis (no_types, lifting) Collect_cong imageI)
  then show ?thesis unfolding fold_dict_del_set by auto
qed

text \<open>
  Access is exactly what was granted: \<open>require\<close> lets an agent read or write a path if and only
  if the table holds a grant to that agent, with that permission, on the path or a directory above
  it, and then it returns the resolved path.
\<close>

theorem require_iff_granted:
  "require normalise agent_id path operation t =
    (if \<exists>g \<in> snd ` set t. fg_agent_id g = agent_id \<and> prefix (normalise (fg_path g)) (normalise path)
          \<and> (operation = ''read'' \<and> fg_read g \<or> operation = ''write'' \<and> fg_write g)
     then Inr (normalise path) else Inl (PermissionDenied operation))"
  by (auto simp: require_def Let_def first_allowing_Some load_grants_def covers_prefix allows_def)

lemma require_iff_granted_witness:
  "require id ''ann'' [''srv'', ''data''] ''write''
     [(''1'', \<lparr>fg_id = ''1'', fg_agent_id = ''ann'', fg_path = [''srv''], fg_read = True, fg_write = False\<rparr>)]
    = Inl (PermissionDenied ''write'')"
  unfolding require_iff_granted by simp

text \<open>
  Revoking takes away what it names and nothing else: after \<open>revoke_all\<close> the agent can reach
  nothing, after \<open>revoke\<close> no grant of the agent on that path is left, and every other grant stays.
\<close>

theorem revoke_exact:
  assumes "grants_ok t"
  shows "snd ` set (revoke_all agent_id t) = {g \<in> snd ` set t. fg_agent_id g \<noteq> agent_id}
    \<and> snd ` set (revoke normalise agent_id path t)
        = {g \<in> snd ` set t. \<not> (fg_agent_id g = agent_id \<and> fg_path g = normalise path)}
    \<and> require normalise agent_id p operation (revoke_all agent_id t) = Inl (PermissionDenied operation)"
proof -
  have all: "snd ` set (revoke_all agent_id t) = {g \<in> snd ` set t. fg_agent_id g \<noteq> agent_id}"
    using grants_ok_keep [OF assms, of "\<lambda>g. fg_agent_id g = agent_id"]
    by (simp add: revoke_all_def delete_all_grants_def load_grants_def)
  have "snd ` set (revoke normalise agent_id path t)
        = {g \<in> snd ` set t. \<not> (fg_agent_id g = agent_id \<and> fg_path g = normalise path)}"
    using grants_ok_keep [OF assms, of "\<lambda>g. fg_agent_id g = agent_id \<and> fg_path g = normalise path"]
    by (simp add: revoke_def delete_grants_def load_grants_def filter_filter)
  moreover have "first_allowing normalise (normalise p) operation (load_grants (Some agent_id) (revoke_all agent_id t)) = None"
    using all by (auto simp: first_allowing_Some load_grants_def)
  ultimately show ?thesis using all by (auto simp: require_def)
qed

lemma revoke_exact_witness:
  "require id ''ann'' [''srv'', ''data''] ''read'' (revoke_all ''ann''
     [(''1'', \<lparr>fg_id = ''1'', fg_agent_id = ''ann'', fg_path = [''srv''], fg_read = True, fg_write = False\<rparr>)])
    = Inl (PermissionDenied ''read'')"
  by (rule revoke_exact [THEN conjunct2, THEN conjunct2]) (simp add: grants_ok_def dict_simps)

text \<open>
  Pruning removes exactly the grants whose path no longer exists, and reports how many.
\<close>

theorem prune_missing_exact:
  assumes "grants_ok t"
  shows "snd ` set (snd (prune_missing_paths path_exists t)) = {g \<in> snd ` set t. path_exists (fg_path g)}
    \<and> fst (prune_missing_paths path_exists t) = length (filter (\<lambda>g. \<not> path_exists (fg_path g)) (map snd t))"
proof (cases "filter (\<lambda>g. \<not> path_exists (fg_path g)) (map snd t) = []")
  case True
  then have "{g \<in> snd ` set t. path_exists (fg_path g)} = snd ` set t" by (auto simp: filter_empty_conv)
  with True show ?thesis by (simp add: prune_missing_paths_def load_grants_def)
next
  case False
  then show ?thesis
    using grants_ok_keep [OF assms, of "\<lambda>g. \<not> path_exists (fg_path g)"]
    by (auto simp: prune_missing_paths_def load_grants_def delete_grants_by_id_def)
qed

lemma prune_missing_exact_witness:
  "snd ` set (snd (prune_missing_paths (\<lambda>p. p = [''srv'']) [(''1'', \<lparr>fg_id = ''1'', fg_agent_id = ''ann'',
      fg_path = [''gone''], fg_read = True, fg_write = False\<rparr>)])) = {}"
  by (subst prune_missing_exact [THEN conjunct1]) (simp_all add: grants_ok_def dict_simps)

end
