(* ===== verification/Proc_Binding.thy ===== *)
theory Proc_Binding
  imports Py_Value
begin

text \<open>
  Values bound in a procedure definition and predicates over them (\<open>procedures.py\<close>, from the
  limits to \<open>evaluate\<close>): the limits, the reserved forms \<open>{"ref": ...}\<close> and \<open>{"literal": ...}\<close>, their
  static checks, lookup and resolution, and the three-valued predicates.  An issue is its code
  and path; the prose of its message is left out.  A scope is compared as a value: \<open>str(scope)\<close>
  names a scope exactly when the scope is that string.
\<close>

section \<open>Limits and issues\<close>

record procedure_limits =
  max_definition_bytes :: nat
  max_steps :: nat
  max_binding_depth :: nat
  max_predicate_nodes :: nat
  max_inline_result_bytes :: nat
  max_execution_inline_bytes :: nat
  max_step_attempts :: int
  max_total_step_attempts :: int
  max_delegation_depth :: int
  max_root_model_calls :: int
  max_schema_repair_calls_per_step :: int
  default_execution_deadline_seconds :: rat
  max_in_flight_steps_per_execution :: nat
  max_issues_reported :: nat

definition default_limits :: procedure_limits where
  "default_limits = \<lparr>max_definition_bytes = 65536, max_steps = 32, max_binding_depth = 8,
     max_predicate_nodes = 64, max_inline_result_bytes = 8192, max_execution_inline_bytes = 65536,
     max_step_attempts = 3, max_total_step_attempts = 64, max_delegation_depth = 3,
     max_root_model_calls = 4, max_schema_repair_calls_per_step = 1,
     default_execution_deadline_seconds = 600, max_in_flight_steps_per_execution = 1,
     max_issues_reported = 50\<rparr>"

type_synonym issue = "string \<times> string"     \<comment> \<open>code, path\<close>

section \<open>References\<close>

definition scope_names :: "string set" where
  "scope_names = {''goal'', ''result'', ''context'', ''work'', ''constants''}"

fun only_key :: "string \<Rightarrow> pyval \<Rightarrow> pyval option" where
  "only_key k (PDict [(k', v)]) = (if k' = k then Some v else None)"
| "only_key k _ = None"

definition is_ref :: "pyval \<Rightarrow> bool" where
  "is_ref v \<longleftrightarrow> only_key ''ref'' v \<noteq> None"

definition is_literal :: "pyval \<Rightarrow> bool" where
  "is_literal v \<longleftrightarrow> only_key ''literal'' v \<noteq> None"

definition dot :: "string \<Rightarrow> string \<Rightarrow> string" where
  "dot path key = path @ ''.'' @ key"

definition at_index :: "string \<Rightarrow> nat \<Rightarrow> string" where
  "at_index path i = path @ ''['' @ show_nat i @ '']''"

text \<open>\<open>list(ref.get("path") or [])\<close>.\<close>

definition ref_parts :: "pyval \<Rightarrow> pyval list result" where
  "ref_parts ref = bind_res (get_attr ref ''path'' PNone) (\<lambda>p. if truthy p then iterate p else Inr [])"

function (sequential) iter_refs :: "pyval \<Rightarrow> string \<Rightarrow> (string \<times> pyval \<times> pyval list) list result" where
  "iter_refs (PDict d) path =
     (if is_ref (PDict d) then
        bind_res (get_item (PDict d) ''ref'') (\<lambda>ref.
        bind_res (get_attr ref ''scope'' PNone) (\<lambda>scope.
        bind_res (ref_parts ref) (\<lambda>parts. Inr [(path, scope, parts)])))
      else if is_literal (PDict d) then Inr []
      else concat_res (\<lambda>(key, item). iter_refs item (dot path key)) d)"
| "iter_refs (PList xs) path = concat_res (\<lambda>(i, item). iter_refs item (at_index path i)) (indexed xs)"
| "iter_refs _ path = Inr []"
  by pat_completeness auto
termination
  by (relation "measure (size \<circ> fst)") (auto intro: size_snd_less size_indexed)

definition part_ok :: "pyval \<Rightarrow> bool" where
  "part_ok p = (case p of PStr s \<Rightarrow> s \<noteq> [] | PInt i \<Rightarrow> i \<ge> 0 | _ \<Rightarrow> False)"

definition ref_problems :: "pyval \<Rightarrow> string \<Rightarrow> issue list result" where
  "ref_problems ref path = (case ref of
      PDict r \<Rightarrow>
        if fst ` set r \<noteq> {''scope'', ''path''} then Inr [(''INVALID_BINDING'', path)]
        else bind_res (get_item ref ''scope'') (\<lambda>scope.
             bind_res (in_names scope scope_names) (\<lambda>known.
             if \<not> known then Inr [(''INVALID_SCOPE'', path)]
             else bind_res (get_item ref ''path'') (\<lambda>parts. case parts of
                 PList ps \<Rightarrow> if ps \<noteq> [] \<and> list_all part_ok ps then Inr [] else Inr [(''INVALID_BINDING'', path)]
               | _ \<Rightarrow> Inr [(''INVALID_BINDING'', path)])))
    | _ \<Rightarrow> Inr [(''INVALID_BINDING'', path)])"

function (sequential) binding_problems :: "procedure_limits \<Rightarrow> pyval \<Rightarrow> string \<Rightarrow> nat \<Rightarrow> issue list result" where
  "binding_problems limits (PDict d) path depth =
     (if depth > max_binding_depth limits then Inr [(''BINDING_TOO_DEEP'', path)]
      else if ''ref'' \<in> fst ` set d \<or> ''literal'' \<in> fst ` set d then
        if length d \<noteq> 1 then Inr [(''INVALID_BINDING'', path)]
        else if ''literal'' \<in> fst ` set d then Inr []
        else bind_res (get_item (PDict d) ''ref'') (\<lambda>ref. ref_problems ref path)
      else concat_res (\<lambda>(key, item). binding_problems limits item (dot path key) (depth + 1)) d)"
| "binding_problems limits (PList xs) path depth =
     (if depth > max_binding_depth limits then Inr [(''BINDING_TOO_DEEP'', path)]
      else concat_res (\<lambda>(i, item). binding_problems limits item (at_index path i) (depth + 1)) (indexed xs))"
| "binding_problems limits v path depth =
     (if depth > max_binding_depth limits then Inr [(''BINDING_TOO_DEEP'', path)]
      else case v of
          PFloat f \<Rightarrow> if is_finite f then Inr [] else Inr [(''NON_FINITE_NUMBER'', path)]
        | POther _ \<Rightarrow> Inr [(''INVALID_BINDING'', path)]
        | _ \<Rightarrow> Inr [])"
  by pat_completeness auto
termination
  by (relation "measure (size \<circ> fst \<circ> snd)") (auto intro: size_snd_less size_indexed)

section \<open>Lookup and resolution\<close>

type_synonym scopes = "(string, pyval) dict"

text \<open>One step of \<open>lookup\<close>: a list index (which Python counts from the end when negative) or a key.\<close>

definition lookup_part :: "pyval \<Rightarrow> pyval \<Rightarrow> pyval option result" where
  "lookup_part node part = (case part of
      PInt i \<Rightarrow>
        (case node of PList xs \<Rightarrow>
            if i \<ge> int (length xs) then Inr None
            else if i \<ge> 0 then Inr (Some (xs ! nat i))
            else if - i \<le> int (length xs) then Inr (Some (xs ! nat (int (length xs) + i)))
            else Inl IndexError
          | _ \<Rightarrow> Inr None)
    | _ \<Rightarrow>
        (case node of PDict d \<Rightarrow>
            if \<not> hashable part then Inl TypeError
            else Inr (case part of PStr k \<Rightarrow> map_of d k | _ \<Rightarrow> None)
          | _ \<Rightarrow> Inr None))"

fun lookup_parts :: "pyval \<Rightarrow> pyval list \<Rightarrow> pyval option result" where
  "lookup_parts node [] = Inr (Some node)"
| "lookup_parts node (p # ps) = bind_res (lookup_part node p) (\<lambda>found.
     case found of None \<Rightarrow> Inr None | Some v \<Rightarrow> lookup_parts v ps)"

definition lookup :: "scopes \<Rightarrow> pyval \<Rightarrow> pyval \<Rightarrow> pyval option result" where
  "lookup scopes scope parts = (case scope of
      PStr s \<Rightarrow> (case dict_get scopes s of None \<Rightarrow> Inr None
        | Some node \<Rightarrow> bind_res (iterate parts) (lookup_parts node))
    | _ \<Rightarrow> Inr None)"

function (sequential) resolve :: "pyval \<Rightarrow> scopes \<Rightarrow> string \<Rightarrow> pyval result" where
  "resolve (PDict d) scopes path =
     (if is_ref (PDict d) then
        bind_res (get_item (PDict d) ''ref'') (\<lambda>ref.
        bind_res (get_item ref ''scope'') (\<lambda>scope.
        bind_res (get_item ref ''path'') (\<lambda>parts.
        bind_res (lookup scopes scope parts) (\<lambda>found. case found of
            None \<Rightarrow> Inl (BindingError ''MISSING_BINDING'' path)
          | Some v \<Rightarrow> Inr v))))
      else if is_literal (PDict d) then get_item (PDict d) ''literal''
      else bind_res (map_res (\<lambda>(key, item). bind_res (resolve item scopes (dot path key)) (\<lambda>v. Inr (key, v))) d)
             (\<lambda>entries. Inr (PDict entries)))"
| "resolve (PList xs) scopes path =
     bind_res (map_res (\<lambda>(i, item). resolve item scopes (at_index path i)) (indexed xs)) (\<lambda>vs. Inr (PList vs))"
| "resolve v scopes path = Inr v"
  by pat_completeness auto
termination
  by (relation "measure (size \<circ> fst)") (auto intro: size_snd_less size_indexed)

section \<open>Accepted bindings resolve\<close>

definition missing_error :: "exn \<Rightarrow> bool" where
  "missing_error e \<longleftrightarrow> (\<exists>q. e = BindingError ''MISSING_BINDING'' q)"

definition found :: "scopes \<Rightarrow> string \<times> pyval \<times> pyval list \<Rightarrow> bool" where
  "found scopes r \<longleftrightarrow> (case r of (_, scope, parts) \<Rightarrow> \<exists>v. lookup scopes scope (PList parts) = Inr (Some v))"

lemma lookup_parts_ok:
  "list_all part_ok ps \<Longrightarrow> \<exists>r. lookup_parts node ps = Inr r"
proof (induction ps arbitrary: node)
  case Nil
  then show ?case by simp
next
  case (Cons p ps)
  have "\<exists>r. lookup_part node p = Inr r"
    using Cons.prems by (cases p) (auto simp: part_ok_def lookup_part_def split: pyval.splits)
  with Cons show ?case by (auto split: option.splits)
qed

lemma lookup_ok: "list_all part_ok ps \<Longrightarrow> \<exists>r. lookup scopes (PStr s) (PList ps) = Inr r"
  using lookup_parts_ok by (auto simp: lookup_def split: option.split)

lemma ref_problems_ok:
  assumes "ref_problems ref path = Inr []"
  obtains r s ps where "ref = PDict r" "map_of r ''scope'' = Some (PStr s)" "s \<in> scope_names"
    "map_of r ''path'' = Some (PList ps)" "ps \<noteq> []" "list_all part_ok ps"
proof -
  from assms obtain r where r: "ref = PDict r" "fst ` set r = {''scope'', ''path''}"
    by (auto simp: ref_problems_def split: pyval.splits if_splits)
  with assms obtain scope where scope: "map_of r ''scope'' = Some scope" "in_names scope scope_names = Inr True"
    by (auto simp: ref_problems_def bind_res_Inr split: if_splits option.splits)
  then obtain s where s: "scope = PStr s" "s \<in> scope_names"
    by (auto simp: in_names_def split: if_splits pyval.splits)
  from assms r scope obtain ps where "map_of r ''path'' = Some (PList ps)" "ps \<noteq> []" "list_all part_ok ps"
    by (auto simp: ref_problems_def bind_res_Inr split: if_splits option.splits pyval.splits)
  with r scope s that show thesis by blast
qed

lemma only_key_None: "k \<notin> fst ` set d \<Longrightarrow> only_key k (PDict d) = None"
  by (cases "(k, PDict d)" rule: only_key.cases) auto

lemma not_reserved: "''ref'' \<notin> fst ` set d \<Longrightarrow> ''literal'' \<notin> fst ` set d \<Longrightarrow> \<not> is_ref (PDict d) \<and> \<not> is_literal (PDict d)"
  using only_key_None unfolding is_ref_def is_literal_def by metis

lemma map_res_outcome:
  assumes "\<And>x. x \<in> set xs \<Longrightarrow> (\<exists>y. f x = Inr y) \<or> (\<exists>e. f x = Inl e \<and> P e)"
  shows "(if \<forall>x\<in>set xs. \<exists>y. f x = Inr y then \<exists>ys. map_res f xs = Inr ys else \<exists>e. map_res f xs = Inl e \<and> P e)"
  using assms
proof (induction xs)
  case (Cons x xs)
  then have IH: "if \<forall>x\<in>set xs. \<exists>y. f x = Inr y then \<exists>ys. map_res f xs = Inr ys else \<exists>e. map_res f xs = Inl e \<and> P e"
    by simp
  show ?case
  proof (cases "f x")
    case (Inl e)
    with Cons.prems [of x] show ?thesis by auto
  next
    case (Inr y)
    with IH show ?thesis by (auto split: if_splits)
  qed
qed simp

lemma concat_res_total:
  assumes "\<And>x. x \<in> set xs \<Longrightarrow> \<exists>ys. f x = Inr ys"
  shows "\<exists>ys. concat_res f xs = Inr ys \<and> set ys = (\<Union>x\<in>set xs. case f x of Inr zs \<Rightarrow> set zs | Inl _ \<Rightarrow> {})"
  using assms
proof (induction xs)
  case (Cons x xs)
  then obtain ys where "f x = Inr ys" by (meson list.set_intros(1))
  with Cons show ?case by auto
qed simp

definition resolves :: "scopes \<Rightarrow> pyval \<Rightarrow> string \<Rightarrow> bool" where
  "resolves scopes v path \<longleftrightarrow> (\<exists>refs. iter_refs v path = Inr refs \<and>
     (if \<forall>r\<in>set refs. found scopes r then \<exists>w. resolve v scopes path = Inr w
      else \<exists>e. resolve v scopes path = Inl e \<and> missing_error e))"

text \<open>The two comprehension cases share this step.\<close>

lemma resolves_items:
  assumes "\<And>x. x \<in> set xs \<Longrightarrow> resolves scopes (val x) (loc x)"
  shows "\<exists>refs. concat_res (\<lambda>x. iter_refs (val x) (loc x)) xs = Inr refs \<and>
     (if \<forall>r\<in>set refs. found scopes r then \<exists>ws. map_res (\<lambda>x. resolve (val x) scopes (loc x)) xs = Inr ws
      else \<exists>e. map_res (\<lambda>x. resolve (val x) scopes (loc x)) xs = Inl e \<and> missing_error e)"
proof -
  let ?it = "\<lambda>x. iter_refs (val x) (loc x)" and ?re = "\<lambda>x. resolve (val x) scopes (loc x)"
  have it: "\<exists>ys. ?it x = Inr ys" if "x \<in> set xs" for x
    using assms [OF that] by (auto simp: resolves_def)
  obtain refs where refs: "concat_res ?it xs = Inr refs"
    "set refs = (\<Union>x\<in>set xs. case ?it x of Inr zs \<Rightarrow> set zs | Inl _ \<Rightarrow> {})"
    using concat_res_total [of xs ?it, OF it] by blast
  have each: "(\<exists>y. ?re x = Inr y) \<longleftrightarrow> (\<forall>r \<in> (case ?it x of Inr zs \<Rightarrow> set zs | Inl _ \<Rightarrow> {}). found scopes r)"
    and out: "(\<exists>y. ?re x = Inr y) \<or> (\<exists>e. ?re x = Inl e \<and> missing_error e)" if "x \<in> set xs" for x
    using assms [OF that] by (auto simp: resolves_def split: if_splits)
  have "(\<forall>r\<in>set refs. found scopes r) \<longleftrightarrow> (\<forall>x\<in>set xs. \<exists>y. ?re x = Inr y)"
    unfolding refs(2) ball_UN by (intro ball_cong refl) (rule each [symmetric])
  with map_res_outcome [of xs ?re missing_error, OF out]
  have "if \<forall>r\<in>set refs. found scopes r then \<exists>ws. map_res ?re xs = Inr ws
      else \<exists>e. map_res ?re xs = Inl e \<and> missing_error e" by simp
  with refs(1) show ?thesis by blast
qed

lemma accepted_resolves:
  "binding_problems limits v bp depth = Inr [] \<Longrightarrow> resolves scopes v path"
proof (induction v arbitrary: bp depth path)
  case (PList xs bp depth path)
  from PList.prems have "\<forall>e\<in>set (indexed xs). binding_problems limits (snd e) (at_index bp (fst e)) (depth + 1) = Inr []"
    by (simp add: concat_res_empty case_prod_unfold split: if_splits)
  then have "resolves scopes (snd e) (at_index path (fst e))" if "e \<in> set (indexed xs)" for e
    using that in_indexed [of "fst e" "snd e" xs] by (intro PList.IH) auto
  from resolves_items [of "indexed xs" scopes snd "\<lambda>e. at_index path (fst e)", OF this]
  obtain refs where R: "concat_res (\<lambda>e. iter_refs (snd e) (at_index path (fst e))) (indexed xs) = Inr refs"
    and M: "if \<forall>r\<in>set refs. found scopes r
      then \<exists>ws. map_res (\<lambda>e. resolve (snd e) scopes (at_index path (fst e))) (indexed xs) = Inr ws
      else \<exists>ex. map_res (\<lambda>e. resolve (snd e) scopes (at_index path (fst e))) (indexed xs) = Inl ex \<and> missing_error ex"
    by blast
  from R have "iter_refs (PList xs) path = Inr refs" by (simp add: case_prod_unfold)
  moreover from M have "if \<forall>r\<in>set refs. found scopes r then \<exists>w. resolve (PList xs) scopes path = Inr w
      else \<exists>ex. resolve (PList xs) scopes path = Inl ex \<and> missing_error ex"
    by (auto simp: case_prod_unfold split: if_splits)
  ultimately show ?case unfolding resolves_def by blast
next
  case (PDict d bp depth path)
  show ?case
  proof (cases "''ref'' \<in> fst ` set d \<or> ''literal'' \<in> fst ` set d")
    case True
    with PDict.prems obtain k w where d: "d = [(k, w)]" "k = ''ref'' \<or> k = ''literal''"
      by (cases d) (auto split: if_splits)
    show ?thesis
    proof (cases "k = ''literal''")
      case True
      then show ?thesis by (simp add: d resolves_def is_ref_def is_literal_def)
    next
      case False
      with d have k: "d = [(''ref'', w)]" by simp
      with PDict.prems have "ref_problems w bp = Inr []" by (auto split: if_splits)
      then obtain r s ps where r: "w = PDict r" "map_of r ''scope'' = Some (PStr s)"
        "map_of r ''path'' = Some (PList ps)" "ps \<noteq> []" "list_all part_ok ps" by (rule ref_problems_ok)
      obtain x where x: "lookup scopes (PStr s) (PList ps) = Inr x" using lookup_ok [OF r(5)] by blast
      have "is_ref (PDict d)" by (simp add: k is_ref_def)
      with r x k show ?thesis
        by (cases x) (auto simp: resolves_def ref_parts_def found_def missing_error_def)
    qed
  next
    case False
    then have n: "\<not> is_ref (PDict d)" "\<not> is_literal (PDict d)" using not_reserved by blast+
    from PDict.prems False have "\<forall>e\<in>set d. binding_problems limits (snd e) (dot bp (fst e)) (depth + 1) = Inr []"
      by (simp add: concat_res_empty case_prod_unfold split: if_splits)
    then have "resolves scopes (snd e) (dot path (fst e))" if "e \<in> set d" for e
      using that by (intro PDict.IH) (auto simp: prod_set_defs)
    from resolves_items [of d scopes snd "\<lambda>e. dot path (fst e)", OF this]
    obtain refs where R: "concat_res (\<lambda>e. iter_refs (snd e) (dot path (fst e))) d = Inr refs"
      and M: "if \<forall>r\<in>set refs. found scopes r
        then \<exists>ws. map_res (\<lambda>e. resolve (snd e) scopes (dot path (fst e))) d = Inr ws
        else \<exists>ex. map_res (\<lambda>e. resolve (snd e) scopes (dot path (fst e))) d = Inl ex \<and> missing_error ex"
      by blast
    let ?entry = "\<lambda>e. bind_res (resolve (snd e) scopes (dot path (fst e))) (\<lambda>v. Inr (fst e, v))"
    have entries: "map_res ?entry xs = map_sum id (zip (map fst xs)) (map_res (\<lambda>e. resolve (snd e) scopes (dot path (fst e))) xs)" for xs
    proof (induction xs)
      case (Cons x xs)
      then show ?case
        by (cases "resolve (snd x) scopes (dot path (fst x))"; cases "map_res (\<lambda>e. resolve (snd e) scopes (dot path (fst e))) xs") simp_all
    qed simp
    from R n have "iter_refs (PDict d) path = Inr refs" by (simp add: case_prod_unfold)
    moreover from M have "if \<forall>r\<in>set refs. found scopes r then \<exists>w. resolve (PDict d) scopes path = Inr w
        else \<exists>ex. resolve (PDict d) scopes path = Inl ex \<and> missing_error ex"
      using n by (auto simp: case_prod_unfold entries split: if_splits)
    ultimately show ?thesis unfolding resolves_def by blast
  qed
qed (auto simp: resolves_def split: if_splits)

text \<open>
  C28. A binding the validator accepts can only fail at run time for want of a value: its references
  can be listed, and it resolves exactly when all of them are found in the scopes; otherwise it
  raises \<open>MISSING_BINDING\<close>, and never any other exception.
\<close>

theorem accepted_binding_resolves:
  assumes "binding_problems limits v at_path 0 = Inr []"
  shows "\<exists>refs. iter_refs v path = Inr refs \<and>
    (if \<forall>(_, scope, parts) \<in> set refs. \<exists>x. lookup scopes scope (PList parts) = Inr (Some x)
     then \<exists>w. resolve v scopes path = Inr w
     else \<exists>q. resolve v scopes path = Inl (BindingError ''MISSING_BINDING'' q))"
  using accepted_resolves [OF assms, of scopes path]
  unfolding resolves_def found_def missing_error_def
  by (elim exE conjE) (rule exI, rule conjI, assumption, auto split: if_splits)

definition ref_to :: "string \<Rightarrow> pyval list \<Rightarrow> pyval" where
  "ref_to scope parts = PDict [(''ref'', PDict [(''scope'', PStr scope), (''path'', PList parts)])]"

lemma accepted_binding_resolves_witness:
  "\<exists>q. resolve (PDict [(''to'', ref_to ''goal'' [PStr ''who''])]) [(''goal'', PDict [])] ''$''
      = Inl (BindingError ''MISSING_BINDING'' q)"
proof -
  have "binding_problems default_limits (PDict [(''to'', ref_to ''goal'' [PStr ''who''])]) ''args'' 0 = Inr []"
    by (simp add: default_limits_def ref_to_def ref_problems_def in_names_def scope_names_def part_ok_def insert_commute)
  note spec = accepted_binding_resolves [OF this, of "''$''" "[(''goal'', PDict [])]"]
  have "iter_refs (PDict [(''to'', ref_to ''goal'' [PStr ''who''])]) ''$'' = Inr [(''$.to'', PStr ''goal'', [PStr ''who''])]"
    "lookup [(''goal'', PDict [])] (PStr ''goal'') (PList [PStr ''who'']) = Inr None"
    by (simp_all add: ref_to_def is_ref_def is_literal_def ref_parts_def lookup_def lookup_part_def dict_simps dot_def)
  with spec show ?thesis by simp
qed

end
