(* ===== verification/Proc_Predicate.thy ===== *)
theory Proc_Predicate
  imports Proc_Binding
begin

text \<open>
  The three-valued predicates of \<open>procedures.py\<close>: their static check and their evaluation.
  \<open>True\<close>, \<open>False\<close> and \<open>None\<close> (unknown) are a datatype ordered by truth, so that \<open>all\<close> is the
  minimum and \<open>any\<close> the maximum of the items.
\<close>

section \<open>Three truth values\<close>

datatype tri = TFalse | TUnknown | TTrue

instantiation tri :: linorder
begin

fun tri_rank :: "tri \<Rightarrow> nat" where
  "tri_rank TFalse = 0"
| "tri_rank TUnknown = 1"
| "tri_rank TTrue = 2"

definition less_eq_tri :: "tri \<Rightarrow> tri \<Rightarrow> bool" where
  "less_eq_tri a b \<longleftrightarrow> tri_rank a \<le> tri_rank b"

definition less_tri :: "tri \<Rightarrow> tri \<Rightarrow> bool" where
  "less_tri a b \<longleftrightarrow> tri_rank a < tri_rank b"

instance
proof
  fix a b c :: tri
  show "a < b \<longleftrightarrow> a \<le> b \<and> \<not> b \<le> a" by (auto simp: less_eq_tri_def less_tri_def)
  show "a \<le> a" by (simp add: less_eq_tri_def)
  show "a \<le> b \<Longrightarrow> b \<le> c \<Longrightarrow> a \<le> c" by (simp add: less_eq_tri_def)
  show "a \<le> b \<Longrightarrow> b \<le> a \<Longrightarrow> a = b" by (cases a; cases b) (simp_all add: less_eq_tri_def)
  show "a \<le> b \<or> b \<le> a" by (auto simp: less_eq_tri_def)
qed

end

definition tri_of :: "bool \<Rightarrow> tri" where
  "tri_of b = (if b then TTrue else TFalse)"

fun tri_not :: "tri \<Rightarrow> tri" where
  "tri_not TFalse = TTrue"
| "tri_not TUnknown = TUnknown"
| "tri_not TTrue = TFalse"

text \<open>The combination of the items' results, as the code writes it.\<close>

definition tri_all :: "tri list \<Rightarrow> tri" where
  "tri_all rs = (if list_ex (\<lambda>r. r = TFalse) rs then TFalse
     else if list_all (\<lambda>r. r = TTrue) rs then TTrue else TUnknown)"

definition tri_any :: "tri list \<Rightarrow> tri" where
  "tri_any rs = (if list_ex (\<lambda>r. r = TTrue) rs then TTrue
     else if list_all (\<lambda>r. r = TFalse) rs then TFalse else TUnknown)"

lemma tri_all_min: "tri_all rs = foldr min rs TTrue"
proof (induction rs)
  case (Cons r rs)
  then show ?case by (cases r) (auto simp: tri_all_def min_def less_eq_tri_def split: if_splits)
qed (simp add: tri_all_def)

lemma tri_any_max: "tri_any rs = foldr max rs TFalse"
proof (induction rs)
  case (Cons r rs)
  then show ?case by (cases r) (auto simp: tri_any_def max_def less_eq_tri_def split: if_splits)
qed (simp add: tri_any_def)

section \<open>The static check\<close>

definition binary_ops :: "string set" where
  "binary_ops = {''eq'', ''ne'', ''gt'', ''ge'', ''lt'', ''le''}"

definition predicate_ops :: "string set" where
  "predicate_ops = binary_ops \<union> {''exists'', ''all'', ''any'', ''not''}"

definition allowed_keys :: "string \<Rightarrow> string set" where
  "allowed_keys opn = (if opn = ''exists'' then {''op'', ''value''}
     else if opn = ''all'' \<or> opn = ''any'' then {''op'', ''items''}
     else if opn = ''not'' then {''op'', ''item''}
     else {''op'', ''left'', ''right''})"

text \<open>\<open>walk\<close>: the issues of a node and the number of nodes walked.\<close>

definition operand_problems :: "procedure_limits \<Rightarrow> (string \<times> pyval) list \<Rightarrow> string \<Rightarrow> issue list result" where
  "operand_problems limits d at_path = concat_res (\<lambda>key. case map_of d key of None \<Rightarrow> Inr []
     | Some v \<Rightarrow> binding_problems limits v (dot at_path key) 0) [''value'', ''left'', ''right'']"

definition join_walks :: "(issue list \<times> nat) list \<Rightarrow> issue list \<times> nat" where
  "join_walks ws = (concat (map fst ws), sum_list (map snd ws) + 1)"

function (sequential) walk_predicate :: "procedure_limits \<Rightarrow> pyval \<Rightarrow> string \<Rightarrow> (issue list \<times> nat) result" where
  "walk_predicate limits (PDict d) at_path =
     (case map_of d ''op'' of
        None \<Rightarrow> Inr ([(''INVALID_PREDICATE'', at_path)], 1)
      | Some opv \<Rightarrow>
          bind_res (in_names opv predicate_ops) (\<lambda>known.
          if \<not> known then Inr ([(''UNSUPPORTED_OPERATOR'', at_path)], 1)
          else let opn = (case opv of PStr s \<Rightarrow> s | _ \<Rightarrow> []) in
            if fst ` set d \<noteq> allowed_keys opn then Inr ([(''INVALID_PREDICATE'', at_path)], 1)
            else if opn = ''all'' \<or> opn = ''any'' then
              (case map_of d ''items'' of
                 Some (PList xs) \<Rightarrow>
                   if xs = [] then Inr ([(''EMPTY_COMPOSITE'', at_path)], 1)
                   else map_sum id join_walks (map_res (\<lambda>(i, item).
                          walk_predicate limits item (at_index (dot at_path ''items'') i)) (indexed xs))
               | _ \<Rightarrow> Inr ([(''EMPTY_COMPOSITE'', at_path)], 1))
            else if opn = ''not'' then
              (case map_of d ''item'' of
                 Some item \<Rightarrow> map_sum id (\<lambda>w. join_walks [w]) (walk_predicate limits item (dot at_path ''item''))
               | None \<Rightarrow> Inl (KeyError ''item''))
            else map_sum id (\<lambda>is. (is, 1)) (operand_problems limits d at_path)))"
| "walk_predicate limits v at_path = Inr ([(''INVALID_PREDICATE'', at_path)], 1)"
  by pat_completeness auto
termination
proof (relation "measure (size \<circ> fst \<circ> snd)"; clarsimp)
  fix d :: "(string \<times> pyval) list" and xs :: "pyval list" and i :: nat and item
  assume "map_of d ''items'' = Some (PList xs)" "(i, item) \<in> set (indexed xs)"
  then show "size item < Suc (size_list (size_prod (\<lambda>x. 0) size) d)"
    using size_map_of [of d "''items''"] size_indexed [of i item xs] by fastforce
next
  fix d :: "(string \<times> pyval) list" and item
  assume "map_of d ''item'' = Some item"
  then show "size item < Suc (size_list (size_prod (\<lambda>x. 0) size) d)" by (rule size_map_of)
qed

definition predicate_problems :: "procedure_limits \<Rightarrow> pyval \<Rightarrow> string \<Rightarrow> issue list result" where
  "predicate_problems limits p path = map_sum id (\<lambda>(issues, count).
     if count > max_predicate_nodes limits then issues @ [(''PREDICATE_TOO_LARGE'', path)] else issues)
     (walk_predicate limits p path)"

section \<open>Evaluation\<close>

fun value_kind :: "pyval \<Rightarrow> string" where
  "value_kind (PBool _) = ''bool''"
| "value_kind (PInt _) = ''number''"
| "value_kind (PFloat _) = ''number''"
| "value_kind (PStr _) = ''string''"
| "value_kind PNone = ''null''"
| "value_kind v = type_name v"

definition comparable :: "pyval \<Rightarrow> pyval \<Rightarrow> bool" where
  "comparable l r \<longleftrightarrow> value_kind l = value_kind r"

text \<open>\<open>l < r\<close> and \<open>l <= r\<close> for two numbers or two strings.\<close>

definition value_less :: "pyval \<Rightarrow> pyval \<Rightarrow> bool" where
  "value_less l r = (case (l, r) of (PStr s, PStr t) \<Rightarrow> s < t
     | _ \<Rightarrow> (case (as_float l, as_float r) of (Some f, Some g) \<Rightarrow> float_less f g | _ \<Rightarrow> False))"

definition value_le :: "pyval \<Rightarrow> pyval \<Rightarrow> bool" where
  "value_le l r = (case (l, r) of (PStr s, PStr t) \<Rightarrow> s \<le> t
     | _ \<Rightarrow> (case (as_float l, as_float r) of (Some f, Some g) \<Rightarrow> float_le f g | _ \<Rightarrow> False))"

definition compare_values :: "pyval \<Rightarrow> pyval \<Rightarrow> pyval \<Rightarrow> tri result" where
  "compare_values opv l r =
     (if \<not> comparable l r then Inl (PredicateError ''PREDICATE_TYPE_ERROR'')
      else if opv = PStr ''eq'' then Inr (tri_of (py_eq l r))
      else if opv = PStr ''ne'' then Inr (tri_of (\<not> py_eq l r))
      else if \<not> (is_number l \<or> is_str l) then Inl (PredicateError ''PREDICATE_TYPE_ERROR'')
      else if opv = PStr ''gt'' then Inr (tri_of (value_less r l))
      else if opv = PStr ''ge'' then Inr (tri_of (value_le r l))
      else if opv = PStr ''lt'' then Inr (tri_of (value_less l r))
      else if opv = PStr ''le'' then Inr (tri_of (value_le l r))
      else Inl (KeyError ''op''))"

definition item_of :: "(string \<times> pyval) list \<Rightarrow> string \<Rightarrow> pyval result" where
  "item_of d k = (case map_of d k of None \<Rightarrow> Inl (KeyError k) | Some v \<Rightarrow> Inr v)"

text \<open>\<open>try: left, right = resolve(...), resolve(...); except BindingError: return None\<close>.\<close>

definition operands :: "(string \<times> pyval) list \<Rightarrow> scopes \<Rightarrow> (pyval \<times> pyval) option result" where
  "operands d scopes =
     (case bind_res (bind_res (item_of d ''left'') (\<lambda>v. resolve v scopes ''$'')) (\<lambda>l.
           bind_res (bind_res (item_of d ''right'') (\<lambda>v. resolve v scopes ''$'')) (\<lambda>r. Inr (l, r))) of
        Inl (BindingError c q) \<Rightarrow> Inr None
      | Inl e \<Rightarrow> Inl e
      | Inr lr \<Rightarrow> Inr (Some lr))"

definition value_exists :: "pyval \<Rightarrow> scopes \<Rightarrow> tri result" where
  "value_exists v scopes = (case only_key ''ref'' v of
      None \<Rightarrow> Inr TTrue
    | Some ref \<Rightarrow>
        bind_res (get_item ref ''scope'') (\<lambda>scope.
        bind_res (get_item ref ''path'') (\<lambda>parts.
        bind_res (lookup scopes scope parts) (\<lambda>found. Inr (tri_of (found \<noteq> None))))))"

function (sequential) evaluate :: "pyval \<Rightarrow> scopes \<Rightarrow> tri result" where
  "evaluate (PDict d) scopes =
     bind_res (item_of d ''op'') (\<lambda>opv.
       if opv = PStr ''exists'' then bind_res (item_of d ''value'') (\<lambda>v. value_exists v scopes)
       else if opv = PStr ''not'' then
         (case map_of d ''item'' of None \<Rightarrow> Inl (KeyError ''item'')
          | Some item \<Rightarrow> map_sum id tri_not (evaluate item scopes))
       else if \<not> hashable opv then Inl TypeError
       else if opv = PStr ''all'' \<or> opv = PStr ''any'' then
         (case map_of d ''items'' of
            None \<Rightarrow> Inl (KeyError ''items'')
          | Some (PList xs) \<Rightarrow> map_sum id (if opv = PStr ''all'' then tri_all else tri_any)
              (map_res (\<lambda>item. evaluate item scopes) xs)
          | Some v \<Rightarrow> bind_res (iterate v) (\<lambda>cs. if cs = [] then Inr (tri_of (opv = PStr ''all'')) else Inl TypeError))
       else bind_res (operands d scopes) (\<lambda>lr. case lr of None \<Rightarrow> Inr TUnknown
              | Some (l, r) \<Rightarrow> compare_values opv l r))"
| "evaluate v scopes = Inl TypeError"
  by pat_completeness auto
termination
proof (relation "measure (size \<circ> fst)"; clarsimp)
  fix d :: "(string \<times> pyval) list" and item
  assume "map_of d ''item'' = Some item"
  then show "size item < Suc (size_list (size_prod (\<lambda>x. 0) size) d)" by (rule size_map_of)
next
  fix d :: "(string \<times> pyval) list" and xs :: "pyval list" and item
  assume "map_of d ''items'' = Some (PList xs)" "item \<in> set xs"
  then show "size item < Suc (size_list (size_prod (\<lambda>x. 0) size) d)"
    using size_map_of [of d "''items''"] size_in_list [of item xs] by fastforce
qed

section \<open>Accepted predicates\<close>

text \<open>
  The shape of a predicate the check accepts; the flag says whether \<open>exists\<close> may occur in it.
\<close>

inductive pred_ok :: "procedure_limits \<Rightarrow> bool \<Rightarrow> pyval \<Rightarrow> bool" for limits :: procedure_limits and ex :: bool where
  ok_exists: "ex \<Longrightarrow> map_of d ''op'' = Some (PStr ''exists'') \<Longrightarrow> map_of d ''value'' = Some v
     \<Longrightarrow> binding_problems limits v q 0 = Inr [] \<Longrightarrow> pred_ok limits ex (PDict d)"
| ok_not: "map_of d ''op'' = Some (PStr ''not'') \<Longrightarrow> map_of d ''item'' = Some item
     \<Longrightarrow> pred_ok limits ex item \<Longrightarrow> pred_ok limits ex (PDict d)"
| ok_composite: "map_of d ''op'' = Some (PStr opn) \<Longrightarrow> opn = ''all'' \<or> opn = ''any''
     \<Longrightarrow> map_of d ''items'' = Some (PList xs) \<Longrightarrow> xs \<noteq> []
     \<Longrightarrow> (\<And>x. x \<in> set xs \<Longrightarrow> pred_ok limits ex x) \<Longrightarrow> pred_ok limits ex (PDict d)"
| ok_compare: "map_of d ''op'' = Some (PStr opn) \<Longrightarrow> opn \<in> binary_ops
     \<Longrightarrow> map_of d ''left'' = Some l \<Longrightarrow> binding_problems limits l q 0 = Inr []
     \<Longrightarrow> map_of d ''right'' = Some r \<Longrightarrow> binding_problems limits r q' 0 = Inr [] \<Longrightarrow> pred_ok limits ex (PDict d)"

lemma map_of_key: "k \<in> fst ` set d \<Longrightarrow> \<exists>v. map_of d k = Some v"
  by (metis map_of_eq_None_iff not_None_eq)

lemma operand_ok:
  assumes "operand_problems limits d at_path = Inr []" "map_of d k = Some v" "k \<in> {''value'', ''left'', ''right''}"
  shows "binding_problems limits v (dot at_path k) 0 = Inr []"
  using assms by (auto simp: operand_problems_def concat_res_empty simp del: concat_res_Cons split: option.splits)

lemma walk_known:
  assumes "map_of d ''op'' = Some (PStr opn)" "opn \<in> predicate_ops" "fst ` set d = allowed_keys opn"
  shows "walk_predicate limits (PDict d) at_path =
    (if opn = ''all'' \<or> opn = ''any'' then
       (case map_of d ''items'' of
          Some (PList xs) \<Rightarrow>
            if xs = [] then Inr ([(''EMPTY_COMPOSITE'', at_path)], 1)
            else map_sum id join_walks (map_res (\<lambda>(i, item).
                   walk_predicate limits item (at_index (dot at_path ''items'') i)) (indexed xs))
        | _ \<Rightarrow> Inr ([(''EMPTY_COMPOSITE'', at_path)], 1))
     else if opn = ''not'' then
       (case map_of d ''item'' of
          Some item \<Rightarrow> map_sum id (\<lambda>w. join_walks [w]) (walk_predicate limits item (dot at_path ''item''))
        | None \<Rightarrow> Inl (KeyError ''item''))
     else map_sum id (\<lambda>is. (is, 1)) (operand_problems limits d at_path))"
  using assms by (simp add: in_names_def)

lemma walk_shape:
  assumes "walk_predicate limits p at_path = Inr ([], n)"
  obtains d opn where "p = PDict d" "map_of d ''op'' = Some (PStr opn)" "opn \<in> predicate_ops"
    "fst ` set d = allowed_keys opn"
proof (cases p)
  case (PDict d)
  with assms obtain opv where opv: "map_of d ''op'' = Some opv" by (auto split: option.splits)
  with assms PDict have "in_names opv predicate_ops = Inr True"
    by (auto simp: bind_res_Inr split: if_splits)
  then obtain opn where "opv = PStr opn" "opn \<in> predicate_ops"
    by (auto simp: in_names_def split: if_splits pyval.splits)
  with assms PDict opv that show thesis by (auto simp: in_names_def split: if_splits)
qed (use assms in auto)

lemma map_res_member:
  "map_res f xs = Inr ys \<Longrightarrow> x \<in> set xs \<Longrightarrow> \<exists>y\<in>set ys. f x = Inr y"
proof (induction xs arbitrary: ys)
  case (Cons z zs)
  then show ?case by (auto simp: bind_res_Inr)
qed simp

lemma map_res_mono:
  "map_res f xs = Inr ys \<Longrightarrow> (\<And>x y. x \<in> set xs \<Longrightarrow> f x = Inr y \<Longrightarrow> g x = Inr y) \<Longrightarrow> map_res g xs = Inr ys"
proof (induction xs arbitrary: ys)
  case (Cons z zs)
  then obtain w ws where "f z = Inr w" "map_res f zs = Inr ws" "ys = w # ws" by (auto simp: bind_res_Inr)
  with Cons show ?case by simp
qed simp

lemma walk_accepted:
  "walk_predicate limits p at_path = Inr ([], n) \<Longrightarrow> pred_ok limits True p"
proof (induction p arbitrary: at_path n rule: measure_induct_rule [of size])
  case (less p)
  obtain d opn where p: "p = PDict d" and opn: "map_of d ''op'' = Some (PStr opn)" "opn \<in> predicate_ops"
    and keys: "fst ` set d = allowed_keys opn" by (rule walk_shape [OF less.prems])
  note walk = less.prems [unfolded p walk_known [OF opn keys]]
  consider "opn = ''all'' \<or> opn = ''any''" | "opn = ''not''" | "opn = ''exists''" | "opn \<in> binary_ops"
    using opn(2) by (auto simp: predicate_ops_def)
  then show ?case
  proof cases
    case 1
    then have "''items'' \<in> fst ` set d" using keys by (auto simp: allowed_keys_def)
    then have "\<exists>v. map_of d ''items'' = Some v" by (rule map_of_key)
    then obtain v where v: "map_of d ''items'' = Some v" ..
    obtain xs where xs: "map_of d ''items'' = Some (PList xs)" "xs \<noteq> []"
      using walk 1 v by (cases v) (simp_all split: if_splits)
    with walk 1 obtain ws where
        ws: "map_res (\<lambda>(i, item). walk_predicate limits item (at_index (dot at_path ''items'') i)) (indexed xs) = Inr ws"
      and empty: "concat (map fst ws) = []" by (auto simp: map_sum_Inr join_walks_def)
    have "pred_ok limits True x" if x: "x \<in> set xs" for x
    proof -
      from ex_indexed [OF x] obtain i where "(i, x) \<in> set (indexed xs)" ..
      from map_res_member [OF ws this] obtain w where w: "w \<in> set ws"
        "walk_predicate limits x (at_index (dot at_path ''items'') i) = Inr w" by auto
      with empty have "walk_predicate limits x (at_index (dot at_path ''items'') i) = Inr ([], snd w)"
        by (cases w) auto
      moreover have "size x < size p"
        using size_map_of [OF xs(1)] size_in_list [OF x] p by simp
      ultimately show ?thesis using less.IH by blast
    qed
    with opn(1) 1 xs show ?thesis unfolding p by (intro ok_composite)
  next
    case 2
    then have "''item'' \<in> fst ` set d" using keys by (auto simp: allowed_keys_def)
    then obtain item where item: "map_of d ''item'' = Some item" by (rule map_of_key [THEN exE])
    with walk 2 obtain w where "walk_predicate limits item (dot at_path ''item'') = Inr w" "fst w = []"
      by (auto simp: map_sum_Inr join_walks_def)
    then have "walk_predicate limits item (dot at_path ''item'') = Inr ([], snd w)" by (cases w) simp
    moreover have "size item < size p" using size_map_of [OF item] p by simp
    ultimately have "pred_ok limits True item" using less.IH by blast
    with opn(1) 2 item show ?thesis unfolding p by (intro ok_not) simp_all
  next
    case 3
    then have "''value'' \<in> fst ` set d" using keys by (auto simp: allowed_keys_def)
    then obtain v where v: "map_of d ''value'' = Some v" by (rule map_of_key [THEN exE])
    from walk 3 have "operand_problems limits d at_path = Inr []" by (auto simp: map_sum_Inr)
    from operand_ok [OF this v] opn(1) 3 v show ?thesis unfolding p by (intro ok_exists) simp_all
  next
    case 4
    then have c: "opn \<noteq> ''all''" "opn \<noteq> ''any''" "opn \<noteq> ''not''" "opn \<noteq> ''exists''"
      by (auto simp: binary_ops_def)
    then have "''left'' \<in> fst ` set d" "''right'' \<in> fst ` set d" using keys by (auto simp: allowed_keys_def)
    then obtain l r where lr: "map_of d ''left'' = Some l" "map_of d ''right'' = Some r"
      by (elim map_of_key [THEN exE])
    from walk c have "operand_problems limits d at_path = Inr []" by (auto simp: map_sum_Inr)
    from operand_ok [OF this lr(1)] operand_ok [OF this lr(2)] show ?thesis
      unfolding p by (intro ok_compare [OF opn(1) 4 lr(1) _ lr(2)]) simp_all
  qed
qed

lemma predicate_accepted:
  "predicate_problems limits p path = Inr [] \<Longrightarrow> pred_ok limits True p"
  using walk_accepted [of limits p path] by (auto simp: predicate_problems_def map_sum_Inr split: if_splits prod.splits)

section \<open>Accepted predicates evaluate\<close>

lemma resolve_accepted:
  assumes "binding_problems limits v q 0 = Inr []"
  shows "(\<exists>w. resolve v scopes path = Inr w) \<or> (\<exists>q. resolve v scopes path = Inl (BindingError ''MISSING_BINDING'' q))"
  using accepted_resolves [OF assms, of scopes path] by (auto simp: resolves_def missing_error_def split: if_splits)

definition predicate_error :: "exn \<Rightarrow> bool" where
  "predicate_error e \<longleftrightarrow> e = PredicateError ''PREDICATE_TYPE_ERROR''"

lemma value_exists_accepted:
  assumes "binding_problems limits v q 0 = Inr []"
  shows "\<exists>t. value_exists v scopes = Inr t"
proof (cases "only_key ''ref'' v")
  case None
  then show ?thesis by (simp add: value_exists_def)
next
  case (Some ref)
  then have v: "v = PDict [(''ref'', ref)]" by (cases "(''ref'', v)" rule: only_key.cases) (auto split: if_splits)
  with assms have "ref_problems ref q = Inr []" by (auto split: if_splits)
  then obtain r s ps where "ref = PDict r" "map_of r ''scope'' = Some (PStr s)" "map_of r ''path'' = Some (PList ps)"
    "list_all part_ok ps" by (rule ref_problems_ok)
  with Some lookup_ok [of ps scopes s] show ?thesis by (auto simp: value_exists_def)
qed

lemma compare_accepted:
  "opn \<in> binary_ops \<Longrightarrow> (\<exists>t. compare_values (PStr opn) l r = Inr t)
     \<or> (\<exists>e. compare_values (PStr opn) l r = Inl e \<and> predicate_error e)"
  by (auto simp: compare_values_def binary_ops_def predicate_error_def)

lemma binary_op_eqs: "opn \<in> binary_ops \<Longrightarrow> opn \<noteq> ''exists'' \<and> opn \<noteq> ''not'' \<and> opn \<noteq> ''all'' \<and> opn \<noteq> ''any''"
  by (auto simp: binary_ops_def)

text \<open>How an accepted predicate of each shape evaluates.\<close>

lemma evaluate_exists: "map_of d ''op'' = Some (PStr ''exists'') \<Longrightarrow> map_of d ''value'' = Some v
    \<Longrightarrow> evaluate (PDict d) scopes = value_exists v scopes"
  by (simp add: item_of_def)

lemma evaluate_not: "map_of d ''op'' = Some (PStr ''not'') \<Longrightarrow> map_of d ''item'' = Some item
    \<Longrightarrow> evaluate (PDict d) scopes = map_sum id tri_not (evaluate item scopes)"
  by (simp add: item_of_def)

lemma evaluate_composite:
  assumes "map_of d ''op'' = Some (PStr opn)" "opn = ''all'' \<or> opn = ''any''" "map_of d ''items'' = Some (PList xs)"
  shows "evaluate (PDict d) scopes = map_sum id (if opn = ''all'' then tri_all else tri_any) (map_res (\<lambda>x. evaluate x scopes) xs)"
  using assms(2)
proof
  assume "opn = ''all''"
  with assms(1,3) show ?thesis by (simp add: item_of_def)
next
  assume "opn = ''any''"
  with assms(1,3) show ?thesis by (simp add: item_of_def)
qed

lemma evaluate_compare: "map_of d ''op'' = Some (PStr opn) \<Longrightarrow> opn \<in> binary_ops \<Longrightarrow>
    evaluate (PDict d) scopes = bind_res (operands d scopes) (\<lambda>lr. case lr of None \<Rightarrow> Inr TUnknown
              | Some (l, r) \<Rightarrow> compare_values (PStr opn) l r)"
  using binary_op_eqs by (simp add: item_of_def)

declare evaluate.simps(1) [simp del]

lemma operands_accepted:
  assumes "map_of d ''left'' = Some l" "map_of d ''right'' = Some r"
    and "binding_problems limits l q 0 = Inr []" "binding_problems limits r q' 0 = Inr []"
  shows "\<exists>lr. operands d scopes = Inr lr"
  using resolve_accepted [OF assms(3), of scopes "''$''"] resolve_accepted [OF assms(4), of scopes "''$''"] assms(1,2)
  by (auto simp: operands_def item_of_def)

lemma pred_ok_evaluates:
  "pred_ok limits ex p \<Longrightarrow> (\<exists>t. evaluate p scopes = Inr t) \<or> (\<exists>e. evaluate p scopes = Inl e \<and> predicate_error e)"
proof (induction rule: pred_ok.induct)
  case (ok_exists d v q)
  then show ?case using value_exists_accepted evaluate_exists by simp
next
  case (ok_not d item)
  then show ?case by (auto simp: evaluate_not)
next
  case (ok_composite d opn xs)
  have "if \<forall>x\<in>set xs. \<exists>t. evaluate x scopes = Inr t then \<exists>ts. map_res (\<lambda>x. evaluate x scopes) xs = Inr ts
      else \<exists>e. map_res (\<lambda>x. evaluate x scopes) xs = Inl e \<and> predicate_error e"
    by (rule map_res_outcome) (rule ok_composite.IH)
  then show ?case
    unfolding evaluate_composite [OF ok_composite.hyps(1-3)] by (auto split: if_splits)
next
  case (ok_compare d opn l q r q')
  from operands_accepted [OF ok_compare.hyps(3,5,4,6)] obtain lr where "operands d scopes = Inr lr" by blast
  then show ?case
    unfolding evaluate_compare [OF ok_compare.hyps(1,2)]
    using compare_accepted [OF ok_compare.hyps(2)] by (cases lr) auto
qed

text \<open>
  C27. A predicate the check accepts evaluates to true, false or unknown over any scopes, or raises
  \<open>PREDICATE_TYPE_ERROR\<close> because two values of different types were compared, and nothing else:
  no missing value, malformed reference or unknown operator can raise.
\<close>

theorem accepted_predicate_evaluates:
  assumes "predicate_problems limits p path = Inr []"
  shows "(\<exists>t. evaluate p scopes = Inr t) \<or> evaluate p scopes = Inl (PredicateError ''PREDICATE_TYPE_ERROR'')"
  using pred_ok_evaluates [OF predicate_accepted [OF assms], of scopes] by (simp add: predicate_error_def)

definition sample_predicate :: pyval where
  "sample_predicate = PDict [(''op'', PStr ''gt''), (''left'', ref_to ''goal'' [PStr ''n'']), (''right'', PInt 3)]"

lemma accepted_predicate_evaluates_witness:
  "(\<exists>t. evaluate sample_predicate [(''goal'', PDict [(''n'', PStr ''x'')])] = Inr t)
    \<or> evaluate sample_predicate [(''goal'', PDict [(''n'', PStr ''x'')])] = Inl (PredicateError ''PREDICATE_TYPE_ERROR'')"
proof (rule accepted_predicate_evaluates)
  show "predicate_problems default_limits sample_predicate ''p'' = Inr []"
    by (simp add: predicate_problems_def sample_predicate_def default_limits_def ref_to_def in_names_def predicate_ops_def
        binary_ops_def allowed_keys_def operand_problems_def ref_problems_def scope_names_def part_ok_def insert_commute)
qed

section \<open>Knowing more never changes a decided answer\<close>

definition extends :: "scopes \<Rightarrow> scopes \<Rightarrow> bool" where
  "extends s t \<longleftrightarrow> (\<forall>scope parts v. lookup s scope parts = Inr (Some v) \<longrightarrow> lookup t scope parts = Inr (Some v))"

definition settles :: "tri \<Rightarrow> tri \<Rightarrow> bool" where
  "settles a b \<longleftrightarrow> a = TUnknown \<or> a = b"

lemma settles_all: "list_all2 settles as bs \<Longrightarrow> settles (tri_all as) (tri_all bs)"
  by (induction rule: list_all2_induct) (auto simp: settles_def tri_all_def split: if_splits)

lemma settles_any: "list_all2 settles as bs \<Longrightarrow> settles (tri_any as) (tri_any bs)"
  by (induction rule: list_all2_induct) (auto simp: settles_def tri_any_def split: if_splits)

lemma resolve_extends:
  "extends s t \<Longrightarrow> resolve v s path = Inr w \<Longrightarrow> resolve v t path = Inr w"
proof (induction v s path arbitrary: w rule: resolve.induct)
  case (1 d s path)
  show ?case
  proof (cases "is_ref (PDict d)")
    case True
    with 1 show ?thesis by (auto simp: bind_res_Inr extends_def split: option.splits)
  next
    case False
    show ?thesis
    proof (cases "is_literal (PDict d)")
      case True
      with False "1.prems" show ?thesis by simp
    next
      case lit: False
      let ?f = "\<lambda>sc (key, item). bind_res (resolve item sc (dot path key)) (\<lambda>v. Inr (key, v))"
      from "1.prems" False lit obtain es where es: "map_res (?f s) d = Inr es" "w = PDict es"
        by (auto simp: bind_res_Inr)
      have "map_res (?f t) d = Inr es"
      proof (rule map_res_mono [OF es(1)])
        fix x y assume "x \<in> set d" "?f s x = Inr y"
        with "1.IH" [OF False lit] "1.prems"(1) show "?f t x = Inr y"
          by (cases x) (auto simp: bind_res_Inr)
      qed
      with es(2) False lit show ?thesis by simp
    qed
  qed
next
  case (2 xs s path)
  let ?f = "\<lambda>sc (i, item). resolve item sc (at_index path i)"
  from "2.prems" obtain ws where ws: "map_res (?f s) (indexed xs) = Inr ws" "w = PList ws"
    by (auto simp: bind_res_Inr)
  have "map_res (?f t) (indexed xs) = Inr ws"
  proof (rule map_res_mono [OF ws(1)])
    fix x y assume "x \<in> set (indexed xs)" "?f s x = Inr y"
    with "2.IH" "2.prems"(1) show "?f t x = Inr y" by (cases x) auto
  qed
  with ws(2) show ?case by simp
qed auto

lemma extends_operands:
  assumes "extends s t" "operands d s = Inr (Some lr)"
  shows "operands d t = Inr (Some lr)"
  using assms(2) resolve_extends [OF assms(1)]
  by (auto simp: operands_def bind_res_Inr bind_res_Inl split: sum.splits exn.splits)

lemma map_res_settles:
  assumes "map_res (\<lambda>x. evaluate x s) xs = Inr as" "map_res (\<lambda>x. evaluate x t) xs = Inr bs"
    and "\<And>x a b. x \<in> set xs \<Longrightarrow> evaluate x s = Inr a \<Longrightarrow> evaluate x t = Inr b \<Longrightarrow> settles a b"
  shows "list_all2 settles as bs"
  using assms
proof (induction xs arbitrary: as bs)
  case (Cons x xs)
  from Cons.prems(1,2) obtain a as' b bs' where ab: "evaluate x s = Inr a" "evaluate x t = Inr b"
    and rest: "map_res (\<lambda>x. evaluate x s) xs = Inr as'" "map_res (\<lambda>x. evaluate x t) xs = Inr bs'"
    and "as = a # as'" "bs = b # bs'"
    by (auto simp: bind_res_Inr)
  have "list_all2 settles as' bs'" by (rule Cons.IH [OF rest]) (auto intro: Cons.prems(3))
  with Cons.prems(3) [OF _ ab] show ?case by (simp add: \<open>as = a # as'\<close> \<open>bs = b # bs'\<close>)
qed simp

lemma settles_not: "settles a b \<Longrightarrow> settles (tri_not a) (tri_not b)"
  by (auto simp: settles_def)

lemma monotone_evaluation:
  assumes "pred_ok limits False p" "extends s t"
  shows "evaluate p s = Inr a \<Longrightarrow> evaluate p t = Inr b \<Longrightarrow> settles a b"
  using assms(1)
proof (induction arbitrary: a b rule: pred_ok.induct)
  case (ok_not d item)
  then show ?case by (auto simp: evaluate_not map_sum_Inr settles_not)
next
  case (ok_composite d opn xs)
  note ev = evaluate_composite [OF ok_composite.hyps(1-3)]
  from ok_composite.prems obtain as bs where
    "map_res (\<lambda>x. evaluate x s) xs = Inr as" "map_res (\<lambda>x. evaluate x t) xs = Inr bs"
    and ab: "a = (if opn = ''all'' then tri_all else tri_any) as" "b = (if opn = ''all'' then tri_all else tri_any) bs"
    by (auto simp: ev map_sum_Inr)
  from map_res_settles [OF this(1,2) ok_composite.IH] show ?case
    unfolding ab by (simp add: settles_all settles_any)
next
  case (ok_compare d opn l q r q')
  note ev = evaluate_compare [OF ok_compare.hyps(1,2)]
  show ?case
  proof (cases "a = TUnknown")
    case False
    with ok_compare.prems(1) obtain lr where lr: "operands d s = Inr (Some lr)"
      by (auto simp: ev bind_res_Inr split: option.splits)
    with extends_operands [OF assms(2) lr] ok_compare.prems show ?thesis
      by (cases lr) (simp add: ev settles_def)
  qed (simp add: settles_def)
qed simp

text \<open>
  A predicate without \<open>exists\<close> is monotone in what is known: once it evaluates to true or to
  false, it evaluates to the same answer over every larger set of scopes (where every value that
  could be looked up still has the value it had).  Only unknown can change.
\<close>

theorem decided_answers_stay:
  assumes "pred_ok limits False p" "extends s t" "evaluate p s = Inr a" "evaluate p t = Inr b" "a \<noteq> TUnknown"
  shows "b = a"
  using monotone_evaluation [OF assms(1-4)] assms(5) by (simp add: settles_def)

definition goal_scope :: scopes where
  "goal_scope = [(''goal'', PDict [(''n'', PInt 4)])]"

definition later_scope :: scopes where
  "later_scope = goal_scope @ [(''result'', PInt 1)]"

lemma later_scope_extends: "extends goal_scope later_scope"
  by (auto simp: extends_def lookup_def goal_scope_def later_scope_def dict_get_def split: pyval.splits if_splits)

lemma sample_predicate_true:
  "evaluate sample_predicate goal_scope = Inr TTrue" "evaluate sample_predicate later_scope = Inr TTrue"
  by (simp_all add: evaluate.simps(1) sample_predicate_def goal_scope_def later_scope_def item_of_def operands_def
      ref_to_def is_ref_def is_literal_def lookup_def lookup_part_def compare_values_def comparable_def
      value_less_def tri_of_def dict_get_def)

lemma sample_predicate_ok: "pred_ok default_limits False sample_predicate"
  unfolding sample_predicate_def
  by (rule ok_compare [where opn = "''gt''" and l = "ref_to ''goal'' [PStr ''n'']" and r = "PInt 3"
        and q = "''p''" and q' = "''p''"])
    (simp_all add: binding_problems.simps binary_ops_def ref_to_def ref_problems_def in_names_def scope_names_def
      part_ok_def insert_commute)

lemma decided_answers_stay_witness: "TTrue = TTrue \<and> evaluate sample_predicate later_scope = Inr TTrue"
  using decided_answers_stay [OF sample_predicate_ok later_scope_extends sample_predicate_true]
    sample_predicate_true(2) by simp

end
