(* ===== verification/Proc_Schema.thy ===== *)
theory Proc_Schema
  imports Proc_Binding
begin

text \<open>
  The schema subset of \<open>procedures.py\<close>: which schemas are accepted (\<open>schema_problems\<close>) and how a
  value is validated against one (\<open>schema_errors\<close>).  An error is its path and a word for the
  check that failed.  Validation is shown to be exactly a declarative conformance relation, and
  everything it lets through to be plain JSON.
\<close>

section \<open>The static check of a schema\<close>

definition schema_keywords :: "string set" where
  "schema_keywords = {''type'', ''properties'', ''required'', ''items'', ''enum'', ''additionalProperties'',
     ''maxItems'', ''maxLength'', ''minimum'', ''maximum'', ''description''}"

definition schema_types :: "string set" where
  "schema_types = {''object'', ''array'', ''string'', ''integer'', ''number'', ''boolean'', ''null''}"

text \<open>\<open>schema.get(key, default)\<close>.\<close>

definition get_or :: "(string \<times> pyval) list \<Rightarrow> string \<Rightarrow> pyval \<Rightarrow> pyval" where
  "get_or d k dflt = (case map_of d k of None \<Rightarrow> dflt | Some v \<Rightarrow> v)"

definition opaque :: "(string \<times> pyval) list \<Rightarrow> bool" where
  "opaque d \<longleftrightarrow> get_or d ''additionalProperties'' (PBool False) = PBool True"

definition object_flag_issues :: "(string \<times> pyval) list \<Rightarrow> (string \<times> pyval) list \<Rightarrow> string \<Rightarrow> issue list" where
  "object_flag_issues d props path =
     (if opaque d \<and> (props \<noteq> [] \<or> truthy (get_or d ''required'' PNone)) then [(''INVALID_SCHEMA'', path)]
      else let extra = get_or d ''additionalProperties'' (PBool False) in
        if \<not> (py_eq extra (PBool False) \<or> py_eq extra (PBool True)) then [(''INVALID_SCHEMA'', path)] else [])"

definition required_issues :: "(string \<times> pyval) list \<Rightarrow> (string \<times> pyval) list \<Rightarrow> string \<Rightarrow> issue list result" where
  "required_issues d props path = bind_res (iterate (get_or d ''required'' (PList [])))
     (concat_res (\<lambda>name. bind_res (py_in name (PDict props)) (\<lambda>declared.
        Inr (if declared then [] else [(''INVALID_SCHEMA'', path)]))))"

function (sequential) schema_problems :: "pyval \<Rightarrow> string \<Rightarrow> issue list result" where
  "schema_problems (PDict d) path =
     (if \<not> fst ` set d \<subseteq> schema_keywords then Inr [(''UNSUPPORTED_SCHEMA_KEYWORD'', path)]
      else let kind = get_or d ''type'' PNone in
        bind_res (in_names kind schema_types) (\<lambda>known.
        if \<not> known then Inr [(''INVALID_SCHEMA'', path)]
        else if kind = PStr ''object'' then
          (case map_of d ''properties'' of
             None \<Rightarrow> bind_res (required_issues d [] path) (\<lambda>req. Inr (object_flag_issues d [] path @ req))
           | Some (PDict props) \<Rightarrow>
               bind_res (required_issues d props path) (\<lambda>req.
               bind_res (concat_res (\<lambda>(name, child). schema_problems child (dot (dot path ''properties'') name)) props)
                 (\<lambda>rest. Inr (object_flag_issues d props path @ req @ rest)))
           | _ \<Rightarrow> Inr [(''INVALID_SCHEMA'', path)])
        else if kind = PStr ''array'' then
          (case (map_of d ''items'', map_of d ''maxItems'') of
             (Some items, Some _) \<Rightarrow> schema_problems items (dot path ''items'')
           | _ \<Rightarrow> Inr [(''INVALID_SCHEMA'', path)])
        else Inr []))"
| "schema_problems _ path = Inr [(''INVALID_SCHEMA'', path)]"
  by pat_completeness auto
termination
proof (relation "measure (size \<circ> fst)"; simp)
  fix d props :: "(string \<times> pyval) list" and name child pair
  assume "map_of d ''properties'' = Some (PDict props)" "pair \<in> set props" "(name, child) = pair"
  then show "size child < Suc (size_list (size_prod (\<lambda>x. 0) size) d)"
    using size_map_of [of d "''properties''"] size_snd_less [of name child props] by fastforce
next
  fix d :: "(string \<times> pyval) list" and items m
  assume "Some items = map_of d ''items'' \<and> Some m = map_of d ''maxItems''"
  then show "size items < Suc (size_list (size_prod (\<lambda>x. 0) size) d)" using size_map_of [of d "''items''"] by simp
qed

section \<open>Validation of a value\<close>

type_synonym value_error = "string \<times> string"     \<comment> \<open>path, check\<close>

text \<open>
  The table of type checks is built as a whole, so \<open>float(value)\<close> is computed for every number,
  whatever the schema says: an integer too large for a float raises.
\<close>

definition type_ok :: "pyval \<Rightarrow> pyval \<Rightarrow> bool result" where
  "type_ok kind value =
     (if (case value of PInt i \<Rightarrow> float_overflows i | _ \<Rightarrow> False) then Inl OverflowError
      else Inr (case kind of PStr k \<Rightarrow>
          (if k = ''object'' then (case value of PDict _ \<Rightarrow> True | _ \<Rightarrow> False)
           else if k = ''array'' then (case value of PList _ \<Rightarrow> True | _ \<Rightarrow> False)
           else if k = ''string'' then is_str value
           else if k = ''integer'' then (case value of PInt _ \<Rightarrow> True | _ \<Rightarrow> False)
           else if k = ''number'' then (case value of PInt _ \<Rightarrow> True | PFloat f \<Rightarrow> is_finite f | _ \<Rightarrow> False)
           else if k = ''boolean'' then (case value of PBool _ \<Rightarrow> True | _ \<Rightarrow> False)
           else k = ''null'' \<and> value = PNone)
        | _ \<Rightarrow> False))"

text \<open>An optional keyword of the schema and the check it asks for.\<close>

definition check_keyword :: "(string \<times> pyval) list \<Rightarrow> string \<Rightarrow> (pyval \<Rightarrow> bool result) \<Rightarrow> value_error \<Rightarrow> value_error list result" where
  "check_keyword s k bad err = (case map_of s k of None \<Rightarrow> Inr []
     | Some bound \<Rightarrow> bind_res (bad bound) (\<lambda>b. Inr (if b then [err] else [])))"

definition facet_errors :: "(string \<times> pyval) list \<Rightarrow> pyval \<Rightarrow> string \<Rightarrow> value_error list result" where
  "facet_errors s value path =
     bind_res (check_keyword s ''enum'' (\<lambda>e. map_sum id Not (py_in value e)) (path, ''enum'')) (\<lambda>e1.
     bind_res (case value of PStr t \<Rightarrow> check_keyword s ''maxLength'' (\<lambda>m. num_less m (PInt (int (length t)))) (path, ''maxLength'')
                | _ \<Rightarrow> Inr []) (\<lambda>e2.
     bind_res (if is_number value then check_keyword s ''minimum'' (\<lambda>m. num_less value m) (path, ''minimum'') else Inr []) (\<lambda>e3.
     bind_res (if is_number value then check_keyword s ''maximum'' (\<lambda>m. num_less m value) (path, ''maximum'') else Inr []) (\<lambda>e4.
     Inr (e1 @ e2 @ e3 @ e4)))))"

function (sequential) json_errors :: "pyval \<Rightarrow> string \<Rightarrow> nat \<Rightarrow> value_error list" where
  "json_errors (PDict d) path depth = (if depth > 32 then [(path, ''depth'')]
     else concat (map (\<lambda>(key, item). json_errors item (dot path key) (depth + 1)) d))"
| "json_errors (PList xs) path depth = (if depth > 32 then [(path, ''depth'')]
     else concat (map (\<lambda>(i, item). json_errors item (at_index path i) (depth + 1)) (indexed xs)))"
| "json_errors v path depth = (if depth > 32 then [(path, ''depth'')]
     else case v of PFloat f \<Rightarrow> if is_finite f then [] else [(path, ''finite'')]
       | POther _ \<Rightarrow> [(path, ''json'')]
       | _ \<Rightarrow> [])"
  by pat_completeness auto
termination
  by (relation "measure (size \<circ> fst)") (auto intro: size_snd_less size_indexed)

definition missing_errors :: "(string \<times> pyval) list \<Rightarrow> (string \<times> pyval) list \<Rightarrow> string \<Rightarrow> value_error list result" where
  "missing_errors s d path = bind_res (iterate (get_or s ''required'' (PList [])))
     (concat_res (\<lambda>name. bind_res (py_in name (PDict d)) (\<lambda>present.
        Inr (if present then []
          else [(case name of PStr k \<Rightarrow> dot path k | _ \<Rightarrow> path, ''required'')]))))"

definition length_errors :: "(string \<times> pyval) list \<Rightarrow> nat \<Rightarrow> string \<Rightarrow> value_error list result" where
  "length_errors s n path = bind_res (num_less (get_or s ''maxItems'' (PInt 0)) (PInt (int n)))
     (\<lambda>many. Inr (if many then [(path, ''maxItems'')] else []))"

fun schema_dict :: "pyval \<Rightarrow> (string \<times> pyval) list result" where
  "schema_dict (PDict s) = Inr s"
| "schema_dict _ = Inl AttributeError"

function schema_errors :: "pyval \<Rightarrow> pyval \<Rightarrow> string \<Rightarrow> value_error list result" where
  "schema_errors value schema path =
     bind_res (schema_dict schema) (\<lambda>s.
     bind_res (type_ok (get_or s ''type'' PNone) value) (\<lambda>ok.
     if \<not> ok then Inr [(path, ''type'')]
     else bind_res (facet_errors s value path) (\<lambda>errors.
       case value of
         PDict d \<Rightarrow>
           if opaque s then Inr (errors @ json_errors value path 0)
           else let props = get_or s ''properties'' (PDict []) in
             bind_res (missing_errors s d path) (\<lambda>missing.
             bind_res (concat_res (\<lambda>(name, item).
                 bind_res (py_in (PStr name) props) (\<lambda>declared.
                 if \<not> declared then Inr [(dot path name, ''not allowed'')]
                 else bind_res (get_item props name) (\<lambda>child. schema_errors item child (dot path name)))) d) (\<lambda>rest.
             Inr (errors @ missing @ rest)))
       | PList xs \<Rightarrow>
           bind_res (length_errors s (length xs) path) (\<lambda>many.
           bind_res (concat_res (\<lambda>(i, item).
               bind_res (get_item schema ''items'') (\<lambda>child. schema_errors item child (at_index path i))) (indexed xs)) (\<lambda>rest.
           Inr (errors @ many @ rest)))
       | _ \<Rightarrow> Inr errors)))"
  by pat_completeness auto
termination
  by (relation "measure (size \<circ> fst)") (auto intro: size_snd_less size_indexed)

declare schema_errors.simps [simp del]

section \<open>Conformance\<close>

text \<open>
  What a value of a schema is, by its type.  \<open>facets\<close> are the bounds and the enumeration that
  apply to values of every type; a keyword that is absent asks for nothing.
\<close>

definition facets :: "(string \<times> pyval) list \<Rightarrow> pyval \<Rightarrow> bool" where
  "facets s v \<longleftrightarrow>
     (\<forall>e. map_of s ''enum'' = Some e \<longrightarrow> py_in v e = Inr True)
   \<and> (\<forall>m t. v = PStr t \<longrightarrow> map_of s ''maxLength'' = Some m \<longrightarrow> num_less m (PInt (int (length t))) = Inr False)
   \<and> (\<forall>m. is_number v \<longrightarrow> map_of s ''minimum'' = Some m \<longrightarrow> num_less v m = Inr False)
   \<and> (\<forall>m. is_number v \<longrightarrow> map_of s ''maximum'' = Some m \<longrightarrow> num_less m v = Inr False)"

definition required_present :: "(string \<times> pyval) list \<Rightarrow> (string \<times> pyval) list \<Rightarrow> bool" where
  "required_present s d \<longleftrightarrow> (\<exists>names. iterate (get_or s ''required'' (PList [])) = Inr names
     \<and> (\<forall>name\<in>set names. py_in name (PDict d) = Inr True))"

definition of_type :: "(string \<times> pyval) list \<Rightarrow> string \<Rightarrow> bool" where
  "of_type s k \<longleftrightarrow> map_of s ''type'' = Some (PStr k)"

inductive conforms :: "pyval \<Rightarrow> pyval \<Rightarrow> bool" where
  con_null: "of_type s ''null'' \<Longrightarrow> facets s PNone \<Longrightarrow> conforms (PDict s) PNone"
| con_bool: "of_type s ''boolean'' \<Longrightarrow> facets s (PBool b) \<Longrightarrow> conforms (PDict s) (PBool b)"
| con_int: "of_type s ''integer'' \<or> of_type s ''number'' \<Longrightarrow> \<not> float_overflows i \<Longrightarrow> facets s (PInt i)
     \<Longrightarrow> conforms (PDict s) (PInt i)"
| con_float: "of_type s ''number'' \<Longrightarrow> is_finite f \<Longrightarrow> facets s (PFloat f) \<Longrightarrow> conforms (PDict s) (PFloat f)"
| con_str: "of_type s ''string'' \<Longrightarrow> facets s (PStr t) \<Longrightarrow> conforms (PDict s) (PStr t)"
| con_list: "of_type s ''array'' \<Longrightarrow> facets s (PList xs)
     \<Longrightarrow> num_less (get_or s ''maxItems'' (PInt 0)) (PInt (int (length xs))) = Inr False
     \<Longrightarrow> (\<And>x. x \<in> set xs \<Longrightarrow> \<exists>child. map_of s ''items'' = Some child \<and> conforms child x)
     \<Longrightarrow> conforms (PDict s) (PList xs)"
| con_opaque: "of_type s ''object'' \<Longrightarrow> facets s (PDict d) \<Longrightarrow> opaque s \<Longrightarrow> json_errors (PDict d) path 0 = []
     \<Longrightarrow> conforms (PDict s) (PDict d)"
| con_object: "of_type s ''object'' \<Longrightarrow> facets s (PDict d) \<Longrightarrow> \<not> opaque s \<Longrightarrow> required_present s d
     \<Longrightarrow> (\<And>k v. (k, v) \<in> set d \<Longrightarrow> \<exists>props child. map_of s ''properties'' = Some (PDict props)
            \<and> map_of props k = Some child \<and> conforms child v)
     \<Longrightarrow> conforms (PDict s) (PDict d)"

section \<open>Validation decides conformance\<close>

lemma check_keyword_empty:
  "(check_keyword s k bad err = Inr []) = (\<forall>m. map_of s k = Some m \<longrightarrow> bad m = Inr False)"
  by (auto simp: check_keyword_def bind_res_Inr split: option.splits if_splits)

lemma map_sum_Not: "(map_sum id Not r = Inr False) = (r = Inr True)"
  by (cases r) auto

lemma facet_errors_empty: "(facet_errors s v path = Inr []) = facets s v"
  unfolding facets_def facet_errors_def
  by (cases v) (auto simp: bind_res_Inr check_keyword_empty map_sum_Not)

lemma json_errors_path: "json_errors v p n = [] \<Longrightarrow> json_errors v q n = []"
proof (induction v p n arbitrary: q rule: json_errors.induct)
  case (1 d p n)
  then have n: "\<not> n > 32" by auto
  with "1.prems" have "\<forall>(k, item)\<in>set d. json_errors item (dot p k) (n + 1) = []" by auto
  with "1.IH" [OF n] have "\<forall>(k, item)\<in>set d. json_errors item (dot q k) (n + 1) = []" by blast
  with n show ?case by auto
next
  case (2 xs p n)
  then have n: "\<not> n > 32" by auto
  with "2.prems" have "\<forall>(i, item)\<in>set (indexed xs). json_errors item (at_index p i) (n + 1) = []" by auto
  with "2.IH" [OF n] have "\<forall>(i, item)\<in>set (indexed xs). json_errors item (at_index q i) (n + 1) = []" by blast
  with n show ?case by auto
qed (auto split: if_splits)

lemma missing_errors_empty: "(missing_errors s d path = Inr []) = required_present s d"
  by (auto simp: missing_errors_def required_present_def bind_res_Inr concat_res_empty)

lemma type_ok_of_type: "type_ok (get_or s ''type'' PNone) v = Inr True \<Longrightarrow> \<exists>k. of_type s k"
  by (auto simp: type_ok_def get_or_def of_type_def split: if_splits option.splits pyval.splits)

lemma get_or_type: "of_type s k \<Longrightarrow> get_or s ''type'' PNone = PStr k"
  by (simp add: of_type_def get_or_def)

lemma bind_guard: "(bind_res m (\<lambda>ok. if \<not> ok then Inr [e] else f) = Inr []) = (m = Inr True \<and> f = Inr [])"
  by (cases m) auto

lemma bind_append: "(bind_res m (\<lambda>xs. bind_res n (\<lambda>ys. Inr (es @ xs @ ys))) = Inr []) = (es = [] \<and> m = Inr [] \<and> n = Inr [])"
  by (cases m; cases n) auto

lemma bind_empty: "(\<And>x. x \<noteq> [] \<Longrightarrow> f x \<noteq> Inr []) \<Longrightarrow> (bind_res m f = Inr []) = (m = Inr [] \<and> f [] = Inr [])"
  by (cases m; cases "m = Inr []") auto

lemma schema_errors_step:
  "(schema_errors v (PDict s) path = Inr []) = (type_ok (get_or s ''type'' PNone) v = Inr True \<and> facets s v
     \<and> (case v of
          PDict d \<Rightarrow> if opaque s then json_errors v path 0 = [] else required_present s d
            \<and> (\<forall>(k, item)\<in>set d. py_in (PStr k) (get_or s ''properties'' (PDict [])) = Inr True
                 \<and> (\<exists>child. get_item (get_or s ''properties'' (PDict [])) k = Inr child
                      \<and> schema_errors item child (dot path k) = Inr []))
        | PList xs \<Rightarrow> num_less (get_or s ''maxItems'' (PInt 0)) (PInt (int (length xs))) = Inr False
            \<and> (\<forall>(i, item)\<in>set (indexed xs). \<exists>child. map_of s ''items'' = Some child
                 \<and> schema_errors item child (at_index path i) = Inr [])
        | _ \<Rightarrow> True))"
  (is "?lhs = (?t \<and> ?f \<and> ?rest)")
proof -
  define body where "body = (\<lambda>errors. case v of
         PDict d \<Rightarrow>
           if opaque s then Inr (errors @ json_errors v path 0)
           else let props = get_or s ''properties'' (PDict []) in
             bind_res (missing_errors s d path) (\<lambda>missing.
             bind_res (concat_res (\<lambda>(name, item).
                 bind_res (py_in (PStr name) props) (\<lambda>declared.
                 if \<not> declared then Inr [(dot path name, ''not allowed'')]
                 else bind_res (get_item props name) (\<lambda>child. schema_errors item child (dot path name)))) d) (\<lambda>rest.
             Inr (errors @ missing @ rest)))
       | PList xs \<Rightarrow>
           bind_res (length_errors s (length xs) path) (\<lambda>many.
           bind_res (concat_res (\<lambda>(i, item).
               bind_res (get_item (PDict s) ''items'') (\<lambda>child. schema_errors item child (at_index path i))) (indexed xs)) (\<lambda>rest.
           Inr (errors @ many @ rest)))
       | _ \<Rightarrow> Inr errors)"
  have "body errors \<noteq> Inr []" if "errors \<noteq> []" for errors
    using that by (cases v) (simp_all add: body_def bind_res_Inr Let_def)
  then have empty: "(bind_res (facet_errors s v path) body = Inr []) = (?f \<and> body [] = Inr [])"
    by (subst bind_empty) (auto simp: facet_errors_empty)
  have "schema_errors v (PDict s) path = bind_res (type_ok (get_or s ''type'' PNone) v) (\<lambda>ok.
      if \<not> ok then Inr [(path, ''type'')] else bind_res (facet_errors s v path) body)"
    by (subst schema_errors.simps) (simp only: schema_dict.simps bind_res.simps body_def)
  then have "?lhs = (?t \<and> ?f \<and> body [] = Inr [])"
    using empty by (simp only: bind_guard)
  also have "(body [] = Inr []) = ?rest"
  proof (cases v)
    case (PDict d)
    then show ?thesis
      by (simp add: body_def bind_append missing_errors_empty concat_res_empty bind_guard bind_res_Inr case_prod_unfold ex_bool_eq Let_def
          del: bind_res.simps)
  next
    case (PList xs)
    then show ?thesis
      by (simp add: body_def bind_append concat_res_empty length_errors_def bind_res_Inr case_prod_unfold ex_bool_eq split: option.split
          del: bind_res.simps)
  qed (simp_all add: body_def)
  finally show ?thesis .
qed

lemma array_schema:
  assumes "schema_problems (PDict d) q = Inr []" "of_type d ''array''" "map_of d ''items'' = Some child"
  shows "schema_problems child (dot q ''items'') = Inr []"
proof -
  have "get_or d ''type'' PNone = PStr ''array''" by (rule get_or_type [OF assms(2)])
  with assms(1,3) show ?thesis by (cases "map_of d ''maxItems''") (simp_all add: in_names_def schema_types_def split: if_splits)
qed

lemma object_schema:
  assumes "schema_problems (PDict d) q = Inr []" "of_type d ''object''" "map_of d ''properties'' = Some (PDict props)"
    and "map_of props n = Some child"
  shows "schema_problems child (dot (dot q ''properties'') n) = Inr []"
proof -
  have "get_or d ''type'' PNone = PStr ''object''" by (rule get_or_type [OF assms(2)])
  with assms(1,3) have "concat_res (\<lambda>(name, child). schema_problems child (dot (dot q ''properties'') name)) props = Inr []"
    by (simp add: in_names_def schema_types_def bind_res_Inr split: if_splits)
  with map_of_SomeD [OF assms(4)] show ?thesis by (auto simp: concat_res_empty)
qed

declare schema_problems.simps(1) [simp del]

lemma conforms_sound:
  "schema_problems s q = Inr [] \<Longrightarrow> schema_errors v s path = Inr [] \<Longrightarrow> conforms s v"
proof (induction v arbitrary: s q path rule: measure_induct_rule [of size])
  case (less v)
  from less.prems(1) obtain d where s: "s = PDict d" by (cases s) auto
  note step = less.prems(2) [unfolded s schema_errors_step]
  then have ty: "type_ok (get_or d ''type'' PNone) v = Inr True" and facets: "facets d v" by simp_all
  from type_ok_of_type [OF ty] obtain k where k: "of_type d k" ..
  note ty = ty [unfolded get_or_type [OF k]]
  show ?case
  proof (cases v)
    case PNone
    with ty k facets show ?thesis unfolding s by (auto simp: type_ok_def intro!: con_null split: if_splits)
  next
    case (PBool b)
    with ty k facets show ?thesis unfolding s by (auto simp: type_ok_def intro!: con_bool split: if_splits)
  next
    case (PInt i)
    with ty k facets show ?thesis unfolding s by (auto simp: type_ok_def intro!: con_int split: if_splits)
  next
    case (PFloat f)
    with ty k facets show ?thesis unfolding s by (auto simp: type_ok_def intro!: con_float split: if_splits)
  next
    case (PStr t)
    with ty k facets show ?thesis unfolding s by (auto simp: type_ok_def intro!: con_str split: if_splits)
  next
    case (PList xs)
    with ty have array: "k = ''array''" by (auto simp: type_ok_def split: if_splits)
    have "\<exists>child. map_of d ''items'' = Some child \<and> conforms child x" if x: "x \<in> set xs" for x
    proof -
      from ex_indexed [OF x] obtain i where "(i, x) \<in> set (indexed xs)" ..
      with step PList obtain child where child: "map_of d ''items'' = Some child"
        "schema_errors x child (at_index path i) = Inr []" by auto
      have "schema_problems child (dot q ''items'') = Inr []"
        using less.prems(1) k child(1) unfolding s array by (rule array_schema)
      with child less.IH [OF _ this child(2)] size_in_list [OF x] PList show ?thesis by simp
    qed
    with k facets step PList show ?thesis unfolding s array PList by (intro con_list) simp_all
  next
    case (PDict e)
    with ty have obj: "k = ''object''" by (auto simp: type_ok_def split: if_splits)
    show ?thesis
    proof (cases "opaque d")
      case True
      with k facets step PDict show ?thesis unfolding s obj PDict
        by (intro con_opaque [where path = path]) (simp_all del: json_errors.simps)
    next
      case False
      have "\<exists>props child. map_of d ''properties'' = Some (PDict props) \<and> map_of props n = Some child \<and> conforms child w"
        if w: "(n, w) \<in> set e" for n w
      proof -
        from step PDict False w obtain child where py: "py_in (PStr n) (get_or d ''properties'' (PDict [])) = Inr True"
          and child: "get_item (get_or d ''properties'' (PDict [])) n = Inr child" "schema_errors w child (dot path n) = Inr []"
          by auto
        from child(1) obtain props where props: "map_of d ''properties'' = Some (PDict props)" "map_of props n = Some child"
          by (auto simp: get_or_def elim!: get_item.elims split: option.splits)
        have "schema_problems child (dot (dot q ''properties'') n) = Inr []"
          using less.prems(1) k props unfolding s obj by (rule object_schema)
        with less.IH [OF _ this child(2)] size_snd_less [OF w] PDict props show ?thesis by auto
      qed
      with k facets step PDict False show ?thesis unfolding s obj PDict by (intro con_object) simp_all
    qed
  next
    case (POther t)
    with ty show ?thesis by (auto simp: type_ok_def split: if_splits)
  qed
qed

lemma conforms_complete: "conforms s v \<Longrightarrow> schema_errors v s path = Inr []"
proof (induction arbitrary: path rule: conforms.induct)
  case (con_list s xs)
  then show ?case
    by (auto simp: schema_errors_step type_ok_def get_or_type dest!: in_indexed)
next
  case (con_opaque s d p)
  from json_errors_path [OF con_opaque.hyps(4)] con_opaque.hyps(1-3) show ?case
    by (simp add: schema_errors_step type_ok_def get_or_type del: json_errors.simps)
next
  case (con_object s d)
  have "py_in (PStr k) (get_or s ''properties'' (PDict [])) = Inr True
      \<and> (\<exists>child. get_item (get_or s ''properties'' (PDict [])) k = Inr child \<and> schema_errors w child (dot path k) = Inr [])"
    if "(k, w) \<in> set d" for k w
    using con_object.IH [OF that] by (force simp: get_or_def dest: map_of_SomeD)
  with con_object.hyps show ?case by (auto simp: schema_errors_step type_ok_def get_or_type)
qed (auto simp: schema_errors_step type_ok_def get_or_type)

text \<open>
  C21. Against a schema the check accepts, validation reports nothing exactly when the value
  conforms: it has the type the schema names (booleans are not integers, \<open>null\<close> is not a missing
  value, numbers are finite), lies within the bounds and the enumeration, and every field and item
  conforms in turn, with no undeclared field and no required one missing.
\<close>

theorem schema_errors_exact:
  assumes "schema_problems s q = Inr []"
  shows "schema_errors v s path = Inr [] \<longleftrightarrow> conforms s v"
  using conforms_sound [OF assms] conforms_complete by blast

section \<open>What is let through is JSON\<close>

text \<open>Plain JSON with finite numbers.\<close>

fun json_value :: "pyval \<Rightarrow> bool" where
  "json_value (PFloat f) = is_finite f"
| "json_value (POther _) = False"
| "json_value (PList xs) = list_all json_value xs"
| "json_value (PDict d) = list_all (\<lambda>(k, v). json_value v) d"
| "json_value _ = True"

lemma json_errors_json: "json_errors v path n = [] \<Longrightarrow> json_value v"
proof (induction v path n rule: json_errors.induct)
  case (1 d path n)
  then show ?case by (fastforce simp: list_all_iff split: if_splits)
next
  case (2 xs path n)
  then have n: "\<not> n > 32" by auto
  with "2.prems" have each: "\<forall>(i, item)\<in>set (indexed xs). json_errors item (at_index path i) (n + 1) = []" by auto
  have "json_value x" if "x \<in> set xs" for x
    using ex_indexed [OF that] "2.IH" [OF n] each by blast
  then show ?case by (simp add: list_all_iff)
qed (auto split: if_splits)

text \<open>
  C40. Whatever schema a value is validated against, a value without errors is JSON all the way
  down: no value of a foreign type and no infinite or undefined number can hide in it.
\<close>

theorem validated_value_is_json:
  assumes "schema_errors v s path = Inr []"
  shows "json_value v"
  using assms
proof (induction v arbitrary: s path rule: measure_induct_rule [of size])
  case (less v)
  from less.prems obtain d where s: "s = PDict d" by (cases s) (auto simp: schema_errors.simps)
  note step = less.prems [unfolded s schema_errors_step]
  show ?case
  proof (cases v)
    case (PList xs)
    have "json_value x" if x: "x \<in> set xs" for x
    proof -
      from ex_indexed [OF x] obtain i where "(i, x) \<in> set (indexed xs)" ..
      with step PList obtain child where "schema_errors x child (at_index path i) = Inr []" by auto
      then show ?thesis using less.IH size_in_list [OF x] PList by simp
    qed
    with PList show ?thesis by (simp add: list_all_iff)
  next
    case (PDict e)
    show ?thesis
    proof (cases "opaque d")
      case True
      with step PDict have "json_errors v path 0 = []" by (simp del: json_errors.simps)
      then show ?thesis by (rule json_errors_json)
    next
      case False
      have "json_value w" if w: "(n, w) \<in> set e" for n w
      proof -
        from step PDict False w obtain child where "schema_errors w child (dot path n) = Inr []" by auto
        then show ?thesis using less.IH size_snd_less [OF w] PDict by simp
      qed
      with PDict show ?thesis by (auto simp: list_all_iff)
    qed
  qed (use step in \<open>auto simp: type_ok_def split: if_splits pyval.splits\<close>)
qed

definition range_schema :: pyval where
  "range_schema = PDict [(''type'', PStr ''object''),
     (''properties'', PDict [(''n'', PDict [(''type'', PStr ''integer''), (''minimum'', PInt 1)])]),
     (''required'', PList [PStr ''n''])]"

lemma range_schema_accepted: "schema_problems range_schema ''s'' = Inr []"
  by (simp add: range_schema_def schema_problems.simps schema_keywords_def schema_types_def get_or_def in_names_def
      required_issues_def object_flag_issues_def opaque_def)

lemma schema_errors_exact_witness:
  "conforms range_schema (PDict [(''n'', PInt 3)]) \<and> \<not> conforms range_schema (PDict [(''n'', PBool True)])"
  unfolding schema_errors_exact [OF range_schema_accepted, of _ "''$''", symmetric]
  by (simp add: range_schema_def schema_errors.simps get_or_def type_ok_def float_overflows_def facet_errors_def
      check_keyword_def opaque_def missing_errors_def num_less_def)

lemma validated_value_is_json_witness: "json_value (PDict [(''n'', PInt 3)])"
  by (rule validated_value_is_json [where s = range_schema and path = "''$''"])
    (simp add: range_schema_def schema_errors.simps get_or_def type_ok_def float_overflows_def facet_errors_def
      check_keyword_def opaque_def missing_errors_def num_less_def)

end
