(* ===== verification/Proc_Definition.thy ===== *)
theory Proc_Definition
  imports Proc_Predicate Proc_Schema
begin

text \<open>
  The procedure definition of \<open>procedures.py\<close>, its trusted catalogs and the static validator
  except for the graph: the seven kinds of step, the registered contracts, the checks of every
  step against them and the effects a definition declares.  What pydantic enforces while it parses
  (\<open>model_validate\<close>) is a parameter; the mapping of its errors to issue codes is modelled.
\<close>

section \<open>Steps and definitions\<close>

type_synonym obj = "(string \<times> pyval) list"

record tool_step =
  ts_id :: string
  ts_adapter :: string
  ts_contract_version :: int
  ts_arguments :: obj
  ts_next :: string
  ts_max_attempts :: int

record cognitive_step =
  cs_id :: string
  cs_service :: string
  cs_reason :: string
  cs_instruction :: string
  cs_inputs :: obj
  cs_output_schema :: string
  cs_max_model_calls :: int
  cs_repair_calls :: int
  cs_next :: string

record branch_step =
  bs_id :: string
  bs_predicate :: obj
  bs_then :: string
  bs_else :: string

record validate_step =
  vs_id :: string
  vs_check :: string
  vs_arguments :: obj
  vs_next :: string

record delegate_budget =
  db_max_model_calls :: int
  db_max_attempts :: int
  db_deadline_seconds :: rat

record delegate_step =
  ds_id :: string
  ds_work_kind :: string
  ds_objective :: string
  ds_required_capabilities :: "string list"
  ds_inputs :: obj
  ds_output_schema :: string
  ds_success_contract :: string
  ds_budget :: delegate_budget
  ds_next :: string

datatype await_subject = Await_Work | Await_Evidence | Await_Time

record await_step =
  as_id :: string
  as_subject :: await_subject
  as_reference :: pyval
  as_timeout_seconds :: rat
  as_output_schema :: "string option"
  as_next :: string

record complete_step =
  ks_id :: string
  ks_result :: obj

datatype step = Tool tool_step | Cognitive cognitive_step | Branch branch_step | Validate validate_step
  | Delegate delegate_step | Await await_step | Complete complete_step

fun step_id :: "step \<Rightarrow> string" where
  "step_id (Tool s) = ts_id s"
| "step_id (Cognitive s) = cs_id s"
| "step_id (Branch s) = bs_id s"
| "step_id (Validate s) = vs_id s"
| "step_id (Delegate s) = ds_id s"
| "step_id (Await s) = as_id s"
| "step_id (Complete s) = ks_id s"

fun produces_result :: "step \<Rightarrow> bool" where
  "produces_result (Branch _) = False"
| "produces_result (Complete _) = False"
| "produces_result _ = True"

datatype context_source = From_Belief | From_Fact

record context_dependency =
  cd_name :: string
  cd_source :: context_source
  cd_key :: string
  cd_max_age_seconds :: "rat option"

record procedure_definition =
  pd_schema_version :: int
  pd_procedure_id :: string
  pd_revision :: int
  pd_name :: string
  pd_description :: string
  pd_entry_step_id :: string
  pd_goal_kind :: string
  pd_parameter_schema :: obj
  pd_output_schema :: obj
  pd_required_capabilities :: "string list"
  pd_preconditions :: "obj list"
  pd_context_dependencies :: "context_dependency list"
  pd_constants :: obj
  pd_steps :: "step list"

definition find_step :: "procedure_definition \<Rightarrow> string \<Rightarrow> step result" where
  "find_step d i = (case find (\<lambda>s. step_id s = i) (pd_steps d) of None \<Rightarrow> Inl (KeyError i) | Some s \<Rightarrow> Inr s)"

definition definition_key :: "procedure_definition \<Rightarrow> string" where
  "definition_key d = pd_procedure_id d @ ''@'' @ show_int (pd_revision d)"

fun edges :: "step \<Rightarrow> string list" where
  "edges (Branch s) = [bs_then s, bs_else s]"
| "edges (Complete s) = []"
| "edges (Tool s) = [ts_next s]"
| "edges (Cognitive s) = [cs_next s]"
| "edges (Validate s) = [vs_next s]"
| "edges (Delegate s) = [ds_next s]"
| "edges (Await s) = [as_next s]"

section \<open>Trusted catalogs\<close>

datatype side_effect = Pure | Read | Local_Write | External

datatype retry_semantics = Retry_Safe | Retry_Idempotent | Retry_None

record adapter_contract =
  ac_adapter_id :: string
  ac_contract_version :: int
  ac_argument_schema :: obj
  ac_result_schema :: obj
  ac_required_capabilities :: "string list"
  ac_side_effect :: side_effect
  ac_retry :: retry_semantics
  ac_reconcile_supported :: bool
  ac_uses_model :: bool
  ac_timeout_seconds :: rat
  ac_resource_arguments :: "string list"

record check_contract =
  cc_check_id :: string
  cc_argument_schema :: obj
  cc_description :: string

record output_contract =
  oc_schema_id :: string
  oc_schema :: obj
  oc_semantic_check :: "(pyval \<Rightarrow> obj \<Rightarrow> string list result) option"
  oc_required_evidence :: "string list"

record catalog =
  adapters :: "(string, adapter_contract) dict"
  checks :: "(string, check_contract) dict"
  outputs :: "(string, output_contract) dict"
  cognitive_services :: "string set"
  cognitive_reasons :: "string set"

definition add_adapter :: "adapter_contract \<Rightarrow> catalog \<Rightarrow> catalog" where
  "add_adapter c cat = cat\<lparr>adapters := dict_set (ac_adapter_id c) c (adapters cat)\<rparr>"

definition add_check :: "check_contract \<Rightarrow> catalog \<Rightarrow> catalog" where
  "add_check c cat = cat\<lparr>checks := dict_set (cc_check_id c) c (checks cat)\<rparr>"

definition add_output :: "output_contract \<Rightarrow> catalog \<Rightarrow> catalog" where
  "add_output c cat = cat\<lparr>outputs := dict_set (oc_schema_id c) c (outputs cat)\<rparr>"

section \<open>Parsing\<close>

text \<open>An error of pydantic: its location, already joined by dots, and its type.\<close>

record pydantic_error =
  pe_loc :: string
  pe_type :: string

definition issue_of_error :: "pydantic_error \<Rightarrow> issue" where
  "issue_of_error e =
     (if pe_type e = ''extra_forbidden'' then ''UNKNOWN_FIELD''
      else if pe_type e = ''union_tag_invalid'' then ''UNKNOWN_STEP_KIND''
      else if pe_type e = ''union_tag_not_found'' then ''MISSING_STEP_KIND''
      else if pe_loc e = ''schema_version'' then ''UNSUPPORTED_SCHEMA_VERSION''
      else ''INVALID_FIELD'',
      if pe_loc e = [] then ''$'' else pe_loc e)"

definition parse_definition :: "(pyval \<Rightarrow> pydantic_error list + procedure_definition) \<Rightarrow> pyval
    \<Rightarrow> procedure_definition option \<times> issue list" where
  "parse_definition model_validate raw = (case model_validate raw of
      Inr d \<Rightarrow> (Some d, [])
    | Inl errors \<Rightarrow> (None, map issue_of_error errors))"

section \<open>The contracts of the steps\<close>

definition secret_words :: "string list" where
  "secret_words = [''pass'', ''secret'', ''token'', ''apikey'', ''api_key'', ''api-key'', ''credential'']"

text \<open>\<open>SECRET_NAMES.search(name)\<close>: one of the words occurs, in any case (\<open>password\<close> contains \<open>pass\<close>).\<close>

definition secret_name :: "string \<Rightarrow> bool" where
  "secret_name name \<longleftrightarrow> list_ex (\<lambda>w. contains_text w (py_lower name)) secret_words"

text \<open>\<open>set(value)\<close> of a value that is iterated; unhashable items raise.\<close>

definition item_set :: "pyval \<Rightarrow> pyval list result" where
  "item_set v = bind_res (iterate v) (\<lambda>items. if list_all hashable items
     then Inr (fold (\<lambda>x seen. if list_ex (py_eq x) seen then seen else seen @ [x]) items []) else Inl TypeError)"

text \<open>\<open>sorted(values)\<close> compares every value with another, and values of different kinds raise.\<close>

definition sortable :: "pyval list \<Rightarrow> bool" where
  "sortable vs \<longleftrightarrow> length vs \<le> 1 \<or> list_all is_str vs \<or> list_all (\<lambda>v. as_float v \<noteq> None) vs"

definition missing_names :: "obj \<Rightarrow> obj \<Rightarrow> issue \<Rightarrow> issue list result" where
  \<comment> \<open>the required names of a schema that an object lacks, as one issue\<close>
  "missing_names schema given err = bind_res (item_set (get_or schema ''required'' (PList []))) (\<lambda>required.
     let missing = filter (\<lambda>v. \<not> (case v of PStr k \<Rightarrow> k \<in> fst ` set given | _ \<Rightarrow> False)) required in
     if \<not> sortable missing then Inl TypeError else Inr (if missing \<noteq> [] then [err] else []))"

definition argument_issues :: "obj \<Rightarrow> obj \<Rightarrow> string \<Rightarrow> procedure_limits \<Rightarrow> issue list result" where
  "argument_issues arguments schema at_path limits =
     bind_res (binding_problems limits (PDict arguments) (at_path @ ''.arguments'') 0) (\<lambda>issues.
     bind_res (item_set (get_or schema ''properties'' (PDict []))) (\<lambda>properties.
     let unknown = filter (\<lambda>k. PStr k \<notin> set properties) (map fst arguments) in
     bind_res (missing_names schema arguments (''MISSING_ARGUMENT'', at_path)) (\<lambda>missing.
     Inr (issues @ (if unknown \<noteq> [] then [(''UNKNOWN_ARGUMENT'', at_path)] else []) @ missing))))"

definition tool_issues :: "catalog \<Rightarrow> procedure_limits \<Rightarrow> tool_step \<Rightarrow> issue list result" where
  "tool_issues cat limits s =
     (let at_path = ''steps.'' @ ts_id s in
      case dict_get (adapters cat) (ts_adapter s) of
        None \<Rightarrow> Inr [(''UNKNOWN_ADAPTER'', at_path)]
      | Some c \<Rightarrow> map_sum id (\<lambda>arguments.
          (if ac_contract_version c \<noteq> ts_contract_version s then [(''CONTRACT_VERSION_MISMATCH'', at_path)] else [])
          @ (if ac_uses_model c then [(''MODEL_BACKED_TOOL'', at_path)] else [])
          @ (if ac_side_effect c = External then [(''EXTERNAL_EFFECT_UNSUPPORTED'', at_path)] else [])
          @ (if ts_max_attempts s > max_step_attempts limits then [(''TOO_MANY_ATTEMPTS'', at_path)] else [])
          @ arguments) (argument_issues (ts_arguments s) (ac_argument_schema c) at_path limits))"

definition validate_issues :: "catalog \<Rightarrow> procedure_limits \<Rightarrow> validate_step \<Rightarrow> issue list result" where
  "validate_issues cat limits s =
     (let at_path = ''steps.'' @ vs_id s in
      case dict_get (checks cat) (vs_check s) of
        None \<Rightarrow> Inr [(''UNKNOWN_CHECK'', at_path)]
      | Some c \<Rightarrow> argument_issues (vs_arguments s) (cc_argument_schema c) at_path limits)"

definition output_issues :: "catalog \<Rightarrow> string \<Rightarrow> string \<Rightarrow> issue list" where
  "output_issues cat at_path schema_id =
     (if dict_get (outputs cat) schema_id = None then [(''UNKNOWN_OUTPUT_SCHEMA'', at_path)] else [])"

definition cognitive_issues :: "catalog \<Rightarrow> procedure_limits \<Rightarrow> cognitive_step \<Rightarrow> issue list result" where
  "cognitive_issues cat limits s =
     (let at_path = ''steps.'' @ cs_id s in
      map_sum id (\<lambda>inputs.
        (if cs_service s \<notin> cognitive_services cat then [(''UNKNOWN_COGNITIVE_SERVICE'', at_path)] else [])
        @ (if cs_reason s \<notin> cognitive_reasons cat then [(''UNKNOWN_COGNITIVE_REASON'', at_path)] else [])
        @ output_issues cat at_path (cs_output_schema s)
        @ (if cs_repair_calls s > max_schema_repair_calls_per_step limits then [(''TOO_MANY_REPAIRS'', at_path)] else [])
        @ inputs) (binding_problems limits (PDict (cs_inputs s)) (at_path @ ''.inputs'') 0))"

definition delegate_issues :: "catalog \<Rightarrow> procedure_limits \<Rightarrow> delegate_step \<Rightarrow> issue list result" where
  "delegate_issues cat limits s =
     (let at_path = ''steps.'' @ ds_id s in
      map_sum id (\<lambda>inputs. output_issues cat at_path (ds_output_schema s)
          @ output_issues cat at_path (ds_success_contract s) @ inputs)
        (binding_problems limits (PDict (ds_inputs s)) (at_path @ ''.inputs'') 0))"

definition await_issues :: "catalog \<Rightarrow> procedure_limits \<Rightarrow> await_step \<Rightarrow> issue list" where
  "await_issues cat limits s =
     (let at_path = ''steps.'' @ as_id s in
      (if as_subject s \<in> {Await_Work, Await_Evidence} \<and> \<not> is_ref (as_reference s) then [(''INVALID_AWAIT'', at_path)] else [])
      @ (case as_output_schema s of None \<Rightarrow> [] | Some o' \<Rightarrow> output_issues cat at_path o')
      @ (if as_timeout_seconds s > default_execution_deadline_seconds limits then [(''TIMEOUT_TOO_LONG'', at_path)] else []))"

definition complete_issues :: "procedure_limits \<Rightarrow> obj \<Rightarrow> complete_step \<Rightarrow> issue list result" where
  "complete_issues limits output_schema s =
     (let at_path = ''steps.'' @ ks_id s in
      bind_res (binding_problems limits (PDict (ks_result s)) (at_path @ ''.result'') 0) (\<lambda>result_issues.
      bind_res (missing_names output_schema (ks_result s) (''OUTPUT_CONTRACT_MISMATCH'', at_path)) (\<lambda>missing.
      Inr (result_issues @ missing))))"

definition step_issues :: "procedure_definition \<Rightarrow> catalog \<Rightarrow> procedure_limits \<Rightarrow> step \<Rightarrow> issue list result" where
  "step_issues d cat limits s = (case s of
      Tool t \<Rightarrow> tool_issues cat limits t
    | Validate v \<Rightarrow> validate_issues cat limits v
    | Cognitive c \<Rightarrow> cognitive_issues cat limits c
    | Branch b \<Rightarrow> predicate_problems limits (PDict (bs_predicate b)) (''steps.'' @ bs_id b @ ''.predicate'')
    | Delegate g \<Rightarrow> delegate_issues cat limits g
    | Await a \<Rightarrow> Inr (await_issues cat limits a)
    | Complete k \<Rightarrow> complete_issues limits (pd_output_schema d) k)"

definition constant_issues :: "procedure_limits \<Rightarrow> string \<times> pyval \<Rightarrow> issue list result" where
  "constant_issues limits c = (case c of (name, v) \<Rightarrow> map_sum id
     ((@) (if secret_name name then [(''SECRET_CONSTANT'', ''constants.'' @ name)] else []))
     (binding_problems limits v (''constants.'' @ name) 0))"

definition contract_issues :: "procedure_definition \<Rightarrow> catalog \<Rightarrow> procedure_limits \<Rightarrow> issue list result" where
  "contract_issues d cat limits =
     bind_res (schema_problems (PDict (pd_parameter_schema d)) ''parameter_schema'') (\<lambda>parameter.
     bind_res (schema_problems (PDict (pd_output_schema d)) ''output_schema'') (\<lambda>output.
     bind_res (concat_res (constant_issues limits) (pd_constants d)) (\<lambda>constants.
     bind_res (concat_res (\<lambda>(i, p). predicate_problems limits (PDict p) (at_index ''preconditions'' i))
       (indexed (pd_preconditions d))) (\<lambda>preconditions.
     bind_res (item_set (get_or (pd_output_schema d) ''required'' (PList []))) (\<lambda>required.
     bind_res (concat_res (step_issues d cat limits) (pd_steps d)) (\<lambda>steps.
     Inr (parameter @ output
       @ (if py_eq (get_or (pd_parameter_schema d) ''type'' PNone) (PStr ''object'') then []
          else [(''INVALID_SCHEMA'', ''parameter_schema'')])
       @ constants @ preconditions @ steps)))))))"

section \<open>Declared effects\<close>

definition delegate_capability :: string where
  "delegate_capability = ''work.delegate''"

record effective =
  ef_capabilities :: "string set"
  ef_effects :: "side_effect set"
  ef_model_calls :: int

fun add_effects :: "catalog \<Rightarrow> step \<Rightarrow> effective \<Rightarrow> effective" where
  "add_effects cat (Tool t) e = (case dict_get (adapters cat) (ts_adapter t) of None \<Rightarrow> e
     | Some c \<Rightarrow> e\<lparr>ef_capabilities := ef_capabilities e \<union> set (ac_required_capabilities c),
                 ef_effects := insert (ac_side_effect c) (ef_effects e)\<rparr>)"
| "add_effects cat (Cognitive c) e = e\<lparr>ef_model_calls := ef_model_calls e + (cs_max_model_calls c + cs_repair_calls c)\<rparr>"
| "add_effects cat (Delegate g) e = e\<lparr>ef_capabilities := insert delegate_capability (ef_capabilities e)\<rparr>"
| "add_effects cat _ e = e"

definition effective_of :: "procedure_definition \<Rightarrow> catalog \<Rightarrow> effective" where
  "effective_of d cat = fold (add_effects cat) (pd_steps d)
     \<lparr>ef_capabilities = {}, ef_effects = {}, ef_model_calls = 0\<rparr>"

end
