(* ===== verification/Proc_Graph.thy ===== *)
theory Proc_Graph
  imports Proc_Definition Py_Graph
begin

text \<open>
  The step graph of a procedure (\<open>_graph_issues\<close>, \<open>_predecessors\<close>, \<open>_topological\<close> of
  \<open>procedures.py\<close>): the checks made of it, against what they are for, and the topological order
  that the dataflow analysis walks.
\<close>

section \<open>The checks\<close>

definition step_ids :: "procedure_definition \<Rightarrow> string list" where
  "step_ids d = map step_id (pd_steps d)"

definition successors :: "procedure_definition \<Rightarrow> (string, string list) dict" where
  "successors d = map (\<lambda>s. (step_id s, edges s)) (pd_steps d)"

text \<open>
  \<open>visit\<close> called for a list of targets in turn, with the \<open>state\<close> dictionary threaded through
  (1 while a node is on the path, 2 when it is finished); the flag says that a cycle was found.
\<close>

function visit_each :: "(string, string list) dict \<Rightarrow> string list \<Rightarrow> (string, nat) dict \<Rightarrow> (bool \<times> (string, nat) dict) result" where
  "visit_each succ [] st = Inr (False, st)"
| "visit_each succ (t # ts) st =
     (if dict_get st t = Some 1 then Inr (True, st)
      else if dict_get st t = None then
        (case dict_get succ t of
           None \<Rightarrow> Inl (KeyError t)
         | Some next \<Rightarrow> bind_res (visit_each succ next (dict_set t 1 st)) (\<lambda>r.
             if fst r then Inr r else visit_each succ ts (dict_set t 2 (snd r))))
      else visit_each succ ts st)"
  by pat_completeness auto

termination
proof (relation "measures [\<lambda>(succ, ts, st). card (fst ` set succ - fst ` set st), \<lambda>(succ, ts, st). length ts]")
  have keys: "fst ` set st \<subseteq> fst ` set (snd r)"
    if "visit_each_dom (succ, ts, st)" "visit_each succ ts st = Inr r"
    for succ :: "(string, string list) dict" and ts st r
    using that
  proof (induction arbitrary: r rule: visit_each.pinduct)
    case (1 succ st)
    then show ?case by (auto simp: visit_each.psimps)
  next
    case (2 succ t ts st)
    show ?case
    proof (cases "dict_get st t")
      case None
      with 2(1,5) obtain next1 r1 where n: "dict_get succ t = Some next1"
        and r1: "visit_each succ next1 (dict_set t 1 st) = Inr r1"
        and r: "r = r1 \<or> \<not> fst r1 \<and> visit_each succ ts (dict_set t 2 (snd r1)) = Inr r"
        by (auto simp: visit_each.psimps bind_res_Inr split: option.splits if_splits)
      from 2(2) [OF _ None n r1] None have sub: "insert t (fst ` set st) \<subseteq> fst ` set (snd r1)"
        by (simp add: keys_dict_set)
      from r show ?thesis
      proof
        assume "\<not> fst r1 \<and> visit_each succ ts (dict_set t 2 (snd r1)) = Inr r"
        with 2(3) [OF _ None n r1] None have "insert t (fst ` set (snd r1)) \<subseteq> fst ` set (snd r)"
          by (simp add: keys_dict_set)
        with sub show ?thesis by blast
      qed (use sub in blast)
    next
      case (Some c)
      with 2(1,5) 2(4) show ?thesis by (auto simp: visit_each.psimps split: if_splits)
    qed
  qed
  fix succ :: "(string, string list) dict" and t ts and st :: "(string, nat) dict" and next1
  assume new: "dict_get st t = None" and t: "dict_get succ t = Some next1"
  have less: "card (fst ` set succ - fst ` set st') < card (fst ` set succ - fst ` set st)"
    if "insert t (fst ` set st) \<subseteq> fst ` set st'" for st' :: "(string, nat) dict"
  proof (rule psubset_card_mono)
    have "t \<in> fst ` set succ" "t \<notin> fst ` set st" using t new dict_get_None [of succ t] dict_get_None [of st t] by auto
    with that show "fst ` set succ - fst ` set st' \<subset> fst ` set succ - fst ` set st" by auto
  qed simp
  from less [of "dict_set t 1 st"]
  show "((succ, next1, dict_set t 1 st), succ, t # ts, st) \<in> measures
      [\<lambda>(succ, ts, st). card (fst ` set succ - fst ` set st), \<lambda>(succ, ts, st). length ts]"
    by (simp add: keys_dict_set)
  fix r
  assume dom: "visit_each_dom (succ, next1, dict_set t 1 st)" and r: "visit_each succ next1 (dict_set t 1 st) = Inr r"
  from keys [OF dom r] less [of "dict_set t 2 (snd r)"]
  show "((succ, ts, dict_set t 2 (snd r)), succ, t # ts, st) \<in> measures
      [\<lambda>(succ, ts, st). card (fst ` set succ - fst ` set st), \<lambda>(succ, ts, st). length ts]"
    by (auto simp: keys_dict_set)
qed auto

definition size_issues :: "procedure_definition \<Rightarrow> procedure_limits \<Rightarrow> issue list" where
  "size_issues d limits = (if length (pd_steps d) > max_steps limits then [(''TOO_MANY_STEPS'', ''steps'')] else [])"

definition dangling_issues :: "procedure_definition \<Rightarrow> issue list" where
  "dangling_issues d = concat (map (\<lambda>s. map (\<lambda>t. (''DANGLING_EDGE'', ''steps.'' @ step_id s))
     (filter (\<lambda>t. t \<notin> set (step_ids d)) (edges s))) (pd_steps d))"

definition graph_issues :: "procedure_definition \<Rightarrow> procedure_limits \<Rightarrow> issue list result" where
  "graph_issues d limits =
     (let ids = step_ids d in
      if list_ex (\<lambda>i. count_list ids i > 1) ids then Inr (size_issues d limits @ [(''DUPLICATE_STEP_ID'', ''steps'')])
      else if pd_entry_step_id d \<notin> set ids then Inr (size_issues d limits @ [(''MISSING_ENTRY'', ''entry_step_id'')])
      else if size_issues d limits @ dangling_issues d \<noteq> [] then Inr (size_issues d limits @ dangling_issues d)
      else bind_res (visit_each (successors d) [pd_entry_step_id d] []) (\<lambda>(cyclic, state).
        if cyclic then Inr [(''CYCLE'', ''steps'')]
        else Inr (if set ids \<subseteq> fst ` set state then [] else [(''UNREACHABLE_STEP'', ''steps'')])))"

section \<open>Predecessors and the topological order\<close>

definition dict_item :: "(string, 'v) dict \<Rightarrow> string \<Rightarrow> 'v result" where
  "dict_item d k = (case dict_get d k of None \<Rightarrow> Inl (KeyError k) | Some v \<Rightarrow> Inr v)"

definition add_pred :: "string \<Rightarrow> string \<Rightarrow> (string, string list) dict \<Rightarrow> (string, string list) dict result" where
  "add_pred source target preds = bind_res (dict_item preds target) (\<lambda>ps. Inr (dict_set target (ps @ [source]) preds))"

definition predecessors :: "procedure_definition \<Rightarrow> (string, string list) dict result" where
  "predecessors d = fold_res (\<lambda>s. fold_res (add_pred (step_id s)) (edges s)) (pd_steps d)
     (map (\<lambda>s. (step_id s, [])) (pd_steps d))"

definition release :: "string \<Rightarrow> (string, int) dict \<times> string list \<Rightarrow> ((string, int) dict \<times> string list) result" where
  "release target = (\<lambda>(remaining, ready). bind_res (dict_item remaining target) (\<lambda>n.
     Inr (dict_set target (n - 1) remaining, if n - 1 = 0 then ready @ [target] else ready)))"

text \<open>The loop of \<open>_topological\<close>: \<open>ready\<close> is popped from its end.\<close>

definition waiting :: "(string, int) dict \<Rightarrow> nat" where
  "waiting remaining = card {k. \<exists>n>0. dict_get remaining k = Some n}"

lemma finite_waiting: "finite {k. \<exists>n>0. dict_get remaining k = Some (n::int)}"
proof (rule finite_subset)
  show "{k. \<exists>n>0. dict_get remaining k = Some n} \<subseteq> fst ` set remaining" using dict_get_in by force
qed simp

lemma release_measure:
  assumes "release t (remaining, ready) = Inr (remaining', ready')"
  shows "waiting remaining' + length ready' \<le> waiting remaining + length ready"
proof -
  from assms obtain n where n: "dict_get remaining t = Some n" "remaining' = dict_set t (n - 1) remaining"
      "ready' = (if n - 1 = 0 then ready @ [t] else ready)"
    by (auto simp: release_def dict_item_def split: option.splits)
  let ?W = "\<lambda>r. {k. \<exists>n>0. dict_get r k = Some (n::int)}"
  show ?thesis
  proof (cases "n - 1 = 0")
    case True
    then have "?W remaining' \<subset> ?W remaining" using n by (auto simp: dict_simps split: if_splits)
    from psubset_card_mono [OF finite_waiting this] n True show ?thesis by (simp add: waiting_def)
  next
    case False
    then have "?W remaining' \<subseteq> ?W remaining" using n by (auto simp: dict_simps split: if_splits)
    from card_mono [OF finite_waiting this] n False show ?thesis by (simp add: waiting_def)
  qed
qed

lemma release_all_measure:
  "fold_res release ts (remaining, ready) = Inr (remaining', ready')
     \<Longrightarrow> waiting remaining' + length ready' \<le> waiting remaining + length ready"
proof (induction ts arbitrary: remaining ready)
  case (Cons t ts)
  then obtain r1 y1 where "release t (remaining, ready) = Inr (r1, y1)" "fold_res release ts (r1, y1) = Inr (remaining', ready')"
    by (auto simp: bind_res_Inr)
  with Cons.IH release_measure show ?case by fastforce
qed simp

function order_loop :: "procedure_definition \<Rightarrow> (string, int) dict \<times> string list \<Rightarrow> string list \<Rightarrow> string list result" where
  "order_loop d (remaining, ready) order =
     (if ready = [] then Inr order
      else let node = last ready in
        bind_res (find_step d node) (\<lambda>s.
        bind_res (fold_res release (edges s) (remaining, butlast ready)) (\<lambda>state.
        order_loop d state (order @ [node]))))"
  by pat_completeness auto
termination
proof (relation "measure (\<lambda>(d, (remaining, ready), order). waiting remaining + length ready)"; simp)
  fix s remaining and ready :: "string list" and state
  assume "ready \<noteq> []" "fold_res release (edges s) (remaining, butlast ready) = Inr state"
  then show "(case state of (remaining, ready) \<Rightarrow> \<lambda>order. waiting remaining + length ready) order
      < waiting remaining + length ready" for order :: "string list"
    using release_all_measure [of "edges s" remaining "butlast ready" "fst state" "snd state"]
    by (cases state) (auto simp: neq_Nil_conv less_eq_Suc_le length_butlast)
qed

declare order_loop.simps [simp del]

definition topological :: "procedure_definition \<Rightarrow> string list result" where
  "topological d = bind_res (predecessors d) (\<lambda>preds.
     order_loop d (map (\<lambda>(k, ps). (k, int (length ps))) preds, [pd_entry_step_id d]) [])"

section \<open>The search is right\<close>

definition arcs :: "(string, string list) dict \<Rightarrow> (string \<times> string) set" where
  "arcs succ = {(i, j). \<exists>ts. dict_get succ i = Some ts \<and> j \<in> set ts}"

definition coloured :: "nat \<Rightarrow> (string, nat) dict \<Rightarrow> string set" where
  "coloured c st = {k. dict_get st k = Some c}"

definition two_colours :: "(string, nat) dict \<Rightarrow> bool" where
  "two_colours st \<longleftrightarrow> (\<forall>k v. dict_get st k = Some v \<longrightarrow> v \<in> {1, 2})"

lemma visit_known:
  assumes "snd ` arcs succ \<subseteq> fst ` set succ" "set ts \<subseteq> fst ` set succ"
  shows "\<exists>r. visit_each succ ts st = Inr r"
  using assms
proof (induction succ ts st rule: visit_each.induct)
  case (2 succ t ts st)
  show ?case
  proof (cases "dict_get st t")
    case None
    from 2(5) obtain next1 where n: "dict_get succ t = Some next1" using dict_get_None [of succ t] by fastforce
    with 2(4) have "set next1 \<subseteq> fst ` set succ" by (auto simp: arcs_def image_subset_iff)
    with 2(1) [OF _ None n 2(4)] None obtain r1 where r1: "visit_each succ next1 (dict_set t 1 st) = Inr r1" by auto
    with 2(2) [OF _ None n r1 _ 2(4)] None 2(5) n show ?thesis by auto
  next
    case (Some c)
    with 2(3) 2(4,5) show ?thesis by auto
  qed
qed auto

lemma visit_new:
  assumes "dict_get st t = None" "dict_get succ t = Some next1"
    and "visit_each succ (t # ts) st = Inr (False, st')"
  obtains st2 where "visit_each succ next1 (dict_set t 1 st) = Inr (False, st2)"
    "visit_each succ ts (dict_set t 2 st2) = Inr (False, st')"
  using assms by (auto simp: bind_res_Inr split: if_splits)

lemma covered: "X \<subseteq> insert t Y \<union> C \<Longrightarrow> Y \<subseteq> Z \<union> B \<Longrightarrow> B \<subseteq> A \<Longrightarrow> t \<in> A \<Longrightarrow> X \<subseteq> Z \<union> (A \<union> C)"
  by blast

lemma visit_settles:
  assumes "visit_each succ ts st = Inr (False, st')" "settled (arcs succ) (coloured 2 st)" "two_colours st"
  shows "settled (arcs succ) (coloured 2 st') \<and> two_colours st' \<and> coloured 1 st' = coloured 1 st
    \<and> coloured 2 st \<union> set ts \<subseteq> coloured 2 st'
    \<and> coloured 2 st' \<subseteq> coloured 2 st \<union> (arcs succ)\<^sup>* `` set ts"
  using assms
proof (induction succ ts st arbitrary: st' rule: visit_each.induct)
  case (2 succ t ts st)
  show ?case
  proof (cases "dict_get st t")
    case None
    with 2(4) obtain next1 where n: "dict_get succ t = Some next1" by (auto split: option.splits)
    obtain st2 where inner: "visit_each succ next1 (dict_set t 1 st) = Inr (False, st2)"
      and rest: "visit_each succ ts (dict_set t 2 st2) = Inr (False, st')"
      using visit_new [OF None n 2(4)] by blast
    have st1: "coloured 2 (dict_set t 1 st) = coloured 2 st" "coloured 1 (dict_set t 1 st) = insert t (coloured 1 st)"
      "two_colours (dict_set t 1 st)"
      using None 2(6) by (auto simp: coloured_def two_colours_def dict_simps)
    from 2(1) [OF _ None n inner] None st1 2(5)
    have i: "settled (arcs succ) (coloured 2 st2)" "two_colours st2" "coloured 1 st2 = insert t (coloured 1 st)"
      "coloured 2 st \<union> set next1 \<subseteq> coloured 2 st2"
      "coloured 2 st2 \<subseteq> coloured 2 st \<union> (arcs succ)\<^sup>* `` set next1" by auto
    have R: "arcs succ `` {t} = set next1" using n by (auto simp: arcs_def)
    from i(3) have "t \<in> coloured 1 st2" by simp
    then have t: "t \<notin> coloured 2 st2" "t \<notin> coloured 1 st" using None by (simp_all add: coloured_def)
    have st3: "coloured 2 (dict_set t 2 st2) = insert t (coloured 2 st2)" "coloured 1 (dict_set t 2 st2) = coloured 1 st"
      "two_colours (dict_set t 2 st2)"
      using i(2,3) t by (auto simp: coloured_def two_colours_def dict_simps split: if_splits)
    have "settled (arcs succ) (coloured 2 (dict_set t 2 st2))"
      unfolding st3(1) using settled_insert [OF i(1) _ t(1)] i(4) R by simp
    with 2(2) [OF _ None n inner] rest st3 None
    have r: "settled (arcs succ) (coloured 2 st')" "two_colours st'" "coloured 1 st' = coloured 1 st"
      "insert t (coloured 2 st2) \<union> set ts \<subseteq> coloured 2 st'"
      "coloured 2 st' \<subseteq> insert t (coloured 2 st2) \<union> (arcs succ)\<^sup>* `` set ts"
      by simp_all
    have sub: "(arcs succ)\<^sup>* `` set next1 \<subseteq> (arcs succ)\<^sup>* `` {t}"
      using R by (auto intro: converse_rtrancl_into_rtrancl)
    have eq: "(arcs succ)\<^sup>* `` set (t # ts) = (arcs succ)\<^sup>* `` {t} \<union> (arcs succ)\<^sup>* `` set ts" by auto
    have "coloured 2 st' \<subseteq> coloured 2 st \<union> (arcs succ)\<^sup>* `` set (t # ts)"
      unfolding eq by (rule covered [OF r(5) i(5) sub]) simp
    moreover have "coloured 2 st \<union> set (t # ts) \<subseteq> coloured 2 st'" using r(4) i(4) by auto
    ultimately show ?thesis using r(1-3) by (intro conjI)
  next
    case (Some c)
    with 2(4,6) have c: "c = 2" "visit_each succ ts st = Inr (False, st')"
      by (auto simp: two_colours_def split: if_splits)
    with 2(3) [OF _ _ c(2) 2(5,6)] Some show ?thesis by (auto simp: coloured_def)
  qed
qed simp

lemma visit_acyclic:
  assumes "acyclic (arcs succ)" "snd ` arcs succ \<subseteq> fst ` set succ"
    and "set ts \<subseteq> fst ` set succ" "coloured 1 st \<times> set ts \<subseteq> (arcs succ)\<^sup>+"
    and "settled (arcs succ) (coloured 2 st)" "two_colours st"
  shows "\<exists>st'. visit_each succ ts st = Inr (False, st')"
  using assms
proof (induction succ ts st rule: visit_each.induct)
  case (2 succ t ts st)
  have grey: "dict_get st t \<noteq> Some 1" using 2(4,7) by (auto simp: acyclic_def coloured_def)
  show ?case
  proof (cases "dict_get st t")
    case None
    from 2(6) obtain next1 where n: "dict_get succ t = Some next1" using dict_get_None [of succ t] by fastforce
    have st1: "coloured 2 (dict_set t 1 st) = coloured 2 st" "coloured 1 (dict_set t 1 st) = insert t (coloured 1 st)"
      "two_colours (dict_set t 1 st)"
      using None 2(9) by (auto simp: coloured_def two_colours_def dict_simps)
    have edges: "\<forall>j \<in> set next1. (t, j) \<in> arcs succ" using n by (auto simp: arcs_def)
    have "coloured 1 (dict_set t 1 st) \<times> set next1 \<subseteq> (arcs succ)\<^sup>+"
      unfolding st1 using edges 2(7) by (auto intro: trancl_into_trancl)
    moreover have "set next1 \<subseteq> fst ` set succ" using 2(5) edges by force
    ultimately obtain st2
      where inner: "visit_each succ next1 (dict_set t 1 st) = Inr (False, st2)"
      using 2(1) [OF grey None n 2(4,5)] 2(8) st1 by auto
    from visit_settles [OF inner] st1 2(8)
    have i: "settled (arcs succ) (coloured 2 st2)" "two_colours st2" "coloured 1 st2 = insert t (coloured 1 st)"
      "set next1 \<subseteq> coloured 2 st2" by auto
    from i(3) have "t \<in> coloured 1 st2" by simp
    then have t: "t \<notin> coloured 2 st2" "t \<notin> coloured 1 st" using None by (simp_all add: coloured_def)
    have st3: "coloured 2 (dict_set t 2 st2) = insert t (coloured 2 st2)" "coloured 1 (dict_set t 2 st2) = coloured 1 st"
      "two_colours (dict_set t 2 st2)"
      using i(2,3) t by (auto simp: coloured_def two_colours_def dict_simps split: if_splits)
    have "arcs succ `` {t} = set next1" using n by (auto simp: arcs_def)
    then have "settled (arcs succ) (coloured 2 (dict_set t 2 st2))"
      unfolding st3(1) using settled_insert [OF i(1) _ t(1)] i(4) by simp
    with 2(2) [OF grey None n inner _ 2(4,5)] 2(6,7) st3 obtain st'
      where "visit_each succ ts (dict_set t 2 st2) = Inr (False, st')" by auto
    with None n inner show ?thesis by simp
  next
    case (Some c)
    with 2(3) [OF grey _ 2(4,5)] 2(6-9) grey show ?thesis by auto
  qed
qed simp

section \<open>The checks are exact\<close>

definition step_arcs :: "procedure_definition \<Rightarrow> (string \<times> string) set" where
  "step_arcs d = {(step_id s, t) | s t. s \<in> set (pd_steps d) \<and> t \<in> set (edges s)}"

text \<open>What a procedure's graph has to be.\<close>

definition sound_graph :: "procedure_definition \<Rightarrow> procedure_limits \<Rightarrow> bool" where
  "sound_graph d limits \<longleftrightarrow> length (pd_steps d) \<le> max_steps limits \<and> distinct (step_ids d)
     \<and> pd_entry_step_id d \<in> set (step_ids d) \<and> snd ` step_arcs d \<subseteq> set (step_ids d)
     \<and> acyclic (step_arcs d) \<and> set (step_ids d) \<subseteq> (step_arcs d)\<^sup>* `` {pd_entry_step_id d}"

lemma no_duplicates: "list_ex (\<lambda>i. count_list xs i > 1) xs = (\<not> distinct xs)"
proof -
  have "distinct xs \<longleftrightarrow> (\<forall>x\<in>set xs. count_list xs x \<le> 1)"
    by (induction xs) (auto simp: count_list_0_iff)
  then show ?thesis by (auto simp: list_ex_iff not_le)
qed

lemma successors_keys: "fst ` set (successors d) = set (step_ids d)"
  by (force simp: successors_def step_ids_def)

lemma successors_get: "distinct (step_ids d) \<Longrightarrow> s \<in> set (pd_steps d) \<Longrightarrow> dict_get (successors d) (step_id s) = Some (edges s)"
  by (force simp: successors_def step_ids_def dict_get_def comp_def intro!: map_of_is_SomeI)

lemma successors_arcs: "distinct (step_ids d) \<Longrightarrow> arcs (successors d) = step_arcs d"
proof (intro equalityI subrelI)
  fix i j assume "(i, j) \<in> arcs (successors d)"
  then obtain ts where "dict_get (successors d) i = Some ts" "j \<in> set ts" by (auto simp: arcs_def)
  then show "(i, j) \<in> step_arcs d" using dict_get_in [of "successors d" i ts] by (auto simp: successors_def step_arcs_def)
next
  fix i j assume d: "distinct (step_ids d)" and "(i, j) \<in> step_arcs d"
  then show "(i, j) \<in> arcs (successors d)" using successors_get [OF d] by (auto simp: step_arcs_def arcs_def)
qed

lemma dangling_empty: "(dangling_issues d = []) = (snd ` step_arcs d \<subseteq> set (step_ids d))"
  by (fastforce simp: dangling_issues_def step_arcs_def filter_empty_conv)

lemma coloured_keys: "two_colours st \<Longrightarrow> coloured 1 st = {} \<Longrightarrow> coloured 2 st = fst ` set st"
proof (intro equalityI subsetI)
  fix k assume "two_colours st" "coloured 1 st = {}" "k \<in> fst ` set st"
  then show "k \<in> coloured 2 st" using dict_get_None [of st k] by (fastforce simp: coloured_def two_colours_def)
next
  fix k assume "k \<in> coloured 2 st"
  then show "k \<in> fst ` set st" using dict_get_in [of st k] by (force simp: coloured_def)
qed

lemma search_from_entry:
  assumes "distinct (step_ids d)" "visit_each (successors d) [e] [] = Inr (False, st)"
  shows "settled (step_arcs d) (fst ` set st) \<and> fst ` set st = (step_arcs d)\<^sup>* `` {e}"
proof -
  have "coloured c [] = {}" "two_colours []" for c by (simp_all add: coloured_def two_colours_def dict_simps)
  with visit_settles [OF assms(2)] have st: "settled (step_arcs d) (coloured 2 st)" "two_colours st" "coloured 1 st = {}"
    "e \<in> coloured 2 st" "coloured 2 st \<subseteq> (step_arcs d)\<^sup>* `` {e}" by (simp_all add: successors_arcs [OF assms(1)])
  have "(step_arcs d)\<^sup>* `` {e} \<subseteq> coloured 2 st"
    using settled_closed [OF st(1,4)] st(4) by (auto simp: rtrancl_eq_or_trancl)
  with st coloured_keys [OF st(2,3)] show ?thesis by auto
qed

lemma arcs_known: "snd ` step_arcs d \<subseteq> set (step_ids d) \<Longrightarrow> distinct (step_ids d)
    \<Longrightarrow> snd ` arcs (successors d) \<subseteq> fst ` set (successors d)"
  by (simp add: successors_arcs successors_keys)

lemma graph_issues_iff:
  "(\<exists>issues. graph_issues d limits = Inr issues) \<and> (graph_issues d limits = Inr [] \<longleftrightarrow> sound_graph d limits)"
proof (cases "distinct (step_ids d) \<and> pd_entry_step_id d \<in> set (step_ids d) \<and> size_issues d limits @ dangling_issues d = []")
  case False
  then have "\<not> sound_graph d limits"
    by (auto simp: sound_graph_def size_issues_def dangling_empty [symmetric])
  moreover have "\<exists>issues. graph_issues d limits = Inr issues \<and> issues \<noteq> []"
    using False unfolding graph_issues_def no_duplicates Let_def by (simp del: visit_each.simps)
  ultimately show ?thesis by auto
next
  case True
  let ?R = "step_arcs d" and ?e = "pd_entry_step_id d"
  from True have d: "distinct (step_ids d)" and e: "?e \<in> set (step_ids d)" and known: "snd ` ?R \<subseteq> set (step_ids d)"
    by (auto simp: dangling_empty)
  have len: "length (pd_steps d) \<le> max_steps limits" using True by (auto simp: size_issues_def split: if_splits)
  from visit_known [OF arcs_known [OF known d], of "[?e]" "[]"] e obtain cyclic st
    where v: "visit_each (successors d) [?e] [] = Inr (cyclic, st)" by (auto simp: successors_keys)
  have g: "graph_issues d limits = Inr (if cyclic then [(''CYCLE'', ''steps'')]
      else if set (step_ids d) \<subseteq> fst ` set st then [] else [(''UNREACHABLE_STEP'', ''steps'')])"
    using True v unfolding graph_issues_def no_duplicates Let_def by (simp del: visit_each.simps)
  have "\<not> cyclic \<and> set (step_ids d) \<subseteq> fst ` set st \<longleftrightarrow> sound_graph d limits"
  proof
    assume "\<not> cyclic \<and> set (step_ids d) \<subseteq> fst ` set st"
    with v search_from_entry [OF d, of ?e st] have s: "settled ?R (fst ` set st)" "set (step_ids d) \<subseteq> ?R\<^sup>* `` {?e}"
      "set (step_ids d) \<subseteq> fst ` set st" by auto
    have "acyclic ?R"
    proof (rule acyclicI, intro allI notI)
      fix i assume i: "(i, i) \<in> ?R\<^sup>+"
      then have "i \<in> snd ` ?R" by (cases rule: trancl.cases) force+
      with known s(3) have "i \<in> fst ` set st" by blast
      with s(1) i show False by (auto simp: settled_def)
    qed
    with d e known len s(2) show "sound_graph d limits" by (simp add: sound_graph_def)
  next
    assume s: "sound_graph d limits"
    then have "acyclic (arcs (successors d))" by (simp add: sound_graph_def successors_arcs)
    from visit_acyclic [OF this arcs_known [OF known d], of "[?e]" "[]"] e v have "\<not> cyclic"
      by (auto simp: successors_keys coloured_def two_colours_def dict_simps)
    with v search_from_entry [OF d, of ?e st] s show "\<not> cyclic \<and> set (step_ids d) \<subseteq> fst ` set st"
      by (auto simp: sound_graph_def)
  qed
  then show ?thesis using g by auto
qed

text \<open>
  C26. The graph check never raises, and reports nothing exactly when the graph is what it has to
  be: at most the allowed number of steps with distinct identifiers, a known entry, no edge to an
  unknown step, no cycle, and every step reachable from the entry.
\<close>

theorem graph_issues_exact:
  "(\<exists>issues. graph_issues d limits = Inr issues) \<and> (graph_issues d limits = Inr [] \<longleftrightarrow> sound_graph d limits)"
  by (rule graph_issues_iff)

end
