(* ===== verification/Proc_Flow.thy ===== *)
theory Proc_Flow
  imports Proc_Graph
begin

text \<open>
  The dataflow analysis of \<open>procedures.py\<close> and the validator as a whole: the topological order is
  shown to be one, the analysis to compute exactly the results produced on every path, and a
  definition the validator accepts to have the properties the runtime relies on.
\<close>

section \<open>Predecessors\<close>

text \<open>The predecessors of a step, once per edge.\<close>

definition preds_of :: "step list \<Rightarrow> string \<Rightarrow> string list" where
  "preds_of steps t = concat (map (\<lambda>s. map (\<lambda>_. step_id s) (filter (\<lambda>e. e = t) (edges s))) steps)"

lemma set_preds_of: "p \<in> set (preds_of (pd_steps d) t) \<longleftrightarrow> (p, t) \<in> step_arcs d"
  by (auto simp: preds_of_def step_arcs_def)

lemma add_preds:
  assumes "set ts \<subseteq> fst ` set preds"
  shows "\<exists>preds'. fold_res (add_pred i) ts preds = Inr preds' \<and> map fst preds' = map fst preds
     \<and> (\<forall>k ps. dict_get preds k = Some ps \<longrightarrow> dict_get preds' k = Some (ps @ map (\<lambda>_. i) (filter (\<lambda>e. e = k) ts)))"
  using assms
proof (induction ts arbitrary: preds)
  case (Cons t ts)
  from Cons.prems obtain ps where ps: "dict_get preds t = Some ps" using dict_get_None [of preds t] by fastforce
  let ?p = "dict_set t (ps @ [i]) preds"
  have keys: "map fst ?p = map fst preds"
    using Cons.prems by (simp add: dict_set_def update_keys)
  then have "fst ` set ?p = fst ` set preds" by (metis list.set_map)
  with Cons.IH [of ?p] Cons.prems obtain preds' where p': "fold_res (add_pred i) ts ?p = Inr preds'" "map fst preds' = map fst ?p"
      "\<forall>k ps. dict_get ?p k = Some ps \<longrightarrow> dict_get preds' k = Some (ps @ map (\<lambda>_. i) (filter (\<lambda>e. e = k) ts))" by auto
  have "add_pred i t preds = Inr ?p" by (simp add: add_pred_def dict_item_def ps)
  with p' keys ps show ?case by (auto simp: dict_simps)
qed simp

lemma predecessors_of:
  assumes "snd ` step_arcs d \<subseteq> set (step_ids d)" "distinct (step_ids d)"
  shows "\<exists>preds. predecessors d = Inr preds \<and> map fst preds = step_ids d
     \<and> (\<forall>k \<in> set (step_ids d). dict_get preds k = Some (preds_of (pd_steps d) k))"
proof -
  let ?f = "\<lambda>s. fold_res (add_pred (step_id s)) (edges s)"
  have loop: "\<exists>preds'. fold_res ?f steps preds = Inr preds' \<and> map fst preds' = step_ids d
      \<and> (\<forall>k ps. dict_get preds k = Some ps \<longrightarrow> dict_get preds' k = Some (ps @ preds_of steps k))"
    if "set steps \<subseteq> set (pd_steps d)" "map fst preds = step_ids d" for steps preds
    using that
  proof (induction steps arbitrary: preds)
    case (Cons s steps)
    have "set (edges s) \<subseteq> snd ` step_arcs d" using Cons.prems(1) by (force simp: step_arcs_def)
    then have "set (edges s) \<subseteq> fst ` set preds" using assms(1) Cons.prems(2) by (metis list.set_map subset_trans)
    from add_preds [OF this, of "step_id s"] obtain p1 where p1: "?f s preds = Inr p1" "map fst p1 = step_ids d"
        "\<forall>k ps. dict_get preds k = Some ps \<longrightarrow> dict_get p1 k = Some (ps @ map (\<lambda>_. step_id s) (filter (\<lambda>e. e = k) (edges s)))"
      using Cons.prems(2) by auto
    from Cons.IH [OF _ p1(2)] Cons.prems(1) obtain p2 where "fold_res ?f steps p1 = Inr p2" "map fst p2 = step_ids d"
        "\<forall>k ps. dict_get p1 k = Some ps \<longrightarrow> dict_get p2 k = Some (ps @ preds_of steps k)" by auto
    with p1 show ?case by (auto simp: preds_of_def)
  qed (simp add: preds_of_def)
  let ?init = "map (\<lambda>s. (step_id s, [])) (pd_steps d) :: (string, string list) dict"
  have "map fst ?init = step_ids d" by (simp add: step_ids_def comp_def)
  with loop [of "pd_steps d" ?init] obtain preds where p: "predecessors d = Inr preds" "map fst preds = step_ids d"
      "\<forall>k ps. dict_get ?init k = Some ps \<longrightarrow> dict_get preds k = Some (ps @ preds_of (pd_steps d) k)"
    by (auto simp: predecessors_def)
  have "dict_get ?init k = Some []" if "k \<in> set (step_ids d)" for k
    using that assms(2) by (auto simp: dict_get_def step_ids_def comp_def intro!: map_of_is_SomeI)
  with p show ?thesis by auto
qed

section \<open>The topological order\<close>

text \<open>How often an edge into \<open>t\<close> leaves a step that is not yet in the order.\<close>

definition pending :: "procedure_definition \<Rightarrow> string list \<Rightarrow> string \<Rightarrow> nat" where
  "pending d order t = length (filter (\<lambda>p. p \<notin> set order) (preds_of (pd_steps d) t))"

definition ordered :: "procedure_definition \<Rightarrow> string list \<Rightarrow> bool" where
  "ordered d order \<longleftrightarrow> distinct order \<and> set order \<subseteq> set (step_ids d)
     \<and> (\<forall>as t bs. order = as @ t # bs \<longrightarrow> (\<forall>p. (p, t) \<in> step_arcs d \<longrightarrow> p \<in> set as))"

text \<open>The invariant of the loop: the waiting counts are right, and what is ready is exactly the rest of what could be next.\<close>

definition order_inv :: "procedure_definition \<Rightarrow> (string, int) dict \<Rightarrow> string list \<Rightarrow> string list \<Rightarrow> bool" where
  "order_inv d remaining ready order \<longleftrightarrow> ordered d order \<and> distinct (order @ ready)
     \<and> (\<forall>k \<in> set (step_ids d). dict_get remaining k = Some (int (pending d order k)))
     \<and> (\<forall>k \<in> set (step_ids d). k \<in> set order \<union> set ready \<longleftrightarrow> pending d order k = 0)
     \<and> set ready \<subseteq> set (step_ids d)"

lemma release_all:
  assumes "set ts \<subseteq> keys" "\<forall>k\<in>keys. dict_get remaining k = Some (int (m k + count_list ts k))"
  shows "\<exists>remaining' xs. fold_res release ts (remaining, ready) = Inr (remaining', ready @ xs) \<and> distinct xs
     \<and> set xs = {k \<in> set ts. m k = 0} \<and> (\<forall>k\<in>keys. dict_get remaining' k = Some (int (m k)))"
  using assms
proof (induction ts arbitrary: remaining ready)
  case (Cons t ts)
  let ?zero = "m t = 0 \<and> t \<notin> set ts"
  let ?r = "dict_set t (int (m t + count_list ts t)) remaining" and ?y = "if ?zero then ready @ [t] else ready"
  have n: "int (m t + count_list ts t) = 0 \<longleftrightarrow> ?zero"
    unfolding of_nat_eq_0_iff add_is_0 count_list_0_iff ..
  have "dict_get remaining t = Some (int (m t + count_list ts t) + 1)" using Cons.prems by simp
  then have step: "release t (remaining, ready) = Inr (?r, ?y)"
    unfolding release_def dict_item_def using n by simp
  have "\<forall>k\<in>keys. dict_get ?r k = Some (int (m k + count_list ts k))" using Cons.prems(2) by (simp add: dict_simps)
  with Cons.IH [of ?r ?y] Cons.prems(1) obtain remaining' xs where xs:
    "fold_res release ts (?r, ?y) = Inr (remaining', ?y @ xs)" "distinct xs" "set xs = {k \<in> set ts. m k = 0}"
    "\<forall>k\<in>keys. dict_get remaining' k = Some (int (m k))" by auto
  let ?xs = "(if ?zero then [t] else []) @ xs"
  have "fold_res release (t # ts) (remaining, ready) = Inr (remaining', ready @ ?xs)" using step xs(1) by simp
  moreover have "distinct ?xs" "set ?xs = {k \<in> set (t # ts). m k = 0}" using xs(2,3) by auto
  ultimately show ?case using xs(4) by blast
qed simp

lemma find_step_id: "s \<in> set (pd_steps d) \<Longrightarrow> distinct (step_ids d) \<Longrightarrow> find_step d (step_id s) = Inr s"
proof -
  assume s: "s \<in> set (pd_steps d)" and d: "distinct (step_ids d)"
  then obtain s' where "find (\<lambda>x. step_id x = step_id s) (pd_steps d) = Some s'" "s' \<in> set (pd_steps d)" "step_id s' = step_id s"
    using find_None_all [of "\<lambda>x. step_id x = step_id s" "pd_steps d"] find_Some_in by (cases "find (\<lambda>x. step_id x = step_id s) (pd_steps d)") fastforce+
  with s d show ?thesis by (auto simp: find_step_def step_ids_def dest: inj_onD [OF distinct_map [THEN iffD1, THEN conjunct2]])
qed

lemma find_step_ex: "i \<in> set (step_ids d) \<Longrightarrow> distinct (step_ids d) \<Longrightarrow> \<exists>s \<in> set (pd_steps d). step_id s = i \<and> find_step d i = Inr s"
  using find_step_id by (fastforce simp: step_ids_def)

lemma count_preds:
  "distinct (map step_id steps) \<Longrightarrow> s \<in> set steps \<Longrightarrow> count_list (preds_of steps t) (step_id s) = count_list (edges s) t"
proof (induction steps)
  case (Cons x steps)
  have one: "count_list (map (\<lambda>_. i) (filter (\<lambda>e. e = t) es)) j = (if i = j then count_list es t else 0)" for i j es
    by (induction es) auto
  have none: "count_list (preds_of steps t) j = 0" if "j \<notin> step_id ` set steps" for j
    using that by (auto simp: count_list_0_iff preds_of_def)
  show ?case
  proof (cases "x = s")
    case True
    with Cons.prems none [of "step_id s"] show ?thesis by (simp add: preds_of_def one)
  next
    case False
    with Cons.prems have "step_id x \<noteq> step_id s" "s \<in> set steps" by auto
    with Cons show ?thesis by (simp add: preds_of_def one)
  qed
qed simp

lemma pending_snoc:
  assumes "node \<notin> set order" "s \<in> set (pd_steps d)" "step_id s = node" "distinct (step_ids d)"
  shows "pending d order t = pending d (order @ [node]) t + count_list (edges s) t"
proof -
  have "length (filter (\<lambda>p. p \<notin> set order) ps) = length (filter (\<lambda>p. p \<notin> set (order @ [node])) ps) + count_list ps node" for ps
    using assms(1) by (induction ps) auto
  with count_preds [of "pd_steps d" s t] assms show ?thesis by (simp add: pending_def step_ids_def)
qed

lemma pending_0: "pending d order t = 0 \<longleftrightarrow> (\<forall>p. (p, t) \<in> step_arcs d \<longrightarrow> p \<in> set order)"
  by (auto simp: pending_def filter_empty_conv set_preds_of)

lemma ordered_snoc:
  assumes "ordered d order" "node \<notin> set order" "node \<in> set (step_ids d)" "pending d order node = 0"
  shows "ordered d (order @ [node])"
proof -
  have "p \<in> set as" if eq: "order @ [node] = as @ t # bs" and p: "(p, t) \<in> step_arcs d" for as t bs p
  proof (cases bs rule: rev_cases)
    case Nil
    with eq p assms(4) show ?thesis by (auto simp: pending_0)
  next
    case (snoc cs c)
    with eq p assms(1) show ?thesis by (auto simp: ordered_def)
  qed
  with assms(1-3) show ?thesis unfolding ordered_def by auto
qed

lemma order_inv_step:
  assumes inv: "order_inv d remaining ready order" and "ready \<noteq> []"
    and graph: "distinct (step_ids d)" "snd ` step_arcs d \<subseteq> set (step_ids d)"
  shows "\<exists>s remaining' ready'. find_step d (last ready) = Inr s
     \<and> fold_res release (edges s) (remaining, butlast ready) = Inr (remaining', ready')
     \<and> order_inv d remaining' ready' (order @ [last ready])"
proof -
  define node where "node = last ready"
  have ready: "ready = butlast ready @ [node]" using assms(2) by (simp add: node_def)
  have new: "node \<notin> set order" "node \<in> set (step_ids d)" "node \<notin> set (butlast ready)"
    using inv ready unfolding order_inv_def by (metis disjoint_iff distinct_append in_set_conv_decomp subsetD not_distinct_conv_prefix)+
  from find_step_ex [OF new(2) graph(1)] obtain s where s: "s \<in> set (pd_steps d)" "step_id s = node" "find_step d node = Inr s"
    by blast
  let ?m = "pending d (order @ [node])"
  note snoc = pending_snoc [OF new(1) s(1,2) graph(1)]
  have "set (edges s) \<subseteq> snd ` step_arcs d" using s(1) by (force simp: step_arcs_def)
  with graph(2) have targets: "set (edges s) \<subseteq> set (step_ids d)" by blast
  have "\<forall>k\<in>set (step_ids d). dict_get remaining k = Some (int (?m k + count_list (edges s) k))"
    using inv by (simp add: order_inv_def snoc)
  from release_all [OF targets this, of "butlast ready"] obtain remaining' xs where xs:
    "fold_res release (edges s) (remaining, butlast ready) = Inr (remaining', butlast ready @ xs)" "distinct xs"
    "set xs = {k \<in> set (edges s). ?m k = 0}" "\<forall>k\<in>set (step_ids d). dict_get remaining' k = Some (int (?m k))" by blast
  have old: "k \<in> set order \<union> set ready \<longleftrightarrow> pending d order k = 0" if "k \<in> set (step_ids d)" for k
    using inv that by (simp add: order_inv_def)
  have fresh: "k \<notin> set order \<union> set ready" if "k \<in> set xs" for k
    using that xs(3) targets old [of k] snoc [of k] by (auto simp: count_list_0_iff)
  have set_ready: "set ready = insert node (set (butlast ready))" by (subst ready) auto
  have "k \<in> set (order @ [node]) \<union> set (butlast ready @ xs) \<longleftrightarrow> ?m k = 0" if "k \<in> set (step_ids d)" for k
    using old [OF that] snoc [of k] xs(3) set_ready by (auto simp: count_list_0_iff)
  moreover have "ordered d (order @ [node])"
    using ordered_snoc [OF _ new(1,2)] inv old [OF new(2)] set_ready by (simp add: order_inv_def)
  moreover have "distinct ((order @ [node]) @ butlast ready @ xs)"
    using inv xs(2) fresh new set_ready by (auto simp: order_inv_def distinct_butlast)
  moreover have "set (butlast ready @ xs) \<subseteq> set (step_ids d)"
    using inv xs(3) targets set_ready by (auto simp: order_inv_def)
  ultimately have "order_inv d remaining' (butlast ready @ xs) (order @ [node])"
    using xs(4) unfolding order_inv_def by blast
  with s(3) xs(1) node_def show ?thesis by blast
qed

lemma finite_arcs: "finite (step_arcs d)"
proof -
  have "step_arcs d = (\<Union>s\<in>set (pd_steps d). \<Union>t\<in>set (edges s). {(step_id s, t)})" by (auto simp: step_arcs_def)
  then show ?thesis by simp
qed

lemma order_complete:
  assumes "order_inv d remaining [] order" "acyclic (step_arcs d)" "snd ` step_arcs d \<subseteq> set (step_ids d)"
  shows "set order = set (step_ids d)"
proof -
  have "k \<in> set (step_ids d) \<Longrightarrow> k \<in> set order" for k
  proof (induction k rule: wf_induct_rule [OF finite_acyclic_wf [OF finite_arcs assms(2)]])
    case (1 k)
    have "p \<in> set order" if "(p, k) \<in> step_arcs d" for p
      using 1(1) [OF that] that by (auto simp: step_arcs_def step_ids_def)
    with assms(1) 1(2) show ?case by (auto simp: order_inv_def pending_0)
  qed
  with assms(1) show ?thesis by (auto simp: order_inv_def ordered_def)
qed

lemma order_loop_ordered:
  assumes "order_inv d remaining ready order" "distinct (step_ids d)" "acyclic (step_arcs d)"
    "snd ` step_arcs d \<subseteq> set (step_ids d)"
  shows "\<exists>order'. order_loop d (remaining, ready) order = Inr order' \<and> ordered d order' \<and> set order' = set (step_ids d)"
  using assms
proof (induction d "(remaining, ready)" order arbitrary: remaining ready rule: order_loop.induct)
  case (1 d remaining ready order)
  show ?case
  proof (cases "ready = []")
    case True
    with 1(2) order_complete [of d remaining order] 1(4,5) show ?thesis
      by (auto simp: order_loop.simps order_inv_def)
  next
    case False
    from order_inv_step [OF 1(2) False 1(3,5)] obtain s r y where s: "find_step d (last ready) = Inr s"
      "fold_res release (edges s) (remaining, butlast ready) = Inr (r, y)" "order_inv d r y (order @ [last ready])" by blast
    from 1(1) [OF False refl s(1,2,3) 1(3,4,5)] s(1,2) False show ?thesis
      by (simp add: order_loop.simps [of d remaining])
  qed
qed

lemma entry_has_no_preds:
  assumes "sound_graph d limits"
  shows "(p, pd_entry_step_id d) \<notin> step_arcs d"
proof
  assume p: "(p, pd_entry_step_id d) \<in> step_arcs d"
  then have "p \<in> set (step_ids d)" by (auto simp: step_arcs_def step_ids_def)
  with assms have "(pd_entry_step_id d, p) \<in> (step_arcs d)\<^sup>*" by (auto simp: sound_graph_def)
  from rtrancl_into_trancl1 [OF this p] assms show False by (auto simp: sound_graph_def acyclic_def)
qed

lemma reached_has_pred:
  assumes "sound_graph d limits" "k \<in> set (step_ids d)" "k \<noteq> pd_entry_step_id d"
  shows "\<exists>p. (p, k) \<in> step_arcs d"
proof -
  from assms(1,2) have "(pd_entry_step_id d, k) \<in> (step_arcs d)\<^sup>*" by (auto simp: sound_graph_def)
  with assms(3) show ?thesis by (auto elim: rtranclE)
qed

lemma pending_start: "pending d [] k = length (preds_of (pd_steps d) k)"
  by (simp add: pending_def)

lemma order_start:
  assumes "sound_graph d limits" "map fst preds = step_ids d"
    "\<forall>k \<in> set (step_ids d). dict_get preds k = Some (preds_of (pd_steps d) k)"
  shows "order_inv d (map (\<lambda>(k, ps). (k, int (length ps))) preds) [pd_entry_step_id d] []"
proof -
  have get: "dict_get (map (\<lambda>(k, ps). (k, int (length ps))) preds) k = map_option (\<lambda>ps. int (length ps)) (dict_get preds k)" for k
    by (simp add: dict_get_def map_of_map)
  have "pending d [] k = 0 \<longleftrightarrow> k = pd_entry_step_id d" if "k \<in> set (step_ids d)" for k
    using reached_has_pred [OF assms(1) that] entry_has_no_preds [OF assms(1)] by (auto simp: pending_0)
  with assms show ?thesis by (auto simp: order_inv_def ordered_def get pending_start sound_graph_def)
qed

lemma topological_sorts:
  assumes "sound_graph d limits"
  shows "\<exists>order. topological d = Inr order \<and> distinct order \<and> set order = set (step_ids d)
     \<and> (\<forall>as t bs. order = as @ t # bs \<longrightarrow> (\<forall>p. (p, t) \<in> step_arcs d \<longrightarrow> p \<in> set as))"
proof -
  from assms have g: "distinct (step_ids d)" "acyclic (step_arcs d)" "snd ` step_arcs d \<subseteq> set (step_ids d)"
    by (auto simp: sound_graph_def)
  from predecessors_of [OF g(3,1)] obtain preds where preds: "predecessors d = Inr preds" "map fst preds = step_ids d"
      "\<forall>k \<in> set (step_ids d). dict_get preds k = Some (preds_of (pd_steps d) k)" by blast
  from order_loop_ordered [OF order_start [OF assms preds(2,3)] g] preds(1) show ?thesis
    by (auto simp: topological_def ordered_def)
qed

text \<open>
  On a sound graph the topological sort terminates with an order of all the steps, each once,
  in which every step comes after all of its predecessors.
\<close>

theorem topological_order:
  assumes "sound_graph d limits"
  shows "\<exists>order. topological d = Inr order \<and> distinct order \<and> set order = set (step_ids d)
     \<and> (\<forall>as t bs. order = as @ t # bs \<longrightarrow> (\<forall>p. (p, t) \<in> step_arcs d \<longrightarrow> p \<in> set as))"
  by (rule topological_sorts [OF assms])

definition sample_tool :: "string \<Rightarrow> string \<Rightarrow> obj \<Rightarrow> step" where
  "sample_tool i n args = Tool \<lparr>ts_id = i, ts_adapter = ''read'', ts_contract_version = 1, ts_arguments = args,
     ts_next = n, ts_max_attempts = 1\<rparr>"

definition sample_definition :: procedure_definition where
  "sample_definition = \<lparr>pd_schema_version = 1, pd_procedure_id = ''p'', pd_revision = 1, pd_name = ''p'', pd_description = [],
     pd_entry_step_id = ''a'', pd_goal_kind = ''g'', pd_parameter_schema = [(''type'', PStr ''object'')],
     pd_output_schema = [(''type'', PStr ''object'')], pd_required_capabilities = [''fs.read''], pd_preconditions = [],
     pd_context_dependencies = [], pd_constants = [],
     pd_steps = [sample_tool ''a'' ''b'' [], sample_tool ''b'' ''c'' [(''x'', ref_to ''result'' [PStr ''a''])],
       Complete \<lparr>ks_id = ''c'', ks_result = []\<rparr>]\<rparr>"

lemma sample_graph: "sound_graph sample_definition default_limits"
proof -
  have "graph_issues sample_definition default_limits = Inr []"
    by (simp add: graph_issues_def sample_definition_def sample_tool_def step_ids_def size_issues_def dangling_issues_def
        default_limits_def successors_def dict_get_def dict_set_def)
  with graph_issues_iff show ?thesis by blast
qed

lemma topological_order_witness:
  "\<exists>order. topological sample_definition = Inr order \<and> distinct order \<and> set order = {''a'', ''b'', ''c''}"
  using topological_order [OF sample_graph]
  by (auto simp: sample_definition_def sample_tool_def step_ids_def)

section \<open>The dataflow analysis\<close>

fun bound_value :: "step \<Rightarrow> pyval" where
  "bound_value (Tool s) = PDict (ts_arguments s)"
| "bound_value (Validate s) = PDict (vs_arguments s)"
| "bound_value (Cognitive s) = PDict (cs_inputs s)"
| "bound_value (Delegate s) = PDict (ds_inputs s)"
| "bound_value (Branch s) = PDict (bs_predicate s)"
| "bound_value (Await s) = as_reference s"
| "bound_value (Complete s) = PDict (ks_result s)"

type_synonym found_ref = "string \<times> pyval \<times> pyval list"     \<comment> \<open>path, scope, parts\<close>

definition step_refs :: "step \<Rightarrow> found_ref list result" where
  "step_refs s = iter_refs (bound_value s) ''$''"

text \<open>\<open>not parts or parts[0] not in names\<close>.\<close>

definition head_unknown :: "pyval list \<Rightarrow> string set \<Rightarrow> bool result" where
  "head_unknown parts names = (case parts of [] \<Rightarrow> Inr True | p # _ \<Rightarrow> map_sum id Not (in_names p names))"

definition parameter_unknown :: "procedure_definition \<Rightarrow> pyval list \<Rightarrow> bool result" where
  "parameter_unknown d parts = (case parts of
      p # q # _ \<Rightarrow> if \<not> py_eq p (PStr ''parameters'') then Inr True
        else map_sum id Not (py_in q (get_or (pd_parameter_schema d) ''properties'' (PDict [])))
    | _ \<Rightarrow> Inr True)"

definition flag :: "bool \<Rightarrow> bool result \<Rightarrow> issue \<Rightarrow> issue list result" where
  "flag applies bad err = (if applies then map_sum id (\<lambda>b. if b then [err] else []) bad else Inr [])"

definition ref_issues :: "procedure_definition \<Rightarrow> string \<Rightarrow> string set \<Rightarrow> found_ref \<Rightarrow> issue list result" where
  "ref_issues d sid here = (\<lambda>(path, scope, parts).
     let at_path = ''steps.'' @ sid @ tl path in
     bind_res (flag (scope = PStr ''result'') (head_unknown parts here) (''UNAVAILABLE_RESULT'', at_path)) (\<lambda>r.
     bind_res (flag (scope = PStr ''goal'') (parameter_unknown d parts) (''UNKNOWN_PARAMETER'', at_path)) (\<lambda>g.
     bind_res (flag (scope = PStr ''constants'') (head_unknown parts (fst ` set (pd_constants d))) (''UNKNOWN_CONSTANT'', at_path)) (\<lambda>c.
     bind_res (flag (scope = PStr ''context'') (head_unknown parts (cd_name ` set (pd_context_dependencies d)))
       (''UNDECLARED_CONTEXT'', at_path)) (\<lambda>x.
     Inr (r @ g @ c @ x))))))"

fun intersection :: "string set list \<Rightarrow> string set" where
  "intersection [] = {}"
| "intersection (x # xs) = fold (\<inter>) xs x"

definition with_result :: "procedure_definition \<Rightarrow> (string, string set) dict \<Rightarrow> string \<Rightarrow> string set result" where
  "with_result d available p = bind_res (dict_item available p) (\<lambda>a. bind_res (find_step d p) (\<lambda>s.
     Inr (a \<union> (if produces_result s then {p} else {}))))"

definition flow_step :: "procedure_definition \<Rightarrow> (string, string list) dict \<Rightarrow> string
    \<Rightarrow> (string, string set) dict \<times> issue list \<Rightarrow> ((string, string set) dict \<times> issue list) result" where
  "flow_step d preds sid = (\<lambda>(available, issues).
     bind_res (dict_item preds sid) (\<lambda>ps.
     bind_res (map_res (with_result d available) ps) (\<lambda>incoming.
     let here = intersection incoming in
     bind_res (find_step d sid) (\<lambda>s.
     bind_res (step_refs s) (\<lambda>refs.
     bind_res (concat_res (ref_issues d sid here) refs) (\<lambda>more.
     Inr (dict_set sid here available, issues @ more)))))))"

definition dataflow_issues :: "procedure_definition \<Rightarrow> issue list result" where
  "dataflow_issues d = bind_res (predecessors d) (\<lambda>preds. bind_res (topological d) (\<lambda>order.
     map_sum id snd (fold_res (flow_step d preds) order ([], []))))"

section \<open>It computes what is produced on every path\<close>

definition producer :: "procedure_definition \<Rightarrow> string \<Rightarrow> bool" where
  "producer d n \<longleftrightarrow> (\<exists>s \<in> set (pd_steps d). step_id s = n \<and> produces_result s)"

text \<open>The steps that yield a result and lie on every path from the entry to \<open>k\<close>, before \<open>k\<close>.\<close>

definition guaranteed :: "procedure_definition \<Rightarrow> string \<Rightarrow> string set" where
  "guaranteed d k = {n. producer d n
     \<and> (\<forall>p. walk (step_arcs d) (p @ [k]) \<and> hd (p @ [k]) = pd_entry_step_id d \<longrightarrow> n \<in> set p)}"

lemma guaranteed_entry: "guaranteed d (pd_entry_step_id d) = {}"
proof -
  have "walk (step_arcs d) ([] @ [pd_entry_step_id d])" "hd ([] @ [pd_entry_step_id d]) = pd_entry_step_id d" by simp_all
  then show ?thesis unfolding guaranteed_def by (metis (mono_tags, lifting) Collect_empty_eq empty_iff empty_set)
qed

lemma guaranteed_step:
  assumes "k \<noteq> pd_entry_step_id d" "(p0, k) \<in> step_arcs d"
  shows "guaranteed d k = (\<Inter>q \<in> {q. (q, k) \<in> step_arcs d}. guaranteed d q \<union> (if producer d q then {q} else {}))"
    (is "_ = (\<Inter>q \<in> ?P. ?in q)")
proof (intro equalityI subsetI)
  fix n assume n: "n \<in> guaranteed d k"
  show "n \<in> (\<Inter>q \<in> ?P. ?in q)"
  proof
    fix q assume q: "q \<in> ?P"
    have "n \<in> set p" if "walk (step_arcs d) (p @ [q])" "hd (p @ [q]) = pd_entry_step_id d" "n \<noteq> q" for p
    proof -
      have "walk (step_arcs d) ((p @ [q]) @ [k])" using that(1) q by (simp add: walk_snoc)
      moreover have "hd ((p @ [q]) @ [k]) = pd_entry_step_id d" using that(2) by (cases p) auto
      ultimately have "n \<in> set (p @ [q])" using n unfolding guaranteed_def by blast
      with that(3) show ?thesis by simp
    qed
    with n show "n \<in> ?in q" by (auto simp: guaranteed_def)
  qed
next
  fix n assume n: "n \<in> (\<Inter>q \<in> ?P. ?in q)"
  with assms(2) have "n \<in> ?in p0" by blast
  then have "producer d n" by (auto simp: guaranteed_def split: if_splits)
  moreover have "n \<in> set p" if p: "walk (step_arcs d) (p @ [k])" "hd (p @ [k]) = pd_entry_step_id d" for p
  proof (cases p rule: rev_cases)
    case Nil
    with p(2) assms(1) show ?thesis by simp
  next
    case (snoc p' q)
    with p have q: "walk (step_arcs d) (p' @ [q])" "(q, k) \<in> step_arcs d" "hd (p' @ [q]) = pd_entry_step_id d"
      by (simp_all add: walk_snoc, cases p') auto
    with n have "n \<in> ?in q" by blast
    with q snoc show ?thesis by (auto simp: guaranteed_def split: if_splits)
  qed
  ultimately show "n \<in> guaranteed d k" by (simp add: guaranteed_def)
qed

lemma intersection_set: "intersection xs = (if xs = [] then {} else \<Inter>(set xs))"
proof -
  have "fold (\<inter>) ys y = \<Inter>(set (y # ys))" for y and ys :: "string set list"
    by (induction ys arbitrary: y) auto
  then show ?thesis by (cases xs) simp_all
qed

definition unavailable :: "string set \<Rightarrow> found_ref \<Rightarrow> bool" where
  "unavailable here = (\<lambda>(path, scope, parts). scope = PStr ''result'' \<and> \<not> (\<exists>n rest. parts = PStr n # rest \<and> n \<in> here))"

lemma head_unknown_iff: "head_unknown parts names = Inr b \<Longrightarrow> b = (\<not> (\<exists>n rest. parts = PStr n # rest \<and> n \<in> names))"
  by (auto simp: head_unknown_def in_names_def map_sum_Inr split: list.splits if_splits pyval.splits)

lemma ref_issues_unavailable:
  assumes "ref_issues d sid here r = Inr issues"
  shows "''UNAVAILABLE_RESULT'' \<in> fst ` set issues \<longleftrightarrow> unavailable here r"
proof -
  obtain path scope parts where r: "r = (path, scope, parts)" by (cases r)
  from assms obtain rs gs cs xs where parts: "flag (scope = PStr ''result'') (head_unknown parts here) (''UNAVAILABLE_RESULT'', ''steps.'' @ sid @ tl path) = Inr rs"
    "flag (scope = PStr ''goal'') (parameter_unknown d parts) (''UNKNOWN_PARAMETER'', ''steps.'' @ sid @ tl path) = Inr gs"
    "flag (scope = PStr ''constants'') (head_unknown parts (fst ` set (pd_constants d))) (''UNKNOWN_CONSTANT'', ''steps.'' @ sid @ tl path) = Inr cs"
    "flag (scope = PStr ''context'') (head_unknown parts (cd_name ` set (pd_context_dependencies d))) (''UNDECLARED_CONTEXT'', ''steps.'' @ sid @ tl path) = Inr xs"
    "issues = rs @ gs @ cs @ xs"
    unfolding r ref_issues_def by (auto simp: bind_res_Inr Let_def)
  have other: "''UNAVAILABLE_RESULT'' \<notin> fst ` set ys" if "flag b m (c, q) = Inr ys" "c \<noteq> ''UNAVAILABLE_RESULT''" for b m c q ys
    using that by (auto simp: flag_def map_sum_Inr split: if_splits)
  have "''UNAVAILABLE_RESULT'' \<in> fst ` set rs \<longleftrightarrow> unavailable here r"
    using parts(1) head_unknown_iff [of parts here] unfolding r by (auto simp: flag_def unavailable_def map_sum_Inr split: if_splits)
  with other [OF parts(2)] other [OF parts(3)] other [OF parts(4)] show ?thesis unfolding parts(5) by (simp add: image_Un)
qed

text \<open>A step that refers to a result that some path to it does not produce.\<close>

definition bad_step :: "procedure_definition \<Rightarrow> string \<Rightarrow> bool" where
  "bad_step d k \<longleftrightarrow> (\<exists>s refs. find_step d k = Inr s \<and> step_refs s = Inr refs
     \<and> (\<exists>r\<in>set refs. unavailable (guaranteed d k) r))"

lemma concat_res_codes:
  assumes "concat_res f xs = Inr ys" "\<And>x zs. x \<in> set xs \<Longrightarrow> f x = Inr zs \<Longrightarrow> c \<in> fst ` set zs \<longleftrightarrow> P x"
  shows "c \<in> fst ` set ys \<longleftrightarrow> (\<exists>x\<in>set xs. P x)"
  using assms
proof (induction xs arbitrary: ys)
  case (Cons x xs)
  from Cons.prems(1) obtain zs ws where zs: "f x = Inr zs" "concat_res f xs = Inr ws" "ys = zs @ ws"
    by (auto simp: bind_res_Inr)
  with Cons.IH [OF zs(2)] Cons.prems(2) show ?case by (auto simp: image_Un)
qed simp

lemma producer_find: "distinct (step_ids d) \<Longrightarrow> find_step d p = Inr s \<Longrightarrow> producer d p = produces_result s"
proof -
  assume d: "distinct (step_ids d)" and f: "find_step d p = Inr s"
  then have s: "s \<in> set (pd_steps d)" "step_id s = p" by (auto simp: find_step_def find_Some_iff split: option.splits)
  show ?thesis
  proof
    assume "producer d p"
    then obtain s' where "s' \<in> set (pd_steps d)" "step_id s' = p" "produces_result s'" by (auto simp: producer_def)
    with find_step_id [OF this(1) d] f show "produces_result s" by simp
  next
    assume "produces_result s"
    with s show "producer d p" by (auto simp: producer_def)
  qed
qed

lemma flow_step_here:
  assumes graph: "sound_graph d limits" and k: "k \<in> set (step_ids d)"
    and preds: "dict_get preds k = Some (preds_of (pd_steps d) k)"
    and known: "\<And>p. (p, k) \<in> step_arcs d \<Longrightarrow> dict_get available p = Some (guaranteed d p)"
    and run: "flow_step d preds k (available, issues) = Inr (available', issues')"
  shows "available' = dict_set k (guaranteed d k) available"
    "''UNAVAILABLE_RESULT'' \<in> fst ` set issues' \<longleftrightarrow> ''UNAVAILABLE_RESULT'' \<in> fst ` set issues \<or> bad_step d k"
proof -
  let ?ps = "preds_of (pd_steps d) k"
  have d: "distinct (step_ids d)" using graph by (simp add: sound_graph_def)
  from run preds obtain incoming s refs more where r: "map_res (with_result d available) ?ps = Inr incoming"
    "find_step d k = Inr s" "step_refs s = Inr refs" "concat_res (ref_issues d k (intersection incoming)) refs = Inr more"
    "available' = dict_set k (intersection incoming) available" "issues' = issues @ more"
    by (auto simp: flow_step_def dict_item_def bind_res_Inr Let_def)
  have in_p: "with_result d available p = Inr (guaranteed d p \<union> (if producer d p then {p} else {}))" if "p \<in> set ?ps" for p
  proof -
    from that have p: "(p, k) \<in> step_arcs d" by (simp add: set_preds_of)
    then have "p \<in> set (step_ids d)" by (auto simp: step_arcs_def step_ids_def)
    from find_step_ex [OF this d] obtain s where s: "find_step d p = Inr s" by blast
    from producer_find [OF d s] known [OF p] s show ?thesis by (simp add: with_result_def dict_item_def)
  qed
  have "map_res (with_result d available) ?ps
      = Inr (map (\<lambda>p. guaranteed d p \<union> (if producer d p then {p} else {})) ?ps)"
    by (rule map_res_total) (rule in_p)
  with r(1) have incoming: "incoming = map (\<lambda>p. guaranteed d p \<union> (if producer d p then {p} else {})) ?ps" by simp
  have here: "intersection incoming = guaranteed d k"
  proof (cases "k = pd_entry_step_id d")
    case True
    with entry_has_no_preds [OF graph] have "p \<notin> set ?ps" for p by (simp add: set_preds_of)
    then have "?ps = []" by (cases ?ps) auto
    with True show ?thesis by (simp add: incoming guaranteed_entry)
  next
    case False
    from reached_has_pred [OF graph k False] obtain p0 where p0: "(p0, k) \<in> step_arcs d" ..
    then have "?ps \<noteq> []" by (auto simp: set_preds_of [symmetric])
    with guaranteed_step [OF False p0] show ?thesis
      by (auto simp: intersection_set incoming set_preds_of)
  qed
  show "available' = dict_set k (guaranteed d k) available" using r(5) here by simp
  have "''UNAVAILABLE_RESULT'' \<in> fst ` set more \<longleftrightarrow> (\<exists>x\<in>set refs. unavailable (guaranteed d k) x)"
    by (rule concat_res_codes [OF r(4)]) (simp add: ref_issues_unavailable here)
  with r(2,3,6) show "''UNAVAILABLE_RESULT'' \<in> fst ` set issues' \<longleftrightarrow> ''UNAVAILABLE_RESULT'' \<in> fst ` set issues \<or> bad_step d k"
    by (auto simp: bad_step_def image_Un)
qed

lemma flow_loop:
  assumes graph: "sound_graph d limits"
    and preds: "\<forall>k \<in> set (step_ids d). dict_get preds k = Some (preds_of (pd_steps d) k)"
    and "distinct (as @ bs)" "set (as @ bs) \<subseteq> set (step_ids d)"
    and before: "\<And>xs t ys. as @ bs = xs @ t # ys \<Longrightarrow> (\<forall>p. (p, t) \<in> step_arcs d \<longrightarrow> p \<in> set xs)"
    and run: "fold_res (flow_step d preds) as ([], []) = Inr (available, issues)"
  shows "(\<forall>k\<in>set as. dict_get available k = Some (guaranteed d k))
    \<and> (''UNAVAILABLE_RESULT'' \<in> fst ` set issues \<longleftrightarrow> (\<exists>k\<in>set as. bad_step d k))"
  using assms(3-)
proof (induction as arbitrary: bs available issues rule: rev_induct)
  case (snoc k as)
  from snoc.prems(4) obtain available1 issues1 where run1: "fold_res (flow_step d preds) as ([], []) = Inr (available1, issues1)"
    and last: "flow_step d preds k (available1, issues1) = Inr (available, issues)"
    by (auto simp: bind_res_Inr)
  have IH: "(\<forall>k\<in>set as. dict_get available1 k = Some (guaranteed d k))
    \<and> (''UNAVAILABLE_RESULT'' \<in> fst ` set issues1 \<longleftrightarrow> (\<exists>k\<in>set as. bad_step d k))"
    by (rule snoc.IH [of "k # bs", OF _ _ _ run1]) (use snoc.prems in auto)
  have k: "k \<in> set (step_ids d)" using snoc.prems(2) by simp
  have known: "dict_get available1 p = Some (guaranteed d p)" if "(p, k) \<in> step_arcs d" for p
    using snoc.prems(3) [of as k bs] that IH by simp
  from flow_step_here [OF graph k bspec [OF preds k] known last] IH snoc.prems(1) show ?case
    by (auto simp: dict_simps)
qed simp

lemma dataflow_iff:
  assumes "sound_graph d limits" "dataflow_issues d = Inr issues"
  shows "''UNAVAILABLE_RESULT'' \<in> fst ` set issues \<longleftrightarrow>
    (\<exists>s\<in>set (pd_steps d). \<exists>refs. step_refs s = Inr refs \<and> (\<exists>r\<in>set refs. unavailable (guaranteed d (step_id s)) r))"
proof -
  from assms(1) have d: "distinct (step_ids d)" and known: "snd ` step_arcs d \<subseteq> set (step_ids d)"
    by (auto simp: sound_graph_def)
  from predecessors_of [OF known d] obtain preds where preds: "predecessors d = Inr preds"
      "\<forall>k \<in> set (step_ids d). dict_get preds k = Some (preds_of (pd_steps d) k)" by blast
  from topological_sorts [OF assms(1)] obtain order where order: "topological d = Inr order" "distinct order"
      "set order = set (step_ids d)" "\<forall>as t bs. order = as @ t # bs \<longrightarrow> (\<forall>p. (p, t) \<in> step_arcs d \<longrightarrow> p \<in> set as)" by blast
  from assms(2) preds(1) order(1) obtain available where "fold_res (flow_step d preds) order ([], []) = Inr (available, issues)"
    by (auto simp: dataflow_issues_def map_sum_Inr)
  from flow_loop [OF assms(1) preds(2), of order "[]", simplified, OF order(2) _ _ this] order(3,4)
  have "''UNAVAILABLE_RESULT'' \<in> fst ` set issues \<longleftrightarrow> (\<exists>k\<in>set (step_ids d). bad_step d k)" by simp
  also have "\<dots> = (\<exists>s\<in>set (pd_steps d). bad_step d (step_id s))" by (auto simp: step_ids_def)
  also have "\<dots> = (\<exists>s\<in>set (pd_steps d). \<exists>refs. step_refs s = Inr refs \<and> (\<exists>r\<in>set refs. unavailable (guaranteed d (step_id s)) r))"
    using find_step_id [OF _ d] by (simp add: bad_step_def)
  finally show ?thesis .
qed

text \<open>
  C6. On a sound graph the analysis reports \<open>UNAVAILABLE_RESULT\<close> exactly when some step refers to
  the result of a step that does not lie, as a producer of results, on every path from the entry
  to it: no missing result goes unnoticed, and no reference to a guaranteed one is refused.
\<close>

theorem dataflow_exact:
  assumes "sound_graph d limits" "dataflow_issues d = Inr issues"
  shows "''UNAVAILABLE_RESULT'' \<in> fst ` set issues \<longleftrightarrow>
    (\<exists>s\<in>set (pd_steps d). \<exists>refs. step_refs s = Inr refs \<and> (\<exists>r\<in>set refs. unavailable (guaranteed d (step_id s)) r))"
  by (rule dataflow_iff [OF assms])

lemma sample_dataflow: "dataflow_issues sample_definition = Inr []"
  by (simp add: dataflow_issues_def predecessors_def sample_definition_def sample_tool_def add_pred_def dict_item_def
      dict_get_def dict_set_def topological_def order_loop.simps find_step_def release_def flow_step_def step_refs_def
      ref_to_def is_ref_def is_literal_def ref_parts_def with_result_def ref_issues_def flag_def head_unknown_def in_names_def)

lemma dataflow_exact_witness:
  "\<not> (\<exists>s\<in>set (pd_steps sample_definition). \<exists>refs. step_refs s = Inr refs
     \<and> (\<exists>r\<in>set refs. unavailable (guaranteed sample_definition (step_id s)) r))"
  using dataflow_exact [OF sample_graph sample_dataflow] by simp

section \<open>The validator\<close>

datatype candidate = Raw pyval | Parsed procedure_definition

record validation_report =
  vr_ok :: bool
  vr_issues :: "issue list"
  vr_definition :: "procedure_definition option"
  vr_capabilities :: "string set"
  vr_effects :: "side_effect set"
  vr_model_calls :: int

definition refused :: "issue list \<Rightarrow> validation_report" where
  "refused issues = \<lparr>vr_ok = False, vr_issues = issues, vr_definition = None, vr_capabilities = {}, vr_effects = {},
     vr_model_calls = 0\<rparr>"

definition report_codes :: "validation_report \<Rightarrow> string list" where
  "report_codes r = map fst (vr_issues r)"

text \<open>The checks of a parsed definition, the dataflow analysis only when the graph is sound.\<close>

definition definition_issues :: "procedure_definition \<Rightarrow> catalog \<Rightarrow> procedure_limits \<Rightarrow> issue list result" where
  "definition_issues d cat limits =
     bind_res (graph_issues d limits) (\<lambda>graph.
     bind_res (if graph = [] then dataflow_issues d else Inr []) (\<lambda>flow.
     bind_res (contract_issues d cat limits) (\<lambda>contracts.
     Inr (graph @ flow @ contracts
       @ (if ef_capabilities (effective_of d cat) \<subseteq> set (pd_required_capabilities d) then []
          else [(''UNDECLARED_CAPABILITY'', ''required_capabilities'')])))))"

definition validate_parsed :: "procedure_definition \<Rightarrow> catalog \<Rightarrow> procedure_limits \<Rightarrow> validation_report result" where
  "validate_parsed d cat limits = map_sum id (\<lambda>issues.
     let e = effective_of d cat in
     \<lparr>vr_ok = (issues = []), vr_issues = take (max_issues_reported limits) issues, vr_definition = Some d,
      vr_capabilities = ef_capabilities e, vr_effects = ef_effects e, vr_model_calls = ef_model_calls e\<rparr>)
     (definition_issues d cat limits)"

definition validate_definition :: "(pyval \<Rightarrow> nat) \<Rightarrow> (pyval \<Rightarrow> pydantic_error list + procedure_definition)
    \<Rightarrow> candidate \<Rightarrow> catalog \<Rightarrow> procedure_limits \<Rightarrow> validation_report result" where
  "validate_definition canonical_size model_validate raw cat limits = (case raw of
      Parsed d \<Rightarrow> validate_parsed d cat limits
    | Raw v \<Rightarrow>
        if canonical_size v > max_definition_bytes limits then Inr (refused [(''DEFINITION_TOO_LARGE'', ''$'')])
        else (case parse_definition model_validate v of
            (None, issues) \<Rightarrow> Inr (refused (take (max_issues_reported limits) issues))
          | (Some d, _) \<Rightarrow> validate_parsed d cat limits))"

section \<open>What an accepted definition is\<close>

text \<open>What the runtime relies on for one step.\<close>

fun step_contracted :: "procedure_definition \<Rightarrow> catalog \<Rightarrow> procedure_limits \<Rightarrow> step \<Rightarrow> bool" where
  "step_contracted d cat limits (Tool t) = (\<exists>c. dict_get (adapters cat) (ts_adapter t) = Some c
     \<and> ac_contract_version c = ts_contract_version t \<and> \<not> ac_uses_model c \<and> ac_side_effect c \<noteq> External
     \<and> ts_max_attempts t \<le> max_step_attempts limits
     \<and> set (ac_required_capabilities c) \<subseteq> set (pd_required_capabilities d))"
| "step_contracted d cat limits (Validate v) = (dict_get (checks cat) (vs_check v) \<noteq> None)"
| "step_contracted d cat limits (Cognitive c) = (cs_service c \<in> cognitive_services cat \<and> cs_reason c \<in> cognitive_reasons cat
     \<and> dict_get (outputs cat) (cs_output_schema c) \<noteq> None
     \<and> cs_repair_calls c \<le> max_schema_repair_calls_per_step limits)"
| "step_contracted d cat limits (Branch b) = (predicate_problems limits (PDict (bs_predicate b)) (''steps.'' @ bs_id b @ ''.predicate'') = Inr [])"
| "step_contracted d cat limits (Delegate g) = (dict_get (outputs cat) (ds_output_schema g) \<noteq> None
     \<and> dict_get (outputs cat) (ds_success_contract g) \<noteq> None \<and> delegate_capability \<in> set (pd_required_capabilities d))"
| "step_contracted d cat limits (Await a) = ((as_subject a = Await_Time \<or> is_ref (as_reference a))
     \<and> as_timeout_seconds a \<le> default_execution_deadline_seconds limits)"
| "step_contracted d cat limits (Complete k) = (binding_problems limits (PDict (ks_result k)) (''steps.'' @ ks_id k @ ''.result'') 0 = Inr [])"

lemma effects_grow: "ef_capabilities e \<subseteq> ef_capabilities (fold (add_effects cat) steps e)"
proof (induction steps arbitrary: e)
  case (Cons s steps)
  have "ef_capabilities e \<subseteq> ef_capabilities (add_effects cat s e)" by (cases s) (auto split: option.splits)
  with Cons show ?case by (auto intro: subset_trans)
qed simp

lemma effects_include: "s \<in> set steps \<Longrightarrow> ef_capabilities (add_effects cat s \<lparr>ef_capabilities = {}, ef_effects = {}, ef_model_calls = 0\<rparr>)
    \<subseteq> ef_capabilities (fold (add_effects cat) steps e)"
proof (induction steps arbitrary: e)
  case (Cons x steps)
  show ?case
  proof (cases "s = x")
    case True
    have "ef_capabilities (add_effects cat s \<lparr>ef_capabilities = {}, ef_effects = {}, ef_model_calls = 0\<rparr>)
        \<subseteq> ef_capabilities (add_effects cat s e)" by (cases s) (auto split: option.splits)
    with effects_grow [of "add_effects cat s e" cat steps] True show ?thesis by auto
  next
    case False
    with Cons show ?thesis by simp
  qed
qed simp

lemma step_issues_empty:
  assumes "step_issues d cat limits s = Inr []" "ef_capabilities (effective_of d cat) \<subseteq> set (pd_required_capabilities d)"
    and "s \<in> set (pd_steps d)"
  shows "step_contracted d cat limits s"
proof -
  have caps: "ef_capabilities (add_effects cat s \<lparr>ef_capabilities = {}, ef_effects = {}, ef_model_calls = 0\<rparr>)
      \<subseteq> set (pd_required_capabilities d)"
    using effects_include [OF assms(3)] assms(2) unfolding effective_of_def by blast
  show ?thesis
  proof (cases s)
    case (Tool t)
    with assms(1) caps show ?thesis
      by (auto simp: step_issues_def tool_issues_def Let_def map_sum_Inr split: option.splits if_splits)
  next
    case (Validate v)
    with assms(1) show ?thesis by (auto simp: step_issues_def validate_issues_def Let_def split: option.splits)
  next
    case (Cognitive c)
    with assms(1) show ?thesis
      by (auto simp: step_issues_def cognitive_issues_def output_issues_def Let_def map_sum_Inr split: if_splits)
  next
    case (Delegate g)
    with assms(1) caps show ?thesis
      by (auto simp: step_issues_def delegate_issues_def output_issues_def Let_def map_sum_Inr split: if_splits)
  next
    case (Await a)
    with assms(1) show ?thesis by (cases "as_subject a") (auto simp: step_issues_def await_issues_def Let_def split: if_splits)
  next
    case (Complete k)
    with assms(1) show ?thesis by (auto simp: step_issues_def complete_issues_def Let_def bind_res_Inr simp del: binding_problems.simps)
  qed (use assms(1) in \<open>simp add: step_issues_def\<close>)
qed

lemma validate_parsed_ok:
  assumes "validate_parsed d cat limits = Inr r" "vr_ok r"
  shows "vr_definition r = Some d" "graph_issues d limits = Inr []" "dataflow_issues d = Inr []"
    "contract_issues d cat limits = Inr []" "ef_capabilities (effective_of d cat) \<subseteq> set (pd_required_capabilities d)"
proof -
  from assms obtain issues where i: "definition_issues d cat limits = Inr issues" "issues = []" "vr_definition r = Some d"
    by (auto simp: validate_parsed_def map_sum_Inr Let_def)
  then show "vr_definition r = Some d" "graph_issues d limits = Inr []" "dataflow_issues d = Inr []"
    "contract_issues d cat limits = Inr []" "ef_capabilities (effective_of d cat) \<subseteq> set (pd_required_capabilities d)"
    by (auto simp: definition_issues_def bind_res_Inr split: if_splits)
qed

lemma validate_ok_parsed:
  assumes "validate_definition canonical_size model_validate raw cat limits = Inr r" "vr_ok r"
  shows "\<exists>d. validate_parsed d cat limits = Inr r"
  using assms by (auto simp: validate_definition_def refused_def split: candidate.splits prod.splits option.splits if_splits)

lemma accepted_runs:
  assumes "validate_definition canonical_size model_validate raw cat limits = Inr r" "vr_ok r"
  shows "\<exists>d. vr_definition r = Some d \<and> sound_graph d limits
    \<and> (\<forall>s\<in>set (pd_steps d). step_contracted d cat limits s
         \<and> (\<forall>refs. step_refs s = Inr refs \<longrightarrow> (\<forall>q parts. (q, PStr ''result'', parts) \<in> set refs \<longrightarrow>
              (\<exists>n rest. parts = PStr n # rest \<and> n \<in> guaranteed d (step_id s)))))"
proof -
  from validate_ok_parsed [OF assms] obtain d where d: "validate_parsed d cat limits = Inr r" ..
  note ok = validate_parsed_ok [OF d assms(2)]
  from ok(2) graph_issues_iff have g: "sound_graph d limits" by blast
  from ok(4) have steps: "concat_res (step_issues d cat limits) (pd_steps d) = Inr []"
    by (auto simp: contract_issues_def bind_res_Inr)
  have "step_contracted d cat limits s" if "s \<in> set (pd_steps d)" for s
    using step_issues_empty [OF _ ok(5) that] steps that by (simp add: concat_res_empty)
  moreover from dataflow_iff [OF g ok(3)]
  have "\<not> unavailable (guaranteed d (step_id s)) x" if "s \<in> set (pd_steps d)" "step_refs s = Inr refs" "x \<in> set refs" for s refs x
    using that by auto
  ultimately have "\<forall>s\<in>set (pd_steps d). step_contracted d cat limits s
      \<and> (\<forall>refs. step_refs s = Inr refs \<longrightarrow> (\<forall>q parts. (q, PStr ''result'', parts) \<in> set refs \<longrightarrow>
              (\<exists>n rest. parts = PStr n # rest \<and> n \<in> guaranteed d (step_id s))))"
    by (fastforce simp: unavailable_def)
  with ok(1) g show ?thesis by blast
qed


definition sample_catalog :: catalog where
  "sample_catalog = add_adapter \<lparr>ac_adapter_id = ''read'', ac_contract_version = 1,
     ac_argument_schema = [(''properties'', PDict [(''x'', PDict [])])], ac_result_schema = [], ac_required_capabilities = [''fs.read''],
     ac_side_effect = Read, ac_retry = Retry_Safe, ac_reconcile_supported = False, ac_uses_model = False,
     ac_timeout_seconds = 30, ac_resource_arguments = []\<rparr>
     \<lparr>adapters = [], checks = [], outputs = [], cognitive_services = {}, cognitive_reasons = {}\<rparr>"

lemma sample_graph_issues: "graph_issues sample_definition default_limits = Inr []"
  using sample_graph graph_issues_iff by blast

lemma sample_contracts: "contract_issues sample_definition sample_catalog default_limits = Inr []"
  by (simp add: contract_issues_def sample_definition_def sample_tool_def sample_catalog_def add_adapter_def dict_get_def
      dict_set_def schema_problems.simps schema_keywords_def schema_types_def get_or_def in_names_def required_issues_def
      object_flag_issues_def opaque_def item_set_def step_issues_def tool_issues_def argument_issues_def missing_names_def
      sortable_def default_limits_def binding_problems.simps ref_to_def ref_problems_def scope_names_def part_ok_def
      complete_issues_def insert_commute indexed_def)

lemma sample_validates: "\<exists>r. validate_parsed sample_definition sample_catalog default_limits = Inr r \<and> vr_ok r"
  by (simp add: validate_parsed_def definition_issues_def sample_graph_issues sample_dataflow sample_contracts effective_of_def)
    (simp add: sample_definition_def sample_tool_def sample_catalog_def add_adapter_def dict_get_def dict_set_def)


end
