(* ===== verification/Proc_Store.thy ===== *)
theory Proc_Store
  imports Py_Prelude
begin

text \<open>
  The procedure tables of \<open>storage.py\<close>: immutable definitions, admissions, executions that move by
  compare-and-swap on their version, operation records and traces.  A table is a dictionary in
  \<open>rowid\<close> order; each operation is one SQLite transaction, so an operation is one step and the
  interleavings of competing callers are the orders of their operations.  A violated uniqueness
  constraint that the code does not catch is the exception \<open>IntegrityError\<close>, and rolls back.
\<close>

section \<open>The tables\<close>

record 'x execution_row =
  x_occurrence :: string
  x_agent :: string
  x_status :: string
  x_version :: int
  x_payload :: 'x

record 'o operation_row =
  op_execution :: string
  op_state :: string
  op_payload :: 'o

record trace_row =
  tr_goal_kind :: string
  tr_occurrence :: string
  tr_payload :: string

record ('x, 'o) store =
  st_definitions :: "(string \<times> int, string \<times> string) dict"     \<comment> \<open>digest, content\<close>
  st_admissions :: "(string \<times> int, string) dict"
  st_executions :: "(string, 'x execution_row) dict"
  st_operations :: "(string, 'o operation_row) dict"
  st_traces :: "(string, trace_row) dict"
  st_state :: "(string, string) dict"
  st_agents :: "(string, string) dict"

definition empty_store :: "('x, 'o) store" where
  "empty_store = \<lparr>st_definitions = [], st_admissions = [], st_executions = [], st_operations = [], st_traces = [],
     st_state = [], st_agents = []\<rparr>"

definition closed_statuses :: "string set" where
  "closed_statuses = {''completed'', ''failed'', ''cancelled''}"

definition is_open_row :: "'x execution_row \<Rightarrow> bool" where
  "is_open_row r \<longleftrightarrow> x_status r \<notin> closed_statuses"

text \<open>The partial unique index: no two open executions of one occurrence.\<close>

definition clashes :: "('x, 'o) store \<Rightarrow> string \<Rightarrow> 'x execution_row \<Rightarrow> bool" where
  "clashes st eid r \<longleftrightarrow> is_open_row r
     \<and> list_ex (\<lambda>(i, q). i \<noteq> eid \<and> is_open_row q \<and> x_occurrence q = x_occurrence r) (st_executions st)"

section \<open>Operations\<close>

definition insert_procedure_definition :: "string \<Rightarrow> int \<Rightarrow> string \<Rightarrow> string \<Rightarrow> ('x, 'o) store \<Rightarrow> bool \<times> ('x, 'o) store" where
  "insert_procedure_definition pid revision digest content st =
     (case dict_get (st_definitions st) (pid, revision) of
        Some (digest', _) \<Rightarrow> (digest' = digest, st)
      | None \<Rightarrow> (True, st\<lparr>st_definitions := dict_set (pid, revision) (digest, content) (st_definitions st)\<rparr>))"

definition load_procedure_definitions :: "('x, 'o) store \<Rightarrow> (string \<times> int \<times> string \<times> string) list" where
  "load_procedure_definitions st = map (\<lambda>((pid, revision), (digest, content)). (pid, revision, digest, content)) (st_definitions st)"

definition save_procedure_admission :: "string \<Rightarrow> int \<Rightarrow> string \<Rightarrow> ('x, 'o) store \<Rightarrow> ('x, 'o) store" where
  "save_procedure_admission pid revision payload st = st\<lparr>st_admissions := dict_set (pid, revision) payload (st_admissions st)\<rparr>"

definition load_procedure_admissions :: "('x, 'o) store \<Rightarrow> string list" where
  "load_procedure_admissions st = map snd (st_admissions st)"

definition create_procedure_execution :: "string \<Rightarrow> string \<Rightarrow> string \<Rightarrow> string \<Rightarrow> 'x \<Rightarrow> ('x, 'o) store \<Rightarrow> bool \<times> ('x, 'o) store" where
  "create_procedure_execution eid occurrence agent status payload st =
     (let row = \<lparr>x_occurrence = occurrence, x_agent = agent, x_status = status, x_version = 1, x_payload = payload\<rparr> in
      if dict_get (st_executions st) eid \<noteq> None \<or> clashes st eid row then (False, st)
      else (True, st\<lparr>st_executions := dict_set eid row (st_executions st)\<rparr>))"

definition load_procedure_execution :: "string \<Rightarrow> ('x, 'o) store \<Rightarrow> (int \<times> 'x) option" where
  "load_procedure_execution eid st = map_option (\<lambda>r. (x_version r, x_payload r)) (dict_get (st_executions st) eid)"

definition list_procedure_executions :: "string option \<Rightarrow> bool \<Rightarrow> ('x, 'o) store \<Rightarrow> (int \<times> 'x) list" where
  "list_procedure_executions occurrence open_only st = map (\<lambda>(_, r). (x_version r, x_payload r))
     (filter (\<lambda>(_, r). (case occurrence of None \<Rightarrow> True | Some o' \<Rightarrow> x_occurrence r = o')
        \<and> (open_only \<longrightarrow> is_open_row r)) (st_executions st))"

record 'o operation_write =
  ow_key :: string
  ow_state :: string
  ow_record :: 'o
  ow_expected :: "string option"

definition expectation_met :: "('x, 'o) store \<Rightarrow> 'o operation_write \<Rightarrow> bool" where
  "expectation_met st w = (let row = dict_get (st_operations st) (ow_key w) in
     case ow_expected w of
       None \<Rightarrow> row = None
     | Some e \<Rightarrow> e = ''*'' \<or> (case row of None \<Rightarrow> False | Some r \<Rightarrow> op_state r = e))"

text \<open>The upsert of an operation record keeps the execution of a record that exists.\<close>

definition write_operation :: "string \<Rightarrow> 'o operation_write \<Rightarrow> ('x, 'o) store \<Rightarrow> ('x, 'o) store" where
  "write_operation eid w st = st\<lparr>st_operations := dict_set (ow_key w)
     (case dict_get (st_operations st) (ow_key w) of
        None \<Rightarrow> \<lparr>op_execution = eid, op_state = ow_state w, op_payload = ow_record w\<rparr>
      | Some r \<Rightarrow> r\<lparr>op_state := ow_state w, op_payload := ow_record w\<rparr>) (st_operations st)\<rparr>"

fun write_operations :: "string \<Rightarrow> 'o operation_write list \<Rightarrow> ('x, 'o) store \<Rightarrow> ('x, 'o) store option" where
  "write_operations eid [] st = Some st"
| "write_operations eid (w # ws) st =
     (if expectation_met st w then write_operations eid ws (write_operation eid w st) else None)"

definition commit_procedure_transition :: "string \<Rightarrow> int \<Rightarrow> string \<Rightarrow> 'x \<Rightarrow> 'o operation_write list \<Rightarrow> ('x, 'o) store \<Rightarrow> bool result \<times> ('x, 'o) store" where
  "commit_procedure_transition eid expected status payload operations st =
     (case dict_get (st_executions st) eid of
        None \<Rightarrow> (Inr False, st)
      | Some r \<Rightarrow>
          if x_version r \<noteq> expected then (Inr False, st)
          else let row = r\<lparr>x_status := status, x_payload := payload, x_version := x_version r + 1\<rparr> in
            if clashes st eid row then (Inl IntegrityError, st)
            else (case write_operations eid operations (st\<lparr>st_executions := dict_set eid row (st_executions st)\<rparr>) of
                None \<Rightarrow> (Inr False, st)
              | Some st' \<Rightarrow> (Inr True, st')))"

definition load_procedure_operation :: "string \<Rightarrow> ('x, 'o) store \<Rightarrow> (string \<times> 'o) option" where
  "load_procedure_operation key st = map_option (\<lambda>r. (op_state r, op_payload r)) (dict_get (st_operations st) key)"

definition list_procedure_operations :: "string \<Rightarrow> ('x, 'o) store \<Rightarrow> (string \<times> 'o) list" where
  "list_procedure_operations eid st = map (\<lambda>(_, r). (op_state r, op_payload r))
     (filter (\<lambda>(_, r). op_execution r = eid) (st_operations st))"

definition update_procedure_operation :: "string \<Rightarrow> string \<Rightarrow> string \<Rightarrow> 'o \<Rightarrow> ('x, 'o) store \<Rightarrow> bool \<times> ('x, 'o) store" where
  "update_procedure_operation key expected status payload st =
     (case dict_get (st_operations st) key of
        None \<Rightarrow> (False, st)
      | Some r \<Rightarrow> if op_state r \<noteq> expected then (False, st)
          else (True, st\<lparr>st_operations := dict_set key (r\<lparr>op_state := status, op_payload := payload\<rparr>) (st_operations st)\<rparr>))"

definition insert_procedure_trace :: "string \<Rightarrow> string \<Rightarrow> string \<Rightarrow> string \<Rightarrow> ('x, 'o) store \<Rightarrow> bool \<times> ('x, 'o) store" where
  "insert_procedure_trace tid goal_kind occurrence payload st =
     (if dict_get (st_traces st) tid \<noteq> None \<or> list_ex (\<lambda>(_, r). tr_occurrence r = occurrence) (st_traces st) then (False, st)
      else (True, st\<lparr>st_traces := dict_set tid \<lparr>tr_goal_kind = goal_kind, tr_occurrence = occurrence, tr_payload = payload\<rparr>
        (st_traces st)\<rparr>))"

definition list_procedure_traces :: "string option \<Rightarrow> ('x, 'o) store \<Rightarrow> string list" where
  "list_procedure_traces goal_kind st = map (\<lambda>(_, r). tr_payload r)
     (filter (\<lambda>(_, r). case goal_kind of None \<Rightarrow> True | Some k \<Rightarrow> tr_goal_kind r = k) (st_traces st))"

text \<open>\<open>accept_work\<close>: the state row and the agent row, or neither; \<open>render\<close> may raise.\<close>

definition accept_work :: "string \<Rightarrow> string \<Rightarrow> string \<Rightarrow> string result \<Rightarrow> ('x, 'o) store \<Rightarrow> bool result \<times> ('x, 'o) store" where
  "accept_work key v agent render st =
     (if dict_get (st_state st) key \<noteq> None then (Inr False, st)
      else case render of
          Inl e \<Rightarrow> (Inl e, st)
        | Inr row \<Rightarrow> (Inr True, st\<lparr>st_state := dict_set key v (st_state st), st_agents := dict_set agent row (st_agents st)\<rparr>))"

section \<open>Any order of operations\<close>

datatype ('x, 'o) store_call =
    Insert_Definition string int string string
  | Save_Admission string int string
  | Create_Execution string string string string 'x
  | Commit string int string 'x "'o operation_write list"
  | Update_Operation string string string 'o
  | Insert_Trace string string string string
  | Accept_Work string string string "string result"

text \<open>One call: whether it reported success, and the store after it.\<close>

fun call :: "('x, 'o) store_call \<Rightarrow> ('x, 'o) store \<Rightarrow> bool \<times> ('x, 'o) store" where
  "call (Insert_Definition p r d c) st = insert_procedure_definition p r d c st"
| "call (Save_Admission p r a) st = (True, save_procedure_admission p r a st)"
| "call (Create_Execution e oc a s p) st = create_procedure_execution e oc a s p st"
| "call (Commit e v s p ops) st = (case commit_procedure_transition e v s p ops st of (r, st') \<Rightarrow> (r = Inr True, st'))"
| "call (Update_Operation k x s p) st = update_procedure_operation k x s p st"
| "call (Insert_Trace t g oc p) st = insert_procedure_trace t g oc p st"
| "call (Accept_Work k v a f) st = (case accept_work k v a f st of (r, st') \<Rightarrow> (r = Inr True, st'))"

text \<open>A sequence of calls, each with what it reported.\<close>

fun run_all :: "('c \<Rightarrow> 's \<Rightarrow> bool \<times> 's) \<Rightarrow> 'c list \<Rightarrow> 's \<Rightarrow> ('c \<times> bool) list \<times> 's" where
  "run_all perform [] s = ([], s)"
| "run_all perform (c # cs) s = (case perform c s of (b, s1) \<Rightarrow>
     case run_all perform cs s1 of (rs, s2) \<Rightarrow> ((c, b) # rs, s2))"

inductive store_step :: "('x, 'o) store \<Rightarrow> ('x, 'o) store \<Rightarrow> bool" where
  "store_step st (snd (call c st))"

section \<open>Compare and swap\<close>

text \<open>
  The contract of a versioned value: a call may claim a version, wins only at that version and then
  moves past it; no call moves back.
\<close>

locale compare_and_swap =
  fixes perform :: "'c \<Rightarrow> 's \<Rightarrow> bool \<times> 's"
    and version :: "'s \<Rightarrow> int option"
    and claim :: "'c \<Rightarrow> int option"
  assumes wins: "perform c s = (True, s') \<Longrightarrow> claim c = Some v \<Longrightarrow> version s = Some v \<and> version s' = Some (v + 1)"
    and never_back: "perform c s = (b, s') \<Longrightarrow> version s = Some u \<Longrightarrow> \<exists>u'. version s' = Some u' \<and> u \<le> u'"
begin

definition winners :: "int \<Rightarrow> ('c \<times> bool) list \<Rightarrow> ('c \<times> bool) list" where
  "winners v rs = filter (\<lambda>(c, b). b \<and> claim c = Some v) rs"

lemma no_late_winner: "run_all perform cs s = (rs, s') \<Longrightarrow> version s = Some u \<Longrightarrow> v < u \<Longrightarrow> winners v rs = []"
proof (induction cs arbitrary: s rs u)
  case (Cons c cs)
  obtain b s1 where step: "perform c s = (b, s1)" by (cases "perform c s")
  obtain rs1 where rest: "run_all perform cs s1 = (rs1, s')" "rs = (c, b) # rs1"
    using Cons.prems(1) step by (auto split: prod.splits)
  from never_back [OF step Cons.prems(2)] obtain u' where u': "version s1 = Some u'" "u \<le> u'" by blast
  have "\<not> (b \<and> claim c = Some v)"
  proof
    assume "b \<and> claim c = Some v"
    with wins [of c s s1 v] step Cons.prems(2,3) show False by simp
  qed
  with Cons.IH [OF rest(1) u'(1)] u'(2) Cons.prems(3) rest(2) show ?case by (simp add: winners_def)
qed (simp add: winners_def)

lemma one_winner: "run_all perform cs s = (rs, s') \<Longrightarrow> length (winners v rs) \<le> 1"
proof (induction cs arbitrary: s rs)
  case (Cons c cs)
  obtain b s1 where step: "perform c s = (b, s1)" by (cases "perform c s")
  obtain rs1 where rest: "run_all perform cs s1 = (rs1, s')" "rs = (c, b) # rs1"
    using Cons.prems step by (auto split: prod.splits)
  show ?case
  proof (cases "b \<and> claim c = Some v")
    case True
    with wins [of c s s1 v] step have "version s1 = Some (v + 1)" by simp
    from no_late_winner [OF rest(1) this] True rest(2) show ?thesis by (simp add: winners_def)
  next
    case False
    with Cons.IH [OF rest(1)] rest(2) show ?thesis by (auto simp: winners_def)
  qed
qed (simp add: winners_def)

end

definition execution_version :: "string \<Rightarrow> ('x, 'o) store \<Rightarrow> int option" where
  "execution_version eid st = map_option x_version (dict_get (st_executions st) eid)"

fun claimed_version :: "string \<Rightarrow> ('x, 'o) store_call \<Rightarrow> int option" where
  "claimed_version eid (Commit e v s p ops) = (if e = eid then Some v else None)"
| "claimed_version eid _ = None"

lemma write_operations_keeps:
  "write_operations eid ws st = Some st' \<Longrightarrow> st_executions st' = st_executions st"
  by (induction ws arbitrary: st) (auto simp: write_operation_def split: if_splits)

lemma commit_version:
  assumes "commit_procedure_transition e v s p ops st = (r, st')"
  shows "execution_version eid st' = (if r = Inr True \<and> e = eid then Some (v + 1) else execution_version eid st)
    \<and> (r = Inr True \<longrightarrow> execution_version e st = Some v)"
  using assms
  by (auto simp: commit_procedure_transition_def execution_version_def Let_def dict_simps
      split: option.splits if_splits dest!: write_operations_keeps)

interpretation execution: compare_and_swap call "execution_version eid" "claimed_version eid" for eid
proof
  fix c s s' v
  assume "call c s = (True, s')" "claimed_version eid c = Some v"
  then show "execution_version eid s = Some v \<and> execution_version eid s' = Some (v + 1)"
    by (cases c) (auto split: if_splits prod.splits dest: commit_version [of _ _ _ _ _ _ _ _ eid])
next
  fix c s b s' u
  assume c: "call c s = (b, s')" "execution_version eid s = Some u"
  show "\<exists>u'. execution_version eid s' = Some u' \<and> u \<le> u'"
  proof (cases c)
    case (Commit e v st p ops)
    with c obtain r where r: "commit_procedure_transition e v st p ops s = (r, s')" by (auto split: prod.splits)
    with commit_version [OF r, of eid] c(2) show ?thesis by auto
  qed (use c in \<open>auto simp: execution_version_def insert_procedure_definition_def save_procedure_admission_def
      create_procedure_execution_def update_procedure_operation_def insert_procedure_trace_def accept_work_def
      dict_simps Let_def split: option.splits if_splits sum.splits prod.splits\<close>)
qed

text \<open>
  C7. Of any number of attempts to advance an execution from the same version, in any order and
  among any other operations on the store, at most one succeeds.
\<close>

theorem one_transition_per_version:
  fixes cs :: "('x, 'o) store_call list"
  shows "length (filter (\<lambda>(c, won). won \<and> (\<exists>status payload operations. c = Commit eid v status payload operations))
     (fst (run_all call cs st))) \<le> 1"
proof -
  have "claimed_version eid c = Some v \<longleftrightarrow> (\<exists>status payload operations. c = Commit eid v status payload operations)"
    for c :: "('x, 'o) store_call"
    by (cases c) auto
  with execution.one_winner [of cs st "fst (run_all call cs st)" "snd (run_all call cs st)" eid v]
  show ?thesis by (simp add: execution.winners_def)
qed

section \<open>All or nothing\<close>

lemma write_operations_result:
  assumes "write_operations eid ws st = Some st'" "distinct (map ow_key ws)"
  shows "(\<forall>w\<in>set ws. expectation_met st w \<and> (\<exists>r. dict_get (st_operations st') (ow_key w) = Some r
        \<and> op_state r = ow_state w \<and> op_payload r = ow_record w))
    \<and> (\<forall>k. k \<notin> ow_key ` set ws \<longrightarrow> dict_get (st_operations st') k = dict_get (st_operations st) k)"
  using assms
proof (induction ws arbitrary: st)
  case (Cons w ws)
  let ?st = "write_operation eid w st"
  have get: "dict_get (st_operations ?st) k = (if k = ow_key w
      then Some (case dict_get (st_operations st) (ow_key w) of
        None \<Rightarrow> \<lparr>op_execution = eid, op_state = ow_state w, op_payload = ow_record w\<rparr>
      | Some r \<Rightarrow> r\<lparr>op_state := ow_state w, op_payload := ow_record w\<rparr>) else dict_get (st_operations st) k)" for k
    by (simp add: write_operation_def dict_simps)
  from Cons.prems have w: "expectation_met st w" "write_operations eid ws ?st = Some st'" by (auto split: if_splits)
  have same: "expectation_met ?st x = expectation_met st x" if "x \<in> set ws" for x
  proof -
    from that have "ow_key x \<in> ow_key ` set ws" by simp
    with Cons.prems(2) have "ow_key x \<noteq> ow_key w" by auto
    then show ?thesis by (simp add: expectation_met_def get)
  qed
  from Cons.IH [OF w(2)] Cons.prems(2) have IH: "\<forall>x\<in>set ws. expectation_met ?st x
      \<and> (\<exists>r. dict_get (st_operations st') (ow_key x) = Some r \<and> op_state r = ow_state x \<and> op_payload r = ow_record x)"
    "\<forall>k. k \<notin> ow_key ` set ws \<longrightarrow> dict_get (st_operations st') k = dict_get (st_operations ?st) k" by auto
  from Cons.prems(2) have "ow_key w \<notin> ow_key ` set ws" by simp
  with IH(2) have "dict_get (st_operations st') (ow_key w) = dict_get (st_operations ?st) (ow_key w)" by blast
  then have "\<exists>r. dict_get (st_operations st') (ow_key w) = Some r \<and> op_state r = ow_state w \<and> op_payload r = ow_record w"
    by (cases "dict_get (st_operations st) (ow_key w)") (simp_all add: get)
  with w(1) IH same show ?case by (simp add: get)
qed simp

text \<open>
  A transition is all or nothing.  When it succeeds, the execution was at the expected version
  and is one further with the new status and payload, every operation record met its expectation
  and is written, and every other execution and record is as it was; in every other case nothing
  has changed.
\<close>

theorem transition_atomic:
  assumes "commit_procedure_transition eid v status payload operations st = (r, st')" "distinct (map ow_key operations)"
  shows "if r = Inr True
    then (\<exists>row. dict_get (st_executions st) eid = Some row \<and> x_version row = v
           \<and> dict_get (st_executions st') eid = Some (row\<lparr>x_status := status, x_payload := payload, x_version := v + 1\<rparr>))
      \<and> (\<forall>e. e \<noteq> eid \<longrightarrow> dict_get (st_executions st') e = dict_get (st_executions st) e)
      \<and> (\<forall>w\<in>set operations. expectation_met st w \<and> (\<exists>o'. load_procedure_operation (ow_key w) st' = Some (ow_state w, ow_record w)))
      \<and> (\<forall>k. k \<notin> ow_key ` set operations \<longrightarrow> load_procedure_operation k st' = load_procedure_operation k st)
    else st' = st"
proof (cases "r = Inr True")
  case False
  with assms(1) show ?thesis
    by (auto simp: commit_procedure_transition_def Let_def split: option.splits if_splits)
next
  case True
  let ?row = "\<lambda>row. row\<lparr>x_status := status, x_payload := payload, x_version := v + 1\<rparr>"
  from True assms(1) obtain row where row: "dict_get (st_executions st) eid = Some row" "x_version row = v"
    and w: "write_operations eid operations (st\<lparr>st_executions := dict_set eid (?row row) (st_executions st)\<rparr>) = Some st'"
    by (auto simp: commit_procedure_transition_def Let_def split: option.splits if_splits)
  have ex: "st_executions st' = dict_set eid (?row row) (st_executions st)" using write_operations_keeps [OF w] by simp
  have met: "expectation_met (st\<lparr>st_executions := x\<rparr>) w = expectation_met st w" for x w by (simp add: expectation_met_def)
  from write_operations_result [OF w assms(2)] True row ex show ?thesis
    by (auto simp: met load_procedure_operation_def dict_simps)
qed

definition sample_store :: "(string, string) store" where
  "sample_store = snd (create_procedure_execution ''e'' ''oc'' ''a'' ''running'' ''p'' empty_store)"

lemma transition_atomic_witness:
  "fst (commit_procedure_transition ''e'' 1 ''completed'' ''q'' [] sample_store) = Inr True
    \<and> execution_version ''e'' (snd (commit_procedure_transition ''e'' 1 ''completed'' ''q'' [] sample_store)) = Some 2"
proof -
  have ok: "fst (commit_procedure_transition ''e'' 1 ''completed'' ''q'' [] sample_store) = Inr True"
    by (simp add: commit_procedure_transition_def sample_store_def create_procedure_execution_def empty_store_def clashes_def
        is_open_row_def closed_statuses_def dict_get_def dict_set_def Let_def)
  obtain st' where st': "commit_procedure_transition ''e'' 1 ''completed'' ''q'' [] sample_store = (Inr True, st')"
    using ok by (cases "commit_procedure_transition ''e'' 1 ''completed'' ''q'' [] sample_store") auto
  from transition_atomic [OF this] have "execution_version ''e'' st' = Some 2"
    by (auto simp: execution_version_def)
  with st' show ?thesis by simp
qed

section \<open>One open execution per occurrence\<close>

definition one_open :: "('x, 'o) store \<Rightarrow> bool" where
  "one_open st \<longleftrightarrow> dict_ok (st_executions st)
     \<and> (\<forall>i r j q. (i, r) \<in> set (st_executions st) \<longrightarrow> (j, q) \<in> set (st_executions st)
          \<longrightarrow> is_open_row r \<longrightarrow> is_open_row q \<longrightarrow> x_occurrence r = x_occurrence q \<longrightarrow> i = j)"

lemma one_open_set:
  assumes "one_open st" "\<not> clashes st eid row"
  shows "one_open (st\<lparr>st_executions := dict_set eid row (st_executions st)\<rparr>)"
proof -
  let ?d = "dict_set eid row (st_executions st)"
  have ok: "dict_ok (st_executions st)" "dict_ok ?d" using assms(1) by (auto simp: one_open_def)
  have in_set: "i = eid \<and> r = row \<or> i \<noteq> eid \<and> (i, r) \<in> set (st_executions st)" if "(i, r) \<in> set ?d" for i r
    using that unfolding dict_get_in_iff [OF ok(2), symmetric] dict_get_in_iff [OF ok(1), symmetric]
    by (simp add: dict_simps split: if_splits)
  have fresh: "\<not> (is_open_row row \<and> i \<noteq> eid \<and> is_open_row q \<and> x_occurrence q = x_occurrence row)"
    if "(i, q) \<in> set (st_executions st)" for i q
    using that assms(2) by (auto simp: clashes_def list_ex_iff)
  have "i = j" if "(i, r) \<in> set ?d" "(j, q) \<in> set ?d" "is_open_row r" "is_open_row q" "x_occurrence r = x_occurrence q" for i r j q
    using in_set [OF that(1)] in_set [OF that(2)] that(3-5) fresh [of i r] fresh [of j q] assms(1)
    unfolding one_open_def by metis
  with ok(2) show ?thesis by (simp add: one_open_def)
qed

lemma one_open_same: "one_open st \<Longrightarrow> st_executions st' = st_executions st \<Longrightarrow> one_open st'"
  by (simp add: one_open_def)

lemma one_open_commit:
  assumes "one_open st"
  shows "one_open (snd (commit_procedure_transition eid v status payload ops st))"
proof (cases "fst (commit_procedure_transition eid v status payload ops st) = Inr True")
  case False
  then have "snd (commit_procedure_transition eid v status payload ops st) = st"
    by (auto simp: commit_procedure_transition_def Let_def split: option.splits if_splits)
  with assms show ?thesis by simp
next
  case True
  then obtain r st' where "\<not> clashes st eid r" "snd (commit_procedure_transition eid v status payload ops st) = st'"
    "write_operations eid ops (st\<lparr>st_executions := dict_set eid r (st_executions st)\<rparr>) = Some st'"
    by (auto simp: commit_procedure_transition_def Let_def split: option.splits if_splits)
  with one_open_same [OF one_open_set [OF assms, of eid r]] write_operations_keeps show ?thesis by fastforce
qed

lemma one_open_call: "one_open st \<Longrightarrow> one_open (snd (call c st))"
proof (cases c)
  case (Create_Execution e oc a s p)
  assume "one_open st"
  with Create_Execution show ?thesis
    by (auto simp: create_procedure_execution_def Let_def intro: one_open_set)
next
  case (Commit e v s p ops)
  assume "one_open st"
  from one_open_commit [OF this] Commit show ?thesis by (simp add: case_prod_unfold)
qed (auto simp: insert_procedure_definition_def save_procedure_admission_def update_procedure_operation_def
    insert_procedure_trace_def accept_work_def elim!: one_open_same split: option.splits sum.splits)

text \<open>
  C25. In every store that any sequence of operations can reach from the empty one, an occurrence
  has at most one open execution.
\<close>

theorem one_open_execution:
  assumes "store_step\<^sup>*\<^sup>* empty_store st"
    and "dict_get (st_executions st) i = Some r" "dict_get (st_executions st) j = Some q"
    and "is_open_row r" "is_open_row q" "x_occurrence r = x_occurrence q"
  shows "i = j"
proof -
  have "one_open empty_store" by (simp add: one_open_def empty_store_def)
  with assms(1) have "one_open st"
    by (induction rule: rtranclp_induct) (auto elim!: store_step.cases intro: one_open_call)
  with assms(2-) dict_get_in show ?thesis unfolding one_open_def by metis
qed

lemma sample_store_reached: "store_step\<^sup>*\<^sup>* empty_store sample_store"
  using store_step.intros [of "empty_store :: (string, string) store" "Create_Execution ''e'' ''oc'' ''a'' ''running'' ''p''"]
  by (simp add: sample_store_def)

lemma one_open_execution_witness: "''e'' = ''e'' \<and> execution_version ''e'' sample_store = Some 1"
proof -
  obtain r where r: "dict_get (st_executions sample_store) ''e'' = Some r" "is_open_row r" "x_version r = 1"
    by (simp add: sample_store_def create_procedure_execution_def empty_store_def clashes_def is_open_row_def
        closed_statuses_def dict_get_def dict_set_def Let_def)
  from one_open_execution [OF sample_store_reached r(1) r(1) r(2) r(2) refl] r show ?thesis
    by (simp add: execution_version_def)
qed

end
