(* ===== verification/Proc_Registry.thy ===== *)
theory Proc_Registry
  imports Proc_Flow Proc_Store
begin

text \<open>
  Admission of procedures (\<open>ProcedureRegistry\<close> of \<open>procedure_runtime.py\<close>): registering a definition,
  the approval bound to its digest, degrading and retiring, loading with quarantine, and the
  selection of the procedure for a goal.  pydantic, JSON and SHA-256 are the functions of a record
  of parameters; reasons and issue texts are kept as codes.
\<close>

section \<open>Admissions\<close>

datatype admission_status = Invalid | Candidate | Validated | Promoted | Degraded | Retired

record admission =
  ad_procedure_id :: string
  ad_revision :: int
  ad_digest :: string
  ad_status :: admission_status
  ad_source :: string
  ad_owner :: string
  ad_issues :: "issue list"
  ad_approved_by :: string
  ad_approved_at :: "time option"
  ad_approved_goal_kinds :: "string list"
  ad_adapter_contracts :: "(string, int) dict"
  ad_reason :: string
  ad_history :: "(time \<times> string \<times> string) list"
  ad_raw :: "obj option"

definition new_admission :: "string \<Rightarrow> int \<Rightarrow> admission_status \<Rightarrow> admission" where
  "new_admission pid revision status = \<lparr>ad_procedure_id = pid, ad_revision = revision, ad_digest = [], ad_status = status,
     ad_source = ''authored'', ad_owner = [], ad_issues = [], ad_approved_by = [], ad_approved_at = None,
     ad_approved_goal_kinds = [], ad_adapter_contracts = [], ad_reason = [], ad_history = [], ad_raw = None\<rparr>"

definition revision_key :: "string \<Rightarrow> int \<Rightarrow> string" where
  "revision_key pid revision = pid @ ''@'' @ show_int revision"

definition admission_key :: "admission \<Rightarrow> string" where
  "admission_key a = revision_key (ad_procedure_id a) (ad_revision a)"

definition admission_note :: "time \<Rightarrow> string \<Rightarrow> string \<Rightarrow> admission \<Rightarrow> admission" where
  "admission_note now event detail a = a\<lparr>ad_history := ad_history a @ [(now, event, detail)]\<rparr>"

datatype selection = Match | No_Match | Incompatible_Procedure | Invalid_Definition | Permission_Denied
  | Approval_Required | Budget_Exhausted | Unresolved_Effect | Postcondition_Failed | Unsupported_Execution

record match_result =
  mr_selection :: selection
  mr_definition :: "procedure_definition option"
  mr_admission :: "admission option"
  mr_reasons :: "(string \<times> string) list"     \<comment> \<open>key, code\<close>

section \<open>The registry\<close>

text \<open>The third-party functions: pydantic, JSON, the digest, \<open>str\<close> of a value that is not a string.\<close>

record codec =
  fx_validate :: "pyval \<Rightarrow> pydantic_error list + procedure_definition"
  fx_size :: "pyval \<Rightarrow> nat"
  fx_canonical :: "procedure_definition \<Rightarrow> string"
  fx_digest :: "procedure_definition \<Rightarrow> string"
  fx_json :: "string \<Rightarrow> pyval"
  fx_dump :: "admission \<Rightarrow> string"
  fx_admission :: "string \<Rightarrow> admission"
  fx_str :: "pyval \<Rightarrow> string"

record ('x, 'o) registry =
  rg_store :: "('x, 'o) store"
  rg_catalog :: catalog
  rg_limits :: procedure_limits
  rg_definitions :: "(string, procedure_definition) dict"
  rg_admissions :: "(string, admission) dict"
  rg_enabled :: bool

definition validate :: "codec \<Rightarrow> candidate \<Rightarrow> ('x, 'o) registry \<Rightarrow> validation_report result" where
  "validate fx raw r = validate_definition (fx_size fx) (fx_validate fx) raw (rg_catalog r) (rg_limits r)"

definition text_of :: "codec \<Rightarrow> pyval \<Rightarrow> string" where
  "text_of fx v = (case v of PStr s \<Rightarrow> s | _ \<Rightarrow> fx_str fx v)"

text \<open>\<open>self.admissions[key] = admission\<close>, then \<open>await self._save(admission)\<close>.\<close>

definition put_admission :: "codec \<Rightarrow> string \<Rightarrow> admission \<Rightarrow> ('x, 'o) registry \<Rightarrow> ('x, 'o) registry" where
  "put_admission fx key a r = r\<lparr>rg_admissions := dict_set key a (rg_admissions r),
     rg_store := save_procedure_admission (ad_procedure_id a) (ad_revision a) (fx_dump fx a) (rg_store r)\<rparr>"

definition find_admission :: "string \<Rightarrow> ('x, 'o) registry \<Rightarrow> admission result" where
  "find_admission key r = (case dict_get (rg_admissions r) key of
      None \<Rightarrow> Inl (ProcedureError ''UNKNOWN_PROCEDURE'') | Some a \<Rightarrow> Inr a)"

text \<open>One stored definition in the loop of \<open>load\<close>.\<close>

definition load_one :: "codec \<Rightarrow> time \<Rightarrow> string \<times> int \<times> string \<times> string \<Rightarrow> ('x, 'o) registry \<Rightarrow> ('x, 'o) registry result" where
  "load_one fx now = (\<lambda>(pid, revision, digest, content) r.
     let key = revision_key pid revision in
     map_sum id (\<lambda>report.
       case vr_definition report of
         Some d \<Rightarrow>
           if fx_digest fx d = digest \<and> vr_ok report then r\<lparr>rg_definitions := dict_set key d (rg_definitions r)\<rparr>
           else put_admission fx key (admission_note now ''quarantined'' ''failed validation on load''
             ((dict_get_or (rg_admissions r) key (new_admission pid revision Invalid))
               \<lparr>ad_status := Invalid, ad_issues := if vr_issues report = [] then [(''DIGEST_MISMATCH'', ''$'')] else vr_issues report\<rparr>)) r
       | None \<Rightarrow> put_admission fx key (admission_note now ''quarantined'' ''failed validation on load''
             ((dict_get_or (rg_admissions r) key (new_admission pid revision Invalid))
               \<lparr>ad_status := Invalid, ad_issues := if vr_issues report = [] then [(''DIGEST_MISMATCH'', ''$'')] else vr_issues report\<rparr>)) r)
       (validate fx (Raw (fx_json fx content)) r))"

definition load_registry :: "codec \<Rightarrow> time \<Rightarrow> ('x, 'o) registry \<Rightarrow> ('x, 'o) registry result" where
  "load_registry fx now r =
     (let admissions = fold (\<lambda>p. let a = fx_admission fx p in dict_set (admission_key a) a)
            (load_procedure_admissions (rg_store r)) [] in
      fold_res (load_one fx now) (load_procedure_definitions (rg_store r))
        (r\<lparr>rg_definitions := [], rg_admissions := admissions\<rparr>))"

definition tool_versions :: "procedure_definition \<Rightarrow> (string, int) dict" where
  "tool_versions d = fold (\<lambda>s vs. case s of Tool t \<Rightarrow> dict_set (ts_adapter t) (ts_contract_version t) vs | _ \<Rightarrow> vs)
     (pd_steps d) []"

definition rejected_admission :: "codec \<Rightarrow> time \<Rightarrow> obj \<Rightarrow> string \<Rightarrow> string \<Rightarrow> validation_report \<Rightarrow> admission" where
  "rejected_admission fx now raw source owner report =
     (let pid = get_or raw ''procedure_id'' PNone;
          revision = (case get_or raw ''revision'' PNone of PInt i \<Rightarrow> i | _ \<Rightarrow> 0) in
      admission_note now ''rejected'' (py_join '', '' (report_codes report))
        ((new_admission (if truthy pid then text_of fx pid else ''unknown'') revision Invalid)
          \<lparr>ad_source := source, ad_owner := owner, ad_issues := vr_issues report, ad_raw := Some raw\<rparr>))"

text \<open>\<open>register\<close>; the admission it returns is the one in the registry, or one that is kept nowhere.\<close>

definition register_definition :: "codec \<Rightarrow> time \<Rightarrow> string \<Rightarrow> string \<Rightarrow> procedure_definition \<Rightarrow> ('x, 'o) registry \<Rightarrow> admission result \<times> ('x, 'o) registry" where
  "register_definition fx now source owner d r =
     (case insert_procedure_definition (pd_procedure_id d) (pd_revision d) (fx_digest fx d) (fx_canonical fx d) (rg_store r) of
        (stored, store) \<Rightarrow>
          let r = r\<lparr>rg_store := store\<rparr>; key = definition_key d in
          if \<not> stored then (Inl (ProcedureError ''REVISION_CONFLICT''), r)
          else let r' = r\<lparr>rg_definitions := dict_set key d (rg_definitions r)\<rparr>;
                   fresh = admission_note now ''registered'' source
                     ((new_admission (pd_procedure_id d) (pd_revision d) (if source = ''learned'' then Candidate else Validated))
                       \<lparr>ad_digest := fx_digest fx d, ad_source := source, ad_owner := owner, ad_adapter_contracts := tool_versions d\<rparr>)
               in (case dict_get (rg_admissions r) key of
                     Some a \<Rightarrow> if ad_status a \<noteq> Invalid then (Inr a, r') else (Inr fresh, put_admission fx key fresh r')
                   | None \<Rightarrow> (Inr fresh, put_admission fx key fresh r')))"

definition register :: "codec \<Rightarrow> time \<Rightarrow> obj \<Rightarrow> string \<Rightarrow> string \<Rightarrow> ('x, 'o) registry \<Rightarrow> admission result \<times> ('x, 'o) registry" where
  "register fx now raw source owner r =
     (case validate fx (Raw (PDict raw)) r of
        Inl e \<Rightarrow> (Inl e, r)
      | Inr report \<Rightarrow>
          (case (if vr_ok report then vr_definition report else None) of
             Some d \<Rightarrow> register_definition fx now source owner d r
           | None \<Rightarrow>
               let a = rejected_admission fx now raw source owner report; key = admission_key a in
               if ad_revision a > 0 \<and> dict_get (rg_definitions r) key = None
               then (Inr a, put_admission fx key a r) else (Inr a, r)))"

definition mark_validated :: "codec \<Rightarrow> time \<Rightarrow> string \<Rightarrow> string \<Rightarrow> ('x, 'o) registry \<Rightarrow> admission result \<times> ('x, 'o) registry" where
  "mark_validated fx now key report r = (case find_admission key r of
      Inl e \<Rightarrow> (Inl e, r)
    | Inr a \<Rightarrow> if ad_status a \<noteq> Candidate then (Inl (ProcedureError ''NOT_A_CANDIDATE''), r)
        else let a' = admission_note now ''validated'' report (a\<lparr>ad_status := Validated\<rparr>) in (Inr a', put_admission fx key a' r))"

definition trusted_actor :: "string \<Rightarrow> bool" where
  "trusted_actor actor \<longleftrightarrow> actor \<noteq> [] \<and> \<not> prefix ''model'' actor \<and> \<not> prefix ''agent:'' actor"

text \<open>The guards of \<open>approve\<close>, in order, and the admission it makes.\<close>

definition approval :: "codec \<Rightarrow> time \<Rightarrow> string \<Rightarrow> string \<Rightarrow> string \<Rightarrow> string list option \<Rightarrow> ('x, 'o) registry \<Rightarrow> admission result" where
  "approval fx now key actor digest goal_kinds r =
     bind_res (find_admission key r) (\<lambda>a.
        case dict_get (rg_definitions r) key of
          None \<Rightarrow> Inl (ProcedureError ''NOT_VALIDATED'')
        | Some d \<Rightarrow>
            if ad_status a \<noteq> Validated then Inl (ProcedureError ''NOT_VALIDATED'')
            else if \<not> trusted_actor actor then Inl (ProcedureError ''UNTRUSTED_APPROVER'')
            else if digest \<noteq> fx_digest fx d then Inl (ProcedureError ''DIGEST_MISMATCH'')
            else bind_res (validate fx (Parsed d) r) (\<lambda>report.
              if \<not> vr_ok report then Inl (ProcedureError ''INVALID_DEFINITION'')
              else Inr (admission_note now ''promoted'' actor
                (a\<lparr>ad_status := Promoted, ad_approved_by := actor, ad_approved_at := Some now,
                  ad_approved_goal_kinds := case goal_kinds of None \<Rightarrow> [pd_goal_kind d]
                    | Some ks \<Rightarrow> if ks = [] then [pd_goal_kind d] else ks\<rparr>))))"

definition approve :: "codec \<Rightarrow> time \<Rightarrow> string \<Rightarrow> string \<Rightarrow> string \<Rightarrow> string list option \<Rightarrow> ('x, 'o) registry \<Rightarrow> admission result \<times> ('x, 'o) registry" where
  "approve fx now key actor digest goal_kinds r =
     (case approval fx now key actor digest goal_kinds r of
        Inl e \<Rightarrow> (Inl e, r)
      | Inr a' \<Rightarrow> (Inr a', put_admission fx key a' r))"

definition set_status :: "codec \<Rightarrow> time \<Rightarrow> admission_status \<Rightarrow> string \<Rightarrow> string \<Rightarrow> string \<Rightarrow> ('x, 'o) registry \<Rightarrow> admission result \<times> ('x, 'o) registry" where
  "set_status fx now status event key reason r = (case find_admission key r of
      Inl e \<Rightarrow> (Inl e, r)
    | Inr a \<Rightarrow> let a' = admission_note now event reason (a\<lparr>ad_status := status, ad_reason := reason\<rparr>) in
        (Inr a', put_admission fx key a' r))"

definition degrade :: "codec \<Rightarrow> time \<Rightarrow> string \<Rightarrow> string \<Rightarrow> ('x, 'o) registry \<Rightarrow> admission result \<times> ('x, 'o) registry" where
  "degrade fx now = set_status fx now Degraded ''degraded''"

definition retire :: "codec \<Rightarrow> time \<Rightarrow> string \<Rightarrow> string \<Rightarrow> ('x, 'o) registry \<Rightarrow> admission result \<times> ('x, 'o) registry" where
  "retire fx now = set_status fx now Retired ''retired''"

section \<open>Installing what is shipped\<close>

text \<open>
  \<open>install\<close>, from what \<open>_read_shipped\<close> read; of a problem line its subject is kept.  Only
  \<open>RegistryError\<close> is caught, so another exception stops the installation where it is.
\<close>

definition caught :: "string \<Rightarrow> (admission \<Rightarrow> bool) \<Rightarrow> string list \<Rightarrow> admission result \<times> ('x, 'o) registry \<Rightarrow> (string list \<times> ('x, 'o) registry) result" where
  "caught subject failed problems = (\<lambda>(res, r). case res of
      Inl (ProcedureError c) \<Rightarrow> Inr (problems @ [subject], r)
    | Inl e \<Rightarrow> Inl e
    | Inr a \<Rightarrow> Inr (if failed a then problems @ [subject] else problems, r))"

definition install_one :: "codec \<Rightarrow> time \<Rightarrow> string \<times> obj \<Rightarrow> string list \<times> ('x, 'o) registry \<Rightarrow> (string list \<times> ('x, 'o) registry) result" where
  "install_one fx now = (\<lambda>(name, raw) (problems, r).
     caught name (\<lambda>a. ad_status a = Invalid) problems (register fx now raw ''shipped'' ''template'' r))"

definition entry_text :: "codec \<Rightarrow> obj \<Rightarrow> string \<Rightarrow> string" where
  "entry_text fx entry k = (let v = get_or entry k PNone in if truthy v then text_of fx v else [])"

definition admit_one :: "codec \<Rightarrow> time \<Rightarrow> obj \<Rightarrow> string list \<times> ('x, 'o) registry \<Rightarrow> (string list \<times> ('x, 'o) registry) result" where
  "admit_one fx now entry = (\<lambda>(problems, r).
     let key = text_of fx (get_or entry ''procedure_id'' PNone) @ ''@'' @ text_of fx (get_or entry ''revision'' PNone) in
     case dict_get (rg_admissions r) key of
       None \<Rightarrow> Inr (problems, r)
     | Some a \<Rightarrow>
         if ad_status a \<noteq> Validated then Inr (problems, r)
         else let kinds = get_or entry ''goal_kinds'' PNone in
           bind_res (if truthy kinds then map_sum id (map (text_of fx)) (iterate kinds) else Inr []) (\<lambda>ks.
             caught key (\<lambda>_. False) problems (approve fx now key (entry_text fx entry ''approved_by'')
               (entry_text fx entry ''digest'') (if ks = [] then None else Some ks) r)))"

definition install :: "codec \<Rightarrow> time \<Rightarrow> (string \<times> obj) list \<Rightarrow> obj list \<Rightarrow> string list \<Rightarrow> ('x, 'o) registry \<Rightarrow> (string list \<times> ('x, 'o) registry) result" where
  "install fx now shipped entries problems r =
     bind_res (fold_res (install_one fx now) shipped (problems, r)) (fold_res (admit_one fx now) entries)"

section \<open>Selection\<close>

definition selection_candidates :: "string \<Rightarrow> ('x, 'o) registry \<Rightarrow> admission list" where
  "selection_candidates goal_kind r = sort_key (\<lambda>a. - ad_revision a)
     (filter (\<lambda>a. ad_status a = Promoted \<and> goal_kind \<in> set (ad_approved_goal_kinds a)) (map snd (rg_admissions r)))"

definition contracts_current :: "catalog \<Rightarrow> admission \<Rightarrow> bool" where
  "contracts_current cat a \<longleftrightarrow> list_all (\<lambda>(adapter, version). case dict_get (adapters cat) adapter of
      None \<Rightarrow> False | Some c \<Rightarrow> ac_contract_version c = version) (ad_adapter_contracts a)"

text \<open>A precondition that does not evaluate to true, or whose types cannot be compared, is unmet.\<close>

definition precondition_unmet :: "scopes \<Rightarrow> obj \<Rightarrow> bool result" where
  "precondition_unmet scopes p = (case evaluate (PDict p) scopes of
      Inr t \<Rightarrow> Inr (t \<noteq> TTrue)
    | Inl (PredicateError c) \<Rightarrow> Inr True
    | Inl e \<Rightarrow> Inl e)"

text \<open>
  One turn of the loop of \<open>select\<close>: \<open>None\<close> when the candidate is taken, otherwise the reason it is
  not and what that makes of \<open>worst\<close>.
\<close>

definition refuse :: "('x, 'o) registry \<Rightarrow> string \<Rightarrow> obj \<Rightarrow> string set \<Rightarrow> scopes \<Rightarrow> admission \<Rightarrow> (string \<times> selection option) option result" where
  "refuse r goal_kind parameters capabilities scopes a =
     (case dict_get (rg_definitions r) (admission_key a) of
        None \<Rightarrow> Inr (Some (''invalid definition'', Some Invalid_Definition))
      | Some d \<Rightarrow>
          if ad_status a = Invalid then Inr (Some (''invalid definition'', Some Invalid_Definition))
          else if ad_status a \<noteq> Promoted then Inr (Some (''not promoted'', Some Approval_Required))
          else if goal_kind \<notin> set (ad_approved_goal_kinds a) then Inr (Some (''not approved'', None))
          else if \<not> contracts_current (rg_catalog r) a then Inr (Some (''adapter contract changed'', None))
          else bind_res (schema_errors (PDict parameters) (PDict (pd_parameter_schema d)) ''parameters'') (\<lambda>problems.
            if problems \<noteq> [] then Inr (Some (''parameters'', None))
            else if \<not> set (pd_required_capabilities d) \<subseteq> capabilities then Inr (Some (''agent lacks'', Some Permission_Denied))
            else bind_res (map_res (precondition_unmet scopes) (pd_preconditions d)) (\<lambda>unmet.
              Inr (if list_ex id unmet then Some (''preconditions'', None) else None))))"

fun pick :: "('x, 'o) registry \<Rightarrow> string \<Rightarrow> obj \<Rightarrow> string set \<Rightarrow> scopes \<Rightarrow> admission list \<Rightarrow> selection \<Rightarrow> (string \<times> string) list
    \<Rightarrow> match_result result" where
  "pick r goal_kind parameters capabilities scopes [] worst reasons =
     Inr \<lparr>mr_selection = worst, mr_definition = None, mr_admission = None, mr_reasons = reasons\<rparr>"
| "pick r goal_kind parameters capabilities scopes (a # as) worst reasons =
     bind_res (refuse r goal_kind parameters capabilities scopes a) (\<lambda>refusal. case refusal of
       None \<Rightarrow> Inr \<lparr>mr_selection = Match, mr_definition = dict_get (rg_definitions r) (admission_key a),
         mr_admission = Some a, mr_reasons = reasons\<rparr>
     | Some (reason, w) \<Rightarrow> pick r goal_kind parameters capabilities scopes as
         (case w of None \<Rightarrow> worst | Some w' \<Rightarrow> w') (reasons @ [(admission_key a, reason)]))"

definition no_procedure :: "selection \<Rightarrow> string \<Rightarrow> match_result" where
  "no_procedure s reason = \<lparr>mr_selection = s, mr_definition = None, mr_admission = None, mr_reasons = [([], reason)]\<rparr>"

definition select :: "string \<Rightarrow> obj \<Rightarrow> string set \<Rightarrow> string option \<Rightarrow> obj \<Rightarrow> ('x, 'o) registry \<Rightarrow> match_result result" where
  "select goal_kind parameters capabilities explicit context r =
     (let scopes = [(''goal'', PDict [(''parameters'', PDict parameters)]), (''context'', PDict context)] in
      if \<not> rg_enabled r then Inr (no_procedure No_Match ''disabled'')
      else case explicit of
        Some key \<Rightarrow> if key = [] then
            (let cs = selection_candidates goal_kind r in
             if cs = [] then Inr (no_procedure No_Match ''none admitted'')
             else pick r goal_kind parameters capabilities scopes cs Incompatible_Procedure [])
          else (case dict_get (rg_admissions r) key of
             None \<Rightarrow> Inr (no_procedure Invalid_Definition ''unknown'')
           | Some a \<Rightarrow> pick r goal_kind parameters capabilities scopes [a] Incompatible_Procedure [])
      | None \<Rightarrow>
          let cs = selection_candidates goal_kind r in
          if cs = [] then Inr (no_procedure No_Match ''none admitted'')
          else pick r goal_kind parameters capabilities scopes cs Incompatible_Procedure [])"

section \<open>Only what is admitted is selected\<close>

text \<open>What a selected procedure is.\<close>

definition admitted_for :: "('x, 'o) registry \<Rightarrow> string \<Rightarrow> obj \<Rightarrow> string set \<Rightarrow> scopes \<Rightarrow> admission \<Rightarrow> procedure_definition \<Rightarrow> bool" where
  "admitted_for r goal_kind parameters capabilities scopes a d \<longleftrightarrow>
     dict_get (rg_definitions r) (admission_key a) = Some d \<and> ad_status a = Promoted
     \<and> goal_kind \<in> set (ad_approved_goal_kinds a) \<and> contracts_current (rg_catalog r) a
     \<and> schema_errors (PDict parameters) (PDict (pd_parameter_schema d)) ''parameters'' = Inr []
     \<and> set (pd_required_capabilities d) \<subseteq> capabilities
     \<and> (\<forall>p\<in>set (pd_preconditions d). evaluate (PDict p) scopes = Inr TTrue)"

lemma precondition_met: "(precondition_unmet scopes p = Inr False) = (evaluate (PDict p) scopes = Inr TTrue)"
  by (auto simp: precondition_unmet_def split: sum.splits exn.splits)

lemma refuse_None:
  "refuse r goal_kind parameters capabilities scopes a = Inr None \<longleftrightarrow>
     (\<exists>d. admitted_for r goal_kind parameters capabilities scopes a d)"
proof -
  have none_unmet: "(\<exists>us. map_res f ps = Inr us \<and> \<not> list_ex id us) \<longleftrightarrow> (\<forall>p\<in>set ps. f p = Inr False)"
    for f :: "obj \<Rightarrow> bool result" and ps
  proof (induction ps)
    case (Cons p ps)
    have "(\<exists>us. map_res f (p # ps) = Inr us \<and> \<not> list_ex id us) = (f p = Inr False \<and> (\<exists>us. map_res f ps = Inr us \<and> \<not> list_ex id us))"
      by (cases "f p"; cases "map_res f ps") auto
    then show ?case unfolding Cons.IH by (simp add: id_def)
  qed simp
  show ?thesis
    using none_unmet [of "precondition_unmet scopes"]
    by (auto simp: refuse_def admitted_for_def bind_res_Inr precondition_met split: option.splits if_splits) blast
qed

lemma pick_match:
  "pick r goal_kind parameters capabilities scopes as worst reasons = Inr m \<Longrightarrow> worst \<noteq> Match \<Longrightarrow>
   (\<forall>a b w. refuse r goal_kind parameters capabilities scopes a = Inr (Some (b, Some w)) \<longrightarrow> w \<noteq> Match) \<Longrightarrow>
   (mr_selection m = Match \<longrightarrow> (\<exists>xs a ys d. as = xs @ a # ys \<and> mr_admission m = Some a \<and> mr_definition m = Some d
      \<and> admitted_for r goal_kind parameters capabilities scopes a d
      \<and> (\<forall>x\<in>set xs. \<nexists>d. admitted_for r goal_kind parameters capabilities scopes x d)))"
proof (induction as arbitrary: worst reasons)
  case (Cons a as)
  from Cons.prems(1) obtain refusal where refusal: "refuse r goal_kind parameters capabilities scopes a = Inr refusal"
    by (auto simp: bind_res_Inr)
  show ?case
  proof (cases refusal)
    case None
    with refusal refuse_None obtain d where d: "admitted_for r goal_kind parameters capabilities scopes a d" by blast
    then have "dict_get (rg_definitions r) (admission_key a) = Some d" by (simp add: admitted_for_def)
    with Cons.prems(1) refusal None have "mr_admission m = Some a" "mr_definition m = Some d" by auto
    with d show ?thesis by (intro impI exI [of _ "[]"]) auto
  next
    case (Some bw)
    obtain b w where bw: "bw = (b, w)" by (cases bw)
    from refusal Some refuse_None [of r goal_kind parameters capabilities scopes a]
    have no: "\<nexists>d. admitted_for r goal_kind parameters capabilities scopes a d" by auto
    let ?w = "case w of None \<Rightarrow> worst | Some w' \<Rightarrow> w'"
    have "?w \<noteq> Match" using Cons.prems(2,3) refusal Some bw by (auto split: option.split)
    with Cons.IH [of ?w] Cons.prems(1,3) refusal Some bw have IH: "mr_selection m = Match \<longrightarrow> (\<exists>xs a' ys d. as = xs @ a' # ys
      \<and> mr_admission m = Some a' \<and> mr_definition m = Some d \<and> admitted_for r goal_kind parameters capabilities scopes a' d
      \<and> (\<forall>x\<in>set xs. \<nexists>d. admitted_for r goal_kind parameters capabilities scopes x d))" by simp
    show ?thesis
    proof
      assume "mr_selection m = Match"
      with IH obtain xs a' ys d where "as = xs @ a' # ys" "mr_admission m = Some a'" "mr_definition m = Some d"
        "admitted_for r goal_kind parameters capabilities scopes a' d"
        "\<forall>x\<in>set xs. \<nexists>d. admitted_for r goal_kind parameters capabilities scopes x d" by blast
      with no show "\<exists>xs a' ys d. a # as = xs @ a' # ys \<and> mr_admission m = Some a' \<and> mr_definition m = Some d
          \<and> admitted_for r goal_kind parameters capabilities scopes a' d
          \<and> (\<forall>x\<in>set xs. \<nexists>d. admitted_for r goal_kind parameters capabilities scopes x d)"
        by (intro exI [of _ "a # xs"]) auto
    qed
  qed
qed auto

lemma refuse_never_match:
  "refuse r goal_kind parameters capabilities scopes a = Inr (Some (b, Some w)) \<Longrightarrow> w \<notin> {Match, No_Match}"
  by (auto simp: refuse_def bind_res_Inr split: option.splits if_splits)

text \<open>
  C20. Selection hands out a procedure only if it is promoted and approved for the kind of goal, its
  adapters still have the versions it was admitted with, the parameters are valid, the agent has
  every required capability and every precondition is true; and among the revisions admitted for
  the goal it takes the highest one for which all of this holds.
\<close>

theorem select_only_admitted:
  assumes "select goal_kind parameters capabilities explicit context r = Inr m" "mr_selection m = Match"
  defines "scopes \<equiv> [(''goal'', PDict [(''parameters'', PDict parameters)]), (''context'', PDict context)]"
  shows "\<exists>a d. mr_admission m = Some a \<and> mr_definition m = Some d \<and> rg_enabled r
    \<and> admitted_for r goal_kind parameters capabilities scopes a d
    \<and> (explicit = None \<longrightarrow> (\<forall>b e. b \<in> snd ` set (rg_admissions r) \<longrightarrow> ad_revision b > ad_revision a
         \<longrightarrow> \<not> admitted_for r goal_kind parameters capabilities scopes b e))"
proof -
  have enabled: "rg_enabled r"
    using assms(1,2) by (cases "rg_enabled r") (auto simp: select_def Let_def no_procedure_def)
  let ?cs = "selection_candidates goal_kind r"
  obtain as where pick: "pick r goal_kind parameters capabilities scopes as Incompatible_Procedure [] = Inr m"
    and as: "explicit = None \<longrightarrow> as = ?cs"
    using assms(1,2) enabled
    by (auto simp: select_def scopes_def no_procedure_def Let_def simp del: pick.simps split: if_splits option.splits)
  have "\<forall>a b w. refuse r goal_kind parameters capabilities scopes a = Inr (Some (b, Some w)) \<longrightarrow> w \<noteq> Match"
    using refuse_never_match by blast
  from pick_match [OF pick _ this] assms(2) obtain xs a ys d where m: "as = xs @ a # ys" "mr_admission m = Some a"
    "mr_definition m = Some d" "admitted_for r goal_kind parameters capabilities scopes a d"
    "\<forall>x\<in>set xs. \<nexists>d. admitted_for r goal_kind parameters capabilities scopes x d" by auto
  have "\<not> admitted_for r goal_kind parameters capabilities scopes b e"
    if none: "explicit = None" and b: "b \<in> snd ` set (rg_admissions r)" "ad_revision b > ad_revision a" for b e
  proof
    assume adm: "admitted_for r goal_kind parameters capabilities scopes b e"
    with b(1) have "b \<in> set ?cs" by (auto simp: selection_candidates_def admitted_for_def)
    moreover have eq: "?cs = xs @ a # ys" using as none m(1) by simp
    moreover have "sorted (map (\<lambda>a. - ad_revision a) ?cs)" by (simp add: selection_candidates_def)
    ultimately have "b \<in> set xs" using b(2) by (auto simp: sorted_append)
    with m(5) adm show False by blast
  qed
  with m(2-4) enabled show ?thesis by (intro exI [of _ a] exI [of _ d] conjI) simp_all
qed

section \<open>Promotion needs a trusted approval\<close>

inductive registry_step :: "codec \<Rightarrow> ('x, 'o) registry \<Rightarrow> ('x, 'o) registry \<Rightarrow> bool" for fx where
  rs_register: "register fx now raw source owner r = (res, r') \<Longrightarrow> registry_step fx r r'"
| rs_mark_validated: "mark_validated fx now key report r = (res, r') \<Longrightarrow> registry_step fx r r'"
| rs_approve: "approve fx now key actor digest kinds r = (res, r') \<Longrightarrow> registry_step fx r r'"
| rs_degrade: "degrade fx now key reason r = (res, r') \<Longrightarrow> registry_step fx r r'"
| rs_retire: "retire fx now key reason r = (res, r') \<Longrightarrow> registry_step fx r r'"
| rs_install: "install fx now shipped entries problems r = Inr (problems', r') \<Longrightarrow> registry_step fx r r'"

definition approvals_trusted :: "('x, 'o) registry \<Rightarrow> bool" where
  "approvals_trusted r \<longleftrightarrow> (\<forall>a \<in> snd ` set (rg_admissions r). ad_status a = Promoted \<longrightarrow> trusted_actor (ad_approved_by a))"

lemma trusted_put: "approvals_trusted r \<Longrightarrow> (ad_status a = Promoted \<Longrightarrow> trusted_actor (ad_approved_by a))
    \<Longrightarrow> approvals_trusted (put_admission fx key a r)"
  by (fastforce simp: approvals_trusted_def put_admission_def dest: dict_set_entries)

lemma trusted_fields [simp]: "approvals_trusted (r\<lparr>rg_store := x\<rparr>) = approvals_trusted r"
  "approvals_trusted (r\<lparr>rg_definitions := y\<rparr>) = approvals_trusted r"
  by (simp_all add: approvals_trusted_def)

lemma status_of_new [simp]: "ad_status (admission_note now e t a) = ad_status a"
  "ad_status (new_admission p i s) = s" "ad_approved_by (admission_note now e t a) = ad_approved_by a"
  by (simp_all add: admission_note_def new_admission_def)

lemma trusted_register: "approvals_trusted r \<Longrightarrow> approvals_trusted (snd (register fx now raw source owner r))"
proof -
  assume t: "approvals_trusted r"
  have "approvals_trusted (snd (register_definition fx now source owner d r))" for d
    using t by (auto simp: register_definition_def Let_def split: prod.splits option.splits
        intro!: trusted_put)
  with t show ?thesis
    by (auto simp: register_def rejected_admission_def Let_def split: sum.splits option.splits intro!: trusted_put)
qed

lemma approval_ok:
  assumes "approval fx now key actor digest kinds r = Inr a'"
  shows "\<exists>a d report. dict_get (rg_admissions r) key = Some a \<and> ad_status a = Validated
    \<and> dict_get (rg_definitions r) key = Some d \<and> digest = fx_digest fx d \<and> trusted_actor actor
    \<and> validate fx (Parsed d) r = Inr report \<and> vr_ok report \<and> ad_approved_by a' = actor"
proof -
  from assms obtain a where a: "find_admission key r = Inr a" by (auto simp: approval_def bind_res_Inr)
  with assms obtain d where d: "dict_get (rg_definitions r) key = Some d" by (auto simp: approval_def split: option.splits)
  from assms a d have "ad_status a = Validated" "trusted_actor actor" "digest = fx_digest fx d"
    by (auto simp: approval_def split: if_splits)
  moreover from assms a d this obtain report where "validate fx (Parsed d) r = Inr report" "vr_ok report" "ad_approved_by a' = actor"
    by (auto simp: approval_def bind_res_Inr split: if_splits)
  moreover from a have "dict_get (rg_admissions r) key = Some a" by (auto simp: find_admission_def split: option.splits)
  ultimately show ?thesis using d by blast
qed

lemma approval_trusted: "approval fx now key actor digest kinds r = Inr a' \<Longrightarrow> trusted_actor (ad_approved_by a')"
  using approval_ok by blast

lemma trusted_approve: "approvals_trusted r \<Longrightarrow> approvals_trusted (snd (approve fx now key actor digest kinds r))"
  by (auto simp: approve_def split: sum.splits intro!: trusted_put dest: approval_trusted)

lemma trusted_set_status: "approvals_trusted r \<Longrightarrow> s \<noteq> Promoted \<Longrightarrow> approvals_trusted (snd (set_status fx now s e key reason r))"
  by (auto simp: set_status_def Let_def split: sum.splits intro!: trusted_put)

lemma trusted_mark: "approvals_trusted r \<Longrightarrow> approvals_trusted (snd (mark_validated fx now key report r))"
  by (auto simp: mark_validated_def Let_def split: sum.splits intro!: trusted_put)

lemma caught_registry: "caught subject failed problems out = Inr t \<Longrightarrow> snd t = snd out"
  by (auto simp: caught_def split: prod.splits sum.splits exn.splits)

lemma admit_one_approves:
  assumes "admit_one fx now x s = Inr t"
  shows "snd t = snd s \<or> (\<exists>key actor digest kinds. snd t = snd (approve fx now key actor digest kinds (snd s)))"
proof (cases "snd t = snd s")
  case False
  with assms show ?thesis
    by (auto simp: admit_one_def Let_def bind_res_Inr split: prod.splits option.splits if_splits dest!: caught_registry)
qed simp

lemma trusted_install:
  fixes r :: "('x, 'o) registry"
  assumes "approvals_trusted r" "install fx now shipped entries problems r = Inr (problems', r')"
  shows "approvals_trusted r'"
proof -
  from assms(2) obtain s1 where s1: "fold_res (install_one fx now) shipped (problems, r) = Inr s1"
    "fold_res (admit_one fx now) entries s1 = Inr (problems', r')" by (auto simp: install_def bind_res_Inr)
  have one: "approvals_trusted (snd t)" if "install_one fx now x s = Inr t" "approvals_trusted (snd s)"
    for x and s t :: "string list \<times> ('x, 'o) registry"
    using that trusted_register [of "snd s" fx now "snd x" "''shipped''" "''template''"]
    by (auto simp: install_one_def split: prod.splits dest!: caught_registry)
  have two: "approvals_trusted (snd t)" if "admit_one fx now x s = Inr t" "approvals_trusted (snd s)"
    for x and s t :: "string list \<times> ('x, 'o) registry"
    using admit_one_approves [OF that(1)] trusted_approve that(2) by metis
  have loop: "approvals_trusted (snd t)"
    if "fold_res f xs s = Inr t" "approvals_trusted (snd s)" "\<And>x s t. f x s = Inr t \<Longrightarrow> approvals_trusted (snd s) \<Longrightarrow> approvals_trusted (snd t)"
    for f :: "'b \<Rightarrow> string list \<times> ('x, 'o) registry \<Rightarrow> (string list \<times> ('x, 'o) registry) result" and xs s t
    using that by (induction xs arbitrary: s) (auto simp: bind_res_Inr)
  from loop [OF s1(1) _ one] assms(1) have "approvals_trusted (snd s1)" by simp
  from loop [OF s1(2) this two] show ?thesis by simp
qed

lemma trusted_step: "registry_step fx r r' \<Longrightarrow> approvals_trusted r \<Longrightarrow> approvals_trusted r'"
proof (induction rule: registry_step.induct)
  case (rs_register now raw source owner r res r')
  then show ?case using trusted_register [of r fx now raw source owner] by simp
next
  case (rs_mark_validated now key report r res r')
  then show ?case using trusted_mark [of r fx now key report] by simp
next
  case (rs_approve now key actor digest kinds r res r')
  then show ?case using trusted_approve [of r fx now key actor digest kinds] by simp
next
  case (rs_degrade now key reason r res r')
  then show ?case using trusted_set_status [of r Degraded fx now "''degraded''" key reason] by (simp add: degrade_def)
next
  case (rs_retire now key reason r res r')
  then show ?case using trusted_set_status [of r Retired fx now "''retired''" key reason] by (simp add: retire_def)
next
  case (rs_install now shipped entries problems r problems' r')
  then show ?case by (blast intro: trusted_install)
qed

definition new_registry :: "('x, 'o) store \<Rightarrow> catalog \<Rightarrow> procedure_limits \<Rightarrow> ('x, 'o) registry" where
  "new_registry st cat limits = \<lparr>rg_store = st, rg_catalog = cat, rg_limits = limits, rg_definitions = [],
     rg_admissions = [], rg_enabled = True\<rparr>"

text \<open>
  C4. Nothing is promoted by a model or an agent: in every registry that registrations,
  installations, validations, approvals, degradations and retirements can reach, every promoted
  admission carries the name of a trusted approver; and an approval succeeds only for a validated
  revision whose content, named by its digest, passes the validator again.
\<close>

theorem promotion_needs_trust:
  assumes "(registry_step fx)\<^sup>*\<^sup>* (new_registry st cat limits) r"
  shows "(\<forall>a \<in> snd ` set (rg_admissions r). ad_status a = Promoted \<longrightarrow> trusted_actor (ad_approved_by a))
    \<and> (\<forall>now key actor digest kinds a r'. approve fx now key actor digest kinds r = (Inr a, r') \<longrightarrow>
         trusted_actor actor \<and> (\<exists>old d report. dict_get (rg_admissions r) key = Some old \<and> ad_status old = Validated
           \<and> dict_get (rg_definitions r) key = Some d \<and> digest = fx_digest fx d
           \<and> validate fx (Parsed d) r = Inr report \<and> vr_ok report))"
proof -
  have "approvals_trusted (new_registry st cat limits)" by (simp add: approvals_trusted_def new_registry_def)
  with assms have "approvals_trusted r" by (induction rule: rtranclp_induct) (auto intro: trusted_step)
  moreover have "approval fx now key actor digest kinds r = Inr a" if "approve fx now key actor digest kinds r = (Inr a, r')"
    for now key actor digest kinds a r'
    using that by (auto simp: approve_def split: sum.splits)
  ultimately show ?thesis using approval_ok unfolding approvals_trusted_def by metis
qed

definition sample_codec :: codec where
  "sample_codec = \<lparr>fx_validate = (\<lambda>_. Inr sample_definition), fx_size = (\<lambda>_. 0), fx_canonical = (\<lambda>_. ''c''),
     fx_digest = (\<lambda>d. pd_procedure_id d), fx_json = (\<lambda>_. PNone), fx_dump = ad_procedure_id,
     fx_admission = (\<lambda>s. new_admission s 1 Invalid), fx_str = (\<lambda>_. [])\<rparr>"

definition start_registry :: "(string, string) registry" where
  "start_registry = new_registry empty_store sample_catalog default_limits"

definition sample_registry :: "(string, string) registry" where
  "sample_registry = snd (approve sample_codec 0 ''p@1'' ''operator'' ''p'' None
     (snd (register sample_codec 0 [] ''authored'' [] start_registry)))"

lemma sample_registry_reached: "(registry_step sample_codec)\<^sup>*\<^sup>* start_registry sample_registry"
proof -
  let ?r0 = start_registry
  let ?r1 = "snd (register sample_codec 0 [] ''authored'' [] ?r0)"
  have "registry_step sample_codec ?r0 ?r1" by (rule rs_register [where res = "fst (register sample_codec 0 [] ''authored'' [] ?r0)"]) simp
  moreover have "registry_step sample_codec ?r1 sample_registry"
    by (rule rs_approve [where res = "fst (approve sample_codec 0 ''p@1'' ''operator'' ''p'' None ?r1)"]) (simp add: sample_registry_def)
  ultimately show ?thesis by auto
qed

lemma show_one: "show_int 1 = ''1''"
  by code_simp

lemma sample_promoted: "\<exists>a. rg_admissions sample_registry = [(''p@1'', a)] \<and> ad_status a = Promoted"
proof -
  let ?r0 = start_registry
  from sample_validates obtain report where report: "validate_parsed sample_definition sample_catalog default_limits = Inr report" "vr_ok report"
    by blast
  have v: "validate sample_codec raw r = Inr report"
    if "raw = Raw x \<or> raw = Parsed sample_definition" "rg_catalog r = sample_catalog" "rg_limits r = default_limits" for raw x r
    using report that by (auto simp: validate_def validate_definition_def parse_definition_def sample_codec_def)
  have key: "definition_key sample_definition = ''p@1''"
    by (simp add: definition_key_def sample_definition_def show_one)
  have fields: "rg_catalog ?r0 = sample_catalog" "rg_limits ?r0 = default_limits" "rg_admissions ?r0 = []" "rg_definitions ?r0 = []"
    by (simp_all add: start_registry_def new_registry_def)
  have digest: "fx_digest sample_codec sample_definition = ''p''" by (simp add: sample_codec_def sample_definition_def)
  have r1: "register sample_codec 0 [] ''authored'' [] ?r0 = register_definition sample_codec 0 ''authored'' [] sample_definition ?r0"
    by (simp add: register_def v [of _ "PDict []"] fields report(2) validate_parsed_ok(1) [OF report])
  let ?r1 = "snd (register_definition sample_codec 0 ''authored'' [] sample_definition ?r0)"
  obtain a where a: "rg_admissions ?r1 = [(''p@1'', a)]" "ad_status a = Validated"
    and r1_fields: "rg_definitions ?r1 = [(''p@1'', sample_definition)]" "rg_catalog ?r1 = sample_catalog" "rg_limits ?r1 = default_limits"
    by (simp add: register_definition_def insert_procedure_definition_def start_registry_def new_registry_def empty_store_def put_admission_def
        key dict_get_def dict_set_def Let_def)
  have "approval sample_codec 0 ''p@1'' ''operator'' ''p'' None ?r1
      = Inr (admission_note 0 ''promoted'' ''operator'' (a\<lparr>ad_status := Promoted, ad_approved_by := ''operator'', ad_approved_at := Some 0,
          ad_approved_goal_kinds := [pd_goal_kind sample_definition]\<rparr>))"
    by (simp add: approval_def find_admission_def a r1_fields dict_get_def trusted_actor_def digest v report(2))
  then show ?thesis
    unfolding sample_registry_def r1 approve_def by (simp add: put_admission_def a dict_set_def)
qed

lemma promotion_needs_trust_witness:
  "\<exists>a. rg_admissions sample_registry = [(''p@1'', a)] \<and> ad_status a = Promoted \<and> trusted_actor (ad_approved_by a)"
  using sample_promoted promotion_needs_trust [OF sample_registry_reached [unfolded start_registry_def]] by fastforce

definition admitted_registry :: "(string, string) registry" where
  "admitted_registry = start_registry
     \<lparr>rg_definitions := [(''p@1'', sample_definition)],
      rg_admissions := [(''p@1'', (new_admission ''p'' 1 Promoted)
        \<lparr>ad_approved_goal_kinds := [''g''], ad_adapter_contracts := [(''read'', 1)]\<rparr>)]\<rparr>"

lemma sample_selected:
  "\<exists>m. select ''g'' [] {''fs.read''} None [] admitted_registry = Inr m \<and> mr_selection m = Match"
  by (simp add: select_def admitted_registry_def start_registry_def new_registry_def selection_candidates_def refuse_def new_admission_def
      admission_key_def revision_key_def show_one dict_get_def contracts_current_def sample_catalog_def add_adapter_def
      dict_set_def sample_definition_def schema_errors.simps get_or_def type_ok_def facet_errors_def check_keyword_def
      opaque_def missing_errors_def)

lemma select_only_admitted_witness:
  "\<exists>m a d. select ''g'' [] {''fs.read''} None [] admitted_registry = Inr m \<and> mr_admission m = Some a
     \<and> mr_definition m = Some d \<and> ad_status a = Promoted"
proof -
  from sample_selected obtain m where m: "select ''g'' [] {''fs.read''} None [] admitted_registry = Inr m" "mr_selection m = Match"
    by blast
  from select_only_admitted [OF this] m(1) show ?thesis unfolding admitted_for_def by blast
qed

end
