(* ===== verification/Coordination.thy ===== *)
theory Coordination
  imports Mind
begin

text \<open>
  Multi-agent work (\<open>coordination.py\<close>): work items and their failure budget, the capability
  registry, and the contract net that ranks bidders.  An agent is known here by its identifier,
  name and capabilities, the fields of \<open>AgentDefinition\<close> the module reads.  The floats of the
  score are exact rationals.
\<close>

section \<open>Work items and messages\<close>

datatype performative = Inform | Query | Request | Delegate | Propose | Accept | Reject | Result
  | Failure | Help_Request

definition performative_value :: "performative \<Rightarrow> string" where
  "performative_value p = (case p of Inform \<Rightarrow> ''inform'' | Query \<Rightarrow> ''query'' | Request \<Rightarrow> ''request''
     | Delegate \<Rightarrow> ''delegate'' | Propose \<Rightarrow> ''propose'' | Accept \<Rightarrow> ''accept'' | Reject \<Rightarrow> ''reject''
     | Result \<Rightarrow> ''result'' | Failure \<Rightarrow> ''failure'' | Help_Request \<Rightarrow> ''help_request'')"

datatype work_status = Work_Pending | Work_Blocked | Work_Offered | Work_Assigned | Work_Active
  | Work_Completed | Work_Failed | Work_Needs_Human | Work_Cancelled

record work_budget =
  wb_max_attempts :: int
  wb_max_model_calls :: "int option"
  wb_max_seconds :: "rat option"
  wb_max_delegation_depth :: int

record work_item =
  w_id :: string
  w_parent_goal_id :: string
  w_improvement_id :: "string option"
  w_requester_agent_id :: "string option"
  w_type :: string
  w_objective :: string
  w_required_capabilities :: "string list"
  w_inputs :: "(string, pyval) dict"
  w_resources :: "(string, string list) dict"
  w_expected_outputs :: "string list"
  w_success_conditions :: "string list"
  w_dependencies :: "string list"
  w_deadline :: "time option"
  w_result_fact_key :: "string option"
  w_result_artifact_keys :: "string list"
  w_cause_work_item_id :: "string option"
  w_causation_chain :: "string list"
  w_delegation_depth :: int
  w_assigned_agent_id :: "string option"
  w_status :: work_status
  w_attempts :: nat
  w_failure_history :: "string list"
  w_budget :: work_budget
  w_created_at :: time
  w_updated_at :: time

definition work_assign :: "time \<Rightarrow> string \<Rightarrow> work_item \<Rightarrow> work_item" where
  "work_assign now agent_id w =
     w\<lparr>w_assigned_agent_id := Some agent_id, w_status := Work_Assigned, w_updated_at := now\<rparr>"

definition work_fail :: "time \<Rightarrow> string \<Rightarrow> work_item \<Rightarrow> work_item" where
  "work_fail now reason w =
     (let w = w\<lparr>w_attempts := w_attempts w + 1, w_failure_history := w_failure_history w @ [reason]\<rparr>;
          w = w\<lparr>w_status := (if int (w_attempts w) \<ge> wb_max_attempts (w_budget w)
                              then Work_Needs_Human else Work_Pending)\<rparr>;
          w = (if w_status w = Work_Pending then w\<lparr>w_assigned_agent_id := None\<rparr> else w)
      in w\<lparr>w_updated_at := now\<rparr>)"

definition new_work :: "string \<Rightarrow> time \<Rightarrow> string \<Rightarrow> string \<Rightarrow> work_item" where
  \<comment> \<open>the defaults of the class\<close>
  "new_work i now goal_id objective =
     \<lparr>w_id = i, w_parent_goal_id = goal_id, w_improvement_id = None, w_requester_agent_id = None,
      w_type = ''task'', w_objective = objective, w_required_capabilities = [], w_inputs = [],
      w_resources = [], w_expected_outputs = [], w_success_conditions = [], w_dependencies = [],
      w_deadline = None, w_result_fact_key = None, w_result_artifact_keys = [],
      w_cause_work_item_id = None, w_causation_chain = [], w_delegation_depth = 0,
      w_assigned_agent_id = None, w_status = Work_Pending, w_attempts = 0, w_failure_history = [],
      w_budget = \<lparr>wb_max_attempts = 3, wb_max_model_calls = None, wb_max_seconds = None,
                   wb_max_delegation_depth = 3\<rparr>,
      w_created_at = now, w_updated_at = now\<rparr>"

record message =
  msg_id :: string
  msg_sender_id :: string
  msg_recipient_id :: "string option"
  msg_conversation_id :: string
  msg_correlation_id :: "string option"
  msg_reply_to :: "string option"
  msg_type :: string
  msg_content :: string
  msg_performative :: "string option"
  msg_goal_id :: "string option"
  msg_task_id :: "string option"
  msg_payload :: "(string, pyval) dict"
  msg_metadata :: "(string, pyval) dict"
  msg_created_at :: time
  msg_expires_at :: "time option"

definition semantic_message :: "string \<Rightarrow> string \<Rightarrow> time \<Rightarrow> performative \<Rightarrow> string \<Rightarrow> string option
    \<Rightarrow> string \<Rightarrow> string \<Rightarrow> (string, pyval) dict \<Rightarrow> string \<Rightarrow> message" where
  \<comment> \<open>the first two arguments are the fresh message and conversation identifiers\<close>
  "semantic_message new_id conversation_id now p sender_id recipient_id task_id goal_id payload content =
     \<lparr>msg_id = new_id, msg_sender_id = sender_id, msg_recipient_id = recipient_id,
      msg_conversation_id = conversation_id, msg_correlation_id = None, msg_reply_to = None,
      msg_type = ''acl'', msg_content = content, msg_performative = Some (performative_value p),
      msg_goal_id = (if goal_id = [] then None else Some goal_id),
      msg_task_id = (if task_id = [] then None else Some task_id),
      msg_payload = payload, msg_metadata = [], msg_created_at = now, msg_expires_at = None\<rparr>"

section \<open>The capability registry\<close>

record agent_profile =
  a_id :: string
  a_name :: string
  a_capabilities :: "string list"

type_synonym capability_registry = "(string, agent_profile) dict"

definition register_agent :: "agent_profile \<Rightarrow> capability_registry \<Rightarrow> capability_registry" where
  "register_agent a r = dict_set (a_id a) a r"

definition unregister_agent :: "string \<Rightarrow> capability_registry \<Rightarrow> capability_registry" where
  "unregister_agent i r = dict_del i r"

definition candidates :: "capability_registry \<Rightarrow> string list \<Rightarrow> agent_profile list" where
  "candidates r required = sort_key (\<lambda>a. (py_lower (a_name a), a_id a))
     (filter (\<lambda>a. set required \<subseteq> set (a_capabilities a)) (map snd r))"

section \<open>The contract net\<close>

datatype history_key = By_Work string string string | By_Agent string

record bid =
  bid_agent_id :: string
  bid_capability_match :: rat
  bid_load :: nat
  bid_success_rate :: rat
  bid_score :: rat

record bid_context =
  bc_states :: "string set"            \<comment> \<open>the agents whose runtime state is known\<close>
  bc_active_work :: "work_item list"
  bc_history :: "(history_key, nat \<times> nat) dict"
  bc_exclude :: "string set"

definition make_bid :: "bid_context \<Rightarrow> work_item \<Rightarrow> agent_profile \<Rightarrow> bid" where
  "make_bid c item a =
     (let required = set (w_required_capabilities item);
          offered = set (a_capabilities a);
          match = (if required \<noteq> {} then of_nat (card (required \<inter> offered)) / of_nat (card required) else 1);
          load = length (filter (\<lambda>w. w_assigned_agent_id w = Some (a_id a)
                   \<and> w_status w \<in> {Work_Assigned, Work_Active}) (bc_active_work c));
          capability_key = py_join '','' (sort (w_required_capabilities item));
          (successes, failures) = dict_get_or (bc_history c) (By_Work (a_id a) (w_type item) capability_key)
             (dict_get_or (bc_history c) (By_Agent (a_id a)) (0, 0));
          success_rate = (if successes + failures \<noteq> 0 then of_nat successes / of_nat (successes + failures) else 1/2);
          availability = (if a_id a \<in> bc_states c then 1/10 else 0);
          score = match * (65/100) + success_rate * (25/100) + availability - of_nat load * (1/10)
      in \<lparr>bid_agent_id = a_id a, bid_capability_match = match, bid_load = load,
          bid_success_rate = success_rate, bid_score = score\<rparr>)"

definition expire_item :: "time \<Rightarrow> work_item \<Rightarrow> work_item" where
  "expire_item now w = w\<lparr>w_status := Work_Needs_Human,
     w_failure_history := w_failure_history w @ [''work deadline expired before assignment''],
     w_updated_at := now\<rparr>"

definition expired :: "time \<Rightarrow> work_item \<Rightarrow> bool" where
  "expired now item \<longleftrightarrow> (case w_deadline item of None \<Rightarrow> False | Some d \<Rightarrow> now \<ge> d)"

definition bids :: "capability_registry \<Rightarrow> bid_context \<Rightarrow> time \<Rightarrow> work_item \<Rightarrow> bid list \<times> work_item" where
  "bids r c now item =
     (if expired now item then ([], expire_item now item)
      else (sort_key (\<lambda>b. (- bid_score b, bid_agent_id b))
              (map (make_bid c item)
                (filter (\<lambda>a. a_id a \<notin> bc_exclude c) (candidates r (w_required_capabilities item)))), item))"

definition award :: "capability_registry \<Rightarrow> bid_context \<Rightarrow> time \<Rightarrow> work_item \<Rightarrow> bid option \<times> work_item" where
  "award r c now item = (case bids r c now item of
      ([], item) \<Rightarrow> (None, item)
    | (b # _, item) \<Rightarrow> (Some b, work_assign now (bid_agent_id b) item))"

section \<open>What the contract net guarantees\<close>

lemma set_candidates: "a \<in> set (candidates r required) \<longleftrightarrow>
    a \<in> snd ` set r \<and> set required \<subseteq> set (a_capabilities a)"
  by (auto simp: candidates_def)

text \<open>A registry files every agent under its own identifier.\<close>

definition registry_ok :: "capability_registry \<Rightarrow> bool" where
  "registry_ok r \<longleftrightarrow> dict_ok r \<and> (\<forall>(i, a) \<in> set r. i = a_id a)"

lemma registry_ok_register: "registry_ok r \<Longrightarrow> registry_ok (register_agent a r)"
  by (auto simp: registry_ok_def register_agent_def dest: dict_set_entries)

lemma registry_ok_unregister: "registry_ok r \<Longrightarrow> registry_ok (unregister_agent i r)"
  using dict_del_entries [of i r] by (auto simp: registry_ok_def unregister_agent_def)

definition eligible :: "capability_registry \<Rightarrow> bid_context \<Rightarrow> work_item \<Rightarrow> agent_profile \<Rightarrow> bool" where
  "eligible r c item a \<longleftrightarrow> a \<in> snd ` set r \<and> set (w_required_capabilities item) \<subseteq> set (a_capabilities a)
     \<and> a_id a \<notin> bc_exclude c"

lemma bid_agent_id_make [simp]: "bid_agent_id (make_bid c item a) = a_id a"
  by (simp add: make_bid_def Let_def split: prod.split)

lemma bid_match_eligible: "eligible r c item a \<Longrightarrow> bid_capability_match (make_bid c item a) = 1"
  by (auto simp: make_bid_def Let_def eligible_def Int_absorb2 split: prod.split)

lemma set_bids: "\<not> expired now item \<Longrightarrow>
    set (fst (bids r c now item)) = make_bid c item ` {a. eligible r c item a}"
  by (auto simp: bids_def set_candidates eligible_def)

text \<open>
  C36. Work goes to the best bidder: \<open>award\<close> assigns it to a registered agent that is not excluded
  and has every required capability, no eligible agent scores higher, and it assigns nothing
  exactly when the deadline has passed or nobody is eligible.
\<close>

theorem award_best_bidder:
  "case award r c now item of
     (None, item') \<Rightarrow> (expired now item \<and> w_status item' = Work_Needs_Human)
        \<or> (item' = item \<and> \<not> (\<exists>a. eligible r c item a))
   | (Some b, item') \<Rightarrow> \<not> expired now item
        \<and> (\<exists>a. eligible r c item a \<and> b = make_bid c item a \<and> item' = work_assign now (a_id a) item)
        \<and> (\<forall>a. eligible r c item a \<longrightarrow> bid_score (make_bid c item a) \<le> bid_score b)"
proof (cases "expired now item")
  case True
  then show ?thesis by (simp add: award_def bids_def expire_item_def)
next
  case False
  let ?key = "\<lambda>b. (- bid_score b, bid_agent_id b)"
  let ?bs = "fst (bids r c now item)"
  have item: "snd (bids r c now item) = item" using False by (simp add: bids_def)
  note set = set_bids [OF False, of r c]
  have sorted: "sorted (map ?key ?bs)" using False by (simp add: bids_def)
  show ?thesis
  proof (cases ?bs)
    case Nil
    with set have "\<not> (\<exists>a. eligible r c item a)" by auto
    with Nil item show ?thesis by (cases "bids r c now item") (simp add: award_def)
  next
    case (Cons b rest)
    then have "b \<in> make_bid c item ` {a. eligible r c item a}" using set by auto
    then obtain a where a: "eligible r c item a" "b = make_bid c item a" by auto
    have "bid_score (make_bid c item a') \<le> bid_score b" if "eligible r c item a'" for a'
    proof -
      from that set Cons have "make_bid c item a' \<in> set (b # rest)" by auto
      with sorted [unfolded Cons] have "?key b \<le> ?key (make_bid c item a')" by auto
      then show ?thesis by auto
    qed
    with a False Cons item show ?thesis by (cases "bids r c now item") (auto simp: award_def)
  qed
qed

definition sample_worker :: agent_profile where
  "sample_worker = \<lparr>a_id = ''w'', a_name = ''W'', a_capabilities = [''code'']\<rparr>"

definition sample_item :: work_item where
  "sample_item = (new_work ''i'' 0 ''task'' ''do it'')\<lparr>w_required_capabilities := [''code'']\<rparr>"

definition sample_context :: bid_context where
  "sample_context = \<lparr>bc_states = {}, bc_active_work = [], bc_history = [], bc_exclude = {}\<rparr>"

lemma award_best_bidder_witness:
  "\<exists>b. fst (award [(''w'', sample_worker)] sample_context 0 sample_item) = Some b \<and> bid_agent_id b = ''w''"
proof -
  have elig: "eligible [(''w'', sample_worker)] sample_context sample_item a \<longleftrightarrow> a = sample_worker" for a
    by (auto simp: eligible_def sample_worker_def sample_item_def sample_context_def)
  have "\<not> expired 0 sample_item" by (simp add: expired_def sample_item_def new_work_def)
  with award_best_bidder [where r = "[(''w'', sample_worker)]" and c = sample_context and now = 0 and item = sample_item] elig show ?thesis
    by (auto simp: sample_worker_def split: prod.splits option.splits)
qed

definition work_fails :: "(time \<times> string) list \<Rightarrow> work_item \<Rightarrow> work_item" where
  "work_fails fs w = fold (\<lambda>(now, reason). work_fail now reason) fs w"

lemma work_fail_keeps [simp]:
  "w_attempts (work_fail now reason w) = w_attempts w + 1"
  "w_failure_history (work_fail now reason w) = w_failure_history w @ [reason]"
  "w_budget (work_fail now reason w) = w_budget w"
  by (simp_all add: work_fail_def Let_def)

lemma work_fails_snoc: "work_fails (fs @ [(now, reason)]) w = work_fail now reason (work_fails fs w)"
  by (simp add: work_fails_def)

lemma work_fails_counts:
  "w_attempts (work_fails fs w) = w_attempts w + length fs
   \<and> w_failure_history (work_fails fs w) = w_failure_history w @ map snd fs
   \<and> w_budget (work_fails fs w) = w_budget w"
proof (induction fs rule: rev_induct)
  case Nil
  then show ?case by (simp add: work_fails_def)
next
  case (snoc f fs)
  then show ?case by (cases f) (simp add: work_fails_snoc)
qed

text \<open>
  The failure budget of a work item: after any number of failures the attempts and the history
  count them all, and the item has gone to a human exactly when they reach the budget, otherwise
  it is pending again with no assignee.
\<close>

theorem work_failure_budget:
  "let w' = work_fails (fs @ [(now, reason)]) w; n = w_attempts w + length fs + 1
   in w_attempts w' = n \<and> w_failure_history w' = w_failure_history w @ map snd fs @ [reason]
    \<and> (if wb_max_attempts (w_budget w) \<le> int n then w_status w' = Work_Needs_Human
       else w_status w' = Work_Pending \<and> w_assigned_agent_id w' = None)"
proof -
  let ?w = "work_fails fs w"
  have "w_attempts ?w = w_attempts w + length fs" "w_failure_history ?w = w_failure_history w @ map snd fs"
    "w_budget ?w = w_budget w" using work_fails_counts [of fs w] by simp_all
  moreover have "if wb_max_attempts (w_budget ?w) \<le> int (w_attempts ?w + 1)
      then w_status (work_fail now reason ?w) = Work_Needs_Human
      else w_status (work_fail now reason ?w) = Work_Pending \<and> w_assigned_agent_id (work_fail now reason ?w) = None"
    by (auto simp: work_fail_def Let_def)
  ultimately show ?thesis by (simp add: Let_def work_fails_snoc)
qed

end
