(* ===== verification/Proc_Execution.thy ===== *)
theory Proc_Execution
  imports Proc_Registry Coordination
begin

text \<open>
  The records of an execution (\<open>procedure_runtime.py\<close>): the budget of a goal occurrence, the
  execution with its cursor, the journal of operations, and what an adapter, a check and a step
  report.  Evidence stays the dictionary it is in the code; texts that only explain a failure are
  left out, its code is kept.
\<close>

section \<open>Status\<close>

datatype exec_status = Ex_Pending | Ex_Running | Ex_Waiting | Ex_Paused | Ex_Cancel_Requested
  | Ex_Needs_Reconciliation | Ex_Completed | Ex_Failed | Ex_Cancelled

fun exec_status_value :: "exec_status \<Rightarrow> string" where
  "exec_status_value Ex_Pending = ''pending''"
| "exec_status_value Ex_Running = ''running''"
| "exec_status_value Ex_Waiting = ''waiting''"
| "exec_status_value Ex_Paused = ''paused''"
| "exec_status_value Ex_Cancel_Requested = ''cancel_requested''"
| "exec_status_value Ex_Needs_Reconciliation = ''needs_reconciliation''"
| "exec_status_value Ex_Completed = ''completed''"
| "exec_status_value Ex_Failed = ''failed''"
| "exec_status_value Ex_Cancelled = ''cancelled''"

definition terminal_statuses :: "exec_status set" where
  "terminal_statuses = {Ex_Completed, Ex_Failed, Ex_Cancelled}"

datatype op_state = Op_Dispatching | Op_Applied | Op_Rejected | Op_Unknown | Op_Waiting

fun op_state_value :: "op_state \<Rightarrow> string" where
  "op_state_value Op_Dispatching = ''dispatching''"
| "op_state_value Op_Applied = ''applied''"
| "op_state_value Op_Rejected = ''rejected''"
| "op_state_value Op_Unknown = ''unknown''"
| "op_state_value Op_Waiting = ''waiting''"

section \<open>Budget\<close>

record budget =
  bg_max_model_calls :: int
  bg_max_tool_attempts :: int
  bg_max_step_attempts :: int
  bg_max_child_model_calls :: int
  bg_max_delegation_depth :: int
  bg_model_calls :: int
  bg_tool_attempts :: int
  bg_step_attempts :: int
  bg_child_reserved :: int

definition new_budget :: budget where
  "new_budget = \<lparr>bg_max_model_calls = 0, bg_max_tool_attempts = 16, bg_max_step_attempts = 64,
     bg_max_child_model_calls = 0, bg_max_delegation_depth = 3, bg_model_calls = 0, bg_tool_attempts = 0,
     bg_step_attempts = 0, bg_child_reserved = 0\<rparr>"

definition remaining :: "budget \<Rightarrow> (string, int) dict" where
  "remaining b =
     [(''model_calls'', bg_max_model_calls b - bg_model_calls b),
      (''tool_attempts'', bg_max_tool_attempts b - bg_tool_attempts b),
      (''step_attempts'', bg_max_step_attempts b - bg_step_attempts b),
      (''child_model_calls'', bg_max_child_model_calls b - bg_child_reserved b)]"

text \<open>The calls a step may make: what \<open>default_budget\<close> sums.\<close>

fun step_model_calls :: "step \<Rightarrow> int" where
  "step_model_calls (Cognitive s) = cs_max_model_calls s + cs_repair_calls s"
| "step_model_calls _ = 0"

fun step_child_calls :: "step \<Rightarrow> int" where
  "step_child_calls (step.Delegate s) = db_max_model_calls (ds_budget s)"
| "step_child_calls _ = 0"

definition default_budget :: "procedure_limits \<Rightarrow> procedure_definition \<Rightarrow> budget" where
  "default_budget limits d = new_budget
     \<lparr>bg_max_model_calls := min (max_root_model_calls limits) (sum_list (map step_model_calls (pd_steps d))),
      bg_max_tool_attempts := max_total_step_attempts limits,
      bg_max_step_attempts := max_total_step_attempts limits,
      bg_max_child_model_calls := sum_list (map step_child_calls (pd_steps d)),
      bg_max_delegation_depth := procedure_limits.max_delegation_depth limits\<rparr>"

text \<open>A replacement inherits what the occurrence has spent.\<close>

definition inherit_spent :: "budget \<Rightarrow> budget \<Rightarrow> budget" where
  "inherit_spent spent b = b\<lparr>bg_model_calls := bg_model_calls spent, bg_tool_attempts := bg_tool_attempts spent,
     bg_step_attempts := bg_step_attempts spent, bg_child_reserved := bg_child_reserved spent\<rparr>"

text \<open>\<open>ProcedureService.allocation\<close>: the envelope of a delegated child, cut down to its work item.\<close>

definition allocation :: "procedure_limits \<Rightarrow> procedure_definition \<Rightarrow> work_budget \<Rightarrow> budget" where
  "allocation limits d wb =
     (let b = default_budget limits d;
          b = (case wb_max_model_calls wb of
                 None \<Rightarrow> b
               | Some allowed \<Rightarrow>
                   let b' = b\<lparr>bg_max_model_calls := min (bg_max_model_calls b) allowed\<rparr>
                   in b'\<lparr>bg_max_child_model_calls := min (bg_max_child_model_calls b') (max 0 (allowed - bg_max_model_calls b'))\<rparr>)
      in b\<lparr>bg_max_delegation_depth := min (bg_max_delegation_depth b) (wb_max_delegation_depth wb)\<rparr>)"

section \<open>Executions and operations\<close>

record procedure_execution =
  pe_execution_id :: string
  pe_agent_id :: string
  pe_goal_id :: string
  pe_occurrence_id :: string
  pe_work_item_id :: "string option"
  pe_procedure_id :: string
  pe_revision :: int
  pe_digest :: string
  pe_path :: string
  pe_status :: exec_status
  pe_status_reason :: string
  pe_cancel_requested :: bool
  pe_cancel_reason :: string
  pe_current_step_id :: string
  pe_parameters :: obj
  pe_context :: obj
  pe_context_refs :: obj
  pe_work :: obj
  pe_results :: obj
  pe_step_attempts :: "(string, int) dict"
  pe_completed_steps :: "string list"
  pe_wait :: "obj option"
  pe_next_eligible_at :: "time option"
  pe_deadline_at :: time
  pe_budget :: budget
  pe_evidence :: "obj list"
  pe_output :: "pyval option"
  pe_created_at :: time
  pe_updated_at :: time

definition exec_terminal :: "procedure_execution \<Rightarrow> bool" where
  "exec_terminal x \<longleftrightarrow> pe_status x \<in> terminal_statuses"

definition cancelling :: "procedure_execution \<Rightarrow> bool" where
  "cancelling x \<longleftrightarrow> pe_cancel_requested x \<or> pe_status x = Ex_Cancel_Requested"

text \<open>What a delegated child is known by: \<open>OperationRecord.child\<close>.\<close>

record child_work =
  ch_status :: string
  ch_assignee :: "string option"
  ch_result :: pyval
  ch_evidence :: "obj list"
  ch_executor :: "string option"

text \<open>\<open>or_work\<close> stands for \<open>arguments["work"]\<close>, the dump of a work item, which only delegation has.\<close>

record operation_record =
  or_operation_key :: string
  or_execution_id :: string
  or_occurrence_id :: string
  or_step_id :: string
  or_kind :: string
  or_adapter :: string
  or_contract_version :: int
  or_argument_digest :: string
  or_arguments :: obj
  or_work :: "work_item option"
  or_state :: op_state
  or_attempt :: int
  or_result :: "obj option"
  or_receipt :: "obj option"
  or_error :: string
  or_effect_certainty :: string
  or_delivered :: bool
  or_child :: "child_work option"
  or_started_at :: time
  or_settled_at :: "time option"

definition new_operation :: "time \<Rightarrow> string \<Rightarrow> procedure_execution \<Rightarrow> string \<Rightarrow> string \<Rightarrow> string \<Rightarrow> op_state \<Rightarrow> operation_record" where
  \<comment> \<open>the defaults of the class\<close>
  "new_operation now key x sid kind argument_digest state = \<lparr>or_operation_key = key, or_execution_id = pe_execution_id x,
     or_occurrence_id = pe_occurrence_id x, or_step_id = sid, or_kind = kind, or_adapter = [],
     or_contract_version = 0, or_argument_digest = argument_digest, or_arguments = [], or_work = None, or_state = state,
     or_attempt = 1, or_result = None, or_receipt = None, or_error = [], or_effect_certainty = ''unknown'',
     or_delivered = False, or_child = None, or_started_at = now, or_settled_at = None\<rparr>"

datatype outcome_kind = Advanced | Waits | Failed_Step | Must_Reconcile | Completed_Step | Cancelled_Step | Busy

record step_outcome =
  out_kind :: outcome_kind
  out_step_id :: string
  out_code :: string
  out_result :: "pyval option"
  out_evidence :: "obj list"

definition outcome :: "outcome_kind \<Rightarrow> string \<Rightarrow> string \<Rightarrow> step_outcome" where
  "outcome k sid code = \<lparr>out_kind = k, out_step_id = sid, out_code = code, out_result = None, out_evidence = []\<rparr>"

datatype reconcile_state = Rec_Applied | Rec_Not_Applied | Rec_Unknown | Rec_Conflict

record adapter_result =
  ar_ok :: bool
  ar_result :: "obj option"
  ar_receipt :: "obj option"
  ar_code :: string
  ar_retryable :: bool
  ar_denied :: bool

record check_outcome =
  ck_passed :: bool
  ck_reason :: string
  ck_evidence :: obj

section \<open>Moving the cursor\<close>

definition operation_key :: "procedure_execution \<Rightarrow> string \<Rightarrow> string" where
  "operation_key x sid = pe_occurrence_id x @ '':'' @ pe_execution_id x @ '':'' @ sid"

definition execution_key :: "procedure_execution \<Rightarrow> string" where
  "execution_key x = revision_key (pe_procedure_id x) (pe_revision x)"

definition attempts_of :: "procedure_execution \<Rightarrow> string \<Rightarrow> int" where
  "attempts_of x sid = dict_get_or (pe_step_attempts x) sid 0"

text \<open>\<open>_advance_to\<close>; a result that is \<open>None\<close> is not recorded.\<close>

definition advance_to :: "string \<Rightarrow> string \<Rightarrow> pyval \<Rightarrow> procedure_execution \<Rightarrow> procedure_execution" where
  "advance_to sid target res x =
     (if res = PNone then x else x\<lparr>pe_results := dict_set sid res (pe_results x)\<rparr>)
       \<lparr>pe_completed_steps := pe_completed_steps x @ [sid], pe_current_step_id := target, pe_status := Ex_Running,
        pe_wait := None, pe_next_eligible_at := None\<rparr>"

definition release_attempt :: "string \<Rightarrow> procedure_execution \<Rightarrow> procedure_execution" where
  "release_attempt sid x = x\<lparr>pe_step_attempts := dict_set sid (max 0 (attempts_of x sid - 1)) (pe_step_attempts x)\<rparr>"

definition add_evidence :: "obj \<Rightarrow> procedure_execution \<Rightarrow> procedure_execution" where
  "add_evidence e x = x\<lparr>pe_evidence := pe_evidence x @ [e]\<rparr>"

definition with_status :: "exec_status \<Rightarrow> string \<Rightarrow> procedure_execution \<Rightarrow> procedure_execution" where
  "with_status s reason x = x\<lparr>pe_status := s, pe_status_reason := reason\<rparr>"

definition failure_evidence :: "string \<Rightarrow> string \<Rightarrow> obj" where
  "failure_evidence code sid = [(''kind'', PStr ''failure''), (''code'', PStr code), (''step_id'', PStr sid)]"

text \<open>\<open>_scopes\<close>; the constants only where the definition is passed.\<close>

definition exec_scopes :: "procedure_execution \<Rightarrow> procedure_definition option \<Rightarrow> scopes" where
  "exec_scopes x d = [(''goal'', PDict [(''parameters'', PDict (pe_parameters x))]), (''result'', PDict (pe_results x)),
     (''context'', PDict (pe_context x)), (''work'', PDict (pe_work x)),
     (''constants'', PDict (case d of None \<Rightarrow> [] | Some d' \<Rightarrow> pd_constants d'))]"

definition terminal_outcome :: "procedure_execution \<Rightarrow> step_outcome" where
  "terminal_outcome x =
     (if pe_status x = Ex_Completed then (outcome Completed_Step (pe_current_step_id x) [])\<lparr>out_result := pe_output x, out_evidence := pe_evidence x\<rparr>
      else if pe_status x = Ex_Cancelled then outcome Cancelled_Step (pe_current_step_id x) []
      else outcome Failed_Step (pe_current_step_id x) (pe_status_reason x))"

section \<open>Evidence for the goal manager\<close>

text \<open>\<open>goal_evidence\<close>: of this occurrence the checks with their verdicts, and the steps with a receipt.\<close>

fun execution_evidence_loop :: "(pyval \<Rightarrow> string) \<Rightarrow> string \<Rightarrow> obj list \<Rightarrow> (string, bool) dict \<times> (string, string) dict
    \<Rightarrow> ((string, bool) dict \<times> (string, string) dict) result" where
  "execution_evidence_loop text_of_value occurrence [] acc = Inr acc"
| "execution_evidence_loop text_of_value occurrence (e # es) (validators, tools) =
     (if \<not> py_eq (get_or e ''occurrence_id'' PNone) (PStr occurrence) then execution_evidence_loop text_of_value occurrence es (validators, tools)
      else if py_eq (get_or e ''kind'' PNone) (PStr ''validator'') then
        (case dict_get e ''check'' of
           None \<Rightarrow> Inl (KeyError ''check'')
         | Some c \<Rightarrow> execution_evidence_loop text_of_value occurrence es
             (dict_set (text_of_value c) (truthy (get_or e ''passed'' PNone)) validators, tools))
      else if py_eq (get_or e ''kind'' PNone) (PStr ''receipt'') then
        (case dict_get e ''step_id'' of
           None \<Rightarrow> Inl (KeyError ''step_id'')
         | Some s \<Rightarrow> execution_evidence_loop text_of_value occurrence es (validators, dict_set (text_of_value s) ''applied'' tools))
      else execution_evidence_loop text_of_value occurrence es (validators, tools))"

definition execution_evidence :: "(pyval \<Rightarrow> string) \<Rightarrow> procedure_execution \<Rightarrow> ((string, bool) dict \<times> (string, string) dict) result" where
  "execution_evidence text_of_value x = execution_evidence_loop text_of_value (pe_occurrence_id x) (pe_evidence x) ([], [])"

end
