(* ===== verification/Events.thy ===== *)
theory Events
  imports Coordination
begin

text \<open>
  The in-process nervous system: the event bus of \<open>events.py\<close> (subscriptions, duplicate
  suppression, bounded history), the mailboxes of \<open>messaging.py\<close> and the stall detection of
  \<open>progress.py\<close>.  Handlers are called outside the model: \<open>publish\<close> returns the calls it makes, in
  order.  \<open>json.dumps\<close>, \<open>repr\<close> and SHA-256 are arguments.
\<close>

section \<open>The event bus\<close>

datatype event_type = Belief_Changed | Goal_Created | Goal_Unblocked | Goal_Completed | Task_Failed
  | Task_Completed | Agent_Stalled | Message_Received | Human_Feedback_Received | Rule_Event

definition event_type_value :: "event_type \<Rightarrow> string" where
  "event_type_value t = (case t of Belief_Changed \<Rightarrow> ''belief_changed'' | Goal_Created \<Rightarrow> ''goal_created''
     | Goal_Unblocked \<Rightarrow> ''goal_unblocked'' | Goal_Completed \<Rightarrow> ''goal_completed''
     | Task_Failed \<Rightarrow> ''task_failed'' | Task_Completed \<Rightarrow> ''task_completed''
     | Agent_Stalled \<Rightarrow> ''agent_stalled'' | Message_Received \<Rightarrow> ''message_received''
     | Human_Feedback_Received \<Rightarrow> ''human_feedback_received'' | Rule_Event \<Rightarrow> ''rule_event'')"

record event =
  e_type :: event_type
  e_source :: string
  e_agent_id :: string
  e_goal_id :: string
  e_payload :: "(string, pyval) dict"
  e_created_at :: time

record ('h, 'p) subscription =
  s_handler :: 'h
  s_predicate :: "'p option"

record ('h, 'p) event_bus =
  eb_handlers :: "(event_type, ('h, 'p) subscription list) dict"
  eb_history :: "event list"
  eb_max_history :: nat
  eb_window :: rat
  eb_recent :: "(string, rat) dict"

definition new_event_bus :: "nat \<Rightarrow> rat \<Rightarrow> ('h, 'p) event_bus result" where
  "new_event_bus max_history window =
     (if max_history < 1 then Inl (ValueError ''max_history must be positive'')
      else Inr \<lparr>eb_handlers = [], eb_history = [], eb_max_history = max_history,
                eb_window = max 0 window, eb_recent = []\<rparr>)"

definition handlers_of :: "('h, 'p) event_bus \<Rightarrow> event_type \<Rightarrow> ('h, 'p) subscription list" where
  "handlers_of bus t = dict_get_or (eb_handlers bus) t []"

definition subscribe :: "event_type \<Rightarrow> 'h \<Rightarrow> 'p option \<Rightarrow> ('h, 'p) event_bus \<Rightarrow> ('h, 'p) event_bus" where
  "subscribe t handler predicate bus =
     (let s = \<lparr>s_handler = handler, s_predicate = predicate\<rparr>; hs = handlers_of bus t
      in bus\<lparr>eb_handlers := dict_set t (if s \<notin> set hs then hs @ [s] else hs) (eb_handlers bus)\<rparr>)"

definition unsubscribe :: "event_type \<Rightarrow> 'h \<Rightarrow> ('h, 'p) event_bus \<Rightarrow> ('h, 'p) event_bus" where
  "unsubscribe t handler bus =
     bus\<lparr>eb_handlers := dict_set t (filter (\<lambda>s. s_handler s \<noteq> handler) (handlers_of bus t)) (eb_handlers bus)\<rparr>"

definition fingerprint :: "((string, pyval) dict \<Rightarrow> string) \<Rightarrow> event \<Rightarrow> string" where
  "fingerprint dumps e = py_join ''|''
     [event_type_value (e_type e), e_source e, e_agent_id e, e_goal_id e, dumps (e_payload e)]"

definition push_event :: "event \<Rightarrow> ('h, 'p) event_bus \<Rightarrow> ('h, 'p) event_bus" where
  "push_event e bus = bus\<lparr>eb_history := py_last (eb_max_history bus) (eb_history bus @ [e])\<rparr>"

text \<open>\<open>publish\<close> at the monotonic time \<open>now\<close>: the new bus and the handlers called with the event.\<close>

definition publish :: "(event \<Rightarrow> string) \<Rightarrow> ('p \<Rightarrow> event \<Rightarrow> bool) \<Rightarrow> rat \<Rightarrow> event \<Rightarrow> ('h, 'p) event_bus
    \<Rightarrow> ('h, 'p) event_bus \<times> 'h list" where
  "publish print accepts now e bus =
     (let f = print e in
      if (case dict_get (eb_recent bus) f of None \<Rightarrow> False | Some previous \<Rightarrow> now - previous \<le> eb_window bus)
      then (bus, [])
      else (push_event e (bus\<lparr>eb_recent := filter (\<lambda>(key, seen). now - seen \<le> eb_window bus)
                                               (dict_set f now (eb_recent bus))\<rparr>),
            map s_handler (filter (\<lambda>s. case s_predicate s of None \<Rightarrow> True | Some p \<Rightarrow> accepts p e)
                             (handlers_of bus (e_type e)))))"

interpretation event_history: bounded_log eb_history push_event eb_max_history
  by unfold_locales (simp_all add: push_event_def)

text \<open>A sequence of publications at their times, with the calls made for each.\<close>

fun publish_all :: "(event \<Rightarrow> string) \<Rightarrow> ('p \<Rightarrow> event \<Rightarrow> bool) \<Rightarrow> (rat \<times> event) list \<Rightarrow> ('h, 'p) event_bus
    \<Rightarrow> ('h, 'p) event_bus \<times> 'h list list" where
  "publish_all print accepts [] bus = (bus, [])"
| "publish_all print accepts ((now, e) # es) bus =
     (case publish print accepts now e bus of (bus1, calls) \<Rightarrow>
       case publish_all print accepts es bus1 of (bus2, rest) \<Rightarrow> (bus2, calls # rest))"

definition bus_ok :: "('h, 'p) event_bus \<Rightarrow> bool" where
  "bus_ok bus \<longleftrightarrow> 0 < eb_max_history bus \<and> 0 \<le> eb_window bus \<and> dict_ok (eb_recent bus)
     \<and> length (eb_history bus) \<le> eb_max_history bus"

lemma new_event_bus_ok: "new_event_bus n w = Inr bus \<Longrightarrow> bus_ok bus"
  by (auto simp: new_event_bus_def bus_ok_def split: if_splits)

lemma dict_ok_filter: "dict_ok d \<Longrightarrow> dict_ok (filter P d)"
  by (simp add: dict_ok_def distinct_map_filter)

lemma dict_get_filter:
  assumes "dict_ok d"
  shows "dict_get (filter (\<lambda>(k, v). P v) d) i = (case dict_get d i of None \<Rightarrow> None | Some v \<Rightarrow> if P v then Some v else None)"
proof -
  let ?e = "filter (\<lambda>(k, v). P v) d"
  have iff: "dict_get ?e i = Some v \<longleftrightarrow> dict_get d i = Some v \<and> P v" for v
    by (simp add: dict_get_in_iff [OF assms] dict_get_in_iff [OF dict_ok_filter [OF assms]])
  show ?thesis
  proof (cases "dict_get ?e i")
    case None
    with iff show ?thesis by (auto split: option.split)
  next
    case (Some v)
    with iff [of v] show ?thesis by simp
  qed
qed

lemma bus_ok_publish:
  assumes "bus_ok bus" "publish print accepts now e bus = (bus', calls)"
  shows "bus_ok bus' \<and> eb_window bus' = eb_window bus \<and> eb_handlers bus' = eb_handlers bus"
  using assms by (auto simp: publish_def Let_def bus_ok_def push_event_def length_py_last
      intro!: dict_ok_filter dict_ok_set split: if_splits option.splits)

definition recently_seen :: "(event \<Rightarrow> string) \<Rightarrow> rat \<Rightarrow> event \<Rightarrow> ('h, 'p) event_bus \<Rightarrow> bool" where
  "recently_seen print now e bus \<longleftrightarrow>
     (\<exists>previous. dict_get (eb_recent bus) (print e) = Some previous \<and> now - previous \<le> eb_window bus)"

lemma publish_duplicate: "recently_seen print now e bus \<Longrightarrow> publish print accepts now e bus = (bus, [])"
  by (auto simp: publish_def recently_seen_def Let_def)

text \<open>
  An event reaches its subscribers once per window.  Seen again within the window it is
  dropped: no handler is called and nothing is recorded.  Otherwise it is the newest entry of a
  history that stays within its bound, exactly the subscriptions to its type whose filter
  accepts it are called, in the order they were registered, and any event with its fingerprint
  is dropped for the length of the window.
\<close>

theorem publish_once_per_window:
  assumes "bus_ok bus" "publish print accepts now e bus = (bus', calls)"
  shows "if recently_seen print now e bus then bus' = bus \<and> calls = []
    else last (eb_history bus') = e \<and> length (eb_history bus') \<le> eb_max_history bus
      \<and> calls = map s_handler (filter (\<lambda>s. case s_predicate s of None \<Rightarrow> True | Some p \<Rightarrow> accepts p e)
            (handlers_of bus (e_type e)))
      \<and> (print d = print e \<and> later - now \<le> eb_window bus \<longrightarrow> publish print accepts later d bus' = (bus', []))"
proof (cases "recently_seen print now e bus")
  case True
  with publish_duplicate assms(2) show ?thesis by fastforce
next
  case False
  let ?recent = "dict_set (print e) now (eb_recent bus)"
  have calls: "calls = map s_handler (filter (\<lambda>s. case s_predicate s of None \<Rightarrow> True | Some p \<Rightarrow> accepts p e)
      (handlers_of bus (e_type e)))"
    and bus': "bus' = push_event e (bus\<lparr>eb_recent := filter (\<lambda>(key, seen). now - seen \<le> eb_window bus) ?recent\<rparr>)"
    using assms(2) False by (auto simp: publish_def recently_seen_def Let_def split: option.splits if_splits)
  have "last (eb_history bus') = e" unfolding bus' using event_history.newest_kept by blast
  moreover have "length (eb_history bus') \<le> eb_max_history bus"
    using assms(1) by (simp add: bus' push_event_def bus_ok_def length_py_last)
  moreover have "dict_get (eb_recent bus') (print e) = Some now"
    using assms(1) dict_get_filter [of ?recent "\<lambda>seen. now - seen \<le> eb_window bus" "print e"]
    by (auto simp: bus' push_event_def bus_ok_def dict_simps intro: dict_ok_set)
  moreover have "eb_window bus' = eb_window bus" by (simp add: bus' push_event_def)
  ultimately have "print d = print e \<and> later - now \<le> eb_window bus \<longrightarrow> publish print accepts later d bus' = (bus', [])"
    by (auto intro!: publish_duplicate simp: recently_seen_def)
  with False calls \<open>last (eb_history bus') = e\<close> \<open>length (eb_history bus') \<le> eb_max_history bus\<close>
  show ?thesis by simp
qed

definition sample_event :: event where
  "sample_event = \<lparr>e_type = Goal_Created, e_source = ''console'', e_agent_id = ''a'', e_goal_id = ''g'',
     e_payload = [], e_created_at = 0\<rparr>"

definition sample_bus :: "(string, unit) event_bus" where
  "sample_bus = \<lparr>eb_handlers = [(Goal_Created, [\<lparr>s_handler = ''wake'', s_predicate = None\<rparr>])],
     eb_history = [], eb_max_history = 2, eb_window = 1/10, eb_recent = []\<rparr>"

lemma publish_once_per_window_witness:
  "\<exists>bus'. publish (fingerprint (\<lambda>_. [])) (\<lambda>_ _. True) 5 sample_event sample_bus = (bus', [''wake''])
    \<and> publish (fingerprint (\<lambda>_. [])) (\<lambda>_ _. True) 5 sample_event bus' = (bus', [])"
proof -
  obtain bus' calls where p: "publish (fingerprint (\<lambda>_. [])) (\<lambda>_ _. True) 5 sample_event sample_bus = (bus', calls)"
    by fastforce
  have ok: "bus_ok sample_bus" by (simp add: bus_ok_def sample_bus_def)
  have "\<not> recently_seen (fingerprint (\<lambda>_. [])) 5 sample_event sample_bus"
    by (simp add: recently_seen_def sample_bus_def dict_simps)
  with publish_once_per_window [OF ok p, of sample_event 5] p show ?thesis
    by (simp add: sample_bus_def sample_event_def handlers_of_def dict_get_or_def dict_get_def)
qed

section \<open>Mailboxes\<close>

record message_bus =
  mb_mailboxes :: "(string, message list) dict"
  mb_saved :: "message list"           \<comment> \<open>the repository's message table, in order\<close>

definition mailbox :: "message_bus \<Rightarrow> string \<Rightarrow> message list" where
  "mailbox b i = dict_get_or (mb_mailboxes b) i []"

text \<open>The mailboxes are a \<open>defaultdict\<close>: looking one up creates it.\<close>

definition register_mailbox :: "string \<Rightarrow> message_bus \<Rightarrow> message_bus" where
  "register_mailbox i b = (if dict_get (mb_mailboxes b) i = None
     then b\<lparr>mb_mailboxes := dict_set i [] (mb_mailboxes b)\<rparr> else b)"

definition unregister_mailbox :: "string \<Rightarrow> message_bus \<Rightarrow> message_bus" where
  "unregister_mailbox i b = b\<lparr>mb_mailboxes := dict_del i (mb_mailboxes b)\<rparr>"

definition put_mail :: "message \<Rightarrow> string \<Rightarrow> message_bus \<Rightarrow> message_bus" where
  "put_mail msg i b = b\<lparr>mb_mailboxes := dict_set i (mailbox b i @ [msg]) (mb_mailboxes b)\<rparr>"

definition send :: "message \<Rightarrow> message_bus \<Rightarrow> message_bus" where
  "send msg b =
     (let b = b\<lparr>mb_saved := mb_saved b @ [msg]\<rparr>
      in case msg_recipient_id msg of
          None \<Rightarrow> b\<lparr>mb_mailboxes := map (\<lambda>(i, box). (i, if i \<noteq> msg_sender_id msg then box @ [msg] else box)) (mb_mailboxes b)\<rparr>
        | Some i \<Rightarrow> put_mail msg i b)"

text \<open>\<open>receive\<close> without waiting; on an empty mailbox the code waits, or times out.\<close>

definition receive :: "string \<Rightarrow> message_bus \<Rightarrow> message option \<times> message_bus" where
  "receive i b = (let b = register_mailbox i b in
     case mailbox b i of [] \<Rightarrow> (None, b)
       | msg # rest \<Rightarrow> (Some msg, b\<lparr>mb_mailboxes := dict_set i rest (mb_mailboxes b)\<rparr>))"

interpretation mailboxes: keyed_store "\<lambda>b. dict_get (mb_mailboxes b)"
    "\<lambda>i box b. b\<lparr>mb_mailboxes := dict_set i box (mb_mailboxes b)\<rparr>" unregister_mailbox
  by unfold_locales (simp_all add: unregister_mailbox_def dict_simps)

lemma dict_get_map: "dict_get (map (\<lambda>(i, v). (i, f i v)) d) k = map_option (f k) (dict_get d k)"
  by (induction d) (auto simp: dict_get_def)

text \<open>
  Every message is saved, and delivered exactly once to each addressee: a direct message to its
  recipient's mailbox alone, a broadcast to every registered mailbox but the sender's.  Mail is
  appended behind what a mailbox holds, and \<open>receive\<close> takes from the front.
\<close>

theorem send_delivers_once:
  "mb_saved (send msg b) = mb_saved b @ [msg]
    \<and> mailbox (send msg b) i = mailbox b i @
        (if (case msg_recipient_id msg of Some r \<Rightarrow> i = r
             | None \<Rightarrow> i \<noteq> msg_sender_id msg \<and> dict_get (mb_mailboxes b) i \<noteq> None) then [msg] else [])
    \<and> (case mailbox b i of [] \<Rightarrow> fst (receive i b) = None \<and> mailbox (snd (receive i b)) j = mailbox b j
       | first # rest \<Rightarrow> fst (receive i b) = Some first
           \<and> mailbox (snd (receive i b)) j = (if j = i then rest else mailbox b j))"
proof -
  have reg: "mailbox (register_mailbox i b) j = mailbox b j" for j
    by (auto simp: mailbox_def register_mailbox_def dict_get_or_def dict_simps)
  have "mb_saved (send msg b) = mb_saved b @ [msg]"
    by (simp add: send_def Let_def put_mail_def split: option.split)
  moreover have "mailbox (send msg b) i = mailbox b i @
        (if (case msg_recipient_id msg of Some r \<Rightarrow> i = r
             | None \<Rightarrow> i \<noteq> msg_sender_id msg \<and> dict_get (mb_mailboxes b) i \<noteq> None) then [msg] else [])"
  proof (cases "msg_recipient_id msg")
    case None
    let ?f = "\<lambda>i box. if i \<noteq> msg_sender_id msg then box @ [msg] else box"
    from None have "mb_mailboxes (send msg b) = map (\<lambda>(i, box). (i, ?f i box)) (mb_mailboxes b)"
      by (simp add: send_def Let_def)
    then have "dict_get (mb_mailboxes (send msg b)) i = map_option (?f i) (dict_get (mb_mailboxes b) i)"
      using dict_get_map [of ?f "mb_mailboxes b" i] by simp
    with None show ?thesis by (cases "dict_get (mb_mailboxes b) i") (auto simp: mailbox_def dict_get_or_def)
  next
    case (Some r)
    then show ?thesis by (auto simp: send_def Let_def put_mail_def mailbox_def dict_get_or_def dict_simps)
  qed
  moreover have "case mailbox b i of [] \<Rightarrow> fst (receive i b) = None \<and> mailbox (snd (receive i b)) j = mailbox b j
       | first # rest \<Rightarrow> fst (receive i b) = Some first
           \<and> mailbox (snd (receive i b)) j = (if j = i then rest else mailbox b j)"
    using reg by (cases "mailbox b i")
      (auto simp: receive_def Let_def, auto simp: mailbox_def dict_get_or_def dict_simps)
  ultimately show ?thesis by simp
qed

section \<open>Progress and stalls\<close>

text \<open>The parts of \<open>CycleOutcome\<close> that \<open>observe\<close> reads.\<close>

record cycle_outcome =
  co_error :: "string option"
  co_step :: string
  co_fact :: string
  co_summary :: string
  co_goal_done :: bool

record progress_signal =
  sig_stalled :: bool
  sig_signature :: string
  sig_repeats :: nat
  sig_reason :: string

record progress_tracker =
  pt_failure_threshold :: nat
  pt_no_progress_threshold :: nat
  pt_last :: "(string, string) dict"
  pt_repeats :: "(string, nat) dict"

definition progress_signature :: "(string \<Rightarrow> string) \<Rightarrow> (rat \<Rightarrow> string) \<Rightarrow> goal \<Rightarrow> cycle_outcome \<Rightarrow> string \<Rightarrow> string" where
  \<comment> \<open>\<open>structure\<close> is \<open>repr(structure)\<close>, \<open>show_float\<close> is \<open>str\<close> of a float\<close>
  "progress_signature sha256_hex show_float g oc structure = take 16 (sha256_hex (py_join ''|''
     [structure, (case co_error oc of None \<Rightarrow> [] | Some e \<Rightarrow> e), py_strip (co_step oc), py_strip (co_fact oc),
      py_strip (co_summary oc), show_float (g_progress g), py_join '','' (g_artifacts g)]))"

definition has_error :: "cycle_outcome \<Rightarrow> bool" where
  "has_error oc \<longleftrightarrow> (case co_error oc of None \<Rightarrow> False | Some e \<Rightarrow> e \<noteq> [])"

definition observe :: "string \<Rightarrow> string \<Rightarrow> cycle_outcome \<Rightarrow> progress_tracker \<Rightarrow> progress_signal \<times> progress_tracker" where
  \<comment> \<open>for the goal with this identifier, whose signature is given\<close>
  "observe goal_id signature oc t =
     (let repeats = (if dict_get (pt_last t) goal_id = Some signature
                     then dict_get_or (pt_repeats t) goal_id 0 + 1 else 1);
          t = t\<lparr>pt_last := dict_set goal_id signature (pt_last t),
                pt_repeats := dict_set goal_id repeats (pt_repeats t)\<rparr>;
          threshold = (if has_error oc then pt_failure_threshold t else pt_no_progress_threshold t);
          no_progress = (\<not> co_goal_done oc \<and> co_fact oc = [] \<and> co_step oc = []);
          stalled = (repeats = threshold \<and> (has_error oc \<or> no_progress));
          reason = (if stalled then
              if has_error oc then ''same failure repeated '' @ show_nat repeats @ '' times''
              else ''no new step, fact, artifact, or completion for '' @ show_nat repeats @ '' cycles''
            else [])
      in (\<lparr>sig_stalled = stalled, sig_signature = signature, sig_repeats = repeats, sig_reason = reason\<rparr>, t))"

definition clear_progress :: "string \<Rightarrow> progress_tracker \<Rightarrow> progress_tracker" where
  "clear_progress goal_id t = t\<lparr>pt_last := dict_del goal_id (pt_last t), pt_repeats := dict_del goal_id (pt_repeats t)\<rparr>"

fun observe_all :: "string \<Rightarrow> (string \<times> cycle_outcome) list \<Rightarrow> progress_tracker \<Rightarrow> bool list \<times> progress_tracker" where
  "observe_all i [] t = ([], t)"
| "observe_all i ((s, oc) # os) t = (case observe i s oc t of (signal, t1) \<Rightarrow>
     case observe_all i os t1 of (stalls, t2) \<Rightarrow> (sig_stalled signal # stalls, t2))"

lemma observe_repeats:
  assumes "dict_get (pt_last t) i = Some s" "dict_get (pt_repeats t) i = Some k"
  shows "fst (observe_all i (replicate n (s, oc)) t) =
    map (\<lambda>j. k + j + 1 = (if has_error oc then pt_failure_threshold t else pt_no_progress_threshold t)
       \<and> (has_error oc \<or> \<not> co_goal_done oc \<and> co_fact oc = [] \<and> co_step oc = [])) [0..<n]"
  using assms
proof (induction n arbitrary: t k)
  case 0
  then show ?case by simp
next
  case (Suc n)
  obtain signal t1 where oc: "observe i s oc t = (signal, t1)" by fastforce
  with Suc.prems have t1: "dict_get (pt_last t1) i = Some s" "dict_get (pt_repeats t1) i = Some (k + 1)"
    "pt_failure_threshold t1 = pt_failure_threshold t" "pt_no_progress_threshold t1 = pt_no_progress_threshold t"
    and s: "sig_stalled signal = (k + 1 = (if has_error oc then pt_failure_threshold t else pt_no_progress_threshold t)
       \<and> (has_error oc \<or> \<not> co_goal_done oc \<and> co_fact oc = [] \<and> co_step oc = []))"
    by (auto simp: observe_def Let_def dict_simps dict_get_or_def)
  have "[0..<Suc n] = 0 # map Suc [0..<n]" by (simp add: upt_conv_Cons map_Suc_upt del: upt_Suc)
  with Suc.IH [OF t1(1,2)] oc s t1(3,4) show ?case
    by (cases "observe_all i (replicate n (s, oc)) t1") (simp add: comp_def del: upt_Suc)
qed

text \<open>
  C39. A stall is signalled on the edge and once: of any number of identical cycles that follow a
  different one, exactly the one that reaches the threshold is reported as a stall (the failure
  threshold when the cycles carry an error, the no-progress threshold when they did nothing), and
  none is when the cycles did something.
\<close>

theorem stall_signalled_once:
  assumes "dict_get (pt_last t) i \<noteq> Some s"
  shows "fst (observe_all i (replicate n (s, outcome)) t) =
    map (\<lambda>j. j + 1 = (if has_error outcome then pt_failure_threshold t else pt_no_progress_threshold t)
       \<and> (has_error outcome \<or> \<not> co_goal_done outcome \<and> co_fact outcome = [] \<and> co_step outcome = [])) [0..<n]"
proof (cases n)
  case 0
  then show ?thesis by simp
next
  case (Suc m)
  obtain signal t1 where oc: "observe i s outcome t = (signal, t1)" by fastforce
  with assms have t1: "dict_get (pt_last t1) i = Some s" "dict_get (pt_repeats t1) i = Some 1"
    "pt_failure_threshold t1 = pt_failure_threshold t" "pt_no_progress_threshold t1 = pt_no_progress_threshold t"
    and s: "sig_stalled signal = (1 = (if has_error outcome then pt_failure_threshold t else pt_no_progress_threshold t)
       \<and> (has_error outcome \<or> \<not> co_goal_done outcome \<and> co_fact outcome = [] \<and> co_step outcome = []))"
    by (auto simp: observe_def Let_def dict_simps)
  have "[0..<Suc m] = 0 # map Suc [0..<m]" by (simp add: upt_conv_Cons map_Suc_upt del: upt_Suc)
  with observe_repeats [OF t1(1,2), of m outcome] oc s t1(3,4) Suc show ?thesis
    by (cases "observe_all i (replicate m (s, outcome)) t1") (simp add: comp_def del: upt_Suc)
qed

lemma stall_signalled_once_witness:
  "fst (observe_all ''g'' (replicate 5 (''sig'', \<lparr>co_error = Some ''boom'', co_step = [], co_fact = [], co_summary = [],
      co_goal_done = False\<rparr>)) \<lparr>pt_failure_threshold = 3, pt_no_progress_threshold = 4, pt_last = [], pt_repeats = []\<rparr>)
    = [False, False, True, False, False]"
  by (subst stall_signalled_once) (simp_all add: dict_simps has_error_def upt_rec)

end
