(* ===== verification/Blackboard.thy ===== *)
theory Blackboard
  imports Events
begin

text \<open>
  The shared world state of \<open>blackboard.py\<close>: facts with their retained versions, artifacts and
  work items, each bounded, with expiry, the work history the contract net ranks by, the textual
  projection, and \<open>dump\<close>/\<open>load\<close>.  Pydantic's JSON encoding of one record is an argument of the
  two.  The bounds are natural numbers.
\<close>

record world_fact =
  wf_key :: string
  wf_value :: pyval
  wf_source :: string
  wf_confidence :: rat
  wf_created_at :: time
  wf_expires_at :: "time option"

record artifact_record =
  ar_key :: string
  ar_path :: string
  ar_source :: string
  ar_metadata :: "(string, pyval) dict"
  ar_created_at :: time

definition terminal_work :: "work_status set" where
  "terminal_work = {Work_Completed, Work_Failed, Work_Needs_Human, Work_Cancelled}"

record blackboard =
  bb_facts :: "(string, world_fact) dict"
  bb_fact_history :: "(string, world_fact list) dict"
  bb_artifacts :: "(string, artifact_record) dict"
  bb_work_items :: "(string, work_item) dict"
  bb_events :: "event list"
  bb_max_events :: nat
  bb_max_facts :: nat
  bb_max_artifacts :: nat
  bb_max_work :: nat
  bb_max_fact_versions :: nat

definition new_blackboard :: "nat \<Rightarrow> nat \<Rightarrow> nat \<Rightarrow> nat \<Rightarrow> nat \<Rightarrow> blackboard" where
  "new_blackboard max_events max_facts max_artifacts max_work max_fact_versions =
     \<lparr>bb_facts = [], bb_fact_history = [], bb_artifacts = [], bb_work_items = [], bb_events = [],
      bb_max_events = max_events, bb_max_facts = max_facts, bb_max_artifacts = max_artifacts,
      bb_max_work = max_work, bb_max_fact_versions = max 2 max_fact_versions\<rparr>"

section \<open>Publishing\<close>

text \<open>\<open>f.model_dump() == g.model_dump()\<close>.\<close>

definition fact_same :: "world_fact \<Rightarrow> world_fact \<Rightarrow> bool" where
  "fact_same f g \<longleftrightarrow> wf_key f = wf_key g \<and> py_eq (wf_value f) (wf_value g) \<and> wf_source f = wf_source g
     \<and> wf_confidence f = wf_confidence g \<and> wf_created_at f = wf_created_at g \<and> wf_expires_at f = wf_expires_at g"

definition add_version :: "nat \<Rightarrow> world_fact \<Rightarrow> world_fact list \<Rightarrow> world_fact list" where
  "add_version n f versions =
     (if versions = [] \<or> \<not> fact_same (last versions) f then py_last n (versions @ [f]) else versions)"

text \<open>The eviction loops: the oldest key first.\<close>

fun trim_facts :: "nat \<Rightarrow> (string, world_fact) dict \<Rightarrow> (string, world_fact list) dict
    \<Rightarrow> (string, world_fact) dict \<times> (string, world_fact list) dict" where
  "trim_facts n [] history = ([], history)"
| "trim_facts n ((k, f) # facts) history =
     (if n < length ((k, f) # facts) then trim_facts n facts (dict_del k history) else ((k, f) # facts, history))"

definition publish_fact :: "world_fact \<Rightarrow> blackboard \<Rightarrow> blackboard" where
  "publish_fact f bb =
     (let history = dict_set (wf_key f)
            (add_version (bb_max_fact_versions bb) f (dict_get_or (bb_fact_history bb) (wf_key f) []))
            (bb_fact_history bb);
          facts = dict_set (wf_key f) f (dict_del (wf_key f) (bb_facts bb));
          (facts, history) = trim_facts (bb_max_facts bb) facts history
      in bb\<lparr>bb_facts := facts, bb_fact_history := history\<rparr>)"

definition fact_versions :: "blackboard \<Rightarrow> string \<Rightarrow> world_fact list" where
  "fact_versions bb key = dict_get_or (bb_fact_history bb) key []"

fun trim_oldest :: "nat \<Rightarrow> ('k, 'v) dict \<Rightarrow> ('k, 'v) dict" where
  "trim_oldest n [] = []"
| "trim_oldest n (x # xs) = (if n < length (x # xs) then trim_oldest n xs else x # xs)"

definition publish_artifact :: "artifact_record \<Rightarrow> blackboard \<Rightarrow> blackboard" where
  "publish_artifact a bb = bb\<lparr>bb_artifacts :=
     trim_oldest (bb_max_artifacts bb) (dict_set (ar_key a) a (dict_del (ar_key a) (bb_artifacts bb)))\<rparr>"

definition work_victim :: "(string, work_item) dict \<Rightarrow> string" where
  "work_victim ws = (case find (\<lambda>(k, w). w_status w \<in> terminal_work) ws of
      Some (k, _) \<Rightarrow> k | None \<Rightarrow> fst (hd ws))"

lemma work_victim_key: "ws \<noteq> [] \<Longrightarrow> work_victim ws \<in> fst ` set ws"
  by (auto simp: work_victim_def split: option.split dest!: find_Some_in intro: rev_image_eqI)

lemma length_dict_del_less: "k \<in> fst ` set d \<Longrightarrow> length (dict_del k d) < length d"
  unfolding dict_del_def AList.delete_eq by (auto intro!: length_filter_less)

function trim_work :: "nat \<Rightarrow> (string, work_item) dict \<Rightarrow> (string, work_item) dict" where
  "trim_work n ws = (if n < length ws then trim_work n (dict_del (work_victim ws) ws) else ws)"
  by pat_completeness auto
termination
  by (relation "measure (\<lambda>(n, ws). length ws)") (auto intro!: length_dict_del_less work_victim_key)

declare trim_work.simps [simp del]

definition publish_work :: "work_item \<Rightarrow> blackboard \<Rightarrow> blackboard" where
  "publish_work w bb = bb\<lparr>bb_work_items := trim_work (bb_max_work bb) (dict_set (w_id w) w (bb_work_items bb))\<rparr>"

definition publish_event :: "event \<Rightarrow> blackboard \<Rightarrow> blackboard" where
  "publish_event e bb = bb\<lparr>bb_events := py_last (bb_max_events bb) (bb_events bb @ [e])\<rparr>"

interpretation diagnostics: bounded_log bb_events publish_event bb_max_events
  by unfold_locales (simp_all add: publish_event_def)

section \<open>Reading\<close>

definition current_fact :: "time \<Rightarrow> blackboard \<Rightarrow> string \<Rightarrow> world_fact option" where
  "current_fact moment bb key = (case dict_get (bb_facts bb) key of
      None \<Rightarrow> None
    | Some f \<Rightarrow>
        if wf_created_at f > moment then None
        else if (case wf_expires_at f of None \<Rightarrow> False | Some t \<Rightarrow> t \<le> moment) then None
        else Some f)"

definition count_work :: "work_item \<Rightarrow> (history_key, nat \<times> nat) dict \<Rightarrow> (history_key, nat \<times> nat) dict" where
  "count_work w history = (case w_assigned_agent_id w of
      None \<Rightarrow> history
    | Some agent \<Rightarrow>
        if w_status w \<notin> terminal_work \<or> w_status w = Work_Cancelled then history
        else let key = By_Work agent (w_type w) (py_join '','' (sort (w_required_capabilities w)));
                 (done, failed) = dict_get_or history key (0, 0)
             in dict_set key (if w_status w = Work_Completed then (done + 1, failed) else (done, failed + 1)) history)"

definition work_history :: "blackboard \<Rightarrow> (history_key, nat \<times> nat) dict" where
  "work_history bb = fold (\<lambda>(_, w). count_work w) (bb_work_items bb) []"

definition open_work :: "blackboard \<Rightarrow> work_item list" where
  "open_work bb = filter (\<lambda>w. w_status w \<notin> terminal_work) (map snd (bb_work_items bb))"

definition work_status_value :: "work_status \<Rightarrow> string" where
  "work_status_value s = (case s of Work_Pending \<Rightarrow> ''pending'' | Work_Blocked \<Rightarrow> ''blocked''
     | Work_Offered \<Rightarrow> ''offered'' | Work_Assigned \<Rightarrow> ''assigned'' | Work_Active \<Rightarrow> ''active''
     | Work_Completed \<Rightarrow> ''completed'' | Work_Failed \<Rightarrow> ''failed'' | Work_Needs_Human \<Rightarrow> ''needs_human''
     | Work_Cancelled \<Rightarrow> ''cancelled'')"

definition lines_or_none :: "string list \<Rightarrow> string" where
  "lines_or_none ls = (let s = py_join [CHR 0x0A] ls in if s = [] then ''none'' else s)"

definition projection :: "(pyval \<Rightarrow> string) \<Rightarrow> time \<Rightarrow> nat \<Rightarrow> blackboard \<Rightarrow> (string, string) dict" where
  \<comment> \<open>\<open>text\<close> is \<open>str\<close> of a value\<close>
  "projection text moment limit bb =
     [(''Facts'', lines_or_none (map (\<lambda>(key, f). ''- '' @ key @ '' = '' @ text (wf_value f) @ '' (source: '' @ wf_source f @ '')'')
         (filter (\<lambda>(key, f). current_fact moment bb key \<noteq> None) (py_last limit (bb_facts bb))))),
      (''Artifacts'', lines_or_none (map (\<lambda>(key, a). ''- '' @ key @ '': '' @ ar_path a @ '' (source: '' @ ar_source a @ '')'')
         (py_last limit (bb_artifacts bb)))),
      (''Work items'', lines_or_none (map (\<lambda>w. ''- '' @ w_id w @ '': '' @ w_objective w @ '' ['' @ work_status_value (w_status w) @ '']''
           @ (case w_assigned_agent_id w of None \<Rightarrow> [] | Some a \<Rightarrow> if a = [] then [] else '' -> '' @ a))
         (py_last limit (open_work bb))))]"

section \<open>Dump and load\<close>

record 'j blackboard_dump =
  bd_facts :: "'j list"
  bd_fact_history :: "'j list"
  bd_artifacts :: "'j list"
  bd_work_items :: "'j list"

definition dump :: "(world_fact \<Rightarrow> 'j) \<Rightarrow> (artifact_record \<Rightarrow> 'j) \<Rightarrow> (work_item \<Rightarrow> 'j) \<Rightarrow> blackboard \<Rightarrow> 'j blackboard_dump" where
  "dump enc_fact enc_artifact enc_work bb =
     \<lparr>bd_facts = map (enc_fact \<circ> snd) (bb_facts bb),
      bd_fact_history = map enc_fact (concat (map snd (bb_fact_history bb))),
      bd_artifacts = map (enc_artifact \<circ> snd) (bb_artifacts bb),
      bd_work_items = map (enc_work \<circ> snd) (bb_work_items bb)\<rparr>"

text \<open>\<open>with suppress(ValueError): publish(decode(raw))\<close> for each raw item.\<close>

definition load_each :: "('j \<Rightarrow> 'a option) \<Rightarrow> ('a \<Rightarrow> blackboard \<Rightarrow> blackboard) \<Rightarrow> 'j list \<Rightarrow> blackboard \<Rightarrow> blackboard" where
  "load_each decode put raws = fold (\<lambda>raw. case decode raw of None \<Rightarrow> id | Some x \<Rightarrow> put x) raws"

definition load :: "('j \<Rightarrow> world_fact option) \<Rightarrow> ('j \<Rightarrow> artifact_record option) \<Rightarrow> ('j \<Rightarrow> work_item option)
    \<Rightarrow> 'j blackboard_dump option \<Rightarrow> blackboard \<Rightarrow> blackboard" where
  \<comment> \<open>\<open>None\<close> is a payload that is no dictionary\<close>
  "load dec_fact dec_artifact dec_work payload bb = (case payload of
      None \<Rightarrow> bb
    | Some d \<Rightarrow>
        let bb = bb\<lparr>bb_facts := [], bb_fact_history := [], bb_artifacts := [], bb_work_items := []\<rparr>;
            stored = (if bd_fact_history d \<noteq> [] then bd_fact_history d else bd_facts d)
        in load_each dec_work publish_work (bd_work_items d)
             (load_each dec_artifact publish_artifact (bd_artifacts d)
               (load_each dec_fact publish_fact stored bb)))"

section \<open>The invariant\<close>

fun no_repeat :: "world_fact list \<Rightarrow> bool" where
  "no_repeat (v # w # vs) = (\<not> fact_same v w \<and> no_repeat (w # vs))"
| "no_repeat _ = True"

definition versions_ok :: "nat \<Rightarrow> string \<Rightarrow> world_fact list \<Rightarrow> bool" where
  "versions_ok n k vs \<longleftrightarrow> vs \<noteq> [] \<and> length vs \<le> n \<and> no_repeat vs \<and> (\<forall>v\<in>set vs. wf_key v = k)"

definition facts_ok :: "nat \<Rightarrow> (string, world_fact) dict \<Rightarrow> (string, world_fact list) dict \<Rightarrow> bool" where
  "facts_ok n facts history \<longleftrightarrow> dict_ok facts \<and> dict_ok history \<and> fst ` set facts = fst ` set history
     \<and> (\<forall>k vs. dict_get history k = Some vs \<longrightarrow> versions_ok n k vs
          \<and> (\<exists>f. dict_get facts k = Some f \<and> (last vs = f \<or> fact_same (last vs) f)))"

text \<open>Every value is filed under its own key.\<close>

definition keyed :: "('v \<Rightarrow> 'k) \<Rightarrow> ('k, 'v) dict \<Rightarrow> bool" where
  "keyed key d \<longleftrightarrow> (\<forall>e \<in> set d. fst e = key (snd e))"

lemma keyed_set: "keyed key d \<Longrightarrow> keyed key (dict_set (key v) v d)"
  by (auto simp: keyed_def dest: dict_set_entries)

lemma keyed_subset: "keyed key d \<Longrightarrow> set e \<subseteq> set d \<Longrightarrow> keyed key e"
  by (auto simp: keyed_def)

definition bb_ok :: "blackboard \<Rightarrow> bool" where
  "bb_ok bb \<longleftrightarrow> 2 \<le> bb_max_fact_versions bb
     \<and> facts_ok (bb_max_fact_versions bb) (bb_facts bb) (bb_fact_history bb)
     \<and> length (bb_facts bb) \<le> bb_max_facts bb
     \<and> dict_ok (bb_artifacts bb) \<and> keyed ar_key (bb_artifacts bb)
     \<and> length (bb_artifacts bb) \<le> bb_max_artifacts bb
     \<and> dict_ok (bb_work_items bb) \<and> keyed w_id (bb_work_items bb)
     \<and> length (bb_work_items bb) \<le> bb_max_work bb"

lemma no_repeat_snoc: "no_repeat (vs @ [v]) \<longleftrightarrow> no_repeat vs \<and> (vs = [] \<or> \<not> fact_same (last vs) v)"
  by (induction vs rule: no_repeat.induct) auto

lemma no_repeat_drop: "no_repeat vs \<Longrightarrow> no_repeat (drop n vs)"
proof (induction n arbitrary: vs)
  case (Suc n)
  then show ?case by (cases vs rule: no_repeat.cases) auto
qed simp

lemma no_repeat_py_last: "no_repeat vs \<Longrightarrow> no_repeat (py_last n vs)"
  by (simp add: py_last_def no_repeat_drop)

lemma add_version_ok:
  assumes "2 \<le> n" "vs \<noteq> [] \<longrightarrow> versions_ok n (wf_key f) vs"
  shows "versions_ok n (wf_key f) (add_version n f vs)
    \<and> (last (add_version n f vs) = f \<or> fact_same (last (add_version n f vs)) f)"
proof (cases "vs = [] \<or> \<not> fact_same (last vs) f")
  case True
  then have a: "add_version n f vs = py_last n (vs @ [f])" by (simp add: add_version_def)
  have "no_repeat (vs @ [f])" using True assms(2) by (auto simp: no_repeat_snoc versions_ok_def)
  then have "no_repeat (py_last n (vs @ [f]))" by (rule no_repeat_py_last)
  moreover have "\<forall>v\<in>set (py_last n (vs @ [f])). wf_key v = wf_key f"
    using assms(2) set_py_last [of n "vs @ [f]"] by (auto simp: versions_ok_def)
  moreover have "py_last n (vs @ [f]) \<noteq> [] \<and> last (py_last n (vs @ [f])) = f"
    using last_py_last [of "vs @ [f]" n] by simp
  moreover have "length (py_last n (vs @ [f])) \<le> n" using assms(1) by (simp add: length_py_last)
  ultimately show ?thesis unfolding a versions_ok_def by blast
next
  case False
  with assms show ?thesis by (simp add: add_version_def)
qed

lemma trim_facts_ok:
  assumes "facts_ok n facts history" "trim_facts m facts history = (facts', history')"
  shows "facts_ok n facts' history' \<and> length facts' \<le> m"
  using assms
proof (induction m facts history rule: trim_facts.induct)
  case (1 m history)
  then show ?case by auto
next
  case (2 m k f facts history)
  show ?case
  proof (cases "m < length ((k, f) # facts)")
    case True
    have "facts_ok n facts (dict_del k history)"
      using 2(2) by (auto simp: facts_ok_def dict_simps intro: dict_ok_del split: if_splits)
    with 2 True show ?thesis by simp
  next
    case False
    with 2 show ?thesis by auto
  qed
qed

lemma publish_fact_ok:
  assumes "bb_ok bb"
  shows "bb_ok (publish_fact f bb)"
proof -
  let ?n = "bb_max_fact_versions bb" and ?k = "wf_key f"
  let ?vs = "dict_get_or (bb_fact_history bb) ?k []"
  let ?h = "dict_set ?k (add_version ?n f ?vs) (bb_fact_history bb)"
  let ?f = "dict_set ?k f (dict_del ?k (bb_facts bb))"
  from assms have "?vs \<noteq> [] \<longrightarrow> versions_ok ?n ?k ?vs" "2 \<le> ?n"
    by (auto simp: bb_ok_def facts_ok_def dict_get_or_def split: option.splits)
  then have v: "versions_ok ?n ?k (add_version ?n f ?vs)
    \<and> (last (add_version ?n f ?vs) = f \<or> fact_same (last (add_version ?n f ?vs)) f)"
    using add_version_ok by blast
  have "facts_ok ?n ?f ?h"
    using assms v by (auto simp: facts_ok_def bb_ok_def dict_simps intro: dict_ok_set dict_ok_del)
  moreover obtain facts history where t: "trim_facts (bb_max_facts bb) ?f ?h = (facts, history)" by fastforce
  ultimately have "facts_ok ?n facts history \<and> length facts \<le> bb_max_facts bb" using trim_facts_ok by blast
  with assms t show ?thesis by (simp add: publish_fact_def Let_def bb_ok_def)
qed

lemma set_trim_oldest: "set (trim_oldest n xs) \<subseteq> set xs"
  by (induction xs) auto

lemma trim_oldest_ok: "dict_ok d \<Longrightarrow> dict_ok (trim_oldest n d)"
  by (induction d) (auto simp: dict_ok_def)

lemma length_trim_oldest: "length (trim_oldest n xs) \<le> n"
  by (induction xs) auto

lemma publish_artifact_ok: "bb_ok bb \<Longrightarrow> bb_ok (publish_artifact a bb)"
  unfolding bb_ok_def publish_artifact_def
  by (simp add: length_trim_oldest trim_oldest_ok dict_ok_set dict_ok_del
      keyed_subset [OF keyed_set [OF keyed_subset [OF _ dict_del_entries]] set_trim_oldest])

lemma length_trim_work: "length (trim_work n ws) \<le> n"
  by (induction n ws rule: trim_work.induct) (subst trim_work.simps, simp)

lemma set_trim_work: "set (trim_work n ws) \<subseteq> set ws"
proof (induction n ws rule: trim_work.induct)
  case (1 n ws)
  then show ?case using dict_del_entries [of "work_victim ws" ws] by (subst trim_work.simps) auto
qed

lemma trim_work_ok: "dict_ok ws \<Longrightarrow> dict_ok (trim_work n ws)"
  by (induction n ws rule: trim_work.induct) (subst trim_work.simps, auto)

lemma publish_work_ok: "bb_ok bb \<Longrightarrow> bb_ok (publish_work w bb)"
  unfolding bb_ok_def publish_work_def
  by (simp add: length_trim_work trim_work_ok dict_ok_set keyed_subset [OF keyed_set set_trim_work])

lemma new_blackboard_ok: "bb_ok (new_blackboard n1 n2 n3 n4 n5)"
  by (simp add: bb_ok_def new_blackboard_def facts_ok_def keyed_def dict_simps)

lemma publish_event_ok: "bb_ok bb \<Longrightarrow> bb_ok (publish_event e bb)"
  by (simp add: bb_ok_def publish_event_def)

lemma load_each_ok:
  assumes "bb_ok bb" "\<And>x bb. bb_ok bb \<Longrightarrow> bb_ok (put x bb)"
  shows "bb_ok (load_each decode put raws bb)"
  using assms(1) unfolding load_each_def
  by (induction raws arbitrary: bb) (auto intro: assms(2) split: option.split)

lemma load_ok: "bb_ok bb \<Longrightarrow> bb_ok (load df da dw payload bb)"
  by (cases payload) (auto simp: load_def Let_def intro!: load_each_ok publish_fact_ok publish_artifact_ok publish_work_ok,
    simp_all add: bb_ok_def facts_ok_def keyed_def dict_simps)

text \<open>Everything that changes a blackboard.\<close>

inductive bb_reachable :: "blackboard \<Rightarrow> bool" where
  bb_new: "bb_reachable (new_blackboard n1 n2 n3 n4 n5)"
| bb_fact: "bb_reachable bb \<Longrightarrow> bb_reachable (publish_fact f bb)"
| bb_artifact: "bb_reachable bb \<Longrightarrow> bb_reachable (publish_artifact a bb)"
| bb_work: "bb_reachable bb \<Longrightarrow> bb_reachable (publish_work w bb)"
| bb_event: "bb_reachable bb \<Longrightarrow> bb_reachable (publish_event e bb)"
| bb_load: "bb_reachable bb \<Longrightarrow> bb_reachable (load df da dw (payload :: pyval blackboard_dump option) bb)"

lemma bb_reachable_ok: "bb_reachable bb \<Longrightarrow> bb_ok bb"
  by (induction rule: bb_reachable.induct)
    (auto intro: new_blackboard_ok publish_fact_ok publish_artifact_ok publish_work_ok publish_event_ok load_ok)


definition sample_fact :: "string \<Rightarrow> int \<Rightarrow> world_fact" where
  "sample_fact k v = \<lparr>wf_key = k, wf_value = PInt v, wf_source = ''test'', wf_confidence = 1,
     wf_created_at = 0, wf_expires_at = None\<rparr>"


section \<open>Eviction of work\<close>

lemma trim_work_spares_open:
  assumes "(k, w) \<in> set ws" "k \<notin> fst ` set (trim_work n ws)" "w_status w \<notin> terminal_work" "dict_ok ws"
  shows "\<forall>e \<in> set (trim_work n ws). w_status (snd e) \<notin> terminal_work"
  using assms
proof (induction n ws rule: trim_work.induct)
  case (1 n ws)
  show ?case
  proof (cases "n < length ws")
    case False
    with 1(2,3) show ?thesis by (subst (asm) trim_work.simps) force
  next
    case True
    let ?v = "work_victim ws"
    have t: "trim_work n ws = trim_work n (dict_del ?v ws)" using True by (subst trim_work.simps) simp
    show ?thesis
    proof (cases "k = ?v")
      case True
      have "find (\<lambda>(k, w). w_status w \<in> terminal_work) ws = None"
      proof (rule ccontr)
        assume "find (\<lambda>(k, w). w_status w \<in> terminal_work) ws \<noteq> None"
        then obtain k' w' where f: "find (\<lambda>(k, w). w_status w \<in> terminal_work) ws = Some (k', w')" by auto
        then have "?v = k'" by (simp add: work_victim_def)
        with True find_Some_in [OF f] 1(2,4,5) show False by (auto simp: dict_ok_def dest: eq_key_imp_eq_value)
      qed
      then have "\<forall>e \<in> set ws. w_status (snd e) \<notin> terminal_work" by (auto simp: find_None_iff)
      with set_trim_work [of n ws] show ?thesis by blast
    next
      case False
      have "(k, w) \<in> set (dict_del ?v ws)" using 1(2) False by (auto simp: dict_del_def AList.delete_eq)
      from 1(1) [OF True this] 1(3,4,5) t show ?thesis by (auto intro: dict_ok_del)
    qed
  qed
qed

text \<open>
  Open work is the last thing to go: if publishing a work item pushes an unfinished one off
  the blackboard, no finished one is left on it.
\<close>

theorem open_work_evicted_last:
  assumes "bb_reachable bb" "(k, w) \<in> set (bb_work_items bb)" "k \<noteq> w_id new"
    and "w_status w \<notin> terminal_work" "k \<notin> fst ` set (bb_work_items (publish_work new bb))"
  shows "set (open_work (publish_work new bb)) = snd ` set (bb_work_items (publish_work new bb))"
proof -
  let ?ws = "dict_set (w_id new) new (bb_work_items bb)"
  from bb_reachable_ok [OF assms(1)] have ok: "dict_ok (bb_work_items bb)" by (simp add: bb_ok_def)
  with assms(2,3) have "dict_get ?ws k = Some w" by (simp add: dict_simps dict_get_in_iff)
  then have "(k, w) \<in> set ?ws" by (rule dict_get_in)
  from trim_work_spares_open [OF this _ assms(4)] assms(5) ok
  have "\<forall>e \<in> set (bb_work_items (publish_work new bb)). w_status (snd e) \<notin> terminal_work"
    by (simp add: publish_work_def dict_ok_set)
  then show ?thesis by (auto simp: open_work_def)
qed

lemma open_work_evicted_last_witness:
  "open_work (publish_work (new_work ''b'' 0 ''g'' ''second'') (publish_work (new_work ''a'' 0 ''g'' ''first'')
     (new_blackboard 9 9 9 1 9))) = [new_work ''b'' 0 ''g'' ''second'']"
proof -
  let ?b1 = "publish_work (new_work ''a'' 0 ''g'' ''first'') (new_blackboard 9 9 9 1 9)"
  let ?b2 = "publish_work (new_work ''b'' 0 ''g'' ''second'') ?b1"
  have r: "bb_reachable ?b1" by (intro bb_work bb_new)
  have i: "bb_work_items ?b1 = [(''a'', new_work ''a'' 0 ''g'' ''first'')]"
    "bb_work_items ?b2 = [(''b'', new_work ''b'' 0 ''g'' ''second'')]" by code_simp+
  have "set (open_work ?b2) = snd ` set (bb_work_items ?b2)"
    by (rule open_work_evicted_last [OF r, of "''a''" "new_work ''a'' 0 ''g'' ''first''"])
      (unfold i, simp_all add: new_work_def terminal_work_def)
  then show ?thesis unfolding open_work_def i by (simp add: new_work_def terminal_work_def)
qed

section \<open>Dump and load round trip\<close>

lemma dict_set_last: "k \<notin> fst ` set d \<Longrightarrow> dict_set k w (d @ [(k, v)]) = d @ [(k, w)]"
  unfolding dict_set_def by (induction d) auto

lemma dict_del_last: "k \<notin> fst ` set d \<Longrightarrow> dict_del k (d @ [(k, v)]) = d"
  unfolding dict_del_def by (induction d) auto

lemma trim_oldest_fits: "length xs \<le> n \<Longrightarrow> trim_oldest n xs = xs"
  by (cases xs) auto

lemma trim_work_fits: "length ws \<le> n \<Longrightarrow> trim_work n ws = ws"
  by (simp add: trim_work.simps)

lemma trim_facts_fits: "length facts \<le> n \<Longrightarrow> trim_facts n facts history = (facts, history)"
  by (cases facts) auto

lemma load_versions:
  assumes "versions_ok (bb_max_fact_versions bb) k vs" "2 \<le> bb_max_fact_versions bb"
    and "k \<notin> fst ` set (bb_facts bb)" "k \<notin> fst ` set (bb_fact_history bb)"
    and "length (bb_facts bb) < bb_max_facts bb"
  shows "fold publish_fact vs bb =
    bb\<lparr>bb_facts := bb_facts bb @ [(k, last vs)], bb_fact_history := bb_fact_history bb @ [(k, vs)]\<rparr>"
  using assms(1)
proof (induction vs rule: rev_induct)
  case Nil
  then show ?case by (simp add: versions_ok_def)
next
  case (snoc v vs)
  let ?n = "bb_max_fact_versions bb"
  have v: "wf_key v = k" "length (vs @ [v]) \<le> ?n" "no_repeat (vs @ [v])" using snoc.prems by (auto simp: versions_ok_def)
  show ?case
  proof (cases "vs = []")
    case True
    have "dict_get (bb_fact_history bb) k = None" using assms(4) dict_get_None [of "bb_fact_history bb" k] by simp
    then have old: "dict_get_or (bb_fact_history bb) k [] = []" by (simp add: dict_get_or_def)
    have "add_version ?n v [] = [v]" using assms(2) by (simp add: add_version_def)
    then have "publish_fact v bb = bb\<lparr>bb_facts := bb_facts bb @ [(k, v)], bb_fact_history := bb_fact_history bb @ [(k, [v])]\<rparr>"
      using v(1) old assms(3-5)
      by (simp add: publish_fact_def dict_set_absent dict_del_absent trim_facts_fits)
    with True show ?thesis by simp
  next
    case False
    with snoc.prems have "versions_ok ?n k vs" by (auto simp: versions_ok_def no_repeat_snoc)
    note run = snoc.IH [OF this]
    let ?b = "bb\<lparr>bb_facts := bb_facts bb @ [(k, last vs)], bb_fact_history := bb_fact_history bb @ [(k, vs)]\<rparr>"
    have "dict_get (bb_fact_history bb @ [(k, vs)]) k = Some vs"
      using assms(4) by (simp add: dict_get_def map_add_def map_of_eq_None_iff option.case_eq_if)
    then have old: "dict_get_or (bb_fact_history ?b) k [] = vs" by (simp add: dict_get_or_def)
    have "add_version ?n v vs = vs @ [v]" using v(2,3) False by (simp add: add_version_def no_repeat_snoc)
    then have "publish_fact v ?b = bb\<lparr>bb_facts := bb_facts bb @ [(k, v)], bb_fact_history := bb_fact_history bb @ [(k, vs @ [v])]\<rparr>"
      using v(1) old assms(3-5)
      by (simp add: publish_fact_def dict_set_last dict_del_last dict_set_absent trim_facts_fits)
    with run show ?thesis by simp
  qed
qed

lemma load_history:
  assumes "dict_ok history" "\<forall>(k, vs) \<in> set history. versions_ok (bb_max_fact_versions bb) k vs"
    and "2 \<le> bb_max_fact_versions bb" "length history \<le> bb_max_facts bb"
    and "bb_facts bb = []" "bb_fact_history bb = []"
  shows "fold publish_fact (concat (map snd history)) bb =
    bb\<lparr>bb_facts := map (\<lambda>(k, vs). (k, last vs)) history, bb_fact_history := history\<rparr>"
  using assms(1,2,4)
proof (induction history rule: rev_induct)
  case Nil
  then show ?case using assms(5,6) by simp
next
  case (snoc e history)
  obtain k vs where e: "e = (k, vs)" by fastforce
  have ok: "dict_ok history" "k \<notin> fst ` set history" using snoc.prems(1) by (auto simp: dict_ok_def e)
  let ?b = "bb\<lparr>bb_facts := map (\<lambda>(k, vs). (k, last vs)) history, bb_fact_history := history\<rparr>"
  have "fst ` set (bb_facts ?b) = fst ` set history" by force
  then have "fold publish_fact vs ?b =
      ?b\<lparr>bb_facts := bb_facts ?b @ [(k, last vs)], bb_fact_history := bb_fact_history ?b @ [(k, vs)]\<rparr>"
    using snoc.prems ok e assms(3) by (intro load_versions) auto
  then show ?case using snoc ok e by simp
qed

lemma load_artifacts:
  assumes "dict_ok as" "keyed ar_key as" "length as \<le> bb_max_artifacts bb" "bb_artifacts bb = []"
  shows "fold publish_artifact (map snd as) bb = bb\<lparr>bb_artifacts := as\<rparr>"
  using assms(1-3)
proof (induction as rule: rev_induct)
  case Nil
  then show ?case using assms(4) by simp
next
  case (snoc e as)
  then obtain k a where "e = (k, a)" "k = ar_key a" "k \<notin> fst ` set as" "dict_ok as" "keyed ar_key as"
    by (cases e) (auto simp: dict_ok_def keyed_def)
  with snoc show ?case by (simp add: publish_artifact_def dict_set_absent dict_del_absent trim_oldest_fits)
qed

lemma load_works:
  assumes "dict_ok ws" "keyed w_id ws" "length ws \<le> bb_max_work bb" "bb_work_items bb = []"
  shows "fold publish_work (map snd ws) bb = bb\<lparr>bb_work_items := ws\<rparr>"
  using assms(1-3)
proof (induction ws rule: rev_induct)
  case Nil
  then show ?case using assms(4) by simp
next
  case (snoc e ws)
  then obtain k w where "e = (k, w)" "k = w_id w" "k \<notin> fst ` set ws" "dict_ok ws" "keyed w_id ws"
    by (cases e) (auto simp: dict_ok_def keyed_def)
  with snoc show ?case by (simp add: publish_work_def dict_set_absent trim_work_fits)
qed

lemma load_each_decoded:
  assumes "\<And>x. decode (encode x) = Some x"
  shows "load_each decode put (map encode xs) bb = fold put xs bb"
  unfolding load_each_def by (induction xs arbitrary: bb) (simp_all add: assms)



end
