(* ===== verification/Exec_Core.thy ===== *)
theory Exec_Core
  imports Proc_Execution Blackboard
begin

text \<open>
  The executor's world and what every step shares (\<open>ProcedureExecutor\<close> of
  \<open>procedure_runtime.py\<close>): the store behind its repository, the registry, the environment that
  adapters, checks, models and peers act on, and the execution object one \<open>advance\<close> holds.

  A handler is a function of the world.  At every \<open>await\<close> it is suspended, and other tasks and
  processes may change whatever is shared: the next function of \<open>wd_others\<close> is applied, so a
  statement for every such list is a statement for every interleaving.  What the handler commits and
  calls is written to \<open>wd_log\<close>.
\<close>

section \<open>The environment\<close>

text \<open>
  What is behind the host and the adapters, as functions of the environment they read or change.
  \<open>h_resolve\<close> and \<open>h_permit\<close> are \<open>_resolve\<close> and \<open>_permit\<close> in the tool context of an agent (no
  path, or no permission, where they raise \<open>ToolDenied\<close>); an invocation that times out is no result.
\<close>

record 'e host =
  h_capabilities :: "string \<Rightarrow> 'e \<Rightarrow> string set"
  h_resolve :: "string \<Rightarrow> string \<Rightarrow> 'e \<Rightarrow> string option"
  h_permit :: "string \<Rightarrow> string \<Rightarrow> string \<Rightarrow> 'e \<Rightarrow> bool"
  h_invoke :: "string \<Rightarrow> string \<Rightarrow> string \<Rightarrow> obj \<Rightarrow> 'e \<Rightarrow> adapter_result option result \<times> 'e"
  h_reconcile :: "string \<Rightarrow> string \<Rightarrow> string \<Rightarrow> obj \<Rightarrow> 'e \<Rightarrow> (reconcile_state \<times> obj option) result \<times> 'e"
  h_check :: "string \<Rightarrow> obj \<Rightarrow> procedure_execution \<Rightarrow> operation_record list \<Rightarrow> 'e \<Rightarrow> check_outcome result \<times> 'e"
  h_think :: "string \<Rightarrow> string \<Rightarrow> cognitive_step \<Rightarrow> string \<Rightarrow> 'e \<Rightarrow> string result \<times> 'e"
  h_route :: "work_item \<Rightarrow> string \<Rightarrow> 'e \<Rightarrow> string option result \<times> 'e"
  h_deliver :: "work_item \<Rightarrow> string \<Rightarrow> string \<Rightarrow> 'e \<Rightarrow> unit result \<times> 'e"
  h_fact :: "string \<Rightarrow> 'e \<Rightarrow> world_fact option"
  h_clock :: "'e \<Rightarrow> time"
  h_new_id :: "'e \<Rightarrow> string"
  h_fault :: "string \<Rightarrow> string \<Rightarrow> 'e \<Rightarrow> exn option"
  h_canonical :: "pyval \<Rightarrow> string"
  h_digest :: "string \<Rightarrow> string"
  h_json :: "string \<Rightarrow> pyval option"
  h_str :: "pyval \<Rightarrow> string"

record 'e executor =
  ex_adapters :: "(string, adapter_contract) dict"
  ex_checks :: "(string, check_contract) dict"
  ex_limits :: procedure_limits
  ex_codec :: codec
  ex_host :: "'e host"

type_synonym exec_store = "(procedure_execution, operation_record) store"
type_synonym exec_registry = "(procedure_execution, operation_record) registry"
type_synonym journal_write = "operation_record \<times> string option"

record 'e shared =
  sh_registry :: exec_registry
  sh_env :: 'e

text \<open>
  A commit with the version it claims, what the task takes the stored execution to be, what it is,
  what is written and whether the commit won; a call of an adapter or a model.  \<open>wd_known\<close> and
  \<open>wd_log\<close> only record: nothing reads them.
\<close>

datatype act = Commit_Act int procedure_execution "procedure_execution option" procedure_execution "journal_write list" bool
  | Invoke_Act string string obj
  | Reconcile_Act string string obj
  | Think_Act string

record 'e world =
  wd_shared :: "'e shared"
  wd_others :: "('e shared \<Rightarrow> 'e shared) list"
  wd_execution :: procedure_execution
  wd_known :: procedure_execution
  wd_in_flight :: "string set"
  wd_advancing :: "string set"
  wd_log :: "act list"

type_synonym ('e, 'a) exec_op = "('e world, 'a) op"

definition world_store :: "'e world \<Rightarrow> exec_store" where
  "world_store w = rg_store (sh_registry (wd_shared w))"

definition put_store :: "exec_store \<Rightarrow> 'e world \<Rightarrow> 'e world" where
  "put_store st w = w\<lparr>wd_shared := (wd_shared w)\<lparr>sh_registry := (sh_registry (wd_shared w))\<lparr>rg_store := st\<rparr>\<rparr>\<rparr>"

definition put_env :: "'e \<Rightarrow> 'e world \<Rightarrow> 'e world" where
  "put_env e w = w\<lparr>wd_shared := (wd_shared w)\<lparr>sh_env := e\<rparr>\<rparr>"

definition add_log :: "act \<Rightarrow> 'e world \<Rightarrow> 'e world" where
  "add_log a w = w\<lparr>wd_log := wd_log w @ [a]\<rparr>"

definition set_execution :: "(procedure_execution \<Rightarrow> procedure_execution) \<Rightarrow> ('e, unit) exec_op" where
  "set_execution f = modify_op (\<lambda>w. w\<lparr>wd_execution := f (wd_execution w)\<rparr>)"

section \<open>Suspension\<close>

definition suspend :: "('e, unit) exec_op" where
  "suspend w = (Inr (), case wd_others w of [] \<Rightarrow> w | f # fs \<Rightarrow> w\<lparr>wd_shared := f (wd_shared w), wd_others := fs\<rparr>)"

text \<open>One call of the repository, and one of something outside.\<close>

definition on_store :: "(exec_store \<Rightarrow> 'a result \<times> exec_store) \<Rightarrow> ('e, 'a) exec_op" where
  "on_store f = seq_op suspend (\<lambda>w. case f (world_store w) of (r, st) \<Rightarrow> (r, put_store st w))"

definition on_env :: "('e \<Rightarrow> 'a result \<times> 'e) \<Rightarrow> ('e, 'a) exec_op" where
  "on_env f = seq_op suspend (\<lambda>w. case f (sh_env (wd_shared w)) of (r, e) \<Rightarrow> (r, put_env e w))"

definition with_clock :: "'e executor \<Rightarrow> (time \<Rightarrow> ('e, 'a) exec_op) \<Rightarrow> ('e, 'a) exec_op" where
  "with_clock ex f = read_op (\<lambda>w. f (h_clock (ex_host ex) (sh_env (wd_shared w))))"

definition with_execution :: "(procedure_execution \<Rightarrow> ('e, 'a) exec_op) \<Rightarrow> ('e, 'a) exec_op" where
  "with_execution f = read_op (\<lambda>w. f (wd_execution w))"

definition finally_op :: "('s, 'a) op \<Rightarrow> ('s \<Rightarrow> 's) \<Rightarrow> ('s, 'a) op" where
  "finally_op m cleanup = (\<lambda>s. case m s of (r, t) \<Rightarrow> (r, cleanup t))"

section \<open>Rows\<close>

definition load_op :: "string \<Rightarrow> ('e, int) exec_op" where
  "load_op eid = bind_op (on_store (\<lambda>st. (Inr (load_procedure_execution eid st), st))) (\<lambda>row. case row of
       None \<Rightarrow> raise_op (ProcedureError ''UNKNOWN_EXECUTION'')
     | Some (v, x) \<Rightarrow> seq_op (modify_op (\<lambda>w. w\<lparr>wd_execution := x, wd_known := x\<rparr>)) (ret_op v))"

definition load_operation :: "string \<Rightarrow> ('e, (string \<times> operation_record) option) exec_op" where
  "load_operation key = on_store (\<lambda>st. (Inr (load_procedure_operation key st), st))"

definition pending_operation :: "string \<Rightarrow> ('e, operation_record option) exec_op" where
  "pending_operation sid = with_execution (\<lambda>x.
     bind_op (load_operation (operation_key x sid)) (\<lambda>row. ret_op (map_option snd row)))"

definition write_of :: "journal_write \<Rightarrow> operation_record operation_write" where
  "write_of = (\<lambda>(r, expected). \<lparr>ow_key = or_operation_key r, ow_state = op_state_value (or_state r), ow_record = r,
     ow_expected = expected\<rparr>)"

definition commit_execution :: "int \<Rightarrow> procedure_execution \<Rightarrow> journal_write list \<Rightarrow> exec_store
    \<Rightarrow> (bool \<times> procedure_execution option) result \<times> exec_store" where
  "commit_execution v x ops st =
     (case commit_procedure_transition (pe_execution_id x) v (exec_status_value (pe_status x)) x (map write_of ops) st of
        (r, st') \<Rightarrow> (map_sum id (\<lambda>won. (won, map_option snd (load_procedure_execution (pe_execution_id x) st))) r, st'))"

definition commit :: "'e executor \<Rightarrow> int \<Rightarrow> journal_write list \<Rightarrow> ('e, bool) exec_op" where
  "commit ex v ops = seq_op (with_clock ex (\<lambda>now. set_execution (\<lambda>x. x\<lparr>pe_updated_at := now\<rparr>)))
     (with_execution (\<lambda>x. bind_op (on_store (commit_execution v x ops)) (\<lambda>(won, before).
        seq_op (modify_op (\<lambda>w. w\<lparr>wd_log := wd_log w @ [Commit_Act v (wd_known w) before x ops won], wd_known := x\<rparr>))
          (ret_op won))))"

abbreviation any_state :: "string option" where "any_state \<equiv> Some ''*''"

section \<open>Failing and cancelling\<close>

definition procedure_defects :: "string set" where
  "procedure_defects = {''VALIDATION_FAILED'', ''OUTPUT_SCHEMA_INVALID''}"

text \<open>\<open>_degrade_on_defect\<close>.\<close>

definition degrade_on_defect :: "'e executor \<Rightarrow> string \<Rightarrow> ('e, unit) exec_op" where
  "degrade_on_defect ex code = with_execution (\<lambda>x.
     if code \<notin> procedure_defects then ret_op ()
     else read_op (\<lambda>w. case dict_get (rg_admissions (sh_registry (wd_shared w))) (execution_key x) of
         None \<Rightarrow> ret_op ()
       | Some a \<Rightarrow>
           if ad_status a \<noteq> admission_status.Promoted then ret_op ()
           else with_clock ex (\<lambda>now. \<lambda>w.
             case degrade (ex_codec ex) now (execution_key x) code (sh_registry (wd_shared w)) of (res, r) \<Rightarrow>
               (map_sum id (\<lambda>_. ()) res, w\<lparr>wd_shared := (wd_shared w)\<lparr>sh_registry := r\<rparr>\<rparr>))))"

definition fail :: "'e executor \<Rightarrow> int \<Rightarrow> string \<Rightarrow> ('e, step_outcome) exec_op" where
  "fail ex v code =
     seq_op (set_execution (\<lambda>x. add_evidence (failure_evidence code (pe_current_step_id x)) (with_status Ex_Failed code x)))
    (seq_op (commit ex v [])
    (seq_op (degrade_on_defect ex code)
    (with_execution (\<lambda>x. ret_op (outcome Failed_Step (pe_current_step_id x) code)))))"

definition finish_cancel :: "'e executor \<Rightarrow> int \<Rightarrow> string \<Rightarrow> journal_write list \<Rightarrow> ('e, step_outcome) exec_op" where
  "finish_cancel ex v sid ops =
     seq_op (set_execution (\<lambda>x. x\<lparr>pe_status := Ex_Cancelled,
        pe_status_reason := (if pe_cancel_reason x \<noteq> [] then pe_cancel_reason x else pe_status_reason x),
        pe_wait := None, pe_next_eligible_at := None\<rparr>))
    (bind_op (commit ex v ops) (\<lambda>won. ret_op
       (if won then outcome Cancelled_Step sid [] else outcome Busy sid ''CLAIM_LOST'')))"

section \<open>Tool steps\<close>

definition reads_only :: "adapter_contract \<Rightarrow> bool" where
  "reads_only c \<longleftrightarrow> ac_side_effect c \<in> {Pure, Read}"

text \<open>The loop over the preconditions: the code of the first that does not hold.\<close>

fun precondition_failure :: "scopes \<Rightarrow> obj list \<Rightarrow> string option result" where
  "precondition_failure scopes [] = Inr None"
| "precondition_failure scopes (p # ps) = (case evaluate (PDict p) scopes of
      Inr TTrue \<Rightarrow> precondition_failure scopes ps
    | Inr _ \<Rightarrow> Inr (Some ''PRECONDITION_FAILED'')
    | Inl (PredicateError code) \<Rightarrow> Inr (Some code)
    | Inl e \<Rightarrow> Inl e)"

text \<open>\<open>str(value or "")\<close>.\<close>

definition text_or_empty :: "'e executor \<Rightarrow> pyval \<Rightarrow> string" where
  "text_or_empty ex v = (if \<not> truthy v then [] else case v of PStr s \<Rightarrow> s | _ \<Rightarrow> h_str (ex_host ex) v)"

text \<open>
  \<open>_outside_task_scope\<close>: whether delegated work may not touch what the arguments name; first one
  argument, then the loop over all that name resources.
\<close>

definition outside_scope_of :: "'e executor \<Rightarrow> adapter_contract \<Rightarrow> obj \<Rightarrow> pyval \<Rightarrow> string \<Rightarrow> ('e, bool) exec_op" where
  "outside_scope_of ex c arguments resources name = with_execution (\<lambda>x.
     let mode = (if reads_only c then ''read'' else ''write'');
         requester = text_or_empty ex (get_or (pe_work x) ''requester_id'' PNone)
     in case get_or arguments name PNone of
          PStr raw \<Rightarrow> read_op (\<lambda>w. case h_resolve (ex_host ex) (pe_agent_id x) raw (sh_env (wd_shared w)) of
              None \<Rightarrow> ret_op True
            | Some target \<Rightarrow>
                bind_op (lift_op (bind_res (get_attr resources mode (PList [])) iterate)) (\<lambda>granted.
                if \<not> list_all hashable granted then raise_op TypeError
                else if PStr target \<notin> set granted then ret_op True
                else if requester = [] then ret_op True
                else on_env (\<lambda>e. (Inr (\<not> h_permit (ex_host ex) requester target mode e), e))))
        | _ \<Rightarrow> ret_op True)"

fun outside_scope_any :: "'e executor \<Rightarrow> adapter_contract \<Rightarrow> obj \<Rightarrow> pyval \<Rightarrow> string list \<Rightarrow> ('e, bool) exec_op" where
  "outside_scope_any ex c arguments resources [] = ret_op False"
| "outside_scope_any ex c arguments resources (n # ns) =
     bind_op (outside_scope_of ex c arguments resources n) (\<lambda>refused.
       if refused then ret_op True else outside_scope_any ex c arguments resources ns)"

definition outside_task_scope :: "'e executor \<Rightarrow> adapter_contract \<Rightarrow> pyval \<Rightarrow> ('e, bool) exec_op" where
  "outside_task_scope ex c arguments = with_execution (\<lambda>x.
     if dict_get (pe_work x) ''resources'' = None \<or> ac_resource_arguments c = [] then ret_op False
     else let granted = get_or (pe_work x) ''resources'' PNone;
              resources = (if truthy granted then granted else PDict [])
          in case arguments of
               PDict d \<Rightarrow> outside_scope_any ex c d resources (ac_resource_arguments c)
             | _ \<Rightarrow> raise_op AttributeError)"

definition receipt_evidence :: "procedure_execution \<Rightarrow> tool_step \<Rightarrow> operation_record \<Rightarrow> obj" where
  "receipt_evidence x s r = [(''kind'', PStr ''receipt''), (''step_id'', PStr (ts_id s)),
     (''operation_key'', PStr (or_operation_key r)), (''adapter'', PStr (ts_adapter s)),
     (''occurrence_id'', PStr (pe_occurrence_id x))]"

text \<open>
  The loop that settles a known effect: when the commit lost its version, the receipt is settled
  onto the newer one, three times at most.
\<close>

fun settle_loop :: "'e executor \<Rightarrow> nat \<Rightarrow> int \<Rightarrow> tool_step \<Rightarrow> operation_record \<Rightarrow> obj \<Rightarrow> obj \<Rightarrow> ('e, step_outcome) exec_op" where
  "settle_loop ex 0 v s r res evidence = ret_op (outcome Busy (ts_id s) ''CLAIM_LOST'')"
| "settle_loop ex (Suc n) v s r res evidence = with_execution (\<lambda>x.
     if cancelling x then
       seq_op (set_execution (\<lambda>x. add_evidence evidence (x\<lparr>pe_results := dict_set (ts_id s) (PDict res) (pe_results x),
          pe_completed_steps := pe_completed_steps x @ [ts_id s]\<rparr>)))
         (finish_cancel ex v (ts_id s) [(r, any_state)])
     else
       seq_op (set_execution (\<lambda>x. add_evidence evidence (advance_to (ts_id s) (ts_next s) (PDict res) x)))
      (bind_op (commit ex v [(r, any_state)]) (\<lambda>won.
         if won then ret_op ((outcome Advanced (ts_id s) [])\<lparr>out_result := Some (PDict res)\<rparr>)
         else bind_op (load_op (pe_execution_id x)) (\<lambda>v'.
              bind_op (load_operation (or_operation_key r)) (\<lambda>row. with_execution (\<lambda>x'.
              if exec_terminal x' \<or> map_option fst row \<noteq> Some ''dispatching''
              then ret_op (outcome Busy (ts_id s) ''CLAIM_LOST'')
              else settle_loop ex n v' s r res evidence))))))"

definition settle_success :: "'e executor \<Rightarrow> int \<Rightarrow> tool_step \<Rightarrow> adapter_contract \<Rightarrow> operation_record \<Rightarrow> obj \<Rightarrow> obj option
    \<Rightarrow> ('e, step_outcome) exec_op" where
  "settle_success ex v s c r res receipt = with_clock ex (\<lambda>now.
     let r = r\<lparr>or_state := Op_Applied, or_result := Some res, or_receipt := receipt, or_effect_certainty := ''applied'',
               or_settled_at := Some now\<rparr>
     in bind_op (lift_op (schema_errors (PDict res) (PDict (ac_result_schema c)) ''result'')) (\<lambda>problems.
        if problems \<noteq> [] then
          seq_op (set_execution (with_status Ex_Failed ''RESULT_SCHEMA_INVALID''))
         (seq_op (commit ex v [(r, any_state)]) (ret_op (outcome Failed_Step (ts_id s) ''RESULT_SCHEMA_INVALID'')))
        else with_execution (\<lambda>x. settle_loop ex 3 v s r res (receipt_evidence x s r))))"

definition retry_or_fail :: "'e executor \<Rightarrow> int \<Rightarrow> tool_step \<Rightarrow> operation_record \<Rightarrow> string \<Rightarrow> ('e, step_outcome) exec_op" where
  "retry_or_fail ex v s r code = with_execution (\<lambda>x.
     if attempts_of x (ts_id s) < ts_max_attempts s then
       seq_op (with_clock ex (\<lambda>now. set_execution (\<lambda>x. x\<lparr>
          pe_next_eligible_at := Some (now + seconds (2 ^ nat (attempts_of x (ts_id s)))),
          pe_status := Ex_Waiting, pe_wait := Some [(''reason'', PStr ''retry''), (''code'', PStr code)]\<rparr>)))
      (seq_op (commit ex v [(r, any_state)]) (ret_op (outcome Waits (ts_id s) ''WAITING_RETRY'')))
     else
       seq_op (set_execution (with_status Ex_Failed code))
      (seq_op (commit ex v [(r, any_state)]) (ret_op (outcome Failed_Step (ts_id s) code))))"

text \<open>\<open>invoke\<close> under \<open>wait_for\<close>, with the key in flight meanwhile.\<close>

definition invoke_adapter :: "'e executor \<Rightarrow> adapter_contract \<Rightarrow> operation_record \<Rightarrow> ('e, adapter_result option) exec_op" where
  "invoke_adapter ex c r = with_execution (\<lambda>x.
     seq_op (modify_op (\<lambda>w. w\<lparr>wd_in_flight := insert (or_operation_key r) (wd_in_flight w)\<rparr>))
    (finally_op
       (seq_op (modify_op (add_log (Invoke_Act (ac_adapter_id c) (or_operation_key r) (or_arguments r))))
       (bind_op (on_env (h_invoke (ex_host ex) (pe_agent_id x) (ac_adapter_id c) (or_operation_key r) (or_arguments r))) (\<lambda>res.
        read_op (\<lambda>w. case h_fault (ex_host ex) ''after_effect'' (or_operation_key r) (sh_env (wd_shared w)) of
            Some e \<Rightarrow> raise_op e | None \<Rightarrow> ret_op res))))
       (\<lambda>w. w\<lparr>wd_in_flight := wd_in_flight w - {or_operation_key r}\<rparr>)))"

definition dispatch :: "'e executor \<Rightarrow> int \<Rightarrow> tool_step \<Rightarrow> adapter_contract \<Rightarrow> operation_record \<Rightarrow> ('e, step_outcome) exec_op" where
  "dispatch ex v s c r = bind_op (invoke_adapter ex c r) (\<lambda>res. with_clock ex (\<lambda>now.
     let r = r\<lparr>or_settled_at := Some now\<rparr> in case res of
       None \<Rightarrow>
         if reads_only c then retry_or_fail ex v s (r\<lparr>or_state := Op_Rejected, or_error := ''TIMEOUT''\<rparr>) ''TIMEOUT''
         else
           seq_op (set_execution (with_status Ex_Needs_Reconciliation (or_operation_key r @ '': outcome unknown after timeout'')))
          (seq_op (commit ex v [(r\<lparr>or_state := Op_Unknown, or_error := ''TIMEOUT''\<rparr>, Some ''dispatching'')])
          (ret_op (outcome Must_Reconcile (ts_id s) ''UNKNOWN_EFFECT'')))
     | Some a \<Rightarrow>
         if \<not> ar_ok a then
           let r = r\<lparr>or_state := Op_Rejected, or_error := ar_code a, or_effect_certainty := ''not_applied''\<rparr>
           in if ar_denied a \<or> \<not> ar_retryable a then
                seq_op (set_execution (\<lambda>x. add_evidence (failure_evidence (ar_code a) (ts_id s)) (with_status Ex_Failed (ar_code a) x)))
               (seq_op (commit ex v [(r, Some ''dispatching'')]) (ret_op (outcome Failed_Step (ts_id s) (ar_code a))))
              else retry_or_fail ex v s r (ar_code a)
         else settle_success ex v s c r (case ar_result a of None \<Rightarrow> [] | Some d \<Rightarrow> d) (ar_receipt a)))"

definition fault :: "'e executor \<Rightarrow> string \<Rightarrow> string \<Rightarrow> ('e, unit) exec_op" where
  "fault ex point key = read_op (\<lambda>w. case h_fault (ex_host ex) point key (sh_env (wd_shared w)) of
     Some e \<Rightarrow> raise_op e | None \<Rightarrow> ret_op ())"

text \<open>The claim of a tool step, and the dispatch of what was claimed.\<close>

definition claim_tool :: "'e executor \<Rightarrow> int \<Rightarrow> tool_step \<Rightarrow> adapter_contract \<Rightarrow> obj \<Rightarrow> operation_record option \<Rightarrow> ('e, step_outcome) exec_op" where
  "claim_tool ex v s c arguments prior = with_execution (\<lambda>x. with_clock ex (\<lambda>now.
     let key = operation_key x (ts_id s);
         digest = h_digest (ex_host ex) (h_canonical (ex_host ex) (PDict arguments));
         attempts = attempts_of x (ts_id s);
         r = (new_operation now key x (ts_id s) ''tool'' digest Op_Dispatching)
               \<lparr>or_adapter := ts_adapter s, or_contract_version := ts_contract_version s, or_arguments := arguments,
                or_attempt := attempts + 1\<rparr>
     in if (case prior of None \<Rightarrow> False | Some p \<Rightarrow> or_argument_digest p \<noteq> digest) then fail ex v ''OPERATION_CONFLICT''
        else if attempts \<ge> ts_max_attempts s then fail ex v ''STEP_ATTEMPTS_EXHAUSTED''
        else seq_op (set_execution (\<lambda>x. x\<lparr>pe_step_attempts := dict_set (ts_id s) (attempts + 1) (pe_step_attempts x),
               pe_budget := (pe_budget x)\<lparr>bg_tool_attempts := bg_tool_attempts (pe_budget x) + 1,
                 bg_step_attempts := bg_step_attempts (pe_budget x) + 1\<rparr>\<rparr>))
             (bind_op (commit ex v [(r, map_option (\<lambda>p. op_state_value (or_state p)) prior)]) (\<lambda>won.
                if \<not> won then ret_op (outcome Busy (ts_id s) ''CLAIM_LOST'')
                else seq_op (fault ex ''after_claim'' key) (dispatch ex (v + 1) s c r)))))"

definition run_tool :: "'e executor \<Rightarrow> int \<Rightarrow> procedure_definition \<Rightarrow> tool_step \<Rightarrow> ('e, step_outcome) exec_op" where
  "run_tool ex v d s = (case dict_get (ex_adapters ex) (ts_adapter s) of
       None \<Rightarrow> fail ex v ''CONTRACT_CHANGED''
     | Some c \<Rightarrow>
         if ac_contract_version c \<noteq> ts_contract_version s then fail ex v ''CONTRACT_CHANGED''
         else with_execution (\<lambda>x. read_op (\<lambda>w.
           if \<not> set (ac_required_capabilities c) \<subseteq> h_capabilities (ex_host ex) (pe_agent_id x) (sh_env (wd_shared w))
           then fail ex v ''PERMISSION_DENIED''
           else bind_op (lift_op (precondition_failure (exec_scopes x (Some d)) (pd_preconditions d))) (\<lambda>unmet. case unmet of
               Some code \<Rightarrow> fail ex v code
             | None \<Rightarrow>
                 bind_op (lift_op (resolve (PDict (ts_arguments s)) (exec_scopes x (Some d)) ''$'')) (\<lambda>arguments.
                 bind_op (lift_op (schema_errors arguments (PDict (ac_argument_schema c)) ''arguments'')) (\<lambda>problems.
                 if problems \<noteq> [] then fail ex v ''INVALID_ARGUMENTS''
                 else if bg_tool_attempts (pe_budget x) \<ge> bg_max_tool_attempts (pe_budget x) then fail ex v ''BUDGET_EXHAUSTED''
                 else bind_op (outside_task_scope ex c arguments) (\<lambda>refused.
                   if refused then fail ex v ''PERMISSION_DENIED''
                   else bind_op (pending_operation (ts_id s)) (\<lambda>prior. case arguments of
                       PDict args \<Rightarrow> claim_tool ex v s c args prior
                     | _ \<Rightarrow> raise_op (ValueError ''OperationRecord''))))))))) "

section \<open>Recovery\<close>

definition repeat_later :: "'e executor \<Rightarrow> int \<Rightarrow> string \<Rightarrow> operation_record \<Rightarrow> ('e, step_outcome) exec_op" where
  \<comment> \<open>what did not happen is cancelled with the execution, or the step becomes runnable again\<close>
  "repeat_later ex v sid r = with_execution (\<lambda>x.
     if cancelling x then finish_cancel ex v sid [(r, any_state)]
     else seq_op (set_execution (\<lambda>x. x\<lparr>pe_status := Ex_Running\<rparr>))
         (seq_op (commit ex v [(r, any_state)]) (ret_op (outcome Waits sid ''RECOVERED''))))"

definition unresolved :: "'e executor \<Rightarrow> int \<Rightarrow> string \<Rightarrow> operation_record \<Rightarrow> string \<Rightarrow> ('e, step_outcome) exec_op" where
  "unresolved ex v sid r why =
     seq_op (set_execution (with_status Ex_Needs_Reconciliation (or_operation_key r @ why)))
    (seq_op (commit ex v [(r\<lparr>or_state := Op_Unknown\<rparr>, any_state)]) (ret_op (outcome Must_Reconcile sid ''UNRESOLVED_EFFECT'')))"

definition lost :: "operation_record \<Rightarrow> operation_record" where
  "lost r = r\<lparr>or_state := Op_Rejected, or_error := ''LOST_IN_FLIGHT''\<rparr>"

fun reconcile_name :: "reconcile_state \<Rightarrow> string" where
  "reconcile_name Rec_Applied = ''applied''"
| "reconcile_name Rec_Not_Applied = ''not_applied''"
| "reconcile_name Rec_Unknown = ''unknown''"
| "reconcile_name Rec_Conflict = ''conflict''"

definition reconcile_tool :: "'e executor \<Rightarrow> int \<Rightarrow> tool_step \<Rightarrow> adapter_contract \<Rightarrow> operation_record \<Rightarrow> ('e, step_outcome) exec_op" where
  "reconcile_tool ex v s c r = with_execution (\<lambda>x.
     seq_op (modify_op (add_log (Reconcile_Act (ac_adapter_id c) (or_operation_key r) (or_arguments r))))
    (bind_op (on_env (h_reconcile (ex_host ex) (pe_agent_id x) (ac_adapter_id c) (or_operation_key r) (or_arguments r))) (\<lambda>(state, res).
       if state = Rec_Applied \<and> res \<noteq> None then
         seq_op (set_execution (\<lambda>x. if cancelling x then x else x\<lparr>pe_status := Ex_Running\<rparr>))
                (settle_success ex v s c r (the res) (Some [(''reconciled'', PBool True)]))
       else if state = Rec_Not_Applied then
         seq_op (set_execution (release_attempt (ts_id s)))
                (repeat_later ex v (ts_id s) (r\<lparr>or_state := Op_Rejected, or_error := ''NOT_APPLIED''\<rparr>))
       else unresolved ex v (ts_id s) r ('': reconciliation says '' @ reconcile_name state))))"

definition recover :: "'e executor \<Rightarrow> int \<Rightarrow> step \<Rightarrow> operation_record \<Rightarrow> ('e, step_outcome) exec_op" where
  "recover ex v st r = (case st of
       Tool s \<Rightarrow>
         (case dict_get (ex_adapters ex) (ts_adapter s) of
            None \<Rightarrow> fail ex v ''CONTRACT_CHANGED''
          | Some c \<Rightarrow>
              if ac_retry c = Retry_Safe then
                seq_op (set_execution (release_attempt (ts_id s))) (repeat_later ex v (ts_id s) (lost r))
              else if \<not> ac_reconcile_supported c \<and> ac_retry c \<noteq> Retry_Idempotent then
                unresolved ex v (ts_id s) r '': cannot prove whether it applied''
              else reconcile_tool ex v s c r)
     | _ \<Rightarrow> with_execution (\<lambda>x.
         if cancelling x then finish_cancel ex v (step_id st) [(lost r, any_state)]
         else seq_op (commit ex v [(lost r, any_state)]) (ret_op (outcome Waits (step_id st) ''RECOVERED''))))"

end
