(* ===== verification/Exec_Steps.thy ===== *)
theory Exec_Steps
  imports Exec_Core
begin

text \<open>
  The other steps of the executor (cognitive, branch, validate, complete, delegate, await), one
  \<open>advance\<close>, and the operations around it: starting, cancelling, pausing, reconciling by hand and
  settling a delegated child.  The texts of problems are kept short; a point in time in a wait
  record is the number it stands for.
\<close>

section \<open>Cognitive steps\<close>

text \<open>What is left of the text after the first place where \<open>pat\<close> ends.\<close>

fun after_first :: "string \<Rightarrow> string \<Rightarrow> string option" where
  "after_first pat [] = (if pat = [] then Some [] else None)"
| "after_first pat (c # cs) = (if prefix pat (c # cs) then Some (drop (length pat) (c # cs)) else after_first pat cs)"

lemma after_first_shorter: "after_first pat s = Some r \<Longrightarrow> length r \<le> length s"
  by (induction pat s rule: after_first.induct) (auto split: if_splits)

text \<open>\<open>re.sub(r"<think>.*?</think>", "", text)\<close>.\<close>

function strip_think :: "string \<Rightarrow> string" where
  "strip_think [] = []"
| "strip_think (c # cs) =
     (if prefix ''<think>'' (c # cs) then
        (case after_first ''</think>'' (drop 7 (c # cs)) of None \<Rightarrow> c # cs | Some rest \<Rightarrow> strip_think rest)
      else c # strip_think cs)"
  by pat_completeness auto
termination
  by (relation "measure length") (auto dest!: after_first_shorter)

text \<open>The longest match of \<open>\{.*\}\<close> at the first place where there is one.\<close>

definition json_span :: "string \<Rightarrow> string option" where
  "json_span s = (let from = dropWhile (\<lambda>c. c \<noteq> CHR 0x7B) s;
       upto = rev (dropWhile (\<lambda>c. c \<noteq> CHR 0x7D) (rev from))
     in if from = [] \<or> upto = [] then None else Some upto)"

definition describe :: "value_error \<Rightarrow> string" where
  "describe = (\<lambda>(path, check). path @ '': '' @ check)"

definition tool_call_keys :: "string set" where
  "tool_call_keys = {''tool_calls'', ''tool'', ''function_call''}"

text \<open>\<open>_parse_output\<close>.\<close>

definition parse_output :: "'e host \<Rightarrow> string \<Rightarrow> output_contract \<Rightarrow> pyval \<Rightarrow> (pyval \<times> string list) result" where
  "parse_output h raw c inputs = (case json_span (py_strip (strip_think raw)) of
       None \<Rightarrow> Inr (PNone, [''no JSON object in the reply''])
     | Some s \<Rightarrow> (case h_json h s of
         None \<Rightarrow> Inr (PNone, [''invalid JSON''])
       | Some v \<Rightarrow>
           if (case v of PDict d \<Rightarrow> tool_call_keys \<inter> fst ` set d \<noteq> {} | _ \<Rightarrow> False)
           then Inr (PNone, [''UNEXPECTED_TOOL_CALL: a cognitive step may not call tools''])
           else bind_res (schema_errors v (PDict (oc_schema c)) ''output'') (\<lambda>errors.
             if errors \<noteq> [] then Inr (v, map describe errors)
             else (case oc_semantic_check c of
                 None \<Rightarrow> Inr (v, [])
               | Some check \<Rightarrow> (case inputs of
                     PDict d \<Rightarrow> map_sum id (\<lambda>problems. (v, problems)) (check v d)
                   | _ \<Rightarrow> Inl TypeError)))))"

definition cognitive_prompt :: "'e host \<Rightarrow> cognitive_step \<Rightarrow> output_contract \<Rightarrow> pyval \<Rightarrow> string" where
  "cognitive_prompt h s c inputs = cs_instruction s @ [CHR 0x0A, CHR 0x0A] @ ''INPUTS (JSON, the only data you may use):''
     @ [CHR 0x0A] @ h_canonical h inputs @ [CHR 0x0A, CHR 0x0A]
     @ ''Reply with exactly one JSON object and nothing else, matching this schema:''
     @ [CHR 0x0A] @ h_canonical h (PDict (oc_schema c))"

definition feedback_of :: "string \<Rightarrow> string" where
  "feedback_of error = [CHR 0x0A, CHR 0x0A] @ ''Your previous reply was rejected: '' @ error
     @ ''. Reply again with only the JSON object.''"

definition cognitive_evidence :: "cognitive_step \<Rightarrow> int \<Rightarrow> obj" where
  "cognitive_evidence s calls = [(''kind'', PStr ''cognitive''), (''step_id'', PStr (cs_id s)), (''calls'', PInt calls),
     (''schema'', PStr (cs_output_schema s)), (''model_generated'', PBool True)]"

text \<open>A reply: what a valid one becomes, what a rejected one leads to; \<open>again\<close> is the next turn of the loop.\<close>

definition judge_reply :: "'e executor \<Rightarrow> int \<Rightarrow> cognitive_step \<Rightarrow> output_contract \<Rightarrow> pyval \<Rightarrow> operation_record \<Rightarrow> int \<Rightarrow> string
    \<Rightarrow> (string \<Rightarrow> ('e, step_outcome) exec_op) \<Rightarrow> ('e, step_outcome) exec_op" where
  "judge_reply ex v s c inputs r attempts reply again = with_clock ex (\<lambda>now.
     bind_op (lift_op (parse_output (ex_host ex) reply c inputs)) (\<lambda>(parsed, problems).
       let r = r\<lparr>or_state := Op_Applied, or_settled_at := Some now, or_result := Some [(''valid'', PBool (problems = []))]\<rparr>
       in if problems = [] then
            seq_op (set_execution (\<lambda>x. add_evidence (cognitive_evidence s (attempts + 1)) (advance_to (cs_id s) (cs_next s) parsed x)))
           (seq_op (commit ex v [(r, any_state)])
           (ret_op ((outcome Advanced (cs_id s) [])\<lparr>out_result := Some parsed\<rparr>)))
          else
            let error = py_join ''; '' (take 3 problems)
            in seq_op (commit ex v [(r\<lparr>or_error := error\<rparr>, any_state)])
              (if prefix ''UNEXPECTED_TOOL_CALL'' (hd problems) then fail ex (v + 1) ''UNEXPECTED_TOOL_CALL'' else again error)))"

definition ask_model :: "'e executor \<Rightarrow> int \<Rightarrow> cognitive_step \<Rightarrow> output_contract \<Rightarrow> pyval \<Rightarrow> string \<Rightarrow> operation_record \<Rightarrow> int
    \<Rightarrow> (string \<Rightarrow> ('e, step_outcome) exec_op) \<Rightarrow> ('e, step_outcome) exec_op" where
  "ask_model ex v s c inputs prompt r attempts again = with_execution (\<lambda>x.
     seq_op (modify_op (add_log (Think_Act (or_operation_key r))))
       (\<lambda>w. case on_env (h_think (ex_host ex) (pe_agent_id x) prompt s (pe_goal_id x)) w of
          (Inl e, w) \<Rightarrow>
            seq_op (commit ex v [(r\<lparr>or_state := Op_Rejected, or_error := ''MODEL_UNAVAILABLE''\<rparr>, any_state)])
                   (fail ex (v + 1) ''MODEL_UNAVAILABLE'') w
        | (Inr reply, w) \<Rightarrow> judge_reply ex v s c inputs r attempts reply again w))"

text \<open>
  The loop over the model calls; the first argument is the number of calls the step still allows,
  so \<open>attempts\<close> and it always sum to the same.
\<close>

fun cognitive_loop :: "'e executor \<Rightarrow> nat \<Rightarrow> int \<Rightarrow> cognitive_step \<Rightarrow> output_contract \<Rightarrow> pyval \<Rightarrow> string \<Rightarrow> string \<Rightarrow> int
    \<Rightarrow> ('e, step_outcome) exec_op" where
  "cognitive_loop ex 0 v s c inputs prompt feedback attempts = fail ex v ''COGNITIVE_OUTPUT_INVALID''"
| "cognitive_loop ex (Suc n) v s c inputs prompt feedback attempts = with_execution (\<lambda>x.
     if bg_model_calls (pe_budget x) \<ge> bg_max_model_calls (pe_budget x) then fail ex v ''BUDGET_EXHAUSTED''
     else
       seq_op (set_execution (\<lambda>x. x\<lparr>pe_step_attempts := dict_set (cs_id s) (attempts + 1) (pe_step_attempts x),
          pe_budget := (pe_budget x)\<lparr>bg_model_calls := bg_model_calls (pe_budget x) + 1,
            bg_step_attempts := bg_step_attempts (pe_budget x) + 1\<rparr>\<rparr>))
      (with_clock ex (\<lambda>now.
       let r = (new_operation now (operation_key x (cs_id s) @ ''#'' @ show_int (attempts + 1)) x (cs_id s) ''cognitive''
                  (h_digest (ex_host ex) prompt) Op_Dispatching)\<lparr>or_attempt := attempts + 1\<rparr>
       in bind_op (commit ex v [(r, None)]) (\<lambda>won.
         if \<not> won then ret_op (outcome Busy (cs_id s) ''CLAIM_LOST'')
         else ask_model ex (v + 1) s c inputs (prompt @ feedback) r attempts
           (\<lambda>error. cognitive_loop ex n (v + 2) s c inputs prompt (feedback_of error) (attempts + 1))))))"

definition run_cognitive :: "'e executor \<Rightarrow> int \<Rightarrow> cognitive_step \<Rightarrow> ('e, step_outcome) exec_op" where
  "run_cognitive ex v s = with_execution (\<lambda>x. read_op (\<lambda>w.
     case dict_get (outputs (rg_catalog (sh_registry (wd_shared w)))) (cs_output_schema s) of
       None \<Rightarrow> fail ex v ''UNKNOWN_OUTPUT_SCHEMA''
     | Some c \<Rightarrow>
         bind_op (lift_op (resolve (PDict (cs_inputs s)) (exec_scopes x None) ''$'')) (\<lambda>inputs.
         let prompt = cognitive_prompt (ex_host ex) s c inputs; attempts = attempts_of x (cs_id s)
         in if length prompt > max_inline_result_bytes (ex_limits ex) then fail ex v ''CONTEXT_BUDGET_EXCEEDED''
            else cognitive_loop ex (nat (cs_max_model_calls s + cs_repair_calls s - attempts)) v s c inputs prompt [] attempts)))"

section \<open>Branch, validate, complete\<close>

text \<open>\<open>self._definition(execution)\<close>: a key that is gone raises.\<close>

definition the_definition :: "procedure_execution \<Rightarrow> (procedure_definition \<Rightarrow> ('e, 'a) exec_op) \<Rightarrow> ('e, 'a) exec_op" where
  "the_definition x f = read_op (\<lambda>w. case dict_get (rg_definitions (sh_registry (wd_shared w))) (execution_key x) of
       None \<Rightarrow> raise_op (KeyError (execution_key x)) | Some d \<Rightarrow> f d)"

definition count_step :: "('e, unit) exec_op" where
  "count_step = set_execution (\<lambda>x. x\<lparr>pe_budget := (pe_budget x)\<lparr>bg_step_attempts := bg_step_attempts (pe_budget x) + 1\<rparr>\<rparr>)"

definition run_branch :: "'e executor \<Rightarrow> int \<Rightarrow> branch_step \<Rightarrow> ('e, step_outcome) exec_op" where
  "run_branch ex v s = with_execution (\<lambda>x. the_definition x (\<lambda>d.
     case evaluate (PDict (bs_predicate s)) (exec_scopes x (Some d)) of
       Inl (PredicateError code) \<Rightarrow> fail ex v code
     | Inl e \<Rightarrow> raise_op e
     | Inr TUnknown \<Rightarrow> fail ex v ''PREDICATE_UNRESOLVED''
     | Inr t \<Rightarrow>
         let taken = PDict [(''taken'', PStr (if t = TTrue then ''then'' else ''else''))]
         in seq_op count_step
           (seq_op (set_execution (advance_to (bs_id s) (if t = TTrue then bs_then s else bs_else s) taken))
           (seq_op (commit ex v []) (ret_op ((outcome Advanced (bs_id s) [])\<lparr>out_result := Some taken\<rparr>))))))"

definition dict_update :: "obj \<Rightarrow> obj \<Rightarrow> obj" where
  \<comment> \<open>\<open>{**d, **e}\<close>\<close>
  "dict_update d e = fold (\<lambda>(k, v). dict_set k v) e d"

definition validator_evidence :: "procedure_execution \<Rightarrow> validate_step \<Rightarrow> check_outcome \<Rightarrow> obj" where
  "validator_evidence x s res = dict_update
     [(''kind'', PStr ''validator''), (''check'', PStr (vs_check s)), (''passed'', PBool (ck_passed res)),
      (''occurrence_id'', PStr (pe_occurrence_id x)), (''execution_id'', PStr (pe_execution_id x)),
      (''step_id'', PStr (vs_id s)), (''reason'', PStr (ck_reason res))] (ck_evidence res)"

definition list_operations :: "string \<Rightarrow> ('e, operation_record list) exec_op" where
  "list_operations eid = on_store (\<lambda>st. (Inr (map snd (list_procedure_operations eid st)), st))"

definition run_validate :: "'e executor \<Rightarrow> int \<Rightarrow> validate_step \<Rightarrow> ('e, step_outcome) exec_op" where
  "run_validate ex v s = (case dict_get (ex_checks ex) (vs_check s) of
       None \<Rightarrow> fail ex v ''UNKNOWN_CHECK''
     | Some c \<Rightarrow> with_execution (\<lambda>x. the_definition x (\<lambda>d.
         bind_op (lift_op (resolve (PDict (vs_arguments s)) (exec_scopes x (Some d)) ''$'')) (\<lambda>arguments.
         bind_op (lift_op (schema_errors arguments (PDict (cc_argument_schema c)) ''arguments'')) (\<lambda>problems.
         if problems \<noteq> [] then fail ex v ''INVALID_ARGUMENTS''
         else bind_op (list_operations (pe_execution_id x)) (\<lambda>ops.
              bind_op (on_env (h_check (ex_host ex) (vs_check s) (case arguments of PDict a \<Rightarrow> a | _ \<Rightarrow> []) x ops)) (\<lambda>res.
              let evidence = validator_evidence x s res
              in seq_op count_step
                (seq_op (set_execution (add_evidence evidence))
                (if \<not> ck_passed res then
                   seq_op (set_execution (with_status Ex_Failed ''VALIDATION_FAILED''))
                  (seq_op (commit ex v [])
                  (seq_op (degrade_on_defect ex ''VALIDATION_FAILED'')
                  (ret_op ((outcome Failed_Step (vs_id s) ''VALIDATION_FAILED'')\<lparr>out_evidence := [evidence]\<rparr>))))
                 else
                   seq_op (set_execution (advance_to (vs_id s) (vs_next s)
                     (PDict (dict_update [(''passed'', PBool True)] (ck_evidence res)))))
                  (seq_op (commit ex v [])
                  (ret_op ((outcome Advanced (vs_id s) [])\<lparr>out_result := Some (PDict evidence), out_evidence := [evidence]\<rparr>))))))))))))"

definition run_complete :: "'e executor \<Rightarrow> int \<Rightarrow> procedure_definition \<Rightarrow> complete_step \<Rightarrow> ('e, step_outcome) exec_op" where
  "run_complete ex v d s = with_execution (\<lambda>x.
     bind_op (lift_op (resolve (PDict (ks_result s)) (exec_scopes x (Some d)) ''$'')) (\<lambda>res.
     bind_op (lift_op (schema_errors res (PDict (pd_output_schema d)) ''output'')) (\<lambda>problems.
     if problems \<noteq> [] then fail ex v ''OUTPUT_SCHEMA_INVALID''
     else seq_op (set_execution (\<lambda>x. (with_status Ex_Completed ''graph completed'' x)
            \<lparr>pe_output := Some res, pe_completed_steps := pe_completed_steps x @ [ks_id s]\<rparr>))
         (seq_op (commit ex v [])
         (with_execution (\<lambda>x. ret_op ((outcome Completed_Step (ks_id s) [])\<lparr>out_result := Some res, out_evidence := pe_evidence x\<rparr>)))))))"

section \<open>Delegation\<close>

definition child_work_id :: "'e host \<Rightarrow> procedure_execution \<Rightarrow> string \<Rightarrow> string" where
  "child_work_id h x sid = ''w'' @ take 15 (h_digest h (pe_execution_id x @ '':'' @ sid))"

definition delegate_key :: "string \<Rightarrow> string" where
  "delegate_key work_id = ''delegate:'' @ work_id"

definition assignee_of :: "operation_record \<Rightarrow> string option" where
  "assignee_of r = (case or_child r of None \<Rightarrow> None | Some ch \<Rightarrow>
     (case ch_assignee ch of None \<Rightarrow> None | Some a \<Rightarrow> if a = [] then None else Some a))"

text \<open>\<open>_deliver\<close>; the row moves from the state of the record to itself.\<close>

definition deliver :: "'e executor \<Rightarrow> operation_record \<Rightarrow> ('e, unit) exec_op" where
  "deliver ex r = with_execution (\<lambda>x. case or_work r of
       None \<Rightarrow> raise_op (KeyError ''work'')
     | Some work \<Rightarrow>
         let assignee = (case or_child r of None \<Rightarrow> ''None'' | Some ch \<Rightarrow>
                           (case ch_assignee ch of None \<Rightarrow> ''None'' | Some a \<Rightarrow> a))
         in seq_op (on_env (h_deliver (ex_host ex) work (pe_agent_id x) assignee))
           (seq_op (on_store (\<lambda>st. case update_procedure_operation (or_operation_key r) (op_state_value (or_state r))
                (op_state_value (or_state r)) (r\<lparr>or_delivered := True\<rparr>) st of (b, st') \<Rightarrow> (Inr b, st')))
           (ret_op ())))"

text \<open>The list of identifiers in a work record.\<close>

definition strings_of :: "pyval \<Rightarrow> string list result" where
  "strings_of v = bind_res (iterate v) (map_res (\<lambda>u. case u of PStr s \<Rightarrow> Inr s | _ \<Rightarrow> Inl (ValueError ''str'')))"

definition child_item :: "'e host \<Rightarrow> time \<Rightarrow> procedure_execution \<Rightarrow> delegate_step \<Rightarrow> string list \<Rightarrow> int \<Rightarrow> obj \<Rightarrow> work_item" where
  "child_item h now x s chain depth inputs =
     (new_work (child_work_id h x (ds_id s)) now (pe_goal_id x) (ds_objective s))
       \<lparr>w_requester_agent_id := Some (pe_agent_id x), w_type := ds_work_kind s,
        w_required_capabilities := ds_required_capabilities s, w_inputs := inputs,
        w_expected_outputs := [ds_output_schema s], w_success_conditions := [ds_success_contract s],
        w_deadline := Some (min (now + seconds (db_deadline_seconds (ds_budget s))) (pe_deadline_at x)),
        w_causation_chain := chain @ [pe_agent_id x], w_delegation_depth := depth,
        w_budget := \<lparr>wb_max_attempts = db_max_attempts (ds_budget s), wb_max_model_calls = Some (db_max_model_calls (ds_budget s)),
          wb_max_seconds = Some (db_deadline_seconds (ds_budget s)),
          wb_max_delegation_depth = bg_max_delegation_depth (pe_budget x)\<rparr>\<rparr>"

definition work_result :: "string \<Rightarrow> pyval" where
  "work_result work_id = PDict [(''work_item_id'', PStr work_id)]"

text \<open>A child that exists already: the cursor moves, and what was not delivered is.\<close>

definition rejoin_child :: "'e executor \<Rightarrow> int \<Rightarrow> delegate_step \<Rightarrow> string \<Rightarrow> operation_record \<Rightarrow> ('e, step_outcome) exec_op" where
  "rejoin_child ex v s work_id r =
     seq_op (set_execution (advance_to (ds_id s) (ds_next s) (work_result work_id)))
    (seq_op (commit ex v [])
    (seq_op (if \<not> or_delivered r \<and> assignee_of r \<noteq> None then deliver ex r else ret_op ())
    (ret_op ((outcome Advanced (ds_id s) [])\<lparr>out_result := Some (work_result work_id)\<rparr>))))"

definition assign_child :: "'e executor \<Rightarrow> int \<Rightarrow> delegate_step \<Rightarrow> work_item \<Rightarrow> obj \<Rightarrow> string \<Rightarrow> ('e, step_outcome) exec_op" where
  "assign_child ex v s work inputs assignee = with_execution (\<lambda>x. with_clock ex (\<lambda>now.
     let r = (new_operation now (delegate_key (w_id work)) x (ds_id s) ''delegate''
                (h_digest (ex_host ex) (h_canonical (ex_host ex) (PDict inputs))) Op_Waiting)
             \<lparr>or_work := Some (work_assign now assignee work),
              or_child := Some \<lparr>ch_status = ''assigned'', ch_assignee = Some assignee, ch_result = PNone, ch_evidence = [],
                ch_executor = None\<rparr>\<rparr>
     in seq_op (set_execution (\<lambda>x. advance_to (ds_id s) (ds_next s) (work_result (w_id work))
            (x\<lparr>pe_budget := (pe_budget x)\<lparr>bg_child_reserved := bg_child_reserved (pe_budget x) + db_max_model_calls (ds_budget s),
                bg_step_attempts := bg_step_attempts (pe_budget x) + 1\<rparr>\<rparr>)))
       (bind_op (commit ex v [(r, None)]) (\<lambda>won.
          if \<not> won then ret_op (outcome Busy (ds_id s) ''CLAIM_LOST'')
          else seq_op (deliver ex r)
              (ret_op ((outcome Advanced (ds_id s) [])\<lparr>out_result := Some (work_result (w_id work))\<rparr>))))))"

definition run_delegate :: "'e executor \<Rightarrow> int \<Rightarrow> delegate_step \<Rightarrow> ('e, step_outcome) exec_op" where
  "run_delegate ex v s = with_execution (\<lambda>x.
     let work_id = child_work_id (ex_host ex) x (ds_id s) in
     bind_op (load_operation (delegate_key work_id)) (\<lambda>existing. case existing of
       Some (_, r) \<Rightarrow> rejoin_child ex v s work_id r
     | None \<Rightarrow>
         bind_op (lift_op (strings_of (get_or (pe_work x) ''causation_chain'' (PList [])))) (\<lambda>chain.
         bind_op (lift_op (int_of_value (get_or (pe_work x) ''delegation_depth'' (PInt 0)))) (\<lambda>outer.
         if outer + 1 > bg_max_delegation_depth (pe_budget x) then fail ex v ''DELEGATION_DEPTH_EXCEEDED''
         else if bg_child_reserved (pe_budget x) + db_max_model_calls (ds_budget s) > bg_max_child_model_calls (pe_budget x)
         then fail ex v ''BUDGET_EXHAUSTED''
         else bind_op (lift_op (resolve (PDict (ds_inputs s)) (exec_scopes x None) ''$'')) (\<lambda>bound. case bound of
             PDict inputs \<Rightarrow> with_clock ex (\<lambda>now.
               let work = child_item (ex_host ex) now x s chain (outer + 1) inputs
               in bind_op (on_env (h_route (ex_host ex) work (pe_agent_id x))) (\<lambda>assignee. case assignee of
                    None \<Rightarrow> fail ex v ''NO_ELIGIBLE_PEER''
                  | Some a \<Rightarrow> assign_child ex v s work inputs a))
           | _ \<Rightarrow> raise_op (ValueError ''WorkItem''))))))"

section \<open>Waiting\<close>

text \<open>\<open>_contract_problems\<close>: first one declared contract, then all of them.\<close>

definition passed_checks :: "'e executor \<Rightarrow> obj list \<Rightarrow> string set" where
  "passed_checks ex evidence = set (map
     (\<lambda>e. case get_or e ''check'' PNone of PStr s \<Rightarrow> s | u \<Rightarrow> h_str (ex_host ex) u)
     (filter (\<lambda>e. py_eq (get_or e ''kind'' PNone) (PStr ''validator'') \<and> truthy (get_or e ''passed'' PNone)) evidence))"

definition contract_problem :: "'e executor \<Rightarrow> catalog \<Rightarrow> work_item \<Rightarrow> pyval \<Rightarrow> string set \<Rightarrow> string \<Rightarrow> string list \<Rightarrow> string list result" where
  "contract_problem ex cat work res passed schema_id problems = (case dict_get (outputs cat) schema_id of
       None \<Rightarrow> Inr (problems @ [''unknown contract '' @ schema_id])
     | Some c \<Rightarrow>
         bind_res (schema_errors res (PDict (oc_schema c)) ''child'') (\<lambda>errors.
         let problems = problems @ map describe errors in
         bind_res (case oc_semantic_check c of
              None \<Rightarrow> Inr problems
            | Some check \<Rightarrow> if problems \<noteq> [] then Inr problems else map_sum id (\<lambda>p. problems @ p) (check res (w_inputs work)))
           (\<lambda>problems. Inr (problems @ map (\<lambda>check. schema_id @ '' needs '' @ check)
              (filter (\<lambda>check. check \<notin> passed) (oc_required_evidence c))))))"

definition contract_problems :: "'e executor \<Rightarrow> catalog \<Rightarrow> work_item \<Rightarrow> child_work \<Rightarrow> string list result" where
  "contract_problems ex cat work ch = fold_res
     (contract_problem ex cat work (ch_result ch) (passed_checks ex (ch_evidence ch)))
     (rev (remdups (rev (w_expected_outputs work @ w_success_conditions work)))) []"

definition child_evidence :: "procedure_execution \<Rightarrow> string \<Rightarrow> pyval \<Rightarrow> child_work \<Rightarrow> obj" where
  "child_evidence x sid reference ch = [(''kind'', PStr ''child''), (''step_id'', PStr sid), (''work_item_id'', reference),
     (''executor'', case ch_executor ch of None \<Rightarrow> PNone | Some e \<Rightarrow> PStr e), (''occurrence_id'', PStr (pe_occurrence_id x))]"

text \<open>A settled child: what it must satisfy before the parent moves on.\<close>

definition accept_child :: "'e executor \<Rightarrow> int \<Rightarrow> await_step \<Rightarrow> pyval \<Rightarrow> operation_record \<Rightarrow> child_work \<Rightarrow> ('e, step_outcome) exec_op" where
  "accept_child ex v s reference r ch = read_op (\<lambda>w. let cat = rg_catalog (sh_registry (wd_shared w)) in
     bind_op (lift_op (case as_output_schema s of
         None \<Rightarrow> Inr []
       | Some sch \<Rightarrow> (case dict_get (outputs cat) sch of
             None \<Rightarrow> Inl (KeyError sch)
           | Some c \<Rightarrow> schema_errors (ch_result ch) (PDict (oc_schema c)) ''child''))) (\<lambda>errors.
     if errors \<noteq> [] then fail ex v ''CHILD_RESULT_INVALID''
     else (case or_work r of
         None \<Rightarrow> raise_op (KeyError ''work'')
       | Some work \<Rightarrow>
           bind_op (lift_op (contract_problems ex cat work ch)) (\<lambda>unmet.
           if unmet \<noteq> [] then fail ex v ''CHILD_CONTRACT_UNSATISFIED''
           else seq_op (set_execution (\<lambda>x. add_evidence (child_evidence x (as_id s) reference ch)
                  (advance_to (as_id s) (as_next s) (ch_result ch) x)))
               (seq_op (commit ex v [])
               (ret_op ((outcome Advanced (as_id s) [])\<lparr>out_result := Some (ch_result ch)\<rparr>)))))))"

definition no_child :: child_work where
  "no_child = \<lparr>ch_status = ''None'', ch_assignee = None, ch_result = PNone, ch_evidence = [], ch_executor = None\<rparr>"

definition await_work :: "'e executor \<Rightarrow> int \<Rightarrow> await_step \<Rightarrow> pyval \<Rightarrow> bool \<Rightarrow> ('e, step_outcome) exec_op" where
  "await_work ex v s reference timed_out =
     (let name = (case reference of PStr t \<Rightarrow> t | u \<Rightarrow> h_str (ex_host ex) u) in
      bind_op (load_operation (delegate_key name)) (\<lambda>row. case row of
        None \<Rightarrow> fail ex v ''UNKNOWN_WORK''
      | Some (_, r) \<Rightarrow>
          seq_op (if \<not> or_delivered r \<and> assignee_of r \<noteq> None then deliver ex r else ret_op ())
          (let ch = (case or_child r of None \<Rightarrow> no_child | Some c \<Rightarrow> c) in
           if or_state r = Op_Waiting then
             (if timed_out then fail ex v ''AWAIT_TIMEOUT'' else ret_op (outcome Waits (as_id s) ''WAITING_FOR_CHILD''))
           else if ch_status ch \<noteq> ''completed'' then fail ex v ''CHILD_NOT_COMPLETED''
           else accept_child ex v s reference r ch)))"

definition await_evidence :: "'e executor \<Rightarrow> int \<Rightarrow> await_step \<Rightarrow> pyval \<Rightarrow> bool \<Rightarrow> ('e, step_outcome) exec_op" where
  "await_evidence ex v s reference timed_out = with_execution (\<lambda>x. read_op (\<lambda>w.
     let name = (case reference of PStr t \<Rightarrow> t | u \<Rightarrow> h_str (ex_host ex) u) in
     case h_fact (ex_host ex) name (sh_env (wd_shared w)) of
       Some f \<Rightarrow>
         if wf_created_at f \<ge> pe_created_at x then
           seq_op (set_execution (advance_to (as_id s) (as_next s)
             (PDict [(''value'', wf_value f), (''source'', PStr (wf_source f))])))
          (seq_op (commit ex v []) (ret_op (outcome Advanced (as_id s) [])))
         else if timed_out then fail ex v ''AWAIT_TIMEOUT'' else ret_op (outcome Waits (as_id s) ''WAITING_EVIDENCE'')
     | None \<Rightarrow> if timed_out then fail ex v ''AWAIT_TIMEOUT'' else ret_op (outcome Waits (as_id s) ''WAITING_EVIDENCE'')))"

fun subject_name :: "await_subject \<Rightarrow> string" where
  "subject_name Await_Work = ''work''"
| "subject_name Await_Evidence = ''evidence''"
| "subject_name Await_Time = ''time''"

text \<open>What the wait is for, once the intent to wait is recorded.\<close>

definition wait_for_subject :: "'e executor \<Rightarrow> int \<Rightarrow> await_step \<Rightarrow> time \<Rightarrow> ('e, step_outcome) exec_op" where
  "wait_for_subject ex v s now = with_execution (\<lambda>x.
     bind_op (lift_op (case pe_wait x of None \<Rightarrow> Inl TypeError
       | Some w \<Rightarrow> bind_res (get_item (PDict w) ''since'') (\<lambda>u. case u of PInt t \<Rightarrow> Inr t | _ \<Rightarrow> Inl (ValueError ''isoformat'')))) (\<lambda>since.
     let timed_out = (now \<ge> since + seconds (as_timeout_seconds s)) in
     if as_subject s = Await_Time then
       (if \<not> timed_out then ret_op (outcome Waits (as_id s) ''WAITING_TIME'')
        else seq_op (set_execution (advance_to (as_id s) (as_next s)
               (PDict [(''waited_seconds'', PFloat (Fin (as_timeout_seconds s)))])))
            (seq_op (commit ex v []) (ret_op (outcome Advanced (as_id s) []))))
     else bind_op (lift_op (resolve (as_reference s) (exec_scopes x None) ''$'')) (\<lambda>reference.
       if as_subject s = Await_Evidence then await_evidence ex v s reference timed_out
       else await_work ex v s reference timed_out)))"

definition run_await :: "'e executor \<Rightarrow> int \<Rightarrow> await_step \<Rightarrow> ('e, step_outcome) exec_op" where
  "run_await ex v s = with_clock ex (\<lambda>now. with_execution (\<lambda>x.
     if (case pe_wait x of None \<Rightarrow> True | Some w \<Rightarrow> \<not> py_eq (get_or w ''step_id'' PNone) (PStr (as_id s))) then
       seq_op (set_execution (\<lambda>x. x\<lparr>pe_wait := Some [(''step_id'', PStr (as_id s)),
           (''subject'', PStr (subject_name (as_subject s))), (''since'', PInt now)], pe_status := Ex_Waiting\<rparr>))
      (bind_op (commit ex v []) (\<lambda>won.
         if \<not> won then ret_op (outcome Busy (as_id s) ''CLAIM_LOST'') else wait_for_subject ex (v + 1) s now))
     else wait_for_subject ex v s now))"

section \<open>One step\<close>

definition run_step :: "'e executor \<Rightarrow> int \<Rightarrow> procedure_definition \<Rightarrow> step \<Rightarrow> ('e, step_outcome) exec_op" where
  "run_step ex v d st = (case st of
       Tool s \<Rightarrow> run_tool ex v d s
     | Cognitive s \<Rightarrow> run_cognitive ex v s
     | Branch s \<Rightarrow> run_branch ex v s
     | Validate s \<Rightarrow> run_validate ex v s
     | step.Delegate s \<Rightarrow> run_delegate ex v s
     | Await s \<Rightarrow> run_await ex v s
     | Complete s \<Rightarrow> run_complete ex v d s)"

text \<open>A \<open>BindingError\<close> of the step fails the execution, at the version the advance started from.\<close>

definition guarded_step :: "'e executor \<Rightarrow> int \<Rightarrow> procedure_definition \<Rightarrow> step \<Rightarrow> ('e, step_outcome) exec_op" where
  "guarded_step ex v d st = (\<lambda>w. case run_step ex v d st w of
       (Inl (BindingError code path), w') \<Rightarrow> fail ex v code w'
     | out \<Rightarrow> out)"

definition revoked :: "exec_registry \<Rightarrow> string \<Rightarrow> bool" where
  "revoked r key \<longleftrightarrow> (case dict_get (rg_admissions r) key of
      None \<Rightarrow> True | Some a \<Rightarrow> ad_status a \<in> {admission_status.Retired, admission_status.Invalid})"

definition unsettled :: "op_state \<Rightarrow> bool" where
  "unsettled s \<longleftrightarrow> s \<in> {Op_Dispatching, Op_Unknown}"

text \<open>The part of \<open>_advance\<close> from the definition and the current step on.\<close>

definition advance_step :: "'e executor \<Rightarrow> int \<Rightarrow> procedure_definition \<Rightarrow> step \<Rightarrow> ('e, step_outcome) exec_op" where
  "advance_step ex v d st = with_execution (\<lambda>x.
     if pe_status x = Ex_Paused \<and> \<not> cancelling x then ret_op (outcome Waits (step_id st) ''PAUSED'')
     else bind_op (pending_operation (step_id st)) (\<lambda>pending. read_op (\<lambda>w.
       if (case pending of None \<Rightarrow> False | Some p \<Rightarrow> or_operation_key p \<in> wd_in_flight w)
       then ret_op (outcome Busy (step_id st) ''IN_FLIGHT'')
       else (case (case pending of None \<Rightarrow> None | Some p \<Rightarrow> if unsettled (or_state p) then Some p else None) of
           Some p \<Rightarrow> recover ex v st p
         | None \<Rightarrow>
             if cancelling x then finish_cancel ex v (step_id st) []
             else with_clock ex (\<lambda>now.
               if now \<ge> pe_deadline_at x then fail ex v ''DEADLINE_EXCEEDED''
               else if (case pe_next_eligible_at x of None \<Rightarrow> False | Some t \<Rightarrow> now < t)
               then ret_op (outcome Waits (step_id st) ''WAITING_RETRY'')
               else read_op (\<lambda>w.
                 if revoked (sh_registry (wd_shared w)) (execution_key x) then fail ex v ''ADMISSION_REVOKED''
                 else if bg_step_attempts (pe_budget x) \<ge> bg_max_step_attempts (pe_budget x) then fail ex v ''BUDGET_EXHAUSTED''
                 else guarded_step ex v d st))))))"

definition advance_loaded :: "'e executor \<Rightarrow> int \<Rightarrow> ('e, step_outcome) exec_op" where
  "advance_loaded ex v = with_execution (\<lambda>x. read_op (\<lambda>w.
     if exec_terminal x then ret_op (terminal_outcome x)
     else (case dict_get (rg_definitions (sh_registry (wd_shared w))) (execution_key x) of
         None \<Rightarrow> fail ex v ''DEFINITION_UNAVAILABLE''
       | Some d \<Rightarrow>
           if fx_digest (ex_codec ex) d \<noteq> pe_digest x then fail ex v ''DEFINITION_UNAVAILABLE''
           else bind_op (lift_op (find_step d (pe_current_step_id x))) (advance_step ex v d))))"

definition advance :: "'e executor \<Rightarrow> string \<Rightarrow> ('e, step_outcome) exec_op" where
  "advance ex eid = read_op (\<lambda>w.
     if eid \<in> wd_advancing w then ret_op (outcome Busy [] ''IN_FLIGHT'')
     else seq_op (modify_op (\<lambda>w. w\<lparr>wd_advancing := insert eid (wd_advancing w)\<rparr>))
       (finally_op (bind_op (load_op eid) (advance_loaded ex)) (\<lambda>w. w\<lparr>wd_advancing := wd_advancing w - {eid}\<rparr>)))"

section \<open>Around a step\<close>

text \<open>The body of the loop of \<open>request_cancel\<close>, five times at most.\<close>

fun cancel_loop :: "'e executor \<Rightarrow> nat \<Rightarrow> string \<Rightarrow> string \<Rightarrow> ('e, procedure_execution) exec_op" where
  "cancel_loop ex 0 eid reason = raise_op (ProcedureError ''CONTENDED'')"
| "cancel_loop ex (Suc n) eid reason = bind_op (load_op eid) (\<lambda>v. with_execution (\<lambda>x.
     if exec_terminal x then ret_op x
     else bind_op (list_operations eid) (\<lambda>ops.
       let in_flight = filter (\<lambda>r. unsettled (or_state r)) ops in
       seq_op (set_execution (\<lambda>x.
         let x = x\<lparr>pe_cancel_requested := True, pe_cancel_reason := (if pe_cancel_reason x \<noteq> [] then pe_cancel_reason x else reason)\<rparr>
         in if in_flight = [] then with_status Ex_Cancelled (pe_cancel_reason x) x
            else if pe_status x \<noteq> Ex_Needs_Reconciliation then with_status Ex_Cancel_Requested (pe_cancel_reason x) x
            else x))
      (bind_op (commit ex v []) (\<lambda>won. if won then with_execution ret_op else cancel_loop ex n eid reason)))))"

definition request_cancel :: "'e executor \<Rightarrow> string \<Rightarrow> string \<Rightarrow> ('e, procedure_execution) exec_op" where
  "request_cancel ex eid reason = cancel_loop ex 5 eid reason"

definition set_paused :: "'e executor \<Rightarrow> string \<Rightarrow> bool \<Rightarrow> ('e, procedure_execution) exec_op" where
  "set_paused ex eid paused = bind_op (load_op eid) (\<lambda>v. with_execution (\<lambda>x.
     if exec_terminal x then ret_op x
     else seq_op (set_execution (\<lambda>x.
         if paused \<and> pe_status x \<in> {Ex_Running, Ex_Waiting} then x\<lparr>pe_status := Ex_Paused\<rparr>
         else if \<not> paused \<and> pe_status x = Ex_Paused \<and> \<not> cancelling x then x\<lparr>pe_status := Ex_Running\<rparr>
         else x))
      (seq_op (commit ex v []) (with_execution ret_op))))"

definition reconciliation_evidence :: "string \<Rightarrow> string \<Rightarrow> operation_record \<Rightarrow> obj" where
  "reconciliation_evidence actor decision r = [(''kind'', PStr ''reconciliation''), (''actor'', PStr actor),
     (''decision'', PStr decision), (''operation_key'', PStr (or_operation_key r))]"

definition reconciliation_decisions :: "string set" where
  "reconciliation_decisions = {''recheck'', ''not_applied'', ''fail''}"

definition decide :: "'e executor \<Rightarrow> int \<Rightarrow> step \<Rightarrow> operation_record \<Rightarrow> string \<Rightarrow> string \<Rightarrow> ('e, step_outcome) exec_op" where
  "decide ex v st r actor decision =
     seq_op (set_execution (add_evidence (reconciliation_evidence actor decision r)))
     (if decision = ''fail'' then
        seq_op (set_execution (with_status Ex_Failed ''RECONCILED_AS_FAILED''))
       (seq_op (commit ex v [(r\<lparr>or_state := Op_Rejected\<rparr>, any_state)]) (ret_op (outcome Failed_Step (step_id st) ''RECONCILED_AS_FAILED'')))
      else if decision = ''not_applied'' then
        seq_op (set_execution (release_attempt (step_id st)))
       (with_execution (\<lambda>x. let r = r\<lparr>or_state := Op_Rejected, or_error := ''NOT_APPLIED_BY_OPERATOR''\<rparr> in
          if cancelling x then finish_cancel ex v (step_id st) [(r, any_state)]
          else seq_op (set_execution (with_status Ex_Running []))
              (seq_op (commit ex v [(r, any_state)]) (ret_op (outcome Waits (step_id st) ''RECOVERED'')))))
      else recover ex v st r)"

definition resolve_reconciliation :: "'e executor \<Rightarrow> string \<Rightarrow> string \<Rightarrow> string \<Rightarrow> ('e, step_outcome) exec_op" where
  "resolve_reconciliation ex eid actor decision =
     (if decision \<notin> reconciliation_decisions then raise_op (ProcedureError ''UNKNOWN_DECISION'')
      else if \<not> trusted_actor actor then raise_op (ProcedureError ''UNTRUSTED_APPROVER'')
      else bind_op (load_op eid) (\<lambda>v. with_execution (\<lambda>x. the_definition x (\<lambda>d.
        bind_op (lift_op (find_step d (pe_current_step_id x))) (\<lambda>st.
        bind_op (pending_operation (step_id st)) (\<lambda>pending. case pending of
            None \<Rightarrow> ret_op (outcome Failed_Step (step_id st) ''NOT_RECONCILING'')
          | Some r \<Rightarrow>
              if pe_status x \<noteq> Ex_Needs_Reconciliation then ret_op (outcome Failed_Step (step_id st) ''NOT_RECONCILING'')
              else decide ex v st r actor decision))))))"

text \<open>\<open>settle_child\<close>: the outcome of a delegated child, once, and only from its assignee.\<close>

definition settle_child :: "'e executor \<Rightarrow> string \<Rightarrow> string \<Rightarrow> string \<Rightarrow> pyval \<Rightarrow> obj list \<Rightarrow> ('e, bool) exec_op" where
  "settle_child ex work_id status executor_id res evidence =
     bind_op (load_operation (delegate_key work_id)) (\<lambda>row. case row of
       None \<Rightarrow> ret_op False
     | Some (_, r) \<Rightarrow>
         if or_state r \<noteq> Op_Waiting then ret_op False
         else if (case or_child r of None \<Rightarrow> None | Some ch \<Rightarrow> ch_assignee ch) \<noteq> Some executor_id then ret_op False
         else with_clock ex (\<lambda>now.
           let r' = r\<lparr>or_child := map_option (\<lambda>ch. ch\<lparr>ch_status := status, ch_result := res, ch_evidence := evidence,
                        ch_executor := Some executor_id\<rparr>) (or_child r),
                      or_state := (if status = ''completed'' then Op_Applied else Op_Rejected), or_settled_at := Some now\<rparr>
           in on_store (\<lambda>st. case update_procedure_operation (delegate_key work_id) ''waiting'' (op_state_value (or_state r')) r' st of
                (b, st') \<Rightarrow> (Inr b, st'))))"

section \<open>Starting\<close>

record start_request =
  sq_agent_id :: string
  sq_goal_id :: string
  sq_occurrence_id :: string
  sq_parameters :: obj
  sq_context :: obj
  sq_context_refs :: obj
  sq_work :: obj
  sq_work_item_id :: "string option"
  sq_budget :: "budget option"
  sq_deadline_at :: "time option"
  sq_max_executions :: "int option"

definition list_executions :: "string \<Rightarrow> bool \<Rightarrow> ('e, procedure_execution list) exec_op" where
  "list_executions occurrence open_only = on_store (\<lambda>st. (Inr (map snd (list_procedure_executions (Some occurrence) open_only st)), st))"

text \<open>The execution that is created: of a replacement the spent budget and the deadline are the last one's.\<close>

definition new_execution :: "'e executor \<Rightarrow> time \<Rightarrow> string \<Rightarrow> procedure_definition \<Rightarrow> admission \<Rightarrow> start_request \<Rightarrow> procedure_execution list \<Rightarrow> procedure_execution" where
  "new_execution ex now eid d a q previous =
     (let envelope = (case sq_budget q of None \<Rightarrow> default_budget (ex_limits ex) d | Some b \<Rightarrow> b);
          deadline = now + seconds (default_execution_deadline_seconds (ex_limits ex));
          deadline = (case sq_deadline_at q of None \<Rightarrow> deadline | Some t \<Rightarrow> min deadline t)
      in \<lparr>pe_execution_id = eid, pe_agent_id = sq_agent_id q, pe_goal_id = sq_goal_id q,
          pe_occurrence_id = sq_occurrence_id q, pe_work_item_id = sq_work_item_id q,
          pe_procedure_id = pd_procedure_id d, pe_revision = pd_revision d, pe_digest = fx_digest (ex_codec ex) d,
          pe_path = (if ad_source a = ''learned'' then ''typed_learned'' else ''typed_authored''), pe_status = Ex_Running,
          pe_status_reason = [], pe_cancel_requested = False, pe_cancel_reason = [], pe_current_step_id = pd_entry_step_id d,
          pe_parameters = sq_parameters q, pe_context = sq_context q, pe_context_refs = sq_context_refs q,
          pe_work = sq_work q, pe_results = [], pe_step_attempts = [], pe_completed_steps = [], pe_wait = None,
          pe_next_eligible_at = None,
          pe_deadline_at = (if previous = [] then deadline else min deadline (pe_deadline_at (last previous))),
          pe_budget = (if previous = [] then envelope else inherit_spent (pe_budget (last previous)) envelope),
          pe_evidence = [], pe_output = None, pe_created_at = now, pe_updated_at = now\<rparr>)"

definition first_open :: "procedure_execution list \<Rightarrow> ('e, procedure_execution) exec_op" where
  "first_open xs = (case xs of [] \<Rightarrow> raise_op IndexError | x # _ \<Rightarrow> ret_op x)"

definition start :: "'e executor \<Rightarrow> procedure_definition \<Rightarrow> admission \<Rightarrow> start_request \<Rightarrow> ('e, procedure_execution) exec_op" where
  "start ex d a q = bind_op (list_executions (sq_occurrence_id q) True) (\<lambda>open_ones.
     if open_ones \<noteq> [] then first_open open_ones
     else bind_op (list_executions (sq_occurrence_id q) False) (\<lambda>previous.
       if (case sq_max_executions q of None \<Rightarrow> False | Some m \<Rightarrow> int (length previous) \<ge> m)
       then raise_op (ProcedureError ''ATTEMPTS_EXHAUSTED'')
       else with_clock ex (\<lambda>now. read_op (\<lambda>w.
         let x = new_execution ex now (h_new_id (ex_host ex) (sh_env (wd_shared w))) d a q previous
         in bind_op (on_store (\<lambda>st. case create_procedure_execution (pe_execution_id x) (pe_occurrence_id x) (pe_agent_id x)
                (exec_status_value (pe_status x)) x st of (b, st') \<Rightarrow> (Inr b, st'))) (\<lambda>created.
              if created then ret_op x
              else bind_op (list_executions (sq_occurrence_id q) True) first_open)))))"

text \<open>\<open>ProcedureService.label\<close>.\<close>

definition label_execution :: "'e executor \<Rightarrow> string \<Rightarrow> string \<Rightarrow> ('e, unit) exec_op" where
  "label_execution ex eid label = bind_op (load_op eid) (\<lambda>v.
     seq_op (set_execution (\<lambda>x. add_evidence [(''kind'', PStr ''label''), (''label'', PStr label),
        (''occurrence_id'', PStr (pe_occurrence_id x))] x))
    (seq_op (commit ex v []) (ret_op ())))"

text \<open>What is open for an occurrence, the latest execution of it, and what an agent has open.\<close>

definition open_for :: "string \<Rightarrow> ('e, procedure_execution option) exec_op" where
  "open_for occurrence = bind_op (list_executions occurrence True)
     (\<lambda>xs. ret_op (case xs of [] \<Rightarrow> None | x # _ \<Rightarrow> Some x))"

definition for_occurrence :: "string \<Rightarrow> ('e, procedure_execution option) exec_op" where
  "for_occurrence occurrence = bind_op (list_executions occurrence False)
     (\<lambda>xs. ret_op (if xs = [] then None else Some (last xs)))"

definition open_executions :: "string \<Rightarrow> ('e, procedure_execution list) exec_op" where
  "open_executions agent = bind_op (on_store (\<lambda>st. (Inr (map snd (list_procedure_executions None True st)), st)))
     (\<lambda>xs. ret_op (filter (\<lambda>x. pe_agent_id x = agent) xs))"

end
