(* ===== verification/Exec_Rules.thy ===== *)
theory Exec_Rules
  imports Exec_Steps
begin

text \<open>
  Rules for reasoning about handlers: weakest preconditions, equation by equation; the legal
  transitions of an execution; what a task may rely on while it is suspended; and what it therefore
  knows of the stored execution at every point.
\<close>

section \<open>Weakest preconditions\<close>

named_theorems wp_simps \<open>weakest preconditions of the building blocks\<close>

declare sum.case [wp_simps]

definition wp :: "('s, 'a) op \<Rightarrow> ('a result \<Rightarrow> 's \<Rightarrow> bool) \<Rightarrow> 's \<Rightarrow> bool" where
  "wp m Q s \<longleftrightarrow> (case m s of (r, t) \<Rightarrow> Q r t)"

lemma wp_ret [wp_simps]: "wp (ret_op x) Q s = Q (Inr x) s"
  by (simp add: wp_def ret_op_def)

lemma wp_raise [wp_simps]: "wp (raise_op e) Q s = Q (Inl e) s"
  by (simp add: wp_def raise_op_def)

lemma wp_bind [wp_simps]:
  "wp (bind_op m f) Q s = wp m (\<lambda>r t. case r of Inl e \<Rightarrow> Q (Inl e) t | Inr x \<Rightarrow> wp (f x) Q t) s"
  by (auto simp: wp_def bind_op_def split: prod.splits sum.splits)

lemma wp_seq [wp_simps]:
  "wp (seq_op m n) Q s = wp m (\<lambda>r t. case r of Inl e \<Rightarrow> Q (Inl e) t | Inr x \<Rightarrow> wp n Q t) s"
  by (simp add: seq_op_def wp_bind)

lemma wp_read [wp_simps]: "wp (read_op f) Q s = wp (f s) Q s"
  by (simp add: wp_def read_op_def)

lemma wp_modify [wp_simps]: "wp (modify_op f) Q s = Q (Inr ()) (f s)"
  by (simp add: wp_def modify_op_def)

lemma wp_lift [wp_simps]: "wp (lift_op r) Q s = Q r s"
  by (simp add: wp_def lift_op_def)

lemma wp_if [wp_simps]: "wp (if b then m else n) Q s = (if b then wp m Q s else wp n Q s)"
  by simp

lemma wp_case_option [wp_simps]:
  "wp (case v of None \<Rightarrow> m | Some x \<Rightarrow> f x) Q s = (case v of None \<Rightarrow> wp m Q s | Some x \<Rightarrow> wp (f x) Q s)"
  by (cases v) simp_all

lemma wp_set_execution [wp_simps]: "wp (set_execution f) Q w = Q (Inr ()) (w\<lparr>wd_execution := f (wd_execution w)\<rparr>)"
  by (simp add: set_execution_def wp_modify)

lemma wp_with_clock [wp_simps]: "wp (with_clock ex f) Q w = wp (f (h_clock (ex_host ex) (sh_env (wd_shared w)))) Q w"
  by (simp add: with_clock_def wp_read)

lemma wp_with_execution [wp_simps]: "wp (with_execution f) Q w = wp (f (wd_execution w)) Q w"
  by (simp add: with_execution_def wp_read)

lemma wp_finally [wp_simps]: "wp (finally_op m cleanup) Q w = wp m (\<lambda>r t. Q r (cleanup t)) w"
  by (auto simp: wp_def finally_op_def split: prod.splits)

lemma wp_mono: "wp m P s \<Longrightarrow> (\<And>r t. P r t \<Longrightarrow> Q r t) \<Longrightarrow> wp m Q s"
  by (auto simp: wp_def split: prod.splits)

section \<open>Legal transitions of an execution\<close>

definition same_identity :: "procedure_execution \<Rightarrow> procedure_execution \<Rightarrow> bool" where
  "same_identity a b \<longleftrightarrow> pe_execution_id b = pe_execution_id a \<and> pe_agent_id b = pe_agent_id a \<and> pe_goal_id b = pe_goal_id a
     \<and> pe_occurrence_id b = pe_occurrence_id a \<and> pe_work_item_id b = pe_work_item_id a
     \<and> pe_procedure_id b = pe_procedure_id a \<and> pe_revision b = pe_revision a \<and> pe_digest b = pe_digest a
     \<and> pe_parameters b = pe_parameters a \<and> pe_context b = pe_context a \<and> pe_work b = pe_work a
     \<and> pe_deadline_at b = pe_deadline_at a \<and> pe_created_at b = pe_created_at a"

definition within_budget :: "budget \<Rightarrow> bool" where
  "within_budget b \<longleftrightarrow> bg_model_calls b \<le> bg_max_model_calls b \<and> bg_tool_attempts b \<le> bg_max_tool_attempts b
     \<and> bg_child_reserved b \<le> bg_max_child_model_calls b"

definition spends :: "budget \<Rightarrow> budget \<Rightarrow> bool" where
  "spends a b \<longleftrightarrow> bg_max_model_calls b = bg_max_model_calls a \<and> bg_max_tool_attempts b = bg_max_tool_attempts a
     \<and> bg_max_step_attempts b = bg_max_step_attempts a \<and> bg_max_child_model_calls b = bg_max_child_model_calls a
     \<and> bg_max_delegation_depth b = bg_max_delegation_depth a \<and> bg_model_calls a \<le> bg_model_calls b
     \<and> bg_tool_attempts a \<le> bg_tool_attempts b \<and> bg_step_attempts a \<le> bg_step_attempts b
     \<and> (within_budget a \<longrightarrow> within_budget b)"

text \<open>The history of an execution only grows: identity, limits, cancellation intent, what was spent, evidence, steps.\<close>

definition evolves :: "procedure_execution \<Rightarrow> procedure_execution \<Rightarrow> bool" where
  "evolves a b \<longleftrightarrow> same_identity a b \<and> spends (pe_budget a) (pe_budget b)
     \<and> (pe_cancel_requested a \<longrightarrow> pe_cancel_requested b)
     \<and> prefix (pe_evidence a) (pe_evidence b) \<and> prefix (pe_completed_steps a) (pe_completed_steps b)"

text \<open>A completed execution holds an output of the schema of the definition it is pinned to.\<close>

definition finished :: "codec \<Rightarrow> procedure_execution \<Rightarrow> bool" where
  "finished fx x \<longleftrightarrow> (\<exists>d s v. fx_digest fx d = pe_digest x \<and> Complete s \<in> set (pd_steps d) \<and> ks_id s = pe_current_step_id x
     \<and> pe_output x = Some v \<and> schema_errors v (PDict (pd_output_schema d)) ''output'' = Inr [])"

definition legal_transition :: "codec \<Rightarrow> procedure_execution \<Rightarrow> procedure_execution \<Rightarrow> bool" where
  "legal_transition fx a x \<longleftrightarrow> \<not> exec_terminal a \<and> evolves a x
     \<and> (cancelling a \<longrightarrow> pe_status x \<in> {Ex_Cancelled, Ex_Failed, Ex_Needs_Reconciliation})
     \<and> (pe_status x = Ex_Completed \<longrightarrow> finished fx x)"

lemma same_identity_refl [simp]: "same_identity a a"
  by (simp add: same_identity_def)

lemma same_identity_trans: "same_identity a b \<Longrightarrow> same_identity b c \<Longrightarrow> same_identity a c"
  by (simp add: same_identity_def)

lemma spends_refl [simp]: "spends a a"
  by (simp add: spends_def)

lemma spends_trans: "spends a b \<Longrightarrow> spends b c \<Longrightarrow> spends a c"
  by (auto simp: spends_def)

lemma evolves_refl [simp]: "evolves a a"
  by (simp add: evolves_def)

lemma evolves_trans: "evolves a b \<Longrightarrow> evolves b c \<Longrightarrow> evolves a c"
  unfolding evolves_def using same_identity_trans spends_trans by (blast intro: prefix_order.trans)

text \<open>What the handlers do to the execution, as facts on \<^const>\<open>evolves\<close>.\<close>

lemma evolves_fields [simp]:
  "evolves a (x\<lparr>pe_status := s\<rparr>) = evolves a x"
  "evolves a (x\<lparr>pe_status_reason := t\<rparr>) = evolves a x"
  "evolves a (x\<lparr>pe_cancel_reason := t\<rparr>) = evolves a x"
  "evolves a (x\<lparr>pe_current_step_id := t\<rparr>) = evolves a x"
  "evolves a (x\<lparr>pe_results := rs\<rparr>) = evolves a x"
  "evolves a (x\<lparr>pe_step_attempts := at'\<rparr>) = evolves a x"
  "evolves a (x\<lparr>pe_wait := w\<rparr>) = evolves a x"
  "evolves a (x\<lparr>pe_next_eligible_at := n\<rparr>) = evolves a x"
  "evolves a (x\<lparr>pe_output := v\<rparr>) = evolves a x"
  "evolves a (x\<lparr>pe_updated_at := u\<rparr>) = evolves a x"
  by (simp_all add: evolves_def same_identity_def)

lemma evolves_with_status [simp]: "evolves a (with_status s t x) = evolves a x"
  by (simp add: with_status_def)

lemma evolves_evidence: "evolves a x \<Longrightarrow> evolves a (add_evidence e x)"
  by (auto simp: evolves_def same_identity_def add_evidence_def)

lemma evolves_completed: "evolves a x \<Longrightarrow> evolves a (x\<lparr>pe_completed_steps := pe_completed_steps x @ [t]\<rparr>)"
  by (auto simp: evolves_def same_identity_def)

lemma evolves_cancel: "evolves a x \<Longrightarrow> evolves a (x\<lparr>pe_cancel_requested := True\<rparr>)"
  by (auto simp: evolves_def same_identity_def)

lemma evolves_budget: "evolves a x \<Longrightarrow> spends (pe_budget x) b \<Longrightarrow> evolves a (x\<lparr>pe_budget := b\<rparr>)"
  using spends_trans by (auto simp: evolves_def same_identity_def)

lemma advance_to_fields [simp]:
  "pe_status (advance_to sid target res x) = Ex_Running"
  "pe_cancel_requested (advance_to sid target res x) = pe_cancel_requested x"
  "pe_budget (advance_to sid target res x) = pe_budget x"
  "pe_execution_id (advance_to sid target res x) = pe_execution_id x"
  by (simp_all add: advance_to_def)

lemma evolves_advance: "evolves a x \<Longrightarrow> evolves a (advance_to sid target res x)"
  by (auto simp: evolves_def same_identity_def advance_to_def)

lemma evolves_release [simp]: "evolves a (release_attempt sid x) = evolves a x"
  by (simp add: release_attempt_def)

lemma small_fields [simp]:
  "pe_status (add_evidence e x) = pe_status x" "pe_cancel_requested (add_evidence e x) = pe_cancel_requested x"
  "pe_status (release_attempt sid x) = pe_status x" "pe_cancel_requested (release_attempt sid x) = pe_cancel_requested x"
  "pe_status (with_status s t x) = s" "pe_cancel_requested (with_status s t x) = pe_cancel_requested x"
  "pe_budget (add_evidence e x) = pe_budget x" "pe_budget (with_status s t x) = pe_budget x"
  by (simp_all add: add_evidence_def release_attempt_def with_status_def)

lemma spends_more:
  "i \<le> 1 \<Longrightarrow> 0 \<le> i \<Longrightarrow> (i = 1 \<Longrightarrow> bg_tool_attempts b < bg_max_tool_attempts b) \<Longrightarrow>
   spends b (b\<lparr>bg_tool_attempts := bg_tool_attempts b + i, bg_step_attempts := bg_step_attempts b + 1\<rparr>)"
  by (cases "i = 1") (auto simp: spends_def within_budget_def)

lemma spends_step: "spends b (b\<lparr>bg_step_attempts := bg_step_attempts b + 1\<rparr>)"
  by (auto simp: spends_def within_budget_def)

lemma spends_call:
  "bg_model_calls b < bg_max_model_calls b \<Longrightarrow>
   spends b (b\<lparr>bg_model_calls := bg_model_calls b + 1, bg_step_attempts := bg_step_attempts b + 1\<rparr>)"
  by (auto simp: spends_def within_budget_def)

lemma spends_child:
  "bg_child_reserved b + n \<le> bg_max_child_model_calls b \<Longrightarrow>
   spends b (b\<lparr>bg_child_reserved := bg_child_reserved b + n, bg_step_attempts := bg_step_attempts b + 1\<rparr>)"
  by (auto simp: spends_def within_budget_def)


section \<open>What a suspended task relies on\<close>

definition own_key :: "string \<Rightarrow> string \<Rightarrow> bool" where
  "own_key eid key \<longleftrightarrow> (\<exists>occurrence sid. key = occurrence @ '':'' @ eid @ '':'' @ sid)"

text \<open>
  Every transition of an execution moves its version, and its own journal moves only with it.
\<close>

definition disciplined :: "string \<Rightarrow> exec_store \<Rightarrow> exec_store \<Rightarrow> bool" where
  "disciplined eid st st' \<longleftrightarrow> (\<forall>row. dict_get (st_executions st) eid = Some row \<longrightarrow>
     (\<exists>row'. dict_get (st_executions st') eid = Some row' \<and> x_version row \<le> x_version row'
        \<and> (pe_execution_id (x_payload row) = eid \<longrightarrow> pe_execution_id (x_payload row') = eid)
        \<and> (x_version row' = x_version row \<longrightarrow> row' = row
             \<and> (\<forall>key. own_key eid key \<longrightarrow> load_procedure_operation key st' = load_procedure_operation key st))))"

text \<open>The operations of the store that keep to it.\<close>

fun keeps_discipline :: "string \<Rightarrow> (procedure_execution, operation_record) store_call \<Rightarrow> bool" where
  "keeps_discipline eid (Commit e v s x ops) =
     (if e = eid then pe_execution_id x = eid else (\<forall>op\<in>set ops. \<not> own_key eid (ow_key op)))"
| "keeps_discipline eid (Update_Operation key s t r) = (\<not> own_key eid key)"
| "keeps_discipline eid _ = True"

lemma disciplined_same:
  "st_executions st' = st_executions st \<Longrightarrow> (\<And>key. own_key eid key \<Longrightarrow> dict_get (st_operations st') key = dict_get (st_operations st) key)
    \<Longrightarrow> disciplined eid st st'"
  by (auto simp: disciplined_def load_procedure_operation_def)

lemma write_operations_others:
  "write_operations e ops st = Some st' \<Longrightarrow> key \<notin> ow_key ` set ops \<Longrightarrow> dict_get (st_operations st') key = dict_get (st_operations st) key"
  by (induction ops arbitrary: st) (auto simp: write_operation_def dict_simps split: if_splits)

lemma calls_disciplined:
  assumes "keeps_discipline eid c"
  shows "disciplined eid st (snd (call c st))"
proof (cases c)
  case (Commit e v s x ops)
  obtain r st' where r: "commit_procedure_transition e v s x ops st = (r, st')" by (cases "commit_procedure_transition e v s x ops st")
  show ?thesis
  proof (cases "r = Inr True")
    case False
    with r have "st' = st" by (auto simp: commit_procedure_transition_def Let_def split: option.splits if_splits)
    with r Commit show ?thesis by (simp add: disciplined_same)
  next
    case True
    with r obtain row where row: "dict_get (st_executions st) e = Some row" "x_version row = v"
      and w: "write_operations e ops (st\<lparr>st_executions := dict_set e (row\<lparr>x_status := s, x_payload := x, x_version := x_version row + 1\<rparr>)
        (st_executions st)\<rparr>) = Some st'"
      by (auto simp: commit_procedure_transition_def Let_def split: option.splits if_splits)
    have ex: "st_executions st' = dict_set e (row\<lparr>x_status := s, x_payload := x, x_version := x_version row + 1\<rparr>) (st_executions st)"
      using write_operations_keeps [OF w] by simp
    show ?thesis
    proof (cases "e = eid")
      case True
      with ex row Commit assms r show ?thesis by (auto simp: disciplined_def dict_simps)
    next
      case False
      with assms Commit have "key \<notin> ow_key ` set ops" if "own_key eid key" for key using that by auto
      with write_operations_others [OF w] False ex Commit r show ?thesis
        by (auto simp: disciplined_def dict_simps load_procedure_operation_def)
    qed
  qed
next
  case (Update_Operation key s t x)
  with assms show ?thesis
    by (auto simp: update_procedure_operation_def dict_simps split: option.split intro!: disciplined_same)
next
  case (Create_Execution e oc a s p)
  then show ?thesis
    by (auto simp: create_procedure_execution_def Let_def disciplined_def dict_simps load_procedure_operation_def)
qed (auto simp: insert_procedure_definition_def save_procedure_admission_def insert_procedure_trace_def accept_work_def Let_def
    intro!: disciplined_same split: option.splits sum.splits)

definition others_disciplined :: "string \<Rightarrow> 'e world \<Rightarrow> bool" where
  "others_disciplined eid w \<longleftrightarrow>
     (\<forall>f\<in>set (wd_others w). \<forall>sh. disciplined eid (rg_store (sh_registry sh)) (rg_store (sh_registry (f sh))))"

section \<open>What a task knows\<close>

type_synonym seen = "(string \<times> (string \<times> operation_record) option) option"

definition seen_own :: "string \<Rightarrow> seen \<Rightarrow> bool" where
  "seen_own eid seen \<longleftrightarrow> (case seen of None \<Rightarrow> True | Some (key, _) \<Rightarrow> own_key eid key)"

definition seen_still :: "seen \<Rightarrow> exec_store \<Rightarrow> bool" where
  "seen_still seen st \<longleftrightarrow> (case seen of None \<Rightarrow> True | Some (key, r) \<Rightarrow> load_procedure_operation key st = r)"

text \<open>
  At version \<open>v\<close>: unless the stored execution has moved on, it is the one the task takes it to be,
  \<open>P\<close> holds, and the operation it has seen is still what it saw.  \<open>rl\<close> says whether the other
  tasks are disciplined; without that nothing is known.
\<close>

definition knows :: "bool \<Rightarrow> string \<Rightarrow> seen \<Rightarrow> bool \<Rightarrow> int \<Rightarrow> 'e world \<Rightarrow> bool" where
  "knows rl eid seen P v w \<longleftrightarrow> (rl \<longrightarrow> pe_execution_id (wd_known w) = eid \<and> others_disciplined eid w
     \<and> seen_own eid seen
     \<and> (\<exists>row. dict_get (st_executions (world_store w)) eid = Some row \<and> pe_execution_id (x_payload row) = eid
          \<and> v \<le> x_version row
          \<and> (x_version row = v \<longrightarrow> x_payload row = wd_known w \<and> P
               \<and> seen_still seen (world_store w))))"

text \<open>Before anything is loaded.\<close>

definition named :: "bool \<Rightarrow> string \<Rightarrow> 'e world \<Rightarrow> bool" where
  "named rl eid w \<longleftrightarrow> (rl \<longrightarrow> others_disciplined eid w
     \<and> (\<exists>row. dict_get (st_executions (world_store w)) eid = Some row \<and> pe_execution_id (x_payload row) = eid))"

lemma knows_named: "knows rl eid seen P v w \<Longrightarrow> named rl eid w"
  by (auto simp: knows_def named_def)

lemma knows_forget: "knows rl eid seen P v w \<Longrightarrow> knows rl eid None True v w"
  by (auto simp: knows_def seen_own_def seen_still_def)

lemma seen_still_kept:
  "(\<And>key. own_key eid key \<Longrightarrow> load_procedure_operation key st' = load_procedure_operation key st) \<Longrightarrow> seen_own eid seen
    \<Longrightarrow> seen_still seen st' = seen_still seen st"
  by (auto simp: seen_own_def seen_still_def split: option.split)

lemma world_fields [simp]:
  "world_store (w\<lparr>wd_execution := x\<rparr>) = world_store w" "world_store (w\<lparr>wd_known := x\<rparr>) = world_store w"
  "world_store (w\<lparr>wd_log := l\<rparr>) = world_store w" "world_store (w\<lparr>wd_in_flight := s\<rparr>) = world_store w"
  "world_store (w\<lparr>wd_advancing := s\<rparr>) = world_store w" "world_store (w\<lparr>wd_others := os\<rparr>) = world_store w"
  "others_disciplined eid (w\<lparr>wd_execution := x\<rparr>) = others_disciplined eid w"
  "others_disciplined eid (w\<lparr>wd_known := x\<rparr>) = others_disciplined eid w"
  "others_disciplined eid (w\<lparr>wd_log := l\<rparr>) = others_disciplined eid w"
  "others_disciplined eid (w\<lparr>wd_in_flight := s\<rparr>) = others_disciplined eid w"
  "others_disciplined eid (w\<lparr>wd_advancing := s\<rparr>) = others_disciplined eid w"
  "others_disciplined eid (w\<lparr>wd_shared := sh\<rparr>) = others_disciplined eid w"
  by (simp_all add: world_store_def others_disciplined_def)

lemma knows_fields [simp]:
  "knows rl eid seen P v (w\<lparr>wd_execution := x\<rparr>) = knows rl eid seen P v w"
  "knows rl eid seen P v (w\<lparr>wd_log := l\<rparr>) = knows rl eid seen P v w"
  "knows rl eid seen P v (w\<lparr>wd_in_flight := s\<rparr>) = knows rl eid seen P v w"
  "knows rl eid seen P v (w\<lparr>wd_advancing := s\<rparr>) = knows rl eid seen P v w"
  "named rl eid (w\<lparr>wd_execution := x\<rparr>) = named rl eid w"
  "named rl eid (w\<lparr>wd_known := x\<rparr>) = named rl eid w"
  "named rl eid (w\<lparr>wd_log := l\<rparr>) = named rl eid w"
  "named rl eid (w\<lparr>wd_in_flight := s\<rparr>) = named rl eid w"
  "named rl eid (w\<lparr>wd_advancing := s\<rparr>) = named rl eid w"
  by (simp_all add: knows_def named_def)

text \<open>Whoever runs in between keeps it.\<close>

lemma knows_shared:
  assumes "knows rl eid seen P v w" "disciplined eid (world_store w) (rg_store (sh_registry sh))"
    "set os \<subseteq> set (wd_others w)"
  shows "knows rl eid seen P v (w\<lparr>wd_shared := sh, wd_others := os\<rparr>)"
proof (cases rl)
  case True
  from assms(1) True obtain row where row: "dict_get (st_executions (world_store w)) eid = Some row"
    "pe_execution_id (x_payload row) = eid" "v \<le> x_version row"
    "x_version row = v \<longrightarrow> x_payload row = wd_known w \<and> P
       \<and> seen_still seen (world_store w)"
    and own: "seen_own eid seen"
    and rest: "pe_execution_id (wd_known w) = eid" "others_disciplined eid w"
    by (auto simp: knows_def)
  from assms(2) row(1,2) obtain row' where row': "dict_get (st_executions (rg_store (sh_registry sh))) eid = Some row'"
    "x_version row \<le> x_version row'" "pe_execution_id (x_payload row') = eid"
    "x_version row' = x_version row \<longrightarrow> row' = row
       \<and> (\<forall>key. own_key eid key \<longrightarrow> load_procedure_operation key (rg_store (sh_registry sh)) = load_procedure_operation key (world_store w))"
    unfolding disciplined_def by blast
  have "x_payload row' = wd_known w \<and> P \<and> seen_still seen (rg_store (sh_registry sh))" if v: "x_version row' = v"
  proof -
    from v row(3) row'(2) have same: "x_version row' = x_version row" "x_version row = v" by linarith+
    from row'(4) same(1) have "row' = row" "seen_still seen (rg_store (sh_registry sh)) = seen_still seen (world_store w)"
      using seen_still_kept [OF _ own, of "rg_store (sh_registry sh)" "world_store w"] by auto
    with row(4) same(2) show ?thesis by simp
  qed
  moreover have "v \<le> x_version row'" using row(3) row'(2) by linarith
  ultimately have "\<exists>r. dict_get (st_executions (rg_store (sh_registry sh))) eid = Some r \<and> pe_execution_id (x_payload r) = eid
      \<and> v \<le> x_version r \<and> (x_version r = v \<longrightarrow> x_payload r = wd_known w \<and> P \<and> seen_still seen (rg_store (sh_registry sh)))"
    using row'(1,3) by blast
  moreover have "others_disciplined eid (w\<lparr>wd_shared := sh, wd_others := os\<rparr>)"
    using rest(2) assms(3) by (auto simp: others_disciplined_def)
  moreover have "world_store (w\<lparr>wd_shared := sh, wd_others := os\<rparr>) = rg_store (sh_registry sh)"
    by (simp add: world_store_def)
  ultimately show ?thesis using rest own by (simp add: knows_def)
qed (simp add: knows_def)

lemma named_shared:
  assumes "named rl eid w" "disciplined eid (world_store w) (rg_store (sh_registry sh))" "set os \<subseteq> set (wd_others w)"
  shows "named rl eid (w\<lparr>wd_shared := sh, wd_others := os\<rparr>)"
  using assms unfolding named_def disciplined_def others_disciplined_def
  by (auto simp: world_store_def; blast)

lemma disciplined_refl: "disciplined eid st st"
  by (simp add: disciplined_same)

lemma suspended:
  assumes "knows rl eid seen P v w"
  obtains sh os where "suspend w = (Inr (), w\<lparr>wd_shared := sh, wd_others := os\<rparr>)"
    "knows rl eid seen P v (w\<lparr>wd_shared := sh, wd_others := os\<rparr>)"
proof (cases "wd_others w")
  case Nil
  have "suspend w = (Inr (), w\<lparr>wd_shared := wd_shared w, wd_others := wd_others w\<rparr>)" by (simp add: suspend_def Nil)
  moreover have "w\<lparr>wd_shared := wd_shared w, wd_others := wd_others w\<rparr> = w" by simp
  ultimately show ?thesis using assms that by metis
next
  case (Cons f fs)
  have "suspend w = (Inr (), w\<lparr>wd_shared := f (wd_shared w), wd_others := fs\<rparr>)" by (simp add: suspend_def Cons)
  moreover have "knows rl eid seen P v (w\<lparr>wd_shared := f (wd_shared w), wd_others := fs\<rparr>)"
  proof (cases rl)
    case True
    with assms Cons have "disciplined eid (world_store w) (rg_store (sh_registry (f (wd_shared w))))"
      by (auto simp: knows_def others_disciplined_def world_store_def)
    with knows_shared [OF assms] Cons show ?thesis by auto
  qed (simp add: knows_def)
  ultimately show ?thesis by (rule that)
qed

lemma suspended_named:
  assumes "named rl eid w"
  obtains sh os where "suspend w = (Inr (), w\<lparr>wd_shared := sh, wd_others := os\<rparr>)"
    "named rl eid (w\<lparr>wd_shared := sh, wd_others := os\<rparr>)"
proof (cases "wd_others w")
  case Nil
  have "suspend w = (Inr (), w\<lparr>wd_shared := wd_shared w, wd_others := wd_others w\<rparr>)" by (simp add: suspend_def Nil)
  moreover have "w\<lparr>wd_shared := wd_shared w, wd_others := wd_others w\<rparr> = w" by simp
  ultimately show ?thesis using assms that by metis
next
  case (Cons f fs)
  have "suspend w = (Inr (), w\<lparr>wd_shared := f (wd_shared w), wd_others := fs\<rparr>)" by (simp add: suspend_def Cons)
  moreover have "named rl eid (w\<lparr>wd_shared := f (wd_shared w), wd_others := fs\<rparr>)"
  proof (cases rl)
    case True
    with assms Cons have "disciplined eid (world_store w) (rg_store (sh_registry (f (wd_shared w))))"
      by (auto simp: named_def others_disciplined_def world_store_def)
    with named_shared [OF assms] Cons show ?thesis by auto
  qed (simp add: named_def)
  ultimately show ?thesis by (rule that)
qed


section \<open>Rules for the primitives\<close>

abbreviation later :: "'e shared \<Rightarrow> ('e shared \<Rightarrow> 'e shared) list \<Rightarrow> 'e world \<Rightarrow> 'e world" where
  "later sh os w \<equiv> w\<lparr>wd_shared := sh, wd_others := os\<rparr>"

lemma knows_store:
  assumes "knows rl eid seen P v w" "st_executions st = st_executions (world_store w)"
  shows "knows rl eid None True v (put_store st w)"
  using assms by (auto simp: knows_def put_store_def world_store_def others_disciplined_def seen_own_def seen_still_def)

lemma knows_env [simp]: "knows rl eid seen P v (put_env e w) = knows rl eid seen P v w"
  by (simp add: knows_def put_env_def world_store_def others_disciplined_def)

lemma put_store_same [simp]: "put_store (world_store w) w = w"
  by (simp add: put_store_def world_store_def)

lemma world_store_later [simp]: "world_store (w\<lparr>wd_shared := sh\<rparr>) = rg_store (sh_registry sh)"
  by (simp add: world_store_def)

lemma put_store_later [simp]: "put_store (rg_store (sh_registry sh)) (later sh os w) = later sh os w"
  using put_store_same [of "later sh os w"] by simp

lemma put_later: "put_env e (later sh os w) = later (sh\<lparr>sh_env := e\<rparr>) os w"
  "put_store st (later sh os w) = later (sh\<lparr>sh_registry := (sh_registry sh)\<lparr>rg_store := st\<rparr>\<rparr>) os w"
  by (simp_all add: put_env_def put_store_def)

lemma wp_on_env:
  assumes "knows rl eid seen P v w" "\<And>r sh os. knows rl eid seen P v (later sh os w) \<Longrightarrow> Q r (later sh os w)"
  shows "wp (on_env f) Q w"
proof -
  obtain sh os where s: "suspend w = (Inr (), later sh os w)" "knows rl eid seen P v (later sh os w)"
    by (rule suspended [OF assms(1)])
  obtain r e where f: "f (sh_env sh) = (r, e)" by (cases "f (sh_env sh)")
  have "knows rl eid seen P v (later (sh\<lparr>sh_env := e\<rparr>) os w)" using s(2) by (simp flip: put_later(1))
  with assms(2) have "Q r (later (sh\<lparr>sh_env := e\<rparr>) os w)" by blast
  with s f show ?thesis by (simp add: wp_def on_env_def seq_op_def bind_op_def put_later)
qed

lemma wp_view:
  assumes "knows rl eid seen P v w" "\<And>st. snd (f st) = st"
    "\<And>sh os. knows rl eid seen P v (later sh os w) \<Longrightarrow> Q (fst (f (rg_store (sh_registry sh)))) (later sh os w)"
  shows "wp (on_store f) Q w"
proof -
  obtain sh os where s: "suspend w = (Inr (), later sh os w)" "knows rl eid seen P v (later sh os w)"
    by (rule suspended [OF assms(1)])
  obtain r st where f: "f (world_store (later sh os w)) = (r, st)" by (cases "f (world_store (later sh os w))")
  with assms(2) [of "world_store (later sh os w)"] have "st = world_store (later sh os w)" by simp
  with s f assms(3) [OF s(2)] have "on_store f w = (r, later sh os w)" "Q r (later sh os w)"
    by (simp_all add: on_store_def seq_op_def bind_op_def)
  then show ?thesis by (simp add: wp_def)
qed

text \<open>A change of the store that leaves the executions alone.\<close>

lemma wp_update:
  assumes "knows rl eid seen P v w" "\<And>st. st_executions (snd (f st)) = st_executions st"
    "\<And>r sh os. knows rl eid None True v (later sh os w) \<Longrightarrow> Q r (later sh os w)"
  shows "wp (on_store f) Q w"
proof -
  obtain sh os where s: "suspend w = (Inr (), later sh os w)" "knows rl eid seen P v (later sh os w)"
    by (rule suspended [OF assms(1)])
  obtain r st where f: "f (world_store (later sh os w)) = (r, st)" by (cases "f (world_store (later sh os w))")
  with assms(2) [of "world_store (later sh os w)"] have "st_executions st = st_executions (world_store (later sh os w))" by simp
  from knows_store [OF s(2) this] assms(3) have "Q r (put_store st (later sh os w))" unfolding put_later by blast
  with s f show ?thesis by (simp add: wp_def on_store_def seq_op_def bind_op_def)
qed

lemma wp_load_operation:
  assumes "knows rl eid seen P v w" "\<And>row sh os. knows rl eid seen P v (later sh os w) \<Longrightarrow> Q (Inr row) (later sh os w)"
  shows "wp (load_operation key) Q w"
  unfolding load_operation_def by (rule wp_view [OF assms(1)]) (simp_all add: assms(2))

lemma wp_first_look:
  assumes "knows rl eid None True v w" "rl \<Longrightarrow> own_key eid key"
    "\<And>row sh os. knows rl eid (Some (key, row)) True v (later sh os w) \<Longrightarrow> Q (Inr row) (later sh os w)"
  shows "wp (load_operation key) Q w"
  unfolding load_operation_def
proof (rule wp_view [OF assms(1)])
  fix sh os
  assume k: "knows rl eid None True v (later sh os w)"
  show "Q (fst (Inr (load_procedure_operation key (rg_store (sh_registry sh))), rg_store (sh_registry sh))) (later sh os w)"
    unfolding fst_conv
    by (rule assms(3)) (use k assms(2) in \<open>simp add: knows_def seen_own_def seen_still_def\<close>)
qed simp

lemma wp_second_look:
  assumes "knows rl eid (Some (key, r)) True v w"
    "\<And>row sh os. knows rl eid (Some (key, r)) (row = r) v (later sh os w) \<Longrightarrow> Q (Inr row) (later sh os w)"
  shows "wp (load_operation key) Q w"
  unfolding load_operation_def
proof (rule wp_view [OF assms(1)])
  fix sh os
  assume k: "knows rl eid (Some (key, r)) True v (later sh os w)"
  show "Q (fst (Inr (load_procedure_operation key (rg_store (sh_registry sh))), rg_store (sh_registry sh))) (later sh os w)"
    unfolding fst_conv
    by (rule assms(2)) (use k in \<open>simp add: knows_def seen_still_def\<close>)
qed simp

lemma wp_load_op:
  assumes "named rl eid w"
    "\<And>sh os e. Q (Inl (ProcedureError e)) (later sh os w)"
    "\<And>v x sh os. knows rl eid None True v (later sh os w\<lparr>wd_execution := x, wd_known := x\<rparr>)
       \<Longrightarrow> Q (Inr v) (later sh os w\<lparr>wd_execution := x, wd_known := x\<rparr>)"
  shows "wp (load_op eid) Q w"
proof -
  obtain sh os where s: "suspend w = (Inr (), later sh os w)" "named rl eid (later sh os w)"
    by (rule suspended_named [OF assms(1)])
  show ?thesis
  proof (cases "load_procedure_execution eid (world_store (later sh os w))")
    case None
    with s assms(2) show ?thesis
      by (simp add: wp_def load_op_def on_store_def op_defs)
  next
    case (Some vx)
    obtain v x where vx: "vx = (v, x)" by (cases vx)
    have "knows rl eid None True v (later sh os w\<lparr>wd_execution := x, wd_known := x\<rparr>)"
      using s(2) Some vx by (auto simp: named_def knows_def load_procedure_execution_def seen_own_def seen_still_def)
    from assms(3) [OF this] s(1) Some vx show ?thesis
      by (simp add: wp_def load_op_def on_store_def op_defs)
  qed
qed

lemma legal_updated [simp]: "legal_transition fx a (x\<lparr>pe_updated_at := t\<rparr>) = legal_transition fx a x"
  by (simp add: legal_transition_def finished_def)

lemma committed:
  assumes "commit_execution v x ops st = (r, st')"
  obtains (error) "r = Inl IntegrityError" "st' = st"
    | (lost) before where "r = Inr (False, before)" "st' = st"
        "ops = [] \<Longrightarrow> \<forall>row. dict_get (st_executions st) (pe_execution_id x) = Some row \<longrightarrow> x_version row \<noteq> v"
    | (won) row where "r = Inr (True, Some (x_payload row))" "dict_get (st_executions st) (pe_execution_id x) = Some row" "x_version row = v"
        "dict_get (st_executions st') (pe_execution_id x) = Some (row\<lparr>x_status := exec_status_value (pe_status x), x_payload := x, x_version := v + 1\<rparr>)"
proof -
  obtain r0 where r0: "commit_procedure_transition (pe_execution_id x) v (exec_status_value (pe_status x)) x (map write_of ops) st = (r0, st')"
    and r: "r = map_sum id (\<lambda>won. (won, map_option snd (load_procedure_execution (pe_execution_id x) st))) r0"
    using assms by (auto simp: commit_execution_def split: prod.splits)
  show thesis
  proof (cases "dict_get (st_executions st) (pe_execution_id x)")
    case None
    with r0 have "r0 = Inr False" "st' = st" by (auto simp: commit_procedure_transition_def)
    with r None show thesis by (intro lost) auto
  next
    case (Some row)
    show thesis
    proof (cases "x_version row = v")
      case False
      with r0 Some have "r0 = Inr False" "st' = st" by (auto simp: commit_procedure_transition_def)
      with r Some False show thesis by (intro lost) auto
    next
      case True
      let ?row = "row\<lparr>x_status := exec_status_value (pe_status x), x_payload := x, x_version := v + 1\<rparr>"
      consider "r0 = Inl IntegrityError" "st' = st" | "r0 = Inr False" "st' = st" "ops \<noteq> []"
        | "r0 = Inr True" "write_operations (pe_execution_id x) (map write_of ops)
            (st\<lparr>st_executions := dict_set (pe_execution_id x) ?row (st_executions st)\<rparr>) = Some st'"
        using r0 Some True
        by (cases ops) (auto simp: commit_procedure_transition_def Let_def split: if_splits option.splits)
      then show thesis
      proof cases
        case 1
        with r show thesis by (intro error) auto
      next
        case 2
        with r show thesis by (intro lost) auto
      next
        case 3
        with r Some True show thesis
          by (intro won [of row]) (auto simp: load_procedure_execution_def dict_simps dest!: write_operations_keeps)
      qed
    qed
  qed
qed

lemma wp_commit:
  assumes "knows rl eid seen P v w" "legal_transition fx (wd_known w) (wd_execution w)"
    and won: "\<And>w' x before. x = wd_execution w' \<Longrightarrow> (\<exists>t. x = (wd_execution w)\<lparr>pe_updated_at := t\<rparr>) \<Longrightarrow> wd_known w' = x
      \<Longrightarrow> wd_log w' = wd_log w @ [Commit_Act v (wd_known w) before x ops True] \<Longrightarrow> knows rl eid None True (v + 1) w'
      \<Longrightarrow> (rl \<Longrightarrow> before = Some (wd_known w) \<and> P) \<Longrightarrow> Q (Inr True) w'"
    and lost: "\<And>w' x before. x = wd_execution w' \<Longrightarrow> (\<exists>t. x = (wd_execution w)\<lparr>pe_updated_at := t\<rparr>) \<Longrightarrow> wd_known w' = x
      \<Longrightarrow> wd_log w' = wd_log w @ [Commit_Act v (wd_known w) before x ops False] \<Longrightarrow> named rl eid w'
      \<Longrightarrow> (ops = [] \<Longrightarrow> knows rl eid None True v w') \<Longrightarrow> Q (Inr False) w'"
    and error: "\<And>w'. wd_log w' = wd_log w \<Longrightarrow> Q (Inl IntegrityError) w'"
  shows "wp (commit ex v ops) Q w"
proof -
  let ?x = "(wd_execution w)\<lparr>pe_updated_at := h_clock (ex_host ex) (sh_env (wd_shared w))\<rparr>"
  let ?w = "w\<lparr>wd_execution := ?x\<rparr>"
  from assms(1) have k: "knows rl eid seen P v ?w" by simp
  obtain sh os where s: "suspend ?w = (Inr (), later sh os ?w)" "knows rl eid seen P v (later sh os ?w)"
    by (rule suspended [OF k])
  let ?st = "world_store (later sh os ?w)"
  have ident: "pe_execution_id ?x = pe_execution_id (wd_known w)" using assms(2)
    by (simp add: legal_transition_def evolves_def same_identity_def)
  obtain r st' where c: "commit_execution v ?x ops ?st = (r, st')" by (cases "commit_execution v ?x ops ?st")
  have run: "commit ex v ops w = (case r of Inl e \<Rightarrow> (Inl e, put_store st' (later sh os ?w))
    | Inr (b, before) \<Rightarrow> (Inr b, (put_store st' (later sh os ?w))\<lparr>wd_log := wd_log w @ [Commit_Act v (wd_known w) before ?x ops b],
        wd_known := ?x\<rparr>))"
    using s(1) c
    by (simp add: commit_def with_clock_def with_execution_def set_execution_def on_store_def op_defs put_store_def
        split: sum.split prod.split)
  from c show ?thesis
  proof (cases rule: committed)
    case error
    then show ?thesis unfolding wp_def run using assms(5) by (simp add: put_store_def)
  next
    case (lost before)
    let ?w' = "(later sh os ?w)\<lparr>wd_log := wd_log w @ [Commit_Act v (wd_known w) before ?x ops False], wd_known := ?x\<rparr>"
    have nm: "named rl eid ?w'" using knows_named [OF s(2)] by simp
    have "knows rl eid None True v ?w'" if "ops = []"
      using s(2) lost(3) [OF that] ident by (auto simp: knows_def seen_own_def seen_still_def)
    with nm have "Q (Inr False) ?w'" by (intro assms(4) [where before = before]) auto
    then show ?thesis unfolding wp_def run using lost by simp
  next
    case (won row)
    let ?w' = "(put_store st' (later sh os ?w))\<lparr>wd_log := wd_log w @ [Commit_Act v (wd_known w) (Some (x_payload row)) ?x ops True],
      wd_known := ?x\<rparr>"
    have kn: "knows rl eid None True (v + 1) ?w'"
      using s(2) won ident by (auto simp: knows_def seen_own_def seen_still_def put_store_def world_store_def others_disciplined_def)
    have "Some (x_payload row) = Some (wd_known w) \<and> P" if rl
      using s(2) won(2,3) ident that by (auto simp: knows_def)
    with kn have "Q (Inr True) ?w'" by (intro assms(3) [where before = "Some (x_payload row)"]) (auto simp: put_store_def)
    then show ?thesis unfolding wp_def run using won by simp
  qed
qed

end
