(* ===== verification/Exec_Safety.thy ===== *)
theory Exec_Safety
  imports Exec_Rules
begin

text \<open>
  Safety of the executor under every interleaving: what a task commits is a legal transition of the
  execution it holds, an adapter is invoked only under a claim that is already durable, and while
  the other tasks keep the discipline of versions no transition is lost.
\<close>

section \<open>The log of a task\<close>

text \<open>The commit that entitles a task to invoke an adapter.\<close>

definition claims :: "bool \<Rightarrow> act \<Rightarrow> string \<Rightarrow> obj \<Rightarrow> bool" where
  "claims rl c key args \<longleftrightarrow> (\<exists>v a before x r prior. c = Commit_Act v a before x [(r, map_option op_state_value prior)] True
     \<and> \<not> cancelling a \<and> or_operation_key r = key \<and> or_arguments r = args \<and> or_state r = Op_Dispatching
     \<and> (rl \<longrightarrow> (\<forall>s. prior = Some s \<longrightarrow> \<not> unsettled s)))"

definition log_ok :: "bool \<Rightarrow> codec \<Rightarrow> act list \<Rightarrow> bool" where
  "log_ok rl fx l \<longleftrightarrow>
     (\<forall>v a before x ops won. Commit_Act v a before x ops won \<in> set l \<longrightarrow> legal_transition fx a x \<and> (won \<and> rl \<longrightarrow> before = Some a))
     \<and> (\<forall>xs ad key args ys. l = xs @ Invoke_Act ad key args # ys \<longrightarrow> xs \<noteq> [] \<and> claims rl (last xs) key args)"

lemma split_snoc: "l @ [a] = xs @ b # ys \<longleftrightarrow> (ys = [] \<and> l = xs \<and> a = b) \<or> (\<exists>zs. ys = zs @ [a] \<and> l = xs @ b # zs)"
  by (cases ys rule: rev_cases) auto

lemma log_ok_Nil [simp]: "log_ok rl fx []"
  by (simp add: log_ok_def)

lemma log_ok_commit:
  "log_ok rl fx (l @ [Commit_Act v a before x ops won]) = (log_ok rl fx l \<and> legal_transition fx a x \<and> (won \<and> rl \<longrightarrow> before = Some a))"
  unfolding log_ok_def split_snoc by (intro iffI conjI; simp; blast)

lemma log_ok_invoke:
  "log_ok rl fx (l @ [Invoke_Act ad key args]) = (log_ok rl fx l \<and> l \<noteq> [] \<and> claims rl (last l) key args)"
  unfolding log_ok_def split_snoc by (intro iffI conjI; simp; blast)

lemma log_ok_other:
  "log_ok rl fx (l @ [Reconcile_Act ad key args]) = log_ok rl fx l"
  "log_ok rl fx (l @ [Think_Act key]) = log_ok rl fx l"
  unfolding log_ok_def split_snoc by (intro iffI conjI; simp; blast)+

section \<open>Where a handler starts and ends\<close>

definition chained :: "'e world \<Rightarrow> bool" where
  "chained w \<longleftrightarrow> evolves (wd_known w) (wd_execution w) \<and> \<not> exec_terminal (wd_known w) \<and> \<not> exec_terminal (wd_execution w)
     \<and> (cancelling (wd_known w) \<longrightarrow> cancelling (wd_execution w))"

definition ready :: "bool \<Rightarrow> codec \<Rightarrow> string \<Rightarrow> int \<Rightarrow> 'e world \<Rightarrow> bool" where
  "ready rl fx eid v w \<longleftrightarrow> log_ok rl fx (wd_log w) \<and> knows rl eid None True v w \<and> chained w"

text \<open>Nobody asked for cancellation, as far as the task knows.\<close>

definition calm :: "'e world \<Rightarrow> bool" where
  "calm w \<longleftrightarrow> \<not> cancelling (wd_known w) \<and> \<not> cancelling (wd_execution w)"

text \<open>A handler ends with a log in order; when it raises \<open>BindingError\<close>, failing the execution is still in order.\<close>

definition ends :: "bool \<Rightarrow> codec \<Rightarrow> string \<Rightarrow> int \<Rightarrow> 'a result \<Rightarrow> 'e world \<Rightarrow> bool" where
  "ends rl fx eid v r w \<longleftrightarrow> log_ok rl fx (wd_log w) \<and> (\<forall>c p. r = Inl (BindingError c p) \<longrightarrow> knows rl eid None True v w \<and> chained w)"

lemma ends_Inr [simp]: "ends rl fx eid v (Inr x) w = log_ok rl fx (wd_log w)"
  by (simp add: ends_def)

lemma ends_ready: "ready rl fx eid v w \<Longrightarrow> ends rl fx eid v r w"
  by (simp add: ready_def ends_def)

lemma ready_later: "ready rl fx eid v w \<Longrightarrow> knows rl eid seen P v (later sh os w) \<Longrightarrow> ready rl fx eid v (later sh os w)"
  by (auto simp: ready_def chained_def dest: knows_forget)

lemma calm_later [simp]: "calm (later sh os w) = calm w"
  by (simp add: calm_def)

text \<open>A commit, with the log it leaves; and one after which nothing but the result follows.\<close>

lemma wp_commit_ok:
  fixes w :: "'e world"
  assumes log: "log_ok rl fx (wd_log w)" and "knows rl eid seen P v w" "legal_transition fx (wd_known w) (wd_execution w)"
    and won: "\<And>w' t before. wd_execution w' = (wd_execution w)\<lparr>pe_updated_at := t\<rparr> \<Longrightarrow> wd_known w' = wd_execution w'
      \<Longrightarrow> log_ok rl fx (wd_log w')
      \<Longrightarrow> wd_log w' = wd_log w @ [Commit_Act v (wd_known w) before (wd_execution w') ops True]
      \<Longrightarrow> knows rl eid None True (v + 1) w' \<Longrightarrow> (rl \<Longrightarrow> P) \<Longrightarrow> Q (Inr True) w'"
    and lost: "\<And>w' t. wd_execution w' = (wd_execution w)\<lparr>pe_updated_at := t\<rparr> \<Longrightarrow> wd_known w' = wd_execution w'
      \<Longrightarrow> log_ok rl fx (wd_log w') \<Longrightarrow> named rl eid w' \<Longrightarrow> (ops = [] \<Longrightarrow> knows rl eid None True v w') \<Longrightarrow> Q (Inr False) w'"
    and error: "\<And>w'. log_ok rl fx (wd_log w') \<Longrightarrow> Q (Inl IntegrityError) w'"
  shows "wp (commit ex v ops) Q w"
proof (rule wp_commit [OF assms(2,3)])
  fix w' :: "'e world" and x before
  assume a: "x = wd_execution w'" "\<exists>t. x = (wd_execution w)\<lparr>pe_updated_at := t\<rparr>" "wd_known w' = x"
    "wd_log w' = wd_log w @ [Commit_Act v (wd_known w) before x ops True]" "knows rl eid None True (v + 1) w'"
    "rl \<Longrightarrow> before = Some (wd_known w) \<and> P"
  with log assms(3) have "log_ok rl fx (wd_log w')" by (auto simp: log_ok_commit)
  with a show "Q (Inr True) w'" by (auto intro: won)
next
  fix w' :: "'e world" and x before
  assume a: "x = wd_execution w'" "\<exists>t. x = (wd_execution w)\<lparr>pe_updated_at := t\<rparr>" "wd_known w' = x"
    "wd_log w' = wd_log w @ [Commit_Act v (wd_known w) before x ops False]" "named rl eid w'"
    "ops = [] \<Longrightarrow> knows rl eid None True v w'"
  with log assms(3) have "log_ok rl fx (wd_log w')" by (auto simp: log_ok_commit)
  with a show "Q (Inr False) w'" by (auto intro: lost)
next
  fix w' :: "'e world"
  assume "wd_log w' = wd_log w"
  with log show "Q (Inl IntegrityError) w'" by (intro error) simp
qed

lemma wp_commit_last:
  assumes "log_ok rl fx (wd_log w)" "knows rl eid seen P v w" "legal_transition fx (wd_known w) (wd_execution w)"
    "\<And>r w'. log_ok rl fx (wd_log w') \<Longrightarrow> (\<And>c p. r \<noteq> Inl (BindingError c p)) \<Longrightarrow> Q r w'"
  shows "wp (commit ex v ops) Q w"
  by (rule wp_commit_ok [OF assms(1-3)]) (rule assms(4); simp)+

lemma wp_commit_return:
  assumes "log_ok rl fx (wd_log w)" "knows rl eid seen P v w" "legal_transition fx (wd_known w) (wd_execution w)"
  shows "wp (seq_op (commit ex v ops) (ret_op x)) (ends rl fx eid u) w"
  unfolding wp_seq by (rule wp_commit_last [OF assms]) (auto simp: ends_def wp_simps split: sum.split)

lemma wp_degrade:
  assumes "\<And>r w'. wd_log w' = wd_log w \<Longrightarrow> (\<And>c p. r \<noteq> Inl (BindingError c p)) \<Longrightarrow> wd_execution w' = wd_execution w \<Longrightarrow> Q r w'"
  shows "wp (degrade_on_defect ex code) Q w"
proof -
  have "Q r w'" if "degrade_on_defect ex code w = (r, w')" for r w'
  proof (rule assms)
    from that show "wd_log w' = wd_log w" "wd_execution w' = wd_execution w"
      by (auto simp: degrade_on_defect_def with_execution_def with_clock_def op_defs split: if_splits option.splits prod.splits)
    from that show "r \<noteq> Inl (BindingError c p)" for c p
      by (auto simp: degrade_on_defect_def with_execution_def with_clock_def op_defs degrade_def set_status_def find_admission_def
          Let_def split: if_splits option.splits prod.splits)
  qed
  then show ?thesis by (auto simp: wp_def split: prod.split)
qed

lemma fail_ends:
  assumes "log_ok rl fx (wd_log w)" "knows rl eid seen P v w" "evolves (wd_known w) (wd_execution w)" "\<not> exec_terminal (wd_known w)"
  shows "wp (fail ex v code) (ends rl fx eid u) w"
proof -
  let ?w = "w\<lparr>wd_execution := add_evidence (failure_evidence code (pe_current_step_id (wd_execution w)))
    (with_status Ex_Failed code (wd_execution w))\<rparr>"
  have "legal_transition fx (wd_known ?w) (wd_execution ?w)"
    using assms(3,4) by (simp add: legal_transition_def evolves_evidence)
  then show ?thesis unfolding fail_def wp_simps
    by (intro wp_commit_last [where w = ?w and seen = seen and P = P])
      (use assms in \<open>auto simp: ends_def wp_simps split: sum.split intro!: wp_degrade\<close>)
qed

lemma fail_ready: "ready rl fx eid v w \<Longrightarrow> wp (fail ex v code) (ends rl fx eid u) w"
  by (rule fail_ends [where seen = None and P = True]) (simp_all add: ready_def chained_def)

lemma finish_cancel_ends:
  assumes "log_ok rl fx (wd_log w)" "knows rl eid seen P v w" "evolves (wd_known w) (wd_execution w)" "\<not> exec_terminal (wd_known w)"
  shows "wp (finish_cancel ex v sid ops) (ends rl fx eid u) w"
  unfolding finish_cancel_def wp_simps
  by (rule wp_commit_last [where seen = seen and P = P]) (use assms in \<open>auto simp: ends_def legal_transition_def split: sum.split\<close>)


section \<open>Settling\<close>

lemma named_free [simp]: "\<not> rl \<Longrightarrow> named rl e w" "\<not> rl \<Longrightarrow> knows rl e seen P v w"
  by (simp_all add: named_def knows_def)

lemma ready_id: "ready rl fx eid v w \<Longrightarrow> rl \<Longrightarrow> pe_execution_id (wd_execution w) = eid"
  by (auto simp: ready_def chained_def knows_def evolves_def same_identity_def)

lemma chained_loaded: "\<not> exec_terminal x \<Longrightarrow> chained (w\<lparr>wd_execution := x, wd_known := x\<rparr>)"
  by (simp add: chained_def)

lemma legal_running:
  "chained w \<Longrightarrow> \<not> cancelling (wd_execution w) \<Longrightarrow> evolves (wd_known w) x \<Longrightarrow> pe_status x \<noteq> Ex_Completed
    \<Longrightarrow> legal_transition fx (wd_known w) x"
  by (auto simp: legal_transition_def chained_def)

lemma ready_parts:
  assumes "ready rl fx eid v w"
  shows "log_ok rl fx (wd_log w)" "knows rl eid None True v w" "chained w" "evolves (wd_known w) (wd_execution w)"
    "\<not> exec_terminal (wd_known w)" "\<not> exec_terminal (wd_execution w)" "cancelling (wd_known w) \<Longrightarrow> cancelling (wd_execution w)"
  using assms by (auto simp: ready_def chained_def)

lemma settle_loop_ends:
  assumes "ready rl fx eid v w"
  shows "wp (settle_loop ex n v s r res evidence) (ends rl fx eid u) w"
  using assms
proof (induction n arbitrary: v w)
  case 0
  then show ?case by (simp add: wp_simps ready_def)
next
  case (Suc n)
  let ?x = "wd_execution w"
  note rd = ready_parts [OF Suc.prems]
  have name: "named rl (pe_execution_id ?x) w' \<longleftrightarrow> named rl eid w'"
    "knows rl (pe_execution_id ?x) None True v' w' \<longleftrightarrow> knows rl eid None True v' w'" for w' :: "'a world" and v'
    using ready_id [OF Suc.prems] by (cases rl; simp)+
  show ?case
  proof (cases "cancelling ?x")
    case True
    have "evolves (wd_known w) (add_evidence evidence (?x\<lparr>pe_results := dict_set (ts_id s) (PDict res) (pe_results ?x),
        pe_completed_steps := pe_completed_steps ?x @ [ts_id s]\<rparr>))"
      by (rule evolves_evidence) (use rd(4) in \<open>auto simp: evolves_def same_identity_def\<close>)
    with True rd show ?thesis
      by (simp add: wp_simps) (rule finish_cancel_ends [where seen = None and P = True]; simp)
  next
    case False
    have "legal_transition fx (wd_known w) (add_evidence evidence (advance_to (ts_id s) (ts_next s) (PDict res) ?x))"
      by (rule legal_running [OF rd(3) False]) (simp_all add: evolves_evidence evolves_advance rd)
    with rd False show ?thesis
      apply (simp add: wp_simps)
      apply (rule wp_commit_ok [where seen = None and P = True and rl = rl and fx = fx and eid = eid]; simp add: wp_simps ends_def)
      apply (rule wp_load_op [where rl = rl]; simp add: name wp_simps ends_def)
      apply (rule wp_load_operation [where seen = None and P = True and rl = rl and eid = eid]; simp add: wp_simps ends_def)
      apply (auto simp: wp_simps ready_def chained_def ends_def)[1]
      apply (rule Suc.IH)
      apply (simp add: ready_def chained_def)
      done
  qed
qed


section \<open>Rules on ready worlds\<close>

abbreviation still :: "'e world \<Rightarrow> 'e world \<Rightarrow> bool" where
  "still w w' \<equiv> wd_execution w' = wd_execution w \<and> wd_known w' = wd_known w"

lemmas evolves_rules = evolves_evidence evolves_completed evolves_advance evolves_budget

lemma knows_lower: "knows rl eid seen P v w \<Longrightarrow> u \<le> v \<Longrightarrow> knows rl eid None True u w"
  by (auto simp: knows_def seen_own_def seen_still_def)

lemma ready_ends: "ready rl fx eid v w \<Longrightarrow> u \<le> v \<Longrightarrow> ends rl fx eid u r w"
  by (auto simp: ready_def ends_def intro: knows_lower)

lemma ready_fields [simp]:
  "ready rl fx eid v (w\<lparr>wd_in_flight := s\<rparr>) = ready rl fx eid v w"
  "ready rl fx eid v (w\<lparr>wd_advancing := s\<rparr>) = ready rl fx eid v w"
  "ends rl fx eid v r (w\<lparr>wd_in_flight := s\<rparr>) = ends rl fx eid v r w"
  "ends rl fx eid v r (w\<lparr>wd_advancing := s\<rparr>) = ends rl fx eid v r w"
  by (simp_all add: ready_def chained_def ends_def)

lemma wp_env_ready:
  assumes "ready rl fx eid v w" "\<And>r w'. ready rl fx eid v w' \<Longrightarrow> still w w' \<Longrightarrow> Q r w'"
  shows "wp (on_env f) Q w"
  by (rule wp_on_env [where rl = rl and eid = eid and seen = None and P = True and v = v])
    (use assms in \<open>auto simp: ready_def chained_def\<close>)

lemma wp_view_ready:
  assumes "ready rl fx eid v w" "\<And>st. snd (f st) = st" "\<And>st w'. ready rl fx eid v w' \<Longrightarrow> still w w' \<Longrightarrow> Q (fst (f st)) w'"
  shows "wp (on_store f) Q w"
  by (rule wp_view [where rl = rl and eid = eid and seen = None and P = True and v = v])
    (use assms in \<open>auto simp: ready_def chained_def\<close>)

lemma wp_operation_ready:
  assumes "ready rl fx eid v w" "\<And>row w'. ready rl fx eid v w' \<Longrightarrow> still w w' \<Longrightarrow> Q (Inr row) w'"
  shows "wp (load_operation key) Q w"
  unfolding load_operation_def by (rule wp_view_ready [OF assms(1)]) (auto simp: assms(2))

lemma wp_update_ready:
  assumes "ready rl fx eid v w" "\<And>st. st_executions (snd (f st)) = st_executions st"
    "\<And>r w'. ready rl fx eid v w' \<Longrightarrow> still w w' \<Longrightarrow> Q r w'"
  shows "wp (on_store f) Q w"
  by (rule wp_update [where rl = rl and eid = eid and seen = None and P = True and v = v])
    (use assms in \<open>auto simp: ready_def chained_def\<close>)

text \<open>What ends an execution is legal whatever was asked for; what goes on is legal when nobody asked to cancel.\<close>

lemma legal_ending:
  "ready rl fx eid v w \<Longrightarrow> evolves (wd_known w) x \<Longrightarrow> pe_status x \<in> {Ex_Failed, Ex_Cancelled, Ex_Needs_Reconciliation}
    \<Longrightarrow> legal_transition fx (wd_known w) x"
  by (auto simp: legal_transition_def ready_def chained_def)

lemma legal_going:
  "ready rl fx eid v w \<Longrightarrow> calm w \<Longrightarrow> evolves (wd_known w) x \<Longrightarrow> pe_status x \<noteq> Ex_Completed
    \<Longrightarrow> legal_transition fx (wd_known w) x"
  by (auto simp: legal_transition_def ready_def chained_def calm_def)

lemma wp_commit_end:
  assumes "ready rl fx eid v w" "legal_transition fx (wd_known w) x"
    "\<And>e w'. log_ok rl fx (wd_log w') \<Longrightarrow> (\<And>c p. e \<noteq> BindingError c p) \<Longrightarrow> Q (Inl e) w'"
    "\<And>won w'. log_ok rl fx (wd_log w') \<Longrightarrow> Q (Inr won) w'"
  shows "wp (commit ex v ops) Q (w\<lparr>wd_execution := x\<rparr>)"
proof (rule wp_commit_last [where seen = None and P = True and eid = eid])
  fix r :: "bool result" and w' :: "'a world"
  assume "log_ok rl fx (wd_log w')" "\<And>c p. r \<noteq> Inl (BindingError c p)"
  then show "Q r w'" using assms(3,4) by (cases r) auto
qed (use ready_parts [OF assms(1)] assms(2) in simp_all)

text \<open>Ending here, and failing or cancelling here; the rules proofs about a handler rest on.\<close>

lemma ends_log: "log_ok rl fx (wd_log w) \<Longrightarrow> (\<And>c p. r \<noteq> Inl (BindingError c p)) \<Longrightarrow> ends rl fx eid v r w"
  by (simp add: ends_def)

lemma fail_here: "ready rl fx eid v w \<Longrightarrow> wp (fail ex v code) (ends rl fx eid u) w"
  by (rule fail_ready)

lemma finish_cancel_here:
  assumes "ready rl fx eid v w" "evolves (wd_known w) x"
  shows "wp (finish_cancel ex v sid ops) (ends rl fx eid u) (w\<lparr>wd_execution := x\<rparr>)"
  by (rule finish_cancel_ends [where seen = None and P = True]) (use assms ready_parts [OF assms(1)] in simp_all)

section \<open>The effect of a tool step\<close>

lemma settle_success_ends:
  assumes "ready rl fx eid v w" "u \<le> v"
  shows "wp (settle_success ex v s c r res receipt) (ends rl fx eid u) w"
  using ready_parts [OF assms(1)]
  by (auto simp: settle_success_def Let_def wp_simps evolves_rules split: sum.split
      intro!: ready_ends [OF assms] settle_loop_ends [OF assms(1)] wp_commit_end [OF assms(1)] legal_ending [OF assms(1)] ends_log)

lemma retry_or_fail_ends:
  assumes "ready rl fx eid v w" "calm w"
  shows "wp (retry_or_fail ex v s r code) (ends rl fx eid u) w"
  using ready_parts [OF assms(1)]
  by (auto simp: retry_or_fail_def Let_def wp_simps evolves_rules
      intro!: wp_commit_end [OF assms(1)] legal_going [OF assms] ends_log)

lemma wp_invoke:
  assumes "ready rl fx eid v w" "wd_log w \<noteq> []" "claims rl (last (wd_log w)) (or_operation_key r) (or_arguments r)"
    "\<And>res w'. ready rl fx eid v w' \<Longrightarrow> still w w' \<Longrightarrow> Q res w'"
  shows "wp (invoke_adapter ex c r) Q w"
proof -
  let ?w = "w\<lparr>wd_in_flight := insert (or_operation_key r) (wd_in_flight w),
    wd_log := wd_log w @ [Invoke_Act (ac_adapter_id c) (or_operation_key r) (or_arguments r)]\<rparr>"
  have rd: "ready rl fx eid v ?w" using assms(1-3) by (simp add: ready_def log_ok_invoke chained_def)
  show ?thesis
    by (auto simp: invoke_adapter_def add_log_def wp_simps split: sum.split option.split
        intro!: wp_env_ready [OF rd] assms(4))
qed

lemma dispatch_ends:
  assumes "ready rl fx eid v w" "calm w" "wd_log w \<noteq> []" "claims rl (last (wd_log w)) (or_operation_key r) (or_arguments r)"
    "u \<le> v"
  shows "wp (dispatch ex v s c r) (ends rl fx eid u) w"
  unfolding dispatch_def wp_bind
proof (rule wp_invoke [OF assms(1,3,4)], goal_cases)
  case (1 res w')
  then have rd: "ready rl fx eid v w'" and "calm w'" using assms(2) by (simp_all add: calm_def)
  with assms(5) ready_parts [OF rd] show ?case
    by (auto simp: Let_def wp_simps evolves_rules split: sum.split option.split
      intro!: ready_ends [OF rd] retry_or_fail_ends settle_success_ends wp_commit_end [OF rd] legal_ending [OF rd] ends_log)
qed


section \<open>The claim of a tool step\<close>

text \<open>A ready task that has looked at an operation of the step.\<close>

definition aware :: "bool \<Rightarrow> codec \<Rightarrow> string \<Rightarrow> seen \<Rightarrow> bool \<Rightarrow> int \<Rightarrow> 'e world \<Rightarrow> bool" where
  "aware rl fx eid seen P v w \<longleftrightarrow> log_ok rl fx (wd_log w) \<and> knows rl eid seen P v w \<and> chained w"

lemma aware_ready: "aware rl fx eid seen P v w \<Longrightarrow> ready rl fx eid v w"
  by (auto simp: aware_def ready_def dest: knows_forget)

lemma wp_env_aware:
  assumes "aware rl fx eid seen P v w" "\<And>r w'. aware rl fx eid seen P v w' \<Longrightarrow> still w w' \<Longrightarrow> Q r w'"
  shows "wp (on_env f) Q w"
  by (rule wp_on_env [where rl = rl and eid = eid and seen = seen and P = P and v = v])
    (use assms in \<open>auto simp: aware_def chained_def\<close>)

lemma wp_first_aware:
  assumes "ready rl fx eid v w" "rl \<Longrightarrow> own_key eid key"
    "\<And>row w'. aware rl fx eid (Some (key, row)) True v w' \<Longrightarrow> still w w' \<Longrightarrow> Q (Inr row) w'"
  shows "wp (load_operation key) Q w"
  by (rule wp_first_look [where rl = rl and eid = eid and v = v]) (use assms in \<open>auto simp: aware_def ready_def chained_def\<close>)

lemma wp_second_aware:
  assumes "aware rl fx eid (Some (key, r)) True v w"
    "\<And>row w'. aware rl fx eid (Some (key, r)) (row = r) v w' \<Longrightarrow> still w w' \<Longrightarrow> Q (Inr row) w'"
  shows "wp (load_operation key) Q w"
  by (rule wp_second_look [where rl = rl and eid = eid and v = v]) (use assms in \<open>auto simp: aware_def chained_def\<close>)

text \<open>A commit after which the task goes on.\<close>

lemma wp_commit_next:
  assumes a: "aware rl fx eid seen P v w" and calm: "calm w" and ev: "evolves (wd_known w) x"
    and st: "\<not> exec_terminal x" "\<not> cancelling x"
    and won: "\<And>w' t before. ready rl fx eid (v + 1) w' \<Longrightarrow> calm w' \<Longrightarrow> wd_execution w' = x\<lparr>pe_updated_at := t\<rparr>
      \<Longrightarrow> wd_known w' = x\<lparr>pe_updated_at := t\<rparr> \<Longrightarrow> (rl \<Longrightarrow> P)
      \<Longrightarrow> wd_log w' = wd_log w @ [Commit_Act v (wd_known w) before (wd_execution w') ops True] \<Longrightarrow> Q (Inr True) w'"
    and other: "\<And>e w'. log_ok rl fx (wd_log w') \<Longrightarrow> (\<And>c p. e \<noteq> BindingError c p) \<Longrightarrow> Q (Inl e) w'"
      "\<And>w'. log_ok rl fx (wd_log w') \<Longrightarrow> Q (Inr False) w'"
  shows "wp (commit ex v ops) Q (w\<lparr>wd_execution := x\<rparr>)"
proof (rule wp_commit_ok [where seen = seen and P = P and rl = rl and fx = fx and eid = eid], goal_cases)
  case 3
  then show ?case using aware_ready [OF a] calm ev st by (simp add: legal_going exec_terminal_def terminal_statuses_def)
next
  case (4 w' t before)
  then have "ready rl fx eid (v + 1) w'" "calm w'" using st
    by (simp_all add: ready_def chained_def calm_def exec_terminal_def cancelling_def)
  with 4 show ?case by (intro won) simp_all
next
  case (6 w')
  then show ?case by (intro other) simp_all
qed (use a in \<open>simp_all add: aware_def other\<close>)

lemma attempt_fields [simp]:
  "exec_terminal (x\<lparr>pe_step_attempts := s, pe_budget := b\<rparr>) = exec_terminal x"
  "cancelling (x\<lparr>pe_step_attempts := s, pe_budget := b\<rparr>) = cancelling x"
  by (simp_all add: exec_terminal_def cancelling_def)

lemma claim_tool_ends:
  assumes a: "aware rl fx eid seen P v w" and calm: "calm w" and le: "u \<le> v"
    and settled: "rl \<Longrightarrow> P \<Longrightarrow> \<forall>p. prior = Some p \<longrightarrow> \<not> unsettled (or_state p)"
    and budget: "bg_tool_attempts (pe_budget (wd_execution w)) < bg_max_tool_attempts (pe_budget (wd_execution w))"
  shows "wp (claim_tool ex v s c arguments prior) (ends rl fx eid u) w"
proof -
  note rd = aware_ready [OF a]
  let ?x = "wd_execution w" and ?expected = "map_option (\<lambda>p. op_state_value (or_state p)) prior"
  have ev: "evolves (wd_known w) (?x\<lparr>pe_step_attempts := at', pe_budget := (pe_budget ?x)\<lparr>
      bg_tool_attempts := bg_tool_attempts (pe_budget ?x) + 1, bg_step_attempts := bg_step_attempts (pe_budget ?x) + 1\<rparr>\<rparr>)" for at'
    using evolves_budget [of "wd_known w" "?x\<lparr>pe_step_attempts := at'\<rparr>"] spends_more [of 1 "pe_budget ?x"] ready_parts [OF rd] budget
    by simp
  have expected: "\<exists>q. ?expected = map_option op_state_value q \<and> (rl \<longrightarrow> (\<forall>s. q = Some s \<longrightarrow> \<not> unsettled s))" if "rl \<Longrightarrow> P"
    using settled that by (intro exI [of _ "map_option or_state prior"]) (auto simp: option.map_comp comp_def)
  show ?thesis
    using calm le ready_parts [OF rd]
    apply (simp add: claim_tool_def Let_def wp_simps)
    apply (intro conjI impI fail_here [OF rd])
    apply (rule wp_commit_next [OF a calm ev]; simp add: calm_def wp_simps ends_log)
    apply (auto simp: fault_def wp_simps calm_def split: option.split intro!: ready_ends dispatch_ends)
    apply (use expected in \<open>auto simp: claims_def new_operation_def\<close>)
    done
qed


lemma wp_outside_one:
  assumes "aware rl fx eid seen P v w" "\<And>r w'. aware rl fx eid seen P v w' \<Longrightarrow> still w w' \<Longrightarrow> Q r w'"
  shows "wp (outside_scope_of ex c arguments resources name) Q w"
  using assms(2) [OF assms(1)]
  by (auto simp: outside_scope_of_def Let_def wp_simps split: sum.split option.split pyval.split
      intro!: wp_env_aware [OF assms(1)] assms(2))

lemma wp_outside_any:
  assumes "aware rl fx eid seen P v w" "\<And>r w'. aware rl fx eid seen P v w' \<Longrightarrow> still w w' \<Longrightarrow> Q r w'"
  shows "wp (outside_scope_any ex c arguments resources ns) Q w"
  using assms
proof (induction ns arbitrary: w)
  case Nil
  then show ?case by (simp add: wp_simps)
next
  case (Cons n ns)
  show ?case
    by (simp add: wp_simps, rule wp_outside_one [OF Cons.prems(1)])
      (auto simp: wp_simps split: sum.split intro!: Cons.IH Cons.prems(2))
qed

lemma wp_outside:
  assumes "aware rl fx eid seen P v w" "\<And>r w'. aware rl fx eid seen P v w' \<Longrightarrow> still w w' \<Longrightarrow> Q r w'"
  shows "wp (outside_task_scope ex c arguments) Q w"
  using assms(2) [OF assms(1)]
  by (auto simp: outside_task_scope_def Let_def wp_simps split: pyval.split
      intro!: wp_outside_any [OF assms(1)] assms(2))

lemma aware_ends: "aware rl fx eid seen P v w \<Longrightarrow> u \<le> v \<Longrightarrow> ends rl fx eid u r w"
  by (rule ready_ends [OF aware_ready])

lemma fail_aware: "aware rl fx eid seen P v w \<Longrightarrow> wp (fail ex v code) (ends rl fx eid u) w"
  by (rule fail_here [OF aware_ready])

text \<open>A handler taken apart along its text.\<close>

lemma vc:
  "(b \<Longrightarrow> wp m Q w) \<Longrightarrow> (\<not> b \<Longrightarrow> wp n Q w) \<Longrightarrow> wp (if b then m else n) Q w"
  "(y = None \<Longrightarrow> wp m Q w) \<Longrightarrow> (\<And>z. y = Some z \<Longrightarrow> wp (f z) Q w) \<Longrightarrow> wp (case y of None \<Rightarrow> m | Some z \<Rightarrow> f z) Q w"
  "wp (g y) Q w \<Longrightarrow> wp (let y = y in g y) Q w"
  by (auto split: option.split)

lemma vc_world:
  fixes w :: "'e world"
  shows "wp (h (wd_execution w)) Q w \<Longrightarrow> wp (with_execution h) Q w"
  "wp (k w) Q w \<Longrightarrow> wp (read_op k) Q w"
  "(\<And>now. wp (l now) Q w) \<Longrightarrow> wp (with_clock ex l) Q w"
  by (simp_all add: wp_simps)

lemma lift_ends:
  assumes "ready rl fx eid v w" "u \<le> v" "\<And>y. r = Inr y \<Longrightarrow> wp (f y) (ends rl fx eid u) w"
  shows "wp (bind_op (lift_op r) f) (ends rl fx eid u) w"
  using assms(3) ready_ends [OF assms(1,2)] by (cases r) (simp_all add: wp_simps)

lemma wp_pending_first:
  assumes "ready rl fx eid v w"
    "\<And>row w'. aware rl fx eid (Some (operation_key (wd_execution w) sid, row)) True v w' \<Longrightarrow> still w w' \<Longrightarrow> Q (Inr (map_option snd row)) w'"
  shows "wp (pending_operation sid) Q w"
  unfolding pending_operation_def wp_simps
  by (rule wp_first_aware [OF assms(1)])
    (use assms(2) ready_id [OF assms(1)] in \<open>auto simp: wp_simps own_key_def operation_key_def\<close>)

lemma wp_pending_second:
  assumes "aware rl fx eid (Some (operation_key (wd_execution w) sid, r)) True v w"
    "\<And>row w'. aware rl fx eid (Some (operation_key (wd_execution w) sid, r)) (row = r) v w' \<Longrightarrow> still w w' \<Longrightarrow> Q (Inr (map_option snd row)) w'"
  shows "wp (pending_operation sid) Q w"
  unfolding pending_operation_def wp_simps
  by (rule wp_second_aware [OF assms(1)]) (auto simp: wp_simps intro!: assms(2))

lemma run_tool_ends:
  assumes a: "aware rl fx eid (Some (operation_key (wd_execution w) (ts_id s), seen)) True v w" and calm: "calm w" and le: "u \<le> v"
    and settled: "\<And>p. seen = Some p \<Longrightarrow> \<not> unsettled (or_state (snd p))"
  shows "wp (run_tool ex v d s) (ends rl fx eid u) w"
proof -
  let ?x = "wd_execution w"
  have pending: "wp (pending_operation (ts_id s)) (\<lambda>r t. case r of
        Inl e \<Rightarrow> ends rl fx eid u (Inl e) t
      | Inr prior \<Rightarrow> wp (case arguments of PDict args \<Rightarrow> claim_tool ex v s c args prior
          | _ \<Rightarrow> raise_op (ValueError ''OperationRecord'')) (ends rl fx eid u) t) w'"
    if b: "bg_tool_attempts (pe_budget ?x) < bg_max_tool_attempts (pe_budget ?x)" and a': "aware rl fx eid
      (Some (operation_key (wd_execution w') (ts_id s), seen)) True v w'" and s: "still w w'" for c arguments and w' :: "'a world"
  proof (rule wp_pending_second [OF a'], goal_cases)
    case (1 row w'')
    with s calm have "calm w''" by (simp add: calm_def)
    with 1 s settled b le show ?case
      by (auto simp: wp_simps split: pyval.split intro!: claim_tool_ends aware_ends)
  qed
  have scoped: "wp (outside_task_scope ex c arguments) (\<lambda>r t. case r of
        Inl e \<Rightarrow> ends rl fx eid u (Inl e) t
      | Inr no \<Rightarrow> wp (if no then fail ex v ''PERMISSION_DENIED''
      else bind_op (pending_operation (ts_id s)) (\<lambda>prior. case arguments of
          PDict args \<Rightarrow> claim_tool ex v s c args prior
        | _ \<Rightarrow> raise_op (ValueError ''OperationRecord''))) (ends rl fx eid u) t) w"
    if b: "bg_tool_attempts (pe_budget ?x) < bg_max_tool_attempts (pe_budget ?x)" for c arguments
  proof (rule wp_outside [OF a], goal_cases)
    case (1 r w')
    then show ?case
      by (cases r) (auto simp: wp_bind wp_if intro!: fail_aware [OF 1(1)] aware_ends [OF 1(1) le] pending [OF b])
  qed
  show ?thesis
    unfolding run_tool_def
    by (intro vc vc_world lift_ends [OF aware_ready [OF a] le] fail_aware [OF a])
      (simp add: wp_bind scoped not_le)
qed


section \<open>Recovery\<close>

lemma vc_set: "wp m Q (w\<lparr>wd_execution := f (wd_execution w)\<rparr>) \<Longrightarrow> wp (seq_op (set_execution f) m) Q w"
  by (simp add: wp_simps)

lemma ready_calm: "ready rl fx eid v w \<Longrightarrow> \<not> cancelling (wd_execution w) \<Longrightarrow> calm w"
  by (auto simp: ready_def chained_def calm_def)

lemma ready_set:
  "ready rl fx eid v w \<Longrightarrow> evolves (wd_known w) x \<Longrightarrow> \<not> exec_terminal x \<Longrightarrow> (cancelling (wd_execution w) \<Longrightarrow> cancelling x)
    \<Longrightarrow> ready rl fx eid v (w\<lparr>wd_execution := x\<rparr>)"
  by (auto simp: ready_def chained_def)

lemma ready_log:
  "ready rl fx eid v w \<Longrightarrow> log_ok rl fx (wd_log w @ [a]) \<Longrightarrow> ready rl fx eid v (w\<lparr>wd_log := wd_log w @ [a]\<rparr>)"
  by (auto simp: ready_def chained_def)

lemma live_fields [simp]:
  "exec_terminal (release_attempt sid x) = exec_terminal x" "cancelling (release_attempt sid x) = cancelling x"
  "exec_terminal (add_evidence e x) = exec_terminal x" "cancelling (add_evidence e x) = cancelling x"
  "\<not> exec_terminal (x\<lparr>pe_status := Ex_Running\<rparr>)"
  by (simp_all add: exec_terminal_def cancelling_def terminal_statuses_def)

lemma commit_out:
  assumes "ready rl fx eid v w" "legal_transition fx (wd_known w) x"
  shows "wp (seq_op (commit ex v ops) (ret_op out)) (ends rl fx eid u) (w\<lparr>wd_execution := x\<rparr>)"
  unfolding wp_seq by (rule wp_commit_end [OF assms]) (auto simp: ends_log wp_simps)

lemma repeat_later_ends:
  assumes "ready rl fx eid v w"
  shows "wp (repeat_later ex v sid r) (ends rl fx eid u) w"
  unfolding repeat_later_def
  using finish_cancel_here [OF assms ready_parts(4) [OF assms]] ready_parts [OF assms]
  by (intro vc vc_world vc_set commit_out [OF assms] legal_going [OF assms] ready_calm [OF assms]) simp_all

lemma unresolved_ends:
  assumes "ready rl fx eid v w"
  shows "wp (unresolved ex v sid r why) (ends rl fx eid u) w"
  unfolding unresolved_def
  using ready_parts [OF assms] by (intro vc_set commit_out [OF assms] legal_ending [OF assms]) simp_all

lemma reconcile_tool_ends:
  assumes rd: "ready rl fx eid v w" and le: "u \<le> v"
  shows "wp (reconcile_tool ex v s c r) (ends rl fx eid u) w"
proof -
  let ?w = "w\<lparr>wd_log := wd_log w @ [Reconcile_Act (ac_adapter_id c) (or_operation_key r) (or_arguments r)]\<rparr>"
  have rd': "ready rl fx eid v ?w" using ready_parts [OF rd] by (intro ready_log rd) (simp add: log_ok_other)
  show ?thesis
    unfolding reconcile_tool_def
    apply (intro vc_world)
    apply (simp only: wp_seq wp_modify add_log_def sum.case wp_bind)
    apply (rule wp_env_ready [OF rd'])
    subgoal for res w' using le ready_parts [of rl fx eid v w']
      by (auto simp: wp_bind [symmetric] split: sum.split if_splits
          intro!: vc vc_world vc_set ready_ends settle_success_ends repeat_later_ends unresolved_ends ready_set)
    done
qed

lemma recover_ends:
  assumes rd: "ready rl fx eid v w" and le: "u \<le> v"
  shows "wp (recover ex v st r) (ends rl fx eid u) w"
proof (cases st)
  case (Tool s)
  show ?thesis unfolding recover_def Tool using ready_parts [OF rd]
    by (simp only: step.case, intro vc vc_set fail_here rd unresolved_ends reconcile_tool_ends le repeat_later_ends ready_set) simp_all
qed (use finish_cancel_here [OF rd ready_parts(4) [OF rd]] commit_out [OF rd legal_going [OF rd ready_calm [OF rd] ready_parts(4) [OF rd]]]
    ready_parts [OF rd] in \<open>auto simp: recover_def exec_terminal_def terminal_statuses_def intro!: vc vc_world\<close>)


section \<open>The other steps\<close>

lemma the_definition_ends:
  assumes "ready rl fx eid v w" "u \<le> v" "\<And>d. wp (f d) (ends rl fx eid u) w"
  shows "wp (the_definition x f) (ends rl fx eid u) w"
  using assms(3) ready_ends [OF assms(1,2)] by (auto simp: the_definition_def wp_simps split: option.split)

lemma evolves_count:
  "evolves a x \<Longrightarrow> evolves a (x\<lparr>pe_budget := (pe_budget x)\<lparr>bg_step_attempts := bg_step_attempts (pe_budget x) + 1\<rparr>\<rparr>)"
  by (rule evolves_budget) (simp_all add: spends_step)

lemma live_advance [simp]:
  "\<not> exec_terminal (advance_to sid target res x)"
  "cancelling (advance_to sid target res x) \<longleftrightarrow> pe_cancel_requested x"
  "pe_cancel_requested (x\<lparr>pe_budget := b\<rparr>) = pe_cancel_requested x"
  by (simp_all add: exec_terminal_def terminal_statuses_def cancelling_def)

lemma run_branch_ends:
  assumes rd: "ready rl fx eid v w" and calm: "calm w" and le: "u \<le> v"
  shows "wp (run_branch ex v s) (ends rl fx eid u) w"
  unfolding run_branch_def
  by (intro vc_world the_definition_ends [OF rd le])
    (auto simp: Let_def wp_raise count_step_def split: sum.split tri.split exn.split
      intro!: vc_set fail_here [OF rd] ready_ends [OF rd le] commit_out [OF rd] legal_going [OF rd calm]
        evolves_advance evolves_count ready_parts(4) [OF rd])

lemma wp_commit_degrade:
  assumes "ready rl fx eid v w" "legal_transition fx (wd_known w) x"
  shows "wp (seq_op (commit ex v ops) (seq_op (degrade_on_defect ex code) (ret_op out))) (ends rl fx eid u) (w\<lparr>wd_execution := x\<rparr>)"
  unfolding wp_seq
  by (rule wp_commit_end [OF assms]) (auto simp: ends_log wp_simps split: sum.split intro!: wp_degrade ends_log)

lemma run_validate_ends:
  assumes rd: "ready rl fx eid v w" and calm: "calm w" and le: "u \<le> v"
  shows "wp (run_validate ex v s) (ends rl fx eid u) w"
proof -
  let ?x = "wd_execution w"
  have checked: "wp (bind_op (on_env (h_check (ex_host ex) (vs_check s) a ?x ops)) (\<lambda>res.
      let evidence = validator_evidence ?x s res
      in seq_op count_step
        (seq_op (set_execution (add_evidence evidence))
        (if \<not> ck_passed res then
           seq_op (set_execution (with_status Ex_Failed ''VALIDATION_FAILED''))
          (seq_op (commit ex v [])
          (seq_op (degrade_on_defect ex ''VALIDATION_FAILED'')
          (ret_op ((outcome Failed_Step (vs_id s) ''VALIDATION_FAILED'')\<lparr>out_evidence := [evidence]\<rparr>))))
         else
           seq_op (set_execution (advance_to (vs_id s) (vs_next s)
             (PDict (dict_update [(''passed'', PBool True)] (ck_evidence res)))))
          (seq_op (commit ex v [])
          (ret_op ((outcome Advanced (vs_id s) [])\<lparr>out_result := Some (PDict evidence), out_evidence := [evidence]\<rparr>))))))) 
      (ends rl fx eid u) w'" if rd': "ready rl fx eid v w'" and s: "still w w'" for a ops and w' :: "'a world"
    unfolding wp_bind
  proof (rule wp_env_ready [OF rd'], goal_cases)
    case (1 res w'')
    note rd'' = 1(1)
    from 1 s calm have calm'': "calm w''" by (simp add: calm_def)
    have ev: "evolves (wd_known w'') (wd_execution w'')" by (rule ready_parts(4) [OF rd''])
    show ?case
      by (cases res) (auto simp: Let_def count_step_def evolves_evidence evolves_count ev
        intro!: ready_ends [OF rd'' le] vc vc_set wp_commit_degrade [OF rd''] commit_out [OF rd'']
          legal_ending [OF rd''] legal_going [OF rd'' calm''] evolves_advance)
  qed
  have listed: "wp (list_operations eid') (\<lambda>r t. case r of Inl e \<Rightarrow> ends rl fx eid u (Inl e) t | Inr ops \<Rightarrow> wp (f ops) (ends rl fx eid u) t) w"
    if "\<And>ops w'. ready rl fx eid v w' \<Longrightarrow> still w w' \<Longrightarrow> wp (f ops) (ends rl fx eid u) w'" for f eid'
    unfolding list_operations_def by (rule wp_view_ready [OF rd]) (auto intro: that)
  show ?thesis
    unfolding run_validate_def
    apply (intro vc vc_world the_definition_ends [OF rd le] lift_ends [OF rd le] fail_here [OF rd])
    apply (subst wp_bind, rule listed, rule checked; assumption)
    done
qed


lemma run_complete_ends:
  assumes rd: "ready rl fx eid v w" and calm: "calm w" and le: "u \<le> v"
    and pinned: "fx_digest fx d = pe_digest (wd_execution w)" "Complete s \<in> set (pd_steps d)" "ks_id s = pe_current_step_id (wd_execution w)"
  shows "wp (run_complete ex v d s) (ends rl fx eid u) w"
proof -
  let ?x = "wd_execution w"
  have legal: "legal_transition fx (wd_known w) ((with_status Ex_Completed ''graph completed'' ?x)
      \<lparr>pe_output := Some res, pe_completed_steps := pe_completed_steps ?x @ [ks_id s]\<rparr>)"
    if "schema_errors res (PDict (pd_output_schema d)) ''output'' = Inr []" for res
  proof -
    have "evolves (wd_known w) ((with_status Ex_Completed ''graph completed'' ?x)
        \<lparr>pe_output := Some res, pe_completed_steps := pe_completed_steps ?x @ [ks_id s]\<rparr>)"
      using ready_parts(4) [OF rd] by (auto simp: evolves_def same_identity_def with_status_def)
    with ready_parts [OF rd] calm pinned that show ?thesis
      by (auto simp: legal_transition_def finished_def calm_def with_status_def)
  qed
  show ?thesis
    unfolding run_complete_def
    by (intro vc vc_world lift_ends [OF rd le] fail_here [OF rd])
      (auto simp: wp_simps ends_log intro!: wp_commit_end [OF rd] legal)
qed

text \<open>A commit without operations whose result is ignored: lost or won, the task goes on no higher than it was.\<close>

lemma wp_commit_any:
  assumes rd: "ready rl fx eid v w" and calm: "calm w" and ev: "evolves (wd_known w) x"
    and st: "\<not> exec_terminal x" "\<not> cancelling x"
    and any: "\<And>won w'. ready rl fx eid v w' \<Longrightarrow> Q (Inr won) w'"
    and other: "\<And>e w'. log_ok rl fx (wd_log w') \<Longrightarrow> (\<And>c p. e \<noteq> BindingError c p) \<Longrightarrow> Q (Inl e) w'"
  shows "wp (commit ex v []) Q (w\<lparr>wd_execution := x\<rparr>)"
proof (rule wp_commit_ok [where seen = None and P = True and rl = rl and fx = fx and eid = eid], goal_cases)
  case 3
  then show ?case using calm ev st by (simp add: legal_going [OF rd] exec_terminal_def terminal_statuses_def)
next
  case (4 w' t before)
  with st show ?case
    by (intro any) (auto simp: ready_def chained_def exec_terminal_def cancelling_def dest: knows_lower [where u = v])
next
  case (5 w' t)
  with st show ?case
    by (intro any) (auto simp: ready_def chained_def exec_terminal_def cancelling_def)
next
  case (6 w')
  then show ?case by (intro other) simp_all
qed (use ready_parts [OF rd] in simp_all)

lemma wp_deliver:
  assumes "ready rl fx eid v w" "\<And>r w'. ready rl fx eid v w' \<Longrightarrow> still w w' \<Longrightarrow> Q r w'"
  shows "wp (deliver ex r) Q w"
proof (cases "or_work r")
  case None
  with assms show ?thesis by (simp add: deliver_def wp_simps)
next
  case (Some work)
  show ?thesis
    unfolding deliver_def Some option.case Let_def wp_simps
  proof (rule wp_env_ready [OF assms(1)], goal_cases)
    case (1 res w')
    show ?case
    proof (cases res)
      case (Inr y)
      show ?thesis unfolding Inr sum.case
        by (rule wp_update_ready [OF 1(1)])
          (use 1 in \<open>auto simp: update_procedure_operation_def split: prod.split sum.split option.split intro!: assms(2)\<close>)
    qed (use 1 in \<open>auto intro!: assms(2)\<close>)
  qed
qed

lemma deliver_if:
  assumes "ready rl fx eid v w" "\<And>r w'. ready rl fx eid v w' \<Longrightarrow> still w w' \<Longrightarrow> Q r w'"
    "\<And>w'. ready rl fx eid v w' \<Longrightarrow> still w w' \<Longrightarrow> Q (Inr ()) w'"
  shows "wp (if b then deliver ex r else ret_op ()) Q w"
  using assms(1,3) by (auto simp: wp_simps intro!: wp_deliver [OF assms(1)] assms(2))

lemma rejoin_child_ends:
  assumes rd: "ready rl fx eid v w" and calm: "calm w" and le: "u \<le> v"
  shows "wp (rejoin_child ex v s work_id r) (ends rl fx eid u) w"
  unfolding rejoin_child_def wp_seq wp_set_execution sum.case
proof (rule wp_commit_any [OF rd calm], goal_cases)
  case (4 won w')
  then show ?case unfolding sum.case
    by (intro deliver_if) (auto simp: wp_simps split: sum.split intro!: ready_ends [OF _ le] dest: ready_parts(1))
qed (use calm ready_parts(4) [OF rd] in \<open>auto simp: evolves_advance calm_def cancelling_def ends_log\<close>)

lemma assign_child_ends:
  assumes rd: "ready rl fx eid v w" and calm: "calm w" and le: "u \<le> v"
    and room: "bg_child_reserved (pe_budget (wd_execution w)) + db_max_model_calls (ds_budget s) \<le> bg_max_child_model_calls (pe_budget (wd_execution w))"
  shows "wp (assign_child ex v s work inputs assignee) (ends rl fx eid u) w"
proof -
  have a: "aware rl fx eid None True v w" using rd by (simp add: ready_def aware_def)
  have ev: "evolves (wd_known w) (advance_to sid target res (wd_execution w\<lparr>pe_budget := (pe_budget (wd_execution w))
      \<lparr>bg_child_reserved := bg_child_reserved (pe_budget (wd_execution w)) + db_max_model_calls (ds_budget s),
       bg_step_attempts := bg_step_attempts (pe_budget (wd_execution w)) + 1\<rparr>\<rparr>))" for sid target res
    using room by (intro evolves_advance evolves_budget ready_parts(4) [OF rd] spends_child)
  show ?thesis
    unfolding assign_child_def Let_def wp_with_execution wp_with_clock wp_seq wp_set_execution sum.case wp_bind
  proof (rule wp_commit_next [OF a calm ev], goal_cases)
    case (3 w' t before)
    with le show ?case
      by (auto simp: wp_simps split: sum.split intro!: wp_deliver ready_ends dest: ready_parts(1))
  qed (use calm in \<open>auto simp: calm_def cancelling_def ends_log wp_simps\<close>)
qed

lemma run_delegate_ends:
  assumes rd: "ready rl fx eid v w" and calm: "calm w" and le: "u \<le> v"
  shows "wp (run_delegate ex v s) (ends rl fx eid u) w"
  unfolding run_delegate_def Let_def wp_with_execution wp_bind
proof (rule wp_operation_ready [OF rd], goal_cases)
  case (1 row w')
  note rd' = 1(1)
  from 1 calm have calm': "calm w'" by (simp add: calm_def)
  have routed: "wp (on_env f) (\<lambda>r t. case r of Inl e \<Rightarrow> ends rl fx eid u (Inl e :: step_outcome result) t
      | Inr assignee \<Rightarrow> wp (case assignee of None \<Rightarrow> fail ex v ''NO_ELIGIBLE_PEER'' | Some a \<Rightarrow> assign_child ex v s work inputs a)
          (ends rl fx eid u) t) w'"
    if room: "bg_child_reserved (pe_budget (wd_execution w)) + db_max_model_calls (ds_budget s) \<le> bg_max_child_model_calls (pe_budget (wd_execution w))"
    for f work inputs
  proof (rule wp_env_ready [OF rd'], goal_cases)
    case (1 r w'')
    with calm' have "calm w''" by (simp add: calm_def)
    with 1 room \<open>still w w'\<close> le show ?case
      by (auto split: sum.split intro!: vc fail_here assign_child_ends ready_ends)
  qed
  show ?case unfolding sum.case
    by (auto simp: wp_bind [symmetric] wp_raise split: option.split pyval.split intro!: vc vc_world lift_ends [OF rd' le] fail_here [OF rd']
        rejoin_child_ends [OF rd' calm' le] ready_ends [OF rd' le])
      (simp add: wp_bind routed)
qed


lemma ret_ends: "ready rl fx eid v w \<Longrightarrow> wp (ret_op out) (ends rl fx eid u) w"
  by (simp add: wp_simps ready_def)

lemma raise_ends: "ready rl fx eid v w \<Longrightarrow> u \<le> v \<Longrightarrow> wp (raise_op e) (ends rl fx eid u) w"
  by (simp add: wp_simps ready_ends)

lemma accept_child_ends:
  assumes rd: "ready rl fx eid v w" and calm: "calm w" and le: "u \<le> v"
  shows "wp (accept_child ex v s reference r ch) (ends rl fx eid u) w"
  unfolding accept_child_def Let_def
  by (intro vc vc_world vc_set lift_ends [OF rd le] fail_here [OF rd] raise_ends [OF rd le] commit_out [OF rd] legal_going [OF rd calm]
      evolves_evidence evolves_advance ready_parts(4) [OF rd]) simp

lemma await_work_ends:
  assumes rd: "ready rl fx eid v w" and calm: "calm w" and le: "u \<le> v"
  shows "wp (await_work ex v s reference late) (ends rl fx eid u) w"
  unfolding await_work_def Let_def wp_bind
proof (rule wp_operation_ready [OF rd], goal_cases)
  case (1 row w')
  note rd' = 1(1)
  from 1 calm have calm': "calm w'" by (simp add: calm_def)
  have settled: "wp (if b then deliver ex r else ret_op ()) (\<lambda>q t. case q of Inl e \<Rightarrow> ends rl fx eid u (Inl e :: step_outcome result) t
    | Inr y \<Rightarrow> wp (if or_state r = Op_Waiting then
             (if late then fail ex v ''AWAIT_TIMEOUT'' else ret_op (outcome Waits (as_id s) ''WAITING_FOR_CHILD''))
           else if ch_status ch \<noteq> ''completed'' then fail ex v ''CHILD_NOT_COMPLETED''
           else accept_child ex v s reference r ch) (ends rl fx eid u) t) w'" for b r ch
  proof (rule deliver_if [OF rd'], goal_cases)
    case (1 q w'')
    with calm' have "calm w''" by (simp add: calm_def)
    with 1 le show ?case
      by (cases q) (auto intro!: ready_ends vc fail_here ret_ends accept_child_ends)
  next
    case (2 w'')
    with calm' have "calm w''" by (simp add: calm_def)
    with 2 le show ?case
      by (auto intro!: vc fail_here ret_ends accept_child_ends)
  qed
  show ?case
  proof (cases row)
    case None
    then show ?thesis by (simp add: fail_here [OF rd'])
  next
    case (Some sr)
    then show ?thesis by (cases sr) (simp only: sum.case option.case prod.case wp_seq settled)
  qed
qed

lemma wait_for_subject_ends:
  assumes rd: "ready rl fx eid v w" and calm: "calm w" and le: "u \<le> v"
  shows "wp (wait_for_subject ex v s now) (ends rl fx eid u) w"
  unfolding wait_for_subject_def await_evidence_def Let_def
  by (intro vc vc_world vc_set lift_ends [OF rd le] fail_here [OF rd] ret_ends [OF rd] await_work_ends [OF rd calm le]
      commit_out [OF rd] legal_going [OF rd calm] evolves_advance ready_parts(4) [OF rd]) simp_all

lemma run_await_ends:
  assumes rd: "ready rl fx eid v w" and calm: "calm w" and le: "u \<le> v"
  shows "wp (run_await ex v s) (ends rl fx eid u) w"
proof -
  have a: "aware rl fx eid None True v w" using rd by (simp add: ready_def aware_def)
  show ?thesis
    unfolding run_await_def
    apply (intro vc_world)
    apply (rule vc(1))
     apply (rule vc_set)
     apply (unfold wp_bind)
     apply (rule wp_commit_next [OF a calm])
    subgoal using ready_parts(4) [OF rd] by simp
    subgoal by (simp add: exec_terminal_def terminal_statuses_def)
    subgoal using calm by (simp add: calm_def cancelling_def)
    subgoal for w' t before using le by (auto intro!: wait_for_subject_ends)
    subgoal by (simp add: ends_log)
    subgoal by (simp add: wp_simps)
    subgoal by (rule wait_for_subject_ends [OF rd calm le])
    done
qed


text \<open>
  A cognitive step goes on whether its later commits won or not, so only what does not depend on the
  versions (\<open>rl\<close> false) holds of it.
\<close>

lemma ready_False: "ready False fx eid v w = (log_ok False fx (wd_log w) \<and> chained w)"
  by (simp add: ready_def)

lemma wp_commit_free:
  assumes rd: "ready False fx eid v w" and calm: "calm w" and ev: "evolves (wd_known w) x"
    and st: "\<not> exec_terminal x" "\<not> cancelling x"
    and any: "\<And>won w' t. ready False fx eid v w' \<Longrightarrow> calm w' \<Longrightarrow> wd_execution w' = x\<lparr>pe_updated_at := t\<rparr> \<Longrightarrow> Q (Inr won) w'"
    and other: "\<And>e w'. log_ok False fx (wd_log w') \<Longrightarrow> (\<And>c p. e \<noteq> BindingError c p) \<Longrightarrow> Q (Inl e) w'"
  shows "wp (commit ex n ops) Q (w\<lparr>wd_execution := x\<rparr>)"
proof (rule wp_commit_ok [where seen = None and P = True and rl = False and fx = fx and eid = eid], goal_cases)
  case 3
  then show ?case using calm ev st by (simp add: legal_going [OF rd] exec_terminal_def terminal_statuses_def)
next
  case (4 w' t before)
  with st show ?case
    by (intro any) (auto simp: ready_False chained_def calm_def exec_terminal_def cancelling_def)
next
  case (5 w' t)
  with st show ?case
    by (intro any) (auto simp: ready_False chained_def calm_def exec_terminal_def cancelling_def)
next
  case (6 w')
  then show ?case by (intro other) simp_all
qed (use ready_parts [OF rd] in simp_all)

lemma ready_any: "ready False fx eid v w \<Longrightarrow> ready False fx eid v' w"
  by (simp add: ready_False)

lemma wp_catch:
  "wp (\<lambda>w. case m w of (Inl e, w) \<Rightarrow> f e w | (Inr y, w) \<Rightarrow> g y w) Q w =
    wp m (\<lambda>r t. case r of Inl e \<Rightarrow> wp (f e) Q t | Inr y \<Rightarrow> wp (g y) Q t) w"
  by (auto simp: wp_def split: prod.splits sum.splits)

lemma commit_free_then:
  assumes rd: "ready False fx eid v w" and calm: "calm w" "\<And>w'. ready False fx eid v w' \<Longrightarrow> calm w' \<Longrightarrow> wp m (ends False fx eid u) w'"
  shows "wp (seq_op (commit ex k ops) m) (ends False fx eid u) w"
  using wp_commit_free [OF rd calm(1) ready_parts(4,6) [OF rd], where Q = "\<lambda>r t. case r of Inl e \<Rightarrow> ends False fx eid u (Inl e) t
      | Inr y \<Rightarrow> wp m (ends False fx eid u) t" and n = k and ops = ops and ex = ex] calm
  by (auto simp: wp_seq calm_def ends_log)

lemma ask_model_ends:
  assumes rd: "ready False fx eid v w" and calm: "calm w"
    and again: "\<And>error w'. ready False fx eid v w' \<Longrightarrow> calm w' \<Longrightarrow> wp (again error) (ends False fx eid u) w'"
  shows "wp (ask_model ex k s c inputs prompt r attempts again) (ends False fx eid u) w"
  unfolding ask_model_def wp_with_execution wp_seq wp_modify add_log_def sum.case wp_catch
proof (rule wp_env_ready [where rl = False and fx = fx and eid = eid and v = v], goal_cases)
  case 1
  show ?case by (rule ready_log [OF rd]) (use ready_parts(1) [OF rd] in \<open>auto simp: log_ok_other\<close>)
next
  case (2 reply w')
  note rd' = 2(1)
  have calm': "calm w'" using 2 calm by (simp add: calm_def)
  note free = commit_free_then [OF rd' calm']
  show ?case
    by (cases reply)
      (auto simp: judge_reply_def Let_def wp_seq [symmetric] intro!: free free [unfolded wp_seq] fail_here [OF ready_any]
        lift_ends [OF ready_any [OF rd'] order_refl] vc vc_set vc_world commit_out [OF ready_any [OF rd']] legal_going [OF rd' calm']
        evolves_rules ready_parts(4) [OF rd'] again)
qed

text \<open>What the claim of a model call does to the execution.\<close>

lemma evolves_call:
  assumes "evolves a x" "bg_model_calls (pe_budget x) < bg_max_model_calls (pe_budget x)"
  shows "evolves a (x\<lparr>pe_step_attempts := n, pe_budget := (pe_budget x)
     \<lparr>bg_model_calls := bg_model_calls (pe_budget x) + 1, bg_step_attempts := bg_step_attempts (pe_budget x) + 1\<rparr>\<rparr>)"
  using evolves_budget [of a "x\<lparr>pe_step_attempts := n\<rparr>"] spends_call [of "pe_budget x"] assms by simp

lemma cognitive_loop_ends:
  assumes "ready False fx eid v w" "calm w"
  shows "wp (cognitive_loop ex n k s c inputs prompt feedback attempts) (ends False fx eid u) w"
  using assms
proof (induction n arbitrary: w k feedback attempts)
  case 0
  then show ?case by (simp add: fail_here [OF ready_any])
next
  case (Suc n)
  note rd = Suc.prems(1)
  show ?case
    unfolding cognitive_loop.simps wp_with_execution
  proof (rule vc(1), goal_cases)
    case 1
    show ?case by (rule fail_here [OF ready_any [OF rd]])
  next
    case 2
    show ?case
      unfolding wp_seq wp_set_execution sum.case wp_with_clock Let_def wp_bind
      by (rule wp_commit_free [OF rd Suc.prems(2) evolves_call [OF ready_parts(4) [OF rd]]])
        (use 2 Suc.prems(2) ready_parts(6) [OF rd] in \<open>auto simp: calm_def ends_log wp_ret wp_if dest: ready_parts(1)
          intro!: ask_model_ends Suc.IH\<close>)
  qed
qed

lemma run_cognitive_ends:
  assumes rd: "ready False fx eid v w" and calm: "calm w" and le: "u \<le> v"
  shows "wp (run_cognitive ex v s) (ends False fx eid u) w"
  unfolding run_cognitive_def Let_def
  by (intro vc vc_world lift_ends [OF rd le] fail_here [OF rd] cognitive_loop_ends [OF rd calm])

section \<open>An advance in which no model is asked\<close>

text \<open>
  Once a model was asked the versions may be wrong; up to there the log of a cognitive step is as
  good as any other.  A log only grows.
\<close>

definition quiet :: "act list \<Rightarrow> bool" where
  "quiet l \<longleftrightarrow> (\<forall>key. Think_Act key \<notin> set l)"

definition asked :: "'e world \<Rightarrow> bool" where
  "asked w \<longleftrightarrow> \<not> quiet (wd_log w)"

lemma asked_fields [simp]: "asked (w\<lparr>wd_execution := x\<rparr>) = asked w"
  by (simp add: asked_def)

lemma commit_asked:
  assumes "asked w" "\<And>r w'. asked w' \<Longrightarrow> Q r w'"
  shows "wp (commit ex v ops) Q w"
proof -
  obtain r w' where run: "commit ex v ops w = (r, w')" by (cases "commit ex v ops w")
  then have "prefix (wd_log w) (wd_log w')"
    by (auto simp: commit_def with_clock_def with_execution_def set_execution_def on_store_def op_defs put_store_def suspend_def
        split: sum.splits prod.splits list.splits)
  with assms(1) have "asked w'" by (auto simp: asked_def quiet_def dest: set_mono_prefix)
  with run assms(2) show ?thesis by (simp add: wp_def)
qed

lemma wp_env_asked:
  assumes "asked w" "\<And>r w'. asked w' \<Longrightarrow> Q r w'"
  shows "wp (on_env f) Q w"
  using assms by (auto simp: wp_def on_env_def seq_op_def bind_op_def suspend_def put_env_def asked_def
      split: prod.split list.split)

lemma fail_asked: "asked w \<Longrightarrow> wp (fail ex v code) (\<lambda>r. asked) w"
  unfolding fail_def wp_seq wp_set_execution sum.case
  by (rule commit_asked) (auto simp: wp_simps asked_def split: sum.split intro!: wp_degrade)

lemma ask_model_asked:
  assumes "\<And>error w'. asked w' \<Longrightarrow> wp (again error) (\<lambda>r. asked) w'"
  shows "wp (ask_model ex k s c inputs prompt r attempts again) (\<lambda>r. asked) w"
  unfolding ask_model_def wp_with_execution wp_seq wp_modify add_log_def sum.case wp_catch
proof (rule wp_env_asked, goal_cases)
  case 1
  show ?case by (auto simp: asked_def quiet_def)
next
  case (2 reply w')
  then show ?case
    by (cases reply)
      (auto simp: judge_reply_def Let_def wp_seq wp_with_clock wp_bind wp_lift wp_ret wp_set_execution split: sum.split
        intro!: commit_asked fail_asked vc assms)
qed

lemma cognitive_loop_asked: "asked w \<Longrightarrow> wp (cognitive_loop ex n k s c inputs prompt feedback attempts) (\<lambda>r. asked) w"
proof (induction n arbitrary: w k feedback attempts)
  case (Suc n)
  show ?case
    unfolding cognitive_loop.simps wp_with_execution
  proof (rule vc(1), goal_cases)
    case 1
    show ?case by (rule fail_asked [OF Suc.prems])
  next
    case 2
    show ?case
      unfolding wp_seq wp_set_execution sum.case wp_with_clock Let_def wp_bind
      by (rule commit_asked) (use Suc.prems in \<open>auto simp: wp_ret split: sum.split intro!: vc ask_model_asked Suc.IH\<close>)
  qed
qed (simp add: fail_asked)


text \<open>How an advance ends: in order, or, when versions matter, with a model asked.\<close>

definition finishes :: "bool \<Rightarrow> codec \<Rightarrow> string \<Rightarrow> int \<Rightarrow> 'a result \<Rightarrow> 'e world \<Rightarrow> bool" where
  "finishes rl fx eid v r w \<longleftrightarrow> ends rl fx eid v r w \<or> rl \<and> asked w"

lemma finishes_ends: "wp m (ends rl fx eid v) w \<Longrightarrow> wp m (finishes rl fx eid v) w"
  by (erule wp_mono) (simp add: finishes_def)

lemma finishes_asked: "rl \<Longrightarrow> wp m (\<lambda>r. asked) w \<Longrightarrow> wp m (finishes rl fx eid v) w"
  by (erule wp_mono) (simp add: finishes_def)

lemma cognitive_loop_finishes:
  assumes rl and rd: "ready rl fx eid v w" and calm: "calm w"
  shows "wp (cognitive_loop ex n v s c inputs prompt feedback attempts) (finishes rl fx eid u) w"
proof (cases n)
  case 0
  then show ?thesis by (simp add: finishes_ends fail_here [OF rd])
next
  case (Suc m)
  have a: "aware rl fx eid None True v w" using rd by (simp add: ready_def aware_def)
  show ?thesis
    unfolding Suc cognitive_loop.simps wp_with_execution
  proof (rule vc(1), goal_cases)
    case 1
    show ?case by (rule finishes_ends [OF fail_here [OF rd]])
  next
    case 2
    show ?case
      unfolding wp_seq wp_set_execution sum.case wp_with_clock Let_def wp_bind
      by (rule wp_commit_next [OF a calm evolves_call [OF ready_parts(4) [OF rd]]])
        (use 2 calm ready_parts(6) [OF rd] in \<open>auto simp: \<open>rl\<close> calm_def wp_ret wp_if finishes_def ends_log
          intro!: finishes_asked ask_model_asked cognitive_loop_asked\<close>)
  qed
qed

lemma run_cognitive_finishes:
  assumes rd: "ready rl fx eid v w" and calm: "calm w" and le: "u \<le> v"
  shows "wp (run_cognitive ex v s) (finishes rl fx eid u) w"
proof (cases rl)
  case True
  have lifted: "wp (bind_op (lift_op r) f) (finishes rl fx eid u) w" if "\<And>y. wp (f y) (finishes rl fx eid u) w"
    for r and f :: "'b \<Rightarrow> ('a, step_outcome) exec_op"
    using that by (cases r) (simp_all add: wp_simps finishes_def ready_ends [OF rd le])
  show ?thesis
    unfolding run_cognitive_def Let_def
    by (intro vc vc_world lifted finishes_ends [OF fail_here [OF rd]] cognitive_loop_finishes [OF True rd calm])
next
  case False
  with rd calm le show ?thesis by (intro finishes_ends) (simp add: run_cognitive_ends)
qed

section \<open>One advance\<close>

lemma run_step_finishes:
  assumes a: "aware rl fx eid (Some (operation_key (wd_execution w) (step_id st), seen)) True v w" and calm: "calm w" and le: "u \<le> v"
    and settled: "\<And>p. seen = Some p \<Longrightarrow> \<not> unsettled (or_state (snd p))"
    and pinned: "fx_digest fx d = pe_digest (wd_execution w)" "st \<in> set (pd_steps d)" "step_id st = pe_current_step_id (wd_execution w)"
  shows "wp (run_step ex v d st) (finishes rl fx eid u) w"
proof (cases st)
  case (Cognitive s)
  with aware_ready [OF a] calm le show ?thesis
    by (simp add: run_step_def run_cognitive_finishes)
next
  case (Tool s)
  with a calm le settled show ?thesis by (simp add: run_step_def run_tool_ends finishes_ends)
qed (use aware_ready [OF a] calm le pinned in \<open>simp_all add: run_step_def finishes_ends run_branch_ends run_validate_ends run_delegate_ends
    run_await_ends run_complete_ends\<close>)

lemma guarded_step_finishes:
  assumes "wp (run_step ex v d st) (finishes rl fx eid v) w"
  shows "wp (guarded_step ex v d st) (finishes rl fx eid u) w"
proof -
  obtain r w' where run: "run_step ex v d st w = (r, w')" by (cases "run_step ex v d st w")
  with assms have e: "finishes rl fx eid v r w'" by (simp add: wp_def)
  show ?thesis
  proof (cases "\<exists>c p. r = Inl (BindingError c p)")
    case True
    with e have "ready rl fx eid v w' \<or> rl \<and> asked w'" by (auto simp: finishes_def ends_def ready_def)
    then have "wp (fail ex v c) (finishes rl fx eid u) w'" for c
      by (auto intro: finishes_ends fail_here finishes_asked fail_asked)
    moreover from True obtain c p where "r = Inl (BindingError c p)" by blast
    ultimately show ?thesis using run by (simp add: wp_def guarded_step_def)
  next
    case False
    with e have "finishes rl fx eid u r w'" by (auto simp: finishes_def ends_def)
    with run False show ?thesis by (auto simp: wp_def guarded_step_def split: sum.split exn.split)
  qed
qed

lemma advance_step_finishes:
  assumes rd: "ready rl fx eid v w"
    and pinned: "fx_digest fx d = pe_digest (wd_execution w)" "st \<in> set (pd_steps d)" "step_id st = pe_current_step_id (wd_execution w)"
  shows "wp (advance_step ex v d st) (finishes rl fx eid v) w"
proof -
  let ?x = "wd_execution w"
  show ?thesis
    unfolding advance_step_def
    apply (intro vc_world)
    apply (rule vc(1))
    subgoal by (rule finishes_ends [OF ret_ends [OF rd]])
    apply (simp only: wp_bind)
    apply (rule wp_pending_first [OF rd])
    subgoal premises p for row w'
    proof -
      note a = p(2)
      have rd': "ready rl fx eid v w'" by (rule aware_ready [OF a])
      have same: "wd_execution w' = ?x" using p by simp
      have step: "wp (guarded_step ex v d st) (finishes rl fx eid v) w'"
        if "\<not> cancelling ?x" "\<And>p. map_option snd row = Some p \<Longrightarrow> \<not> unsettled (or_state p)"
        by (rule guarded_step_finishes, rule run_step_finishes [where seen = row])
          (use a same that pinned ready_calm [OF rd'] in auto)
      show ?thesis
        unfolding sum.case
        apply (intro vc_world)
        apply (rule vc(1))
        subgoal by (rule finishes_ends [OF ret_ends [OF rd']])
        apply (rule vc(2))
        subgoal
          using finish_cancel_here [OF rd' ready_parts(4) [OF rd']]
          by (intro vc vc_world finishes_ends [OF fail_here [OF rd']] finishes_ends [OF ret_ends [OF rd']] step finishes_ends) (auto split: option.splits if_splits)
        subgoal by (rule finishes_ends [OF recover_ends [OF rd' order_refl]])
        done
    qed
    done
qed

end
