(* ===== verification/Exec_Sample.thy ===== *)
theory Exec_Sample
  imports Exec_Safety
begin

text \<open>
  A deployment to run: one agent, one procedure, one adapter and a model that answers without JSON; \<open>at_state\<close> is a
  world whose store holds the execution \<open>y\<close> at version \<open>n\<close>.
\<close>

definition sample_contract :: adapter_contract where
  "sample_contract = \<lparr>ac_adapter_id = ''read'', ac_contract_version = 1, ac_argument_schema = [(''type'', PStr ''object'')],
     ac_result_schema = [(''type'', PStr ''object'')], ac_required_capabilities = [''fs.read''], ac_side_effect = Local_Write,
     ac_retry = Retry_None, ac_reconcile_supported = False, ac_uses_model = False, ac_timeout_seconds = 30, ac_resource_arguments = []\<rparr>"

definition sample_host :: "unit host" where
  "sample_host = \<lparr>h_capabilities = (\<lambda>_ _. {''fs.read''}), h_resolve = (\<lambda>_ _ _. None), h_permit = (\<lambda>_ _ _ _. False),
     h_invoke = (\<lambda>_ _ _ _ e. (Inr (Some \<lparr>ar_ok = True, ar_result = Some [], ar_receipt = None, ar_code = [],
       ar_retryable = False, ar_denied = False\<rparr>), e)),
     h_reconcile = (\<lambda>_ _ _ _ e. (Inr (Rec_Unknown, None), e)),
     h_check = (\<lambda>_ _ _ _ e. (Inr \<lparr>ck_passed = True, ck_reason = [], ck_evidence = []\<rparr>, e)),
     h_think = (\<lambda>_ _ _ _ e. (Inr ''no'', e)), h_route = (\<lambda>_ _ e. (Inr None, e)), h_deliver = (\<lambda>_ _ _ e. (Inr (), e)),
     h_fact = (\<lambda>_ _. None), h_clock = (\<lambda>_. 0), h_new_id = (\<lambda>_. ''f''), h_fault = (\<lambda>_ _ _. None),
     h_canonical = (\<lambda>_. ''c''), h_digest = (\<lambda>s. ''d''), h_json = (\<lambda>_. None), h_str = (\<lambda>_. [])\<rparr>"

definition sample_executor :: "unit executor" where
  "sample_executor = \<lparr>ex_adapters = [(''read'', sample_contract)], ex_checks = [], ex_limits = default_limits,
     ex_codec = sample_codec, ex_host = sample_host\<rparr>"

lemma sample_executor_fields [simp]:
  "ex_adapters sample_executor = [(''read'', sample_contract)]" "ex_limits sample_executor = default_limits"
  "ex_codec sample_executor = sample_codec" "ex_host sample_executor = sample_host"
  "h_clock sample_host e = 0" "h_new_id sample_host e = ''f''" "h_think sample_host a p cs g e = (Inr ''no'', e)" "h_digest sample_host txt = ''d''"
  "h_canonical sample_host v = ''c''" "h_capabilities sample_host a e = {''fs.read''}" "h_fault sample_host p k e = None"
  "h_invoke sample_host a d k args e = (Inr (Some \<lparr>ar_ok = True, ar_result = Some [], ar_receipt = None, ar_code = [],
       ar_retryable = False, ar_denied = False\<rparr>), e)"
  by (simp_all add: sample_executor_def sample_host_def)

definition sample_execution :: procedure_execution where
  "sample_execution = \<lparr>pe_execution_id = ''e'', pe_agent_id = ''a'', pe_goal_id = ''g'', pe_occurrence_id = ''o'', pe_work_item_id = None,
     pe_procedure_id = ''p'', pe_revision = 1, pe_digest = ''p'', pe_path = ''typed_authored'', pe_status = Ex_Running,
     pe_status_reason = [], pe_cancel_requested = False, pe_cancel_reason = [], pe_current_step_id = ''a'', pe_parameters = [],
     pe_context = [], pe_context_refs = [], pe_work = [], pe_results = [], pe_step_attempts = [], pe_completed_steps = [],
     pe_wait = None, pe_next_eligible_at = None, pe_deadline_at = 600, pe_budget = new_budget\<lparr>bg_max_model_calls := 4\<rparr>, pe_evidence = [],
     pe_output = None, pe_created_at = 0, pe_updated_at = 0\<rparr>"

definition sample_admission :: admission where
  "sample_admission = (new_admission ''p'' 1 admission_status.Promoted)\<lparr>ad_approved_goal_kinds := [''g''], ad_adapter_contracts := [(''read'', 1)]\<rparr>"

definition sample_row :: "procedure_execution \<Rightarrow> int \<Rightarrow> procedure_execution execution_row" where
  "sample_row y n = \<lparr>x_occurrence = ''o'', x_agent = ''a'', x_status = exec_status_value (pe_status y), x_version = n, x_payload = y\<rparr>"

definition sample_shared :: "procedure_definition \<Rightarrow> procedure_execution \<Rightarrow> int \<Rightarrow> (string, operation_record operation_row) dict \<Rightarrow> unit shared" where
  "sample_shared d y n t = \<lparr>sh_registry = (new_registry (empty_store\<lparr>st_executions := [(''e'', sample_row y n)], st_operations := t\<rparr>)
       (sample_catalog\<lparr>outputs := [(''o'', \<lparr>oc_schema_id = ''o'', oc_schema = [], oc_semantic_check = None, oc_required_evidence = []\<rparr>)]\<rparr>)
       default_limits)\<lparr>rg_definitions := [(''p@1'', d)], rg_admissions := [(''p@1'', sample_admission)]\<rparr>, sh_env = ()\<rparr>"

definition at_state :: "unit shared \<Rightarrow> (unit shared \<Rightarrow> unit shared) list \<Rightarrow> procedure_execution \<Rightarrow> procedure_execution \<Rightarrow> string set \<Rightarrow> act list \<Rightarrow> unit world" where
  "at_state sh others x k adv l = \<lparr>wd_shared = sh, wd_others = others, wd_execution = x, wd_known = k, wd_in_flight = {},
     wd_advancing = adv, wd_log = l\<rparr>"

lemma at_state_fields [simp]:
  "wd_shared (at_state sh fs x k adv l) = sh" "wd_execution (at_state sh fs x k adv l) = x" "wd_known (at_state sh fs x k adv l) = k"
  "wd_in_flight (at_state sh fs x k adv l) = {}" "wd_advancing (at_state sh fs x k adv l) = adv" "wd_log (at_state sh fs x k adv l) = l"
  "wd_others (at_state sh fs x k adv l) = fs"
  "at_state sh fs x k adv l\<lparr>wd_execution := x'\<rparr> = at_state sh fs x' k adv l"
  "at_state sh fs x k adv l\<lparr>wd_known := k'\<rparr> = at_state sh fs x k' adv l"
  "at_state sh fs x k adv l\<lparr>wd_log := l'\<rparr> = at_state sh fs x k adv l'"
  "at_state sh fs x k adv l\<lparr>wd_advancing := adv'\<rparr> = at_state sh fs x k adv' l"
  "at_state sh fs x k adv l\<lparr>wd_shared := sh'\<rparr> = at_state sh' fs x k adv l"
  "at_state sh fs x k adv l\<lparr>wd_others := fs'\<rparr> = at_state sh fs' x k adv l"
  by (simp_all add: at_state_def)

lemma sample_shared_fields [simp]:
  "sh_env sh = ()" "rg_definitions (sh_registry (sample_shared d y n t)) = [(''p@1'', d)]"
  "rg_admissions (sh_registry (sample_shared d y n t)) = [(''p@1'', sample_admission)]"
  "dict_get (outputs (rg_catalog (sh_registry (sample_shared d y n t)))) ''o'' =
     Some \<lparr>oc_schema_id = ''o'', oc_schema = [], oc_semantic_check = None, oc_required_evidence = []\<rparr>"
  by (simp_all add: sample_shared_def new_registry_def dict_get_def)

lemma run_suspend [simp]:
  "suspend (at_state sh (f # fs) x k adv l) = (Inr (), at_state (f sh) fs x k adv l)"
  "suspend (at_state sh [] x k adv l) = (Inr (), at_state sh [] x k adv l)"
  by (simp_all add: suspend_def)

text \<open>What a handler finds after it was suspended.\<close>

definition sees :: "unit shared \<Rightarrow> (unit shared \<Rightarrow> unit shared) list \<Rightarrow> unit shared" where
  "sees sh fs = (case fs of [] \<Rightarrow> sh | f # _ \<Rightarrow> f sh)"

lemma sees_simps [simp]: "sees sh [] = sh" "sees sh (id # fs) = sh" "sees sh (f # fs) = f sh"
  by (simp_all add: sees_def)

lemma run_on_store:
  "on_store f (at_state sh fs x k adv l) = (case f (rg_store (sh_registry (sees sh fs))) of (r, st) \<Rightarrow>
     (r, at_state ((sees sh fs)\<lparr>sh_registry := (sh_registry (sees sh fs))\<lparr>rg_store := st\<rparr>\<rparr>) (tl fs) x k adv l))"
  by (cases fs) (simp_all add: on_store_def op_defs world_store_def put_store_def split: prod.split)

lemma run_on_env: "on_env f (at_state sh fs x k adv l) = (fst (f ()), at_state (sees sh fs) (tl fs) x k adv l)"
  by (cases fs) (simp_all add: on_env_def op_defs put_env_def split: prod.split)

lemma same_store [simp]: "sh\<lparr>sh_registry := (sh_registry sh)\<lparr>rg_store := rg_store (sh_registry sh)\<rparr>\<rparr> = (sh :: unit shared)"
  by simp

definition running_store :: "procedure_execution \<Rightarrow> int \<Rightarrow> (string, operation_record operation_row) dict \<Rightarrow> exec_store" where
  "running_store y n t = empty_store\<lparr>st_executions := [(''e'', sample_row y n)], st_operations := t\<rparr>"

lemma store_of [simp]: "rg_store (sh_registry (sample_shared d y n t)) = running_store y n t"
  by (simp add: sample_shared_def new_registry_def running_store_def)

lemma put_sample [simp]:
  "(sample_shared d y n t)\<lparr>sh_registry := (sh_registry (sample_shared d y n t))\<lparr>rg_store := running_store x n' t'\<rparr>\<rparr> = sample_shared d x n' t'"
  by (simp add: sample_shared_def new_registry_def running_store_def)

lemma run_load:
  "sees sh fs = sample_shared d y n t \<Longrightarrow>
   load_op ''e'' (at_state sh fs x k adv l) = (Inr n, at_state (sample_shared d y n t) (tl fs) y y adv l)"
  by (simp add: load_op_def run_on_store op_defs load_procedure_execution_def dict_get_def sample_row_def running_store_def)

lemma run_pending:
  "sees sh fs = sample_shared d y n t \<Longrightarrow>
   pending_operation sid (at_state sh fs x k adv l)
     = (Inr (map_option op_payload (dict_get t (operation_key x sid))), at_state (sample_shared d y n t) (tl fs) x k adv l)"
  by (simp add: pending_operation_def load_operation_def with_execution_def run_on_store op_defs load_procedure_operation_def running_store_def
      option.map_comp comp_def)

lemma run_commit_execution:
  assumes "pe_execution_id x = ''e''"
  shows "v \<noteq> n \<Longrightarrow> commit_execution v x ops (running_store y n t) = (Inr (False, Some y), running_store y n t)"
    "commit_execution n x [] (running_store y n t) = (Inr (True, Some y), running_store x (n + 1) t)"
    "dict_get t (or_operation_key r) = None \<Longrightarrow> commit_execution n x [(r, None)] (running_store y n t) = (Inr (True, Some y), running_store x (n + 1)
       (dict_set (or_operation_key r) \<lparr>op_execution = ''e'', op_state = op_state_value (or_state r), op_payload = r\<rparr> t))"
    "dict_get t (or_operation_key r) = Some q \<Longrightarrow> commit_execution n x [(r, any_state)] (running_store y n t) = (Inr (True, Some y), running_store x (n + 1)
       (dict_set (or_operation_key r) (q\<lparr>op_state := op_state_value (or_state r), op_payload := r\<rparr>) t))"
  using assms
  by (simp_all add: commit_execution_def commit_procedure_transition_def load_procedure_execution_def running_store_def dict_get_def [of "[(''e'', r)]" for r]
      sample_row_def clashes_def dict_set_def [of "''e''"] write_of_def expectation_met_def write_operation_def empty_store_def)

lemma run_commit:
  assumes "sees sh fs = sample_shared d y n t"
    "commit_execution v (x\<lparr>pe_updated_at := 0\<rparr>) ops (running_store y n t) = (Inr (won, before), running_store z n' t')"
  shows "commit sample_executor v ops (at_state sh fs x k adv l) = (Inr won, at_state (sample_shared d z n' t') (tl fs)
     (x\<lparr>pe_updated_at := 0\<rparr>) (x\<lparr>pe_updated_at := 0\<rparr>) adv (l @ [Commit_Act v k before (x\<lparr>pe_updated_at := 0\<rparr>) ops won]))"
  using assms
  by (simp add: commit_def with_clock_def with_execution_def set_execution_def run_on_store op_defs)

text \<open>Running a handler, one call after the other.\<close>

lemma run_bind: "m w = (Inr x, w') \<Longrightarrow> f x w' = out \<Longrightarrow> bind_op m f w = out"
  by (simp add: bind_op_def)

lemma run_seq: "m w = (Inr x, w') \<Longrightarrow> n w' = out \<Longrightarrow> seq_op m n w = out"
  by (simp add: seq_op_def bind_op_def)

lemma run_branches: "\<not> b \<Longrightarrow> n w = out \<Longrightarrow> (if b then m else n) w = out" "b \<Longrightarrow> m w = out \<Longrightarrow> (if b then m else n) w = out"
  by simp_all

lemma run_reads:
  "f (wd_execution w) w = out \<Longrightarrow> with_execution f w = out" "g w w = out \<Longrightarrow> read_op g w = out"
  "h (h_clock (ex_host ex) (sh_env (wd_shared w))) w = out \<Longrightarrow> with_clock ex h w = out"
  by (simp_all add: with_execution_def with_clock_def read_op_def)

lemma run_small [simp]:
  "set_execution f (at_state sh fs x k adv l) = (Inr (), at_state sh fs (f x) k adv l)"
  "modify_op (add_log a) (at_state sh fs x k adv l) = (Inr (), at_state sh fs x k adv (l @ [a]))"
  "ret_op y w = (Inr y, w)" "lift_op (Inr y) w = (Inr y, w)"
  by (simp_all add: set_execution_def op_defs add_log_def)

definition think_step :: cognitive_step where
  "think_step = \<lparr>cs_id = ''a'', cs_service = ''s'', cs_reason = ''r'', cs_instruction = ''i'', cs_inputs = [], cs_output_schema = ''o'',
     cs_max_model_calls = 1, cs_repair_calls = 1, cs_next = ''c''\<rparr>"

definition think_definition :: procedure_definition where
  "think_definition = sample_definition\<lparr>pd_steps := [Cognitive think_step, Complete \<lparr>ks_id = ''c'', ks_result = []\<rparr>]\<rparr>"

text \<open>An operator who asks for cancellation: \<open>request_cancel\<close>, run in between.\<close>

definition operator_stops :: "unit shared \<Rightarrow> unit shared" where
  "operator_stops sh = wd_shared (snd (request_cancel sample_executor ''e'' ''stop'' (at_state sh [] sample_execution sample_execution {} [])))"

lemma run_operations:
  "sees sh fs = sample_shared d y n t \<Longrightarrow>
   list_operations ''e'' (at_state sh fs x k adv l) = (Inr (map (op_payload \<circ> snd) (filter (\<lambda>(_, r). op_execution r = ''e'') t)),
     at_state (sample_shared d y n t) (tl fs) x k adv l)"
  by (simp add: list_operations_def run_on_store list_procedure_operations_def running_store_def comp_def case_prod_unfold)

lemma operator_stops:
  assumes "pe_execution_id y = ''e''" "pe_status y = Ex_Running" "pe_cancel_reason y = []"
    "op_execution r = ''e''" "or_state (op_payload r) = Op_Dispatching"
  shows "operator_stops (sample_shared d y n [(key, r)]) = sample_shared d (y\<lparr>pe_cancel_requested := True, pe_cancel_reason := ''stop'',
     pe_status := Ex_Cancel_Requested, pe_status_reason := ''stop'', pe_updated_at := 0\<rparr>) (n + 1) [(key, r)]"
proof -
  let ?sh = "sample_shared d y n [(key, r)]"
  let ?y = "y\<lparr>pe_cancel_requested := True, pe_cancel_reason := ''stop'', pe_status := Ex_Cancel_Requested, pe_status_reason := ''stop''\<rparr>"
  let ?z = "?y\<lparr>pe_updated_at := 0\<rparr>"
  have won: "commit sample_executor n [] (at_state ?sh [] ?y y {} []) = (Inr True, at_state (sample_shared d ?z (n + 1) [(key, r)]) [] ?z ?z {}
      [Commit_Act n y (Some y) ?z [] True])"
    using run_commit [of ?sh "[]" d y n "[(key, r)]" n ?y "[]" True "Some y" ?z "n + 1" "[(key, r)]"] assms(1)
    by (simp add: run_commit_execution)
  have "cancel_loop sample_executor (Suc 4) ''e'' ''stop'' (at_state ?sh [] sample_execution sample_execution {} [])
      = (Inr ?z, at_state (sample_shared d ?z (n + 1) [(key, r)]) [] ?z ?z {} [Commit_Act n y (Some y) ?z [] True])"
    unfolding cancel_loop.simps
    apply (rule run_bind, rule run_load, rule sees_simps)
    apply (intro run_reads)
    apply (rule run_branches)
    subgoal using assms(2) by (simp add: exec_terminal_def terminal_statuses_def)
    apply (rule run_bind, rule run_operations, simp)
    using assms
    apply (simp add: Let_def unsettled_def)
    apply (rule run_seq, simp add: with_status_def)
    apply (rule run_bind, rule won)
    apply (simp add: with_execution_def read_op_def)
    done
  then show ?thesis by (simp add: operator_stops_def request_cancel_def numeral_eq_Suc)
qed


lemma run_finally: "m w = (r, w') \<Longrightarrow> finally_op m f w = (r, f w')"
  by (simp add: finally_op_def)

lemma run_advance:
  assumes "advance_loaded ex n (at_state sh' fs' y y {''e''} []) = (r, w')" "sees sh fs = sample_shared d y n t" "sh' = sample_shared d y n t" "fs' = tl fs"
  shows "advance ex ''e'' (at_state sh fs x k {} []) = (r, w'\<lparr>wd_advancing := wd_advancing w' - {''e''}\<rparr>)"
  using assms(1) run_load [OF assms(2)] unfolding assms(3,4)
  by (simp add: advance_def op_defs finally_op_def)

lemma sample_keys:
  "execution_key sample_execution = ''p@1''" "operation_key (sample_execution\<lparr>pe_step_attempts := s, pe_budget := b\<rparr>) sid = ''o:e:'' @ sid"
  "operation_key sample_execution sid = ''o:e:'' @ sid"
  by (simp_all add: execution_key_def revision_key_def sample_execution_def show_one operation_key_def)

lemma sample_live: "\<not> exec_terminal sample_execution" "\<not> cancelling sample_execution" "pe_status sample_execution = Ex_Running"
  "pe_current_step_id sample_execution = ''a''" "pe_digest sample_execution = ''p''" "pe_deadline_at sample_execution = 600"
  "pe_next_eligible_at sample_execution = None" "pe_budget sample_execution = new_budget\<lparr>bg_max_model_calls := 4\<rparr>"
  "pe_execution_id sample_execution = ''e''" "pe_cancel_reason sample_execution = []" "pe_cancel_requested sample_execution = False"
  "pe_step_attempts sample_execution = []" "pe_work sample_execution = []" "pe_agent_id sample_execution = ''a''"
  by (simp_all add: sample_execution_def exec_terminal_def terminal_statuses_def cancelling_def)

lemma think_definition_fields: "fx_digest sample_codec think_definition = ''p''" "find_step think_definition ''a'' = Inr (Cognitive think_step)"
  by (simp_all add: sample_codec_def think_definition_def sample_definition_def find_step_def think_step_def)

lemma run_loaded:
  assumes "sees (sample_shared d sample_execution n []) fs = sample_shared d sample_execution n []" "fx_digest sample_codec d = ''p''" "find_step d ''a'' = Inr st"
    "step_id st = ''a''"
  shows "advance_loaded sample_executor n (at_state (sample_shared d sample_execution n []) fs sample_execution sample_execution adv l)
    = guarded_step sample_executor n d st (at_state (sample_shared d sample_execution n []) (tl fs) sample_execution sample_execution adv l)"
  using assms(2-4)
  apply (simp add: advance_loaded_def with_execution_def read_op_def sample_live sample_keys dict_get_def op_defs advance_step_def)
  apply (simp add: run_pending [OF assms(1)] sample_keys dict_get_def with_clock_def read_op_def sample_live revoked_def sample_admission_def new_admission_def new_budget_def)
  done


lemma guarded_ok: "run_step ex v d st w = (Inr y, w') \<Longrightarrow> guarded_step ex v d st w = (Inr y, w')"
  by (simp add: guarded_step_def)

lemma parse_no: "parse_output sample_host ''no'' c inputs = Inr (PNone, [''no JSON object in the reply''])"
  by (simp add: parse_output_def json_span_def py_strip_def is_space_def)

definition claimed :: "int \<Rightarrow> procedure_execution \<Rightarrow> procedure_execution" where
  "claimed attempts x = x\<lparr>pe_step_attempts := dict_set ''a'' (attempts + 1) (pe_step_attempts x),
     pe_budget := (pe_budget x)\<lparr>bg_model_calls := bg_model_calls (pe_budget x) + 1, bg_step_attempts := bg_step_attempts (pe_budget x) + 1\<rparr>,
     pe_updated_at := 0\<rparr>"

definition call_record :: "int \<Rightarrow> procedure_execution \<Rightarrow> operation_record" where
  "call_record attempts x = (new_operation 0 (operation_key x ''a'' @ ''#'' @ show_int (attempts + 1)) x ''a'' ''cognitive'' ''d'' Op_Dispatching)
     \<lparr>or_attempt := attempts + 1\<rparr>"

lemma run_claim:
  assumes "sees sh fs = sample_shared d y n t" "bg_model_calls (pe_budget x) < bg_max_model_calls (pe_budget x)"
    "commit_execution v (claimed attempts x) [(call_record attempts x, None)] (running_store y n t) = (Inr (True, before), running_store z n' t')"
    "ask_model sample_executor (v + 1) think_step c inputs (prompt @ feedback) (call_record attempts x) attempts
       (\<lambda>error. cognitive_loop sample_executor m (v + 2) think_step c inputs prompt (feedback_of error) (attempts + 1))
       (at_state (sample_shared d z n' t') (tl fs) (claimed attempts x) (claimed attempts x) adv
         (l @ [Commit_Act v k before (claimed attempts x) [(call_record attempts x, None)] True])) = out"
  shows "cognitive_loop sample_executor (Suc m) v think_step c inputs prompt feedback attempts (at_state sh fs x k adv l) = out"
proof -
  have id: "cs_id think_step = ''a''" by (simp add: think_step_def)
  let ?x = "x\<lparr>pe_step_attempts := dict_set ''a'' (attempts + 1) (pe_step_attempts x),
     pe_budget := (pe_budget x)\<lparr>bg_model_calls := bg_model_calls (pe_budget x) + 1, bg_step_attempts := bg_step_attempts (pe_budget x) + 1\<rparr>\<rparr>"
  have x: "?x\<lparr>pe_updated_at := 0\<rparr> = claimed attempts x" by (simp add: claimed_def)
  note won = run_commit [OF assms(1), of v ?x "[(call_record attempts x, None)]", unfolded x, OF assms(3)]
  show ?thesis
    using assms(2) won assms(4) unfolding call_record_def
    by (simp add: with_execution_def with_clock_def read_op_def id op_defs Let_def)
qed

lemma run_rejected:
  assumes "sees sh fs = sample_shared d y n t"
    "commit_execution v (x\<lparr>pe_updated_at := 0\<rparr>) [(r\<lparr>or_state := Op_Applied, or_settled_at := Some 0, or_result := Some [(''valid'', PBool False)],
        or_error := ''no JSON object in the reply''\<rparr>, any_state)] (running_store y n t) = (Inr (won, before), running_store z n' t')"
    "again ''no JSON object in the reply'' (at_state (sample_shared d z n' t') (tl (tl fs)) (x\<lparr>pe_updated_at := 0\<rparr>) (x\<lparr>pe_updated_at := 0\<rparr>) adv
       (l @ [Think_Act (or_operation_key r), Commit_Act v k before (x\<lparr>pe_updated_at := 0\<rparr>) [(r\<lparr>or_state := Op_Applied, or_settled_at := Some 0,
          or_result := Some [(''valid'', PBool False)], or_error := ''no JSON object in the reply''\<rparr>, any_state)] won])) = out"
    "sees (sample_shared d y n t) (tl fs) = sample_shared d y n t"
  shows "ask_model sample_executor v think_step c inputs prompt r attempts again (at_state sh fs x k adv l) = out"
  using run_commit [OF assms(4,2), of k adv "l @ [Think_Act (or_operation_key r)]"] assms(1,3)
  by (simp add: ask_model_def with_execution_def read_op_def op_defs run_on_env add_log_def judge_reply_def with_clock_def parse_no py_join.simps Let_def)


lemma run_fail:
  assumes "sees sh fs = sample_shared d y n t" "code \<notin> procedure_defects"
    "commit_execution v ((add_evidence (failure_evidence code (pe_current_step_id x)) (with_status Ex_Failed code x))\<lparr>pe_updated_at := 0\<rparr>) []
       (running_store y n t) = (Inr (won, before), running_store z n' t')"
  shows "\<exists>w. fail sample_executor v code (at_state sh fs x k adv l) = (Inr (outcome Failed_Step (pe_current_step_id x) code), w)
     \<and> set l \<subseteq> set (wd_log w)"
  using run_commit [OF assms(1,3), of k adv l] assms(2)
  by (simp add: fail_def op_defs with_execution_def degrade_on_defect_def add_evidence_def with_status_def) auto

lemma claimed_fields [simp]:
  "pe_execution_id (claimed i x) = pe_execution_id x" "pe_occurrence_id (claimed i x) = pe_occurrence_id x"
  "pe_status (claimed i x) = pe_status x" "pe_cancel_reason (claimed i x) = pe_cancel_reason x"
  "pe_cancel_requested (claimed i x) = pe_cancel_requested x"
  "(claimed i x)\<lparr>pe_updated_at := 0\<rparr> = claimed i x" "pe_budget (claimed i x) = (pe_budget x)\<lparr>bg_model_calls := bg_model_calls (pe_budget x) + 1,
     bg_step_attempts := bg_step_attempts (pe_budget x) + 1\<rparr>"
  by (simp_all add: claimed_def)

lemma call_record_fields [simp]:
  "or_operation_key (call_record i x) = operation_key x ''a'' @ ''#'' @ show_int (i + 1)" "or_state (call_record i x) = Op_Dispatching"
  by (simp_all add: call_record_def new_operation_def)

definition stopped :: "procedure_execution \<Rightarrow> procedure_execution" where
  "stopped y = y\<lparr>pe_cancel_requested := True, pe_cancel_reason := ''stop'', pe_status := Ex_Cancel_Requested, pe_status_reason := ''stop'',
     pe_updated_at := 0\<rparr>"

lemma stopped_fields [simp]: "pe_execution_id (stopped y) = pe_execution_id y" "pe_cancel_requested (stopped y)"
  by (simp_all add: stopped_def)

lemma show_two: "show_int 2 = ''2''"
  by code_simp

lemma think_run:
  "\<exists>out w. cognitive_loop sample_executor (Suc (Suc 0)) 1 think_step c inputs prompt [] 0
     (at_state (sample_shared d sample_execution 1 []) [id, operator_stops] sample_execution sample_execution adv []) = (Inr out, w)
   \<and> (\<exists>a ops. Commit_Act 3 a (Some (stopped (claimed 0 sample_execution))) (claimed 1 (claimed 0 sample_execution)) ops True \<in> set (wd_log w))"
proof -
  let ?x = sample_execution
  let ?x1 = "claimed 0 ?x" and ?r1 = "call_record 0 ?x"
  let ?x2 = "claimed 1 ?x1" and ?r2 = "call_record 1 ?x1"
  note live = sample_live
  have key: "operation_key (claimed i x) sid = operation_key x sid" for i x sid by (simp add: operation_key_def)
  let ?k1 = "operation_key ?x ''a'' @ ''#1''" and ?k2 = "operation_key ?x ''a'' @ ''#2''"
  let ?t1 = "[(?k1, \<lparr>op_execution = ''e'', op_state = ''dispatching'', op_payload = ?r1\<rparr>)]"
  let ?t2 = "[(?k1, \<lparr>op_execution = ''e'', op_state = ''dispatching'', op_payload = ?r1\<rparr>), (?k2, \<lparr>op_execution = ''e'', op_state = ''dispatching'', op_payload = ?r2\<rparr>)]"
  let ?no = "\<lambda>r. r\<lparr>or_state := Op_Applied, or_settled_at := Some 0, or_result := Some [(''valid'', PBool False)],
        or_error := ''no JSON object in the reply''\<rparr>"
  let ?y = "stopped ?x1"
  have c1: "commit_execution 1 ?x1 [(?r1, None)] (running_store ?x 1 []) = (Inr (True, Some ?x), running_store ?x1 2 ?t1)"
    using run_commit_execution(3) [of ?x1 "[]" ?r1 1 ?x] by (simp add: live dict_get_def dict_set_def show_one)
  have s1: "sees (sample_shared d ?x1 2 ?t1) [operator_stops] = sample_shared d ?y 3 ?t1"
    by (simp add: operator_stops live stopped_def)
  have c2: "commit_execution 2 ?x1 [(?no ?r1, any_state)] (running_store ?y 3 ?t1) = (Inr (False, Some ?y), running_store ?y 3 ?t1)"
    by (rule run_commit_execution) (simp_all add: live)
  have c3: "commit_execution 3 ?x2 [(?r2, None)] (running_store ?y 3 ?t1) = (Inr (True, Some ?y), running_store ?x2 4 ?t2)"
    using run_commit_execution(3) [of ?x2 ?t1 ?r2 3 ?y] by (simp add: live dict_get_def dict_set_def key show_two)
  have c4: "\<exists>t. commit_execution 4 ?x2 [(?no ?r2, any_state)] (running_store ?x2 4 ?t2) = (Inr (True, Some ?x2), running_store ?x2 5 t)"
    using run_commit_execution(4) [of ?x2 ?t2 "?no ?r2" _ 4 ?x2] by (simp add: live dict_get_def key show_two) (rule exI, rule refl)
  then obtain t where c4: "commit_execution 4 ?x2 [(?no ?r2, any_state)] (running_store ?x2 4 ?t2) = (Inr (True, Some ?x2), running_store ?x2 5 t)"
    by blast
  let ?l = "[Commit_Act 1 ?x (Some ?x) ?x1 [(?r1, None)] True]"
  let ?l = "?l @ [Think_Act (or_operation_key ?r1), Commit_Act 2 ?x1 (Some ?y) ?x1 [(?no ?r1, any_state)] False]"
  let ?l = "?l @ [Commit_Act 3 ?x1 (Some ?y) ?x2 [(?r2, None)] True]"
  let ?l = "?l @ [Think_Act (or_operation_key ?r2), Commit_Act 4 ?x2 (Some ?x2) ?x2 [(?no ?r2, any_state)] True]"
  have c5: "commit_execution 5 ((add_evidence (failure_evidence ''COGNITIVE_OUTPUT_INVALID'' (pe_current_step_id ?x2))
      (with_status Ex_Failed ''COGNITIVE_OUTPUT_INVALID'' ?x2))\<lparr>pe_updated_at := 0\<rparr>) [] (running_store ?x2 5 t)
    = (Inr (True, Some ?x2), running_store ((add_evidence (failure_evidence ''COGNITIVE_OUTPUT_INVALID'' (pe_current_step_id ?x2))
      (with_status Ex_Failed ''COGNITIVE_OUTPUT_INVALID'' ?x2))\<lparr>pe_updated_at := 0\<rparr>) 6 t)"
    using run_commit_execution(2) [of "(add_evidence (failure_evidence ''COGNITIVE_OUTPUT_INVALID'' (pe_current_step_id ?x2))
      (with_status Ex_Failed ''COGNITIVE_OUTPUT_INVALID'' ?x2))\<lparr>pe_updated_at := 0\<rparr>" 5 ?x2 t]
    by (simp add: live add_evidence_def with_status_def)
  have f: "''COGNITIVE_OUTPUT_INVALID'' \<notin> procedure_defects" by (simp add: procedure_defects_def)
  obtain w where w: "fail sample_executor 5 ''COGNITIVE_OUTPUT_INVALID'' (at_state (sample_shared d ?x2 5 t) [] ?x2 ?x2 adv ?l)
      = (Inr (outcome Failed_Step (pe_current_step_id ?x2) ''COGNITIVE_OUTPUT_INVALID''), w)" "set ?l \<subseteq> set (wd_log w)"
    using run_fail [OF sees_simps(1) f c5, where d = d and adv = adv and l = ?l and k = ?x2] by auto
  have budget: "bg_model_calls (pe_budget ?x1) < bg_max_model_calls (pe_budget ?x1)" by (simp add: live new_budget_def)
  have "cognitive_loop sample_executor (Suc (Suc 0)) 1 think_step c inputs prompt [] 0
     (at_state (sample_shared d ?x 1 []) [id, operator_stops] ?x ?x adv []) = (Inr (outcome Failed_Step (pe_current_step_id ?x2) ''COGNITIVE_OUTPUT_INVALID''), w)"
    apply (rule run_claim [OF _ _ c1])
      apply simp
     apply (simp add: live new_budget_def)
    apply (rule run_rejected)
       apply (simp only: list.sel s1)
      apply (simp only: one_add_one claimed_fields, rule c2)
     apply (simp del: cognitive_loop.simps)
     apply (rule run_claim [OF _ budget _, where k = ?x1])
       apply (rule sees_simps)
      apply (rule c3)
     apply (simp del: cognitive_loop.simps)
     apply (rule run_rejected)
        apply (rule sees_simps)
       apply (simp only: claimed_fields)
       apply (rule c4)
      apply (use w(1) in simp)
     apply simp
    apply simp
    done
  with w(2) show ?thesis by auto
qed

definition think_world :: "unit world" where
  "think_world = at_state (sample_shared think_definition sample_execution 1 []) [id, id, id, operator_stops]
     sample_execution sample_execution {} []"

lemma run_thinking:
  "\<exists>out w. run_step sample_executor 1 think_definition (Cognitive think_step)
     (at_state (sample_shared think_definition sample_execution 1 []) [id, operator_stops] sample_execution sample_execution adv []) = (Inr out, w)
   \<and> (\<exists>a ops. Commit_Act 3 a (Some (stopped (claimed 0 sample_execution))) (claimed 1 (claimed 0 sample_execution)) ops True \<in> set (wd_log w))"
proof -
  let ?c = "\<lparr>oc_schema_id = ''o'', oc_schema = [], oc_semantic_check = None, oc_required_evidence = []\<rparr>"
  have "run_step sample_executor 1 think_definition (Cognitive think_step)
     (at_state (sample_shared think_definition sample_execution 1 []) [id, operator_stops] sample_execution sample_execution adv [])
    = cognitive_loop sample_executor (Suc (Suc 0)) 1 think_step ?c (PDict []) (cognitive_prompt sample_host think_step ?c (PDict [])) [] 0
     (at_state (sample_shared think_definition sample_execution 1 []) [id, operator_stops] sample_execution sample_execution adv [])"
    by (simp del: cognitive_loop.simps add: run_step_def run_cognitive_def with_execution_def read_op_def think_step_def resolve.simps
        op_defs Let_def attempts_of_def dict_get_or_def dict_get_def [of "[]"] sample_live cognitive_prompt_def default_limits_def numeral_2_eq_2
        is_ref_def is_literal_def)
  with think_run show ?thesis by metis
qed

text \<open>A tool step that succeeds.\<close>

definition tool_record :: operation_record where
  "tool_record = (new_operation 0 ''o:e:a'' sample_execution ''a'' ''tool'' ''d'' Op_Dispatching)
     \<lparr>or_adapter := ''read'', or_contract_version := 1\<rparr>"

definition tool_claimed :: procedure_execution where
  "tool_claimed = sample_execution\<lparr>pe_step_attempts := [(''a'', 1)], pe_budget := (new_budget\<lparr>bg_max_model_calls := 4\<rparr>)
     \<lparr>bg_tool_attempts := 1, bg_step_attempts := 1\<rparr>\<rparr>"

lemma tool_claimed_fields [simp]: "pe_execution_id tool_claimed = ''e''" "\<not> cancelling tool_claimed" "pe_agent_id tool_claimed = ''a''"
  by (simp_all add: tool_claimed_def cancelling_def sample_execution_def)

lemma run_to_claim:
  assumes "pd_preconditions d = []"
  shows "run_step sample_executor 1 d (sample_tool ''a'' ''b'' []) (at_state (sample_shared d sample_execution 1 []) [] sample_execution sample_execution adv [])
    = claim_tool sample_executor 1 \<lparr>ts_id = ''a'', ts_adapter = ''read'', ts_contract_version = 1, ts_arguments = [], ts_next = ''b'', ts_max_attempts = 1\<rparr>
        sample_contract [] None (at_state (sample_shared d sample_execution 1 []) [] sample_execution sample_execution adv [])"
proof -
  have p: "pending_operation ''a'' (at_state (sample_shared d sample_execution 1 []) [] sample_execution sample_execution adv [])
      = (Inr None, at_state (sample_shared d sample_execution 1 []) [] sample_execution sample_execution adv [])"
    by (simp add: run_pending dict_get_def)
  show ?thesis
    using assms p
    by (simp add: run_step_def sample_tool_def run_tool_def dict_get_def sample_contract_def with_execution_def read_op_def op_defs resolve.simps
        is_ref_def is_literal_def schema_errors.simps get_or_def type_ok_def facet_errors_def check_keyword_def opaque_def missing_errors_def
        sample_live new_budget_def outside_task_scope_def)
qed

lemma tool_record_fields [simp]: "or_operation_key tool_record = ''o:e:a''" "or_arguments tool_record = []"
  by (simp_all add: tool_record_def new_operation_def)

lemma run_invoke:
  "invoke_adapter sample_executor sample_contract tool_record (at_state sh [] tool_claimed tool_claimed adv l)
    = (Inr (Some \<lparr>ar_ok = True, ar_result = Some [], ar_receipt = None, ar_code = [], ar_retryable = False, ar_denied = False\<rparr>),
       at_state sh [] tool_claimed tool_claimed adv (l @ [Invoke_Act ''read'' ''o:e:a'' []]))"
  by (simp add: invoke_adapter_def with_execution_def read_op_def op_defs finally_op_def add_log_def on_env_def suspend_def put_env_def
      at_state_def sample_contract_def)

lemma run_settle:
  "\<exists>out w. settle_success sample_executor 2 \<lparr>ts_id = ''a'', ts_adapter = ''read'', ts_contract_version = 1, ts_arguments = [], ts_next = ''b'', ts_max_attempts = 1\<rparr>
     sample_contract (tool_record\<lparr>or_settled_at := Some 0\<rparr>) [] None
     (at_state (sample_shared d tool_claimed 2 [(''o:e:a'', q)]) [] tool_claimed tool_claimed adv l) = (Inr out, w)
   \<and> (\<exists>v a before x ops. wd_log w = l @ [Commit_Act v a before x ops True])"
proof -
  let ?s = "\<lparr>ts_id = ''a'', ts_adapter = ''read'', ts_contract_version = 1, ts_arguments = [], ts_next = ''b'', ts_max_attempts = 1\<rparr>"
  let ?r = "tool_record\<lparr>or_state := Op_Applied, or_result := Some [], or_receipt := None, or_effect_certainty := ''applied'', or_settled_at := Some 0\<rparr>"
  let ?x = "add_evidence (receipt_evidence tool_claimed ?s ?r) (advance_to ''a'' ''b'' (PDict []) tool_claimed)"
  have "pe_execution_id (?x\<lparr>pe_updated_at := 0\<rparr>) = ''e''" by (simp add: add_evidence_def)
  from run_commit_execution(4) [OF this, of "[(''o:e:a'', q)]" ?r q 2 tool_claimed]
  obtain t where "commit_execution 2 (?x\<lparr>pe_updated_at := 0\<rparr>) [(?r, any_state)] (running_store tool_claimed 2 [(''o:e:a'', q)])
      = (Inr (True, Some tool_claimed), running_store (?x\<lparr>pe_updated_at := 0\<rparr>) 3 t)"
    by (simp add: dict_get_def)
  from run_commit [OF sees_simps(1) this, of d tool_claimed adv l]
  show ?thesis
    by (simp add: settle_success_def with_clock_def read_op_def Let_def op_defs schema_errors.simps sample_contract_def dict_get_def get_or_def
        type_ok_def facet_errors_def check_keyword_def opaque_def missing_errors_def with_execution_def numeral_3_eq_3)
qed


lemma run_claimed:
  "\<exists>out w. claim_tool sample_executor 1 \<lparr>ts_id = ''a'', ts_adapter = ''read'', ts_contract_version = 1, ts_arguments = [], ts_next = ''b'', ts_max_attempts = 1\<rparr>
     sample_contract [] None (at_state (sample_shared d sample_execution 1 []) [] sample_execution sample_execution adv []) = (Inr out, w)
   \<and> (\<exists>v a before x ops. wd_log w = [Commit_Act 1 sample_execution (Some sample_execution) tool_claimed [(tool_record, None)] True,
        Invoke_Act ''read'' ''o:e:a'' [], Commit_Act v a before x ops True])"
proof -
  let ?s = "\<lparr>ts_id = ''a'', ts_adapter = ''read'', ts_contract_version = 1, ts_arguments = [], ts_next = ''b'', ts_max_attempts = 1\<rparr>"
  let ?q = "\<lparr>op_execution = ''e'', op_state = ''dispatching'', op_payload = tool_record\<rparr>"
  have x: "tool_claimed\<lparr>pe_updated_at := 0\<rparr> = tool_claimed" by (simp add: tool_claimed_def sample_execution_def)
  have "or_state tool_record = Op_Dispatching" by (simp add: tool_record_def new_operation_def)
  then have "commit_execution 1 (tool_claimed\<lparr>pe_updated_at := 0\<rparr>) [(tool_record, None)] (running_store sample_execution 1 [])
      = (Inr (True, Some sample_execution), running_store tool_claimed 2 [(''o:e:a'', ?q)])"
    using run_commit_execution(3) [of tool_claimed "[]" tool_record 1 sample_execution] by (simp add: x dict_get_def dict_set_def)
  note won = run_commit [OF sees_simps(1) this, of d sample_execution adv "[]", unfolded x]
  from run_settle [of d ?q adv "[Commit_Act 1 sample_execution (Some sample_execution) tool_claimed [(tool_record, None)] True, Invoke_Act ''read'' ''o:e:a'' []]"]
  obtain out w v a before x ops where w: "settle_success sample_executor 2 ?s sample_contract (tool_record\<lparr>or_settled_at := Some 0\<rparr>) [] None
     (at_state (sample_shared d tool_claimed 2 [(''o:e:a'', ?q)]) [] tool_claimed tool_claimed adv
        [Commit_Act 1 sample_execution (Some sample_execution) tool_claimed [(tool_record, None)] True, Invoke_Act ''read'' ''o:e:a'' []]) = (Inr out, w)"
    "wd_log w = [Commit_Act 1 sample_execution (Some sample_execution) tool_claimed [(tool_record, None)] True, Invoke_Act ''read'' ''o:e:a'' []]
       @ [Commit_Act v a before x ops True]"
    by blast
  have step: "sample_execution\<lparr>pe_step_attempts := dict_set ''a'' 1 [], pe_budget := (pe_budget sample_execution)
      \<lparr>bg_tool_attempts := bg_tool_attempts (pe_budget sample_execution) + 1, bg_step_attempts := bg_step_attempts (pe_budget sample_execution) + 1\<rparr>\<rparr>
      = tool_claimed" by (simp add: tool_claimed_def sample_live new_budget_def dict_set_def)
  have rec: "(new_operation 0 ''o:e:a'' sample_execution ''a'' ''tool'' ''d'' Op_Dispatching)
     \<lparr>or_adapter := ''read'', or_contract_version := 1, or_arguments := [], or_attempt := 1\<rparr> = tool_record"
    by (simp add: tool_record_def new_operation_def)
  have "claim_tool sample_executor 1 ?s sample_contract [] None (at_state (sample_shared d sample_execution 1 []) [] sample_execution sample_execution adv [])
      = dispatch sample_executor 2 ?s sample_contract tool_record (at_state (sample_shared d tool_claimed 2 [(''o:e:a'', ?q)]) [] tool_claimed tool_claimed adv
         [Commit_Act 1 sample_execution (Some sample_execution) tool_claimed [(tool_record, None)] True])"
    using won
    by (simp add: claim_tool_def with_execution_def with_clock_def read_op_def Let_def attempts_of_def dict_get_or_def dict_get_def [of "[]"] sample_live(10-)
        sample_keys step rec op_defs fault_def)
  moreover have "dispatch sample_executor 2 ?s sample_contract tool_record (at_state (sample_shared d tool_claimed 2 [(''o:e:a'', ?q)]) [] tool_claimed tool_claimed adv
         [Commit_Act 1 sample_execution (Some sample_execution) tool_claimed [(tool_record, None)] True]) = (Inr out, w)"
    using w(1) by (simp add: dispatch_def bind_op_def run_invoke with_clock_def read_op_def Let_def)
  ultimately show ?thesis using w(2) by auto
qed

end
