(* ===== verification/Exec_Advance.thy ===== *)
theory Exec_Advance
  imports Exec_Sample
begin

text \<open>
  What an advance guarantees, and what the operations around it do.
\<close>


section \<open>An advance\<close>

lemma found_step: "find_step d sid = Inr st \<Longrightarrow> st \<in> set (pd_steps d) \<and> step_id st = sid"
  by (auto simp: find_step_def find_Some_iff split: option.splits)

lemma finishes_here: "ends rl fx eid v r w \<Longrightarrow> finishes rl fx eid v r w"
  by (simp add: finishes_def)

lemma advance_loaded_finishes:
  assumes "log_ok rl (ex_codec ex) (wd_log w)" "knows rl eid None True v w" "wd_known w = wd_execution w"
  shows "wp (advance_loaded ex v) (finishes rl (ex_codec ex) eid v) w"
proof (cases "exec_terminal (wd_execution w)")
  case True
  with assms show ?thesis by (simp add: advance_loaded_def wp_simps finishes_def)
next
  case False
  with assms have rd: "ready rl (ex_codec ex) eid v w" by (simp add: ready_def chained_def)
  show ?thesis
    unfolding advance_loaded_def
    apply (intro vc_world)
    apply (rule vc(1))
    subgoal using False by simp
    apply (intro vc finishes_ends [OF fail_here [OF rd]])
    subgoal for d
      by (cases "find_step d (pe_current_step_id (wd_execution w))")
        (auto simp: wp_bind wp_lift dest: found_step intro!: advance_step_finishes [OF rd] finishes_here [OF ready_ends [OF rd]])
    done
qed

lemma advance_finishes:
  assumes "log_ok rl (ex_codec ex) (wd_log w)" "named rl eid w"
  shows "wp (advance ex eid) (\<lambda>r w'. log_ok rl (ex_codec ex) (wd_log w') \<or> rl \<and> asked w') w"
proof -
  let ?w = "w\<lparr>wd_advancing := insert eid (wd_advancing w)\<rparr>"
  have "named rl eid ?w" using assms(2) by simp
  then have "wp (load_op eid) (\<lambda>r t. case r of Inl e \<Rightarrow> log_ok rl (ex_codec ex) (wd_log t)
      | Inr v \<Rightarrow> wp (advance_loaded ex v) (\<lambda>r w'. log_ok rl (ex_codec ex) (wd_log w') \<or> rl \<and> asked w') t) ?w"
  proof (rule wp_load_op, goal_cases)
    case (2 v x sh os)
    then show ?case
      using assms(1) unfolding sum.case
      by (intro wp_mono [OF advance_loaded_finishes [where rl = rl and eid = eid]]) (auto simp: finishes_def ends_def)
  qed (use assms(1) in simp)
  then show ?thesis
    by (auto simp: advance_def wp_simps asked_def assms(1) elim!: wp_mono split: sum.split)
qed

section \<open>What an advance guarantees\<close>

definition legally :: "codec \<Rightarrow> act \<Rightarrow> bool" where
  "legally fx act \<longleftrightarrow> (case act of Commit_Act v a before x ops won \<Rightarrow> legal_transition fx a x | _ \<Rightarrow> True)"

text \<open>The world a task starts from: nothing recorded yet.\<close>

abbreviation fresh :: "'e world \<Rightarrow> 'e world" where
  "fresh w \<equiv> w\<lparr>wd_log := []\<rparr>"

lemma advance_in_order: "log_ok False (ex_codec ex) (wd_log (snd (advance ex eid (fresh w))))"
  using advance_finishes [of False ex "fresh w" eid] by (auto simp: wp_def split: prod.splits)

lemma advance_disciplined:
  assumes "others_disciplined eid w" "dict_get (st_executions (world_store w)) eid = Some row" "pe_execution_id (x_payload row) = eid"
    "quiet (wd_log (snd (advance ex eid (fresh w))))"
  shows "log_ok True (ex_codec ex) (wd_log (snd (advance ex eid (fresh w))))"
proof -
  have "named True eid (fresh w)" using assms(1-3) by (simp add: named_def)
  from advance_finishes [OF _ this, of ex] assms(4) show ?thesis
    by (auto simp: wp_def asked_def split: prod.splits)
qed


text \<open>
  C1. No effect without a durable claim: whatever other tasks do meanwhile, the act right before
  each invocation of an adapter is a winning commit that stores the operation record of exactly this
  invocation as dispatching, on an execution nobody had asked to cancel.
\<close>

theorem effect_needs_claim:
  assumes "wd_log (snd (advance ex eid (fresh w))) = xs @ Invoke_Act ad key args # ys"
  shows "\<exists>v a before x r expected. xs \<noteq> [] \<and> last xs = Commit_Act v a before x [(r, expected)] True \<and> \<not> cancelling a
     \<and> or_operation_key r = key \<and> or_arguments r = args \<and> or_state r = Op_Dispatching"
  using advance_in_order [of ex eid w] assms unfolding log_ok_def claims_def by blast

definition sample_world :: "unit world" where
  "sample_world = at_state (sample_shared sample_definition sample_execution 1 []) [] sample_execution sample_execution {} []"

lemma sample_advance:
  "\<exists>v a before x ops. wd_log (snd (advance sample_executor ''e'' (fresh sample_world)))
     = [Commit_Act 1 sample_execution (Some sample_execution) tool_claimed [(tool_record, None)] True]
       @ Invoke_Act ''read'' ''o:e:a'' [] # [Commit_Act v a before x ops True]"
proof -
  have d: "pd_preconditions sample_definition = []" "fx_digest sample_codec sample_definition = ''p''"
    "find_step sample_definition ''a'' = Inr (sample_tool ''a'' ''b'' [])" "step_id (sample_tool ''a'' ''b'' []) = ''a''"
    by (simp_all add: sample_definition_def sample_codec_def find_step_def sample_tool_def)
  obtain out w v a before x ops where w: "run_step sample_executor 1 sample_definition (sample_tool ''a'' ''b'' [])
      (at_state (sample_shared sample_definition sample_execution 1 []) [] sample_execution sample_execution {''e''} []) = (Inr out, w)"
    "wd_log w = [Commit_Act 1 sample_execution (Some sample_execution) tool_claimed [(tool_record, None)] True, Invoke_Act ''read'' ''o:e:a'' [],
       Commit_Act v a before x ops True]"
    using run_claimed [of sample_definition "{''e''}"] unfolding run_to_claim [OF d(1)] by blast
  from run_loaded [OF _ d(2,3,4), of 1 "[]" "{''e''}" "[]"] guarded_ok [OF w(1)]
  have "advance_loaded sample_executor 1 (at_state (sample_shared sample_definition sample_execution 1 []) []
      sample_execution sample_execution {''e''} []) = (Inr out, w)" by simp
  from run_advance [OF this, of _ "[]"] w(2) show ?thesis by (simp add: sample_world_def)
qed

lemma effect_needs_claim_witness:
  "\<exists>xs ys. wd_log (snd (advance sample_executor ''e'' (fresh sample_world))) = xs @ Invoke_Act ''read'' ''o:e:a'' [] # ys
     \<and> (\<exists>v a before x r expected. last xs = Commit_Act v a before x [(r, expected)] True \<and> or_operation_key r = ''o:e:a'')"
proof -
  from sample_advance obtain v a before x ops where l: "wd_log (snd (advance sample_executor ''e'' (fresh sample_world)))
     = [Commit_Act 1 sample_execution (Some sample_execution) tool_claimed [(tool_record, None)] True]
       @ Invoke_Act ''read'' ''o:e:a'' [] # [Commit_Act v a before x ops True]"
    by blast
  from effect_needs_claim [OF l] l show ?thesis by blast
qed

text \<open>
  C5. No lost update: while every other task moves an execution only together with its version, as
  every operation of the store does, each winning commit of an advance in which no model is asked
  replaces exactly the execution the task started from.
\<close>

theorem no_transition_lost:
  assumes "others_disciplined eid w" "dict_get (st_executions (world_store w)) eid = Some row" "pe_execution_id (x_payload row) = eid"
    "quiet (wd_log (snd (advance ex eid (fresh w))))"
    "Commit_Act v a before x ops True \<in> set (wd_log (snd (advance ex eid (fresh w))))"
  shows "before = Some a \<and> legal_transition (ex_codec ex) a x"
  using advance_disciplined [OF assms(1-4)] assms(5) unfolding log_ok_def by blast

lemma sample_row_there: "dict_get (st_executions (world_store sample_world)) ''e'' = Some (sample_row sample_execution 1)"
  "pe_execution_id (x_payload (sample_row sample_execution 1)) = ''e''" "others_disciplined ''e'' sample_world"
  by (simp_all add: sample_world_def world_store_def running_store_def dict_get_def sample_row_def sample_live others_disciplined_def)

lemma sample_quiet: "quiet (wd_log (snd (advance sample_executor ''e'' (fresh sample_world))))"
  using sample_advance by (auto simp: quiet_def)

lemma no_transition_lost_witness:
  "Commit_Act 1 sample_execution (Some sample_execution) tool_claimed [(tool_record, None)] True
     \<in> set (wd_log (snd (advance sample_executor ''e'' (fresh sample_world))))
   \<and> legal_transition sample_codec sample_execution tool_claimed"
proof -
  have "Commit_Act 1 sample_execution (Some sample_execution) tool_claimed [(tool_record, None)] True
     \<in> set (wd_log (snd (advance sample_executor ''e'' (fresh sample_world))))" using sample_advance by auto
  with no_transition_lost [OF sample_row_there(3,1,2) sample_quiet this] show ?thesis by simp
qed

text \<open>
  C8. An effect nobody could prove either way is never simply repeated: under the same discipline the
  claim right before an invocation expects the operation either not to exist or to be settled, never
  dispatching or unknown.
\<close>

theorem unsettled_effect_not_repeated:
  assumes "others_disciplined eid w" "dict_get (st_executions (world_store w)) eid = Some row" "pe_execution_id (x_payload row) = eid"
    "quiet (wd_log (snd (advance ex eid (fresh w))))"
    "wd_log (snd (advance ex eid (fresh w))) = xs @ Invoke_Act ad key args # ys"
  shows "\<exists>v a before x r prior. last xs = Commit_Act v a before x [(r, map_option op_state_value prior)] True
     \<and> or_operation_key r = key \<and> prior \<notin> {Some Op_Dispatching, Some Op_Unknown}"
proof -
  from advance_disciplined [OF assms(1-4)] assms(5) have "claims True (last xs) key args"
    unfolding log_ok_def by blast
  then obtain v a before x r prior where p: "last xs = Commit_Act v a before x [(r, map_option op_state_value prior)] True"
    "or_operation_key r = key" "\<forall>s. prior = Some s \<longrightarrow> \<not> unsettled s"
    unfolding claims_def by blast
  from p(3) have "prior \<notin> {Some Op_Dispatching, Some Op_Unknown}" by (auto simp: unsettled_def)
  with p(1,2) show ?thesis by blast
qed

lemma unsettled_effect_not_repeated_witness:
  "\<exists>xs ys. wd_log (snd (advance sample_executor ''e'' (fresh sample_world))) = xs @ Invoke_Act ''read'' ''o:e:a'' [] # ys
     \<and> (\<exists>v a before x r prior. last xs = Commit_Act v a before x [(r, map_option op_state_value prior)] True
          \<and> prior \<notin> {Some Op_Dispatching, Some Op_Unknown})"
proof -
  from sample_advance obtain v a before x ops where l: "wd_log (snd (advance sample_executor ''e'' (fresh sample_world)))
     = [Commit_Act 1 sample_execution (Some sample_execution) tool_claimed [(tool_record, None)] True]
       @ Invoke_Act ''read'' ''o:e:a'' [] # [Commit_Act v a before x ops True]"
    by blast
  from unsettled_effect_not_repeated [OF sample_row_there(3,1,2) sample_quiet l] l show ?thesis by blast
qed

text \<open>
  C19. A cognitive step breaks this: it ignores that a commit lost its version and goes on counting
  versions.  When an operator asks for cancellation while the model answers, the next claim of the
  same advance wins against the stored execution and the intent to cancel is gone.
\<close>

lemma cognitive_step_erases_cancellation:
  "\<exists>v a before x ops. Commit_Act v a (Some before) x ops True \<in> set (wd_log (snd (advance sample_executor ''e'' think_world)))
     \<and> pe_cancel_requested before \<and> \<not> cancelling x"
proof -
  from run_thinking obtain out w a ops where w: "run_step sample_executor 1 think_definition (Cognitive think_step)
     (at_state (sample_shared think_definition sample_execution 1 []) [id, operator_stops] sample_execution sample_execution {''e''} []) = (Inr out, w)"
    "Commit_Act 3 a (Some (stopped (claimed 0 sample_execution))) (claimed 1 (claimed 0 sample_execution)) ops True \<in> set (wd_log w)"
    by metis
  have "step_id (Cognitive think_step) = ''a''" by (simp add: think_step_def)
  from run_loaded [OF _ think_definition_fields this, of 1 "[id, id, operator_stops]" "{''e''}" "[]"] guarded_ok [OF w(1)]
  have "advance_loaded sample_executor 1 (at_state (sample_shared think_definition sample_execution 1 []) [id, id, operator_stops]
      sample_execution sample_execution {''e''} []) = (Inr out, w)" by simp
  from run_advance [OF this, of _ "[id, id, id, operator_stops]"]
  have "wd_log (snd (advance sample_executor ''e'' think_world)) = wd_log w" by (simp add: think_world_def)
  with w(2) show ?thesis by (auto simp: cancelling_def sample_live intro!: exI)
qed

section \<open>Around an advance\<close>

lemma on_store_alone: "wd_others w = [] \<Longrightarrow> on_store f w = (case f (world_store w) of (r, st) \<Rightarrow> (r, put_store st w))"
  by (simp add: on_store_def op_defs suspend_def)

lemma put_store_fields [simp]: "world_store (put_store st w) = st" "wd_others (put_store st w) = wd_others w"
  by (simp_all add: world_store_def put_store_def)

text \<open>The child's operation, as the store has it.\<close>

definition child_row :: "string \<Rightarrow> 'e world \<Rightarrow> operation_record operation_row option" where
  "child_row work_id w = dict_get (st_operations (world_store w)) (delegate_key work_id)"

definition settled_by :: "string \<Rightarrow> string \<Rightarrow> pyval \<Rightarrow> operation_record \<Rightarrow> bool" where
  "settled_by executor_id status res r \<longleftrightarrow> or_state r = (if status = ''completed'' then Op_Applied else Op_Rejected)
     \<and> or_settled_at r \<noteq> None \<and> (\<exists>ch. or_child r = Some ch \<and> ch_assignee ch = Some executor_id \<and> ch_executor ch = Some executor_id
          \<and> ch_status ch = status \<and> ch_result ch = res)"

definition child_awaited :: "string \<Rightarrow> string \<Rightarrow> 'e world \<Rightarrow> bool" where
  "child_awaited work_id executor_id w \<longleftrightarrow> (case child_row work_id w of None \<Rightarrow> False
     | Some row \<Rightarrow> op_state row = ''waiting'' \<and> or_state (op_payload row) = Op_Waiting
         \<and> (case or_child (op_payload row) of None \<Rightarrow> False | Some ch \<Rightarrow> ch_assignee ch = Some executor_id))"

text \<open>
  C9. A delegated child is settled once, and only by its assignee: a settlement takes effect exactly
  when the stored operation still waits and names the executor as assignee; then it stores the
  outcome in that operation, which no longer waits, and nothing else changes; otherwise it changes
  nothing.
\<close>

theorem child_settled_once:
  assumes "wd_others w = []" "settle_child ex work_id status executor_id res evidence w = (Inr took, w')"
  shows "(took \<longleftrightarrow> child_awaited work_id executor_id w)
    \<and> (if took then (\<exists>row'. world_store w' = (world_store w)\<lparr>st_operations := dict_set (delegate_key work_id) row' (st_operations (world_store w))\<rparr>
        \<and> op_state row' = op_state_value (or_state (op_payload row')) \<and> op_state row' \<noteq> ''waiting''
        \<and> settled_by executor_id status res (op_payload row'))
      else world_store w' = world_store w)"
proof (cases "child_row work_id w")
  case None
  with assms show ?thesis
    by (auto simp: settle_child_def load_operation_def bind_op_def ret_op_def on_store_alone load_procedure_operation_def child_row_def
        child_awaited_def)
next
  case (Some row)
  with assms show ?thesis
    by (auto simp: settle_child_def load_operation_def op_defs on_store_alone load_procedure_operation_def child_row_def with_clock_def
        update_procedure_operation_def settled_by_def child_awaited_def Let_def split: if_splits option.splits intro!: exI)
qed

definition child_record :: operation_record where
  "child_record = (new_operation 0 ''delegate:w'' sample_execution ''a'' ''delegate'' ''d'' Op_Waiting)
     \<lparr>or_child := Some \<lparr>ch_status = ''assigned'', ch_assignee = Some ''b'', ch_result = PNone, ch_evidence = [], ch_executor = None\<rparr>\<rparr>"

definition child_world :: "unit world" where
  "child_world = at_state (sample_shared sample_definition sample_execution 1
     [(''delegate:w'', \<lparr>op_execution = ''e'', op_state = ''waiting'', op_payload = child_record\<rparr>)]) [] sample_execution sample_execution {} []"

lemma child_run: "fst (settle_child sample_executor ''w'' ''completed'' ''b'' PNone [] child_world) = Inr True"
  by (simp add: settle_child_def load_operation_def op_defs child_world_def run_on_store load_procedure_operation_def running_store_def
      delegate_key_def dict_get_def child_record_def new_operation_def with_clock_def update_procedure_operation_def Let_def)

lemma child_settled_once_witness:
  "\<exists>row. child_row ''w'' (snd (settle_child sample_executor ''w'' ''completed'' ''b'' PNone [] child_world)) = Some row
     \<and> settled_by ''b'' ''completed'' PNone (op_payload row) \<and> op_state row \<noteq> ''waiting''"
proof -
  let ?w = "snd (settle_child sample_executor ''w'' ''completed'' ''b'' PNone [] child_world)"
  have run: "settle_child sample_executor ''w'' ''completed'' ''b'' PNone [] child_world = (Inr True, ?w)"
    using child_run by (metis prod.collapse)
  have "wd_others child_world = []" by (simp add: child_world_def)
  from child_settled_once [OF this run] show ?thesis by (auto simp: child_row_def dict_simps)
qed

abbreviation had :: "start_request \<Rightarrow> bool \<Rightarrow> 'e world \<Rightarrow> procedure_execution list" where
  "had q open_only w \<equiv> map snd (list_procedure_executions (Some (sq_occurrence_id q)) open_only (world_store w))"

lemma start_facts:
  assumes "wd_others w = []" "start ex d a q w = (Inr x, w')"
  shows "if had q True w \<noteq> [] then x = hd (had q True w) \<and> world_store w' = world_store w
    else load_procedure_execution (pe_execution_id x) (world_store w') = Some (1, x)
      \<and> load_procedure_execution (pe_execution_id x) (world_store w) = None
      \<and> pe_occurrence_id x = sq_occurrence_id q \<and> pe_digest x = fx_digest (ex_codec ex) d \<and> pe_current_step_id x = pd_entry_step_id d
      \<and> (\<forall>m. sq_max_executions q = Some m \<longrightarrow> int (length (had q False w)) < m)
      \<and> bg_max_model_calls (pe_budget x) = bg_max_model_calls (case sq_budget q of None \<Rightarrow> default_budget (ex_limits ex) d | Some b \<Rightarrow> b)
      \<and> (\<forall>t. sq_deadline_at q = Some t \<longrightarrow> pe_deadline_at x \<le> t)
      \<and> (had q False w \<noteq> [] \<longrightarrow> pe_deadline_at x \<le> pe_deadline_at (last (had q False w))
          \<and> bg_model_calls (pe_budget x) = bg_model_calls (pe_budget (last (had q False w)))
          \<and> bg_tool_attempts (pe_budget x) = bg_tool_attempts (pe_budget (last (had q False w)))
          \<and> bg_step_attempts (pe_budget x) = bg_step_attempts (pe_budget (last (had q False w)))
          \<and> bg_child_reserved (pe_budget x) = bg_child_reserved (pe_budget (last (had q False w))))"
proof (cases "had q True w = []")
  case False
  with assms show ?thesis
    by (auto simp: start_def list_executions_def op_defs on_store_alone first_open_def put_store_def world_store_def split: list.splits)
next
  case True
  let ?x = "new_execution ex (h_clock (ex_host ex) (sh_env (wd_shared w))) (h_new_id (ex_host ex) (sh_env (wd_shared w))) d a q (had q False w)"
  from True assms have x: "x = ?x" "\<forall>m. sq_max_executions q = Some m \<longrightarrow> int (length (had q False w)) < m"
    "load_procedure_execution (pe_execution_id x) (world_store w') = Some (1, x)"
    "load_procedure_execution (pe_execution_id x) (world_store w) = None"
    by (auto simp: start_def list_executions_def op_defs on_store_alone first_open_def with_clock_def Let_def create_procedure_execution_def
        load_procedure_execution_def dict_simps put_store_def world_store_def split: if_splits option.splits list.splits)
  have "pe_occurrence_id ?x = sq_occurrence_id q \<and> pe_digest ?x = fx_digest (ex_codec ex) d \<and> pe_current_step_id ?x = pd_entry_step_id d
      \<and> bg_max_model_calls (pe_budget ?x) = bg_max_model_calls (case sq_budget q of None \<Rightarrow> default_budget (ex_limits ex) d | Some b \<Rightarrow> b)
      \<and> (\<forall>t. sq_deadline_at q = Some t \<longrightarrow> pe_deadline_at ?x \<le> t)
      \<and> (had q False w \<noteq> [] \<longrightarrow> pe_deadline_at ?x \<le> pe_deadline_at (last (had q False w))
          \<and> bg_model_calls (pe_budget ?x) = bg_model_calls (pe_budget (last (had q False w)))
          \<and> bg_tool_attempts (pe_budget ?x) = bg_tool_attempts (pe_budget (last (had q False w)))
          \<and> bg_step_attempts (pe_budget ?x) = bg_step_attempts (pe_budget (last (had q False w)))
          \<and> bg_child_reserved (pe_budget ?x) = bg_child_reserved (pe_budget (last (had q False w))))"
    by (auto simp: new_execution_def Let_def inherit_spent_def)
  with True x show ?thesis by simp
qed

text \<open>
  C10. Starting resumes before it creates, and a replacement is no fresh allowance: an open execution
  of the occurrence is returned as it is; otherwise the new execution starts at the entry step of
  exactly this definition, is stored, has the limit of
  model calls it was given, and, when the occurrence had one before, has all the spending
  of the last one and no later deadline, and no later deadline than the requester's in any case.
\<close>

theorem start_resumes_or_inherits:
  assumes "wd_others w = []" "start ex d a q w = (Inr x, w')"
  shows "if had q True w \<noteq> [] then x = hd (had q True w) \<and> world_store w' = world_store w
    else load_procedure_execution (pe_execution_id x) (world_store w') = Some (1, x)
      \<and> load_procedure_execution (pe_execution_id x) (world_store w) = None
      \<and> pe_occurrence_id x = sq_occurrence_id q \<and> pe_digest x = fx_digest (ex_codec ex) d \<and> pe_current_step_id x = pd_entry_step_id d
      \<and> (\<forall>m. sq_max_executions q = Some m \<longrightarrow> int (length (had q False w)) < m)
      \<and> bg_max_model_calls (pe_budget x) = bg_max_model_calls (case sq_budget q of None \<Rightarrow> default_budget (ex_limits ex) d | Some b \<Rightarrow> b)
      \<and> (\<forall>t. sq_deadline_at q = Some t \<longrightarrow> pe_deadline_at x \<le> t)
      \<and> (had q False w \<noteq> [] \<longrightarrow> pe_deadline_at x \<le> pe_deadline_at (last (had q False w))
          \<and> bg_model_calls (pe_budget x) = bg_model_calls (pe_budget (last (had q False w)))
          \<and> bg_tool_attempts (pe_budget x) = bg_tool_attempts (pe_budget (last (had q False w)))
          \<and> bg_step_attempts (pe_budget x) = bg_step_attempts (pe_budget (last (had q False w)))
          \<and> bg_child_reserved (pe_budget x) = bg_child_reserved (pe_budget (last (had q False w))))"
  using assms by (rule start_facts)

definition sample_request :: start_request where
  "sample_request = \<lparr>sq_agent_id = ''a'', sq_goal_id = ''g'', sq_occurrence_id = ''o'', sq_parameters = [], sq_context = [],
     sq_context_refs = [], sq_work = [], sq_work_item_id = None, sq_budget = Some new_budget, sq_deadline_at = Some 900, sq_max_executions = None\<rparr>"

definition closed_world :: "unit world" where
  "closed_world = at_state (sample_shared sample_definition (tool_claimed\<lparr>pe_status := Ex_Failed\<rparr>) 1 []) [] sample_execution sample_execution {} []"

lemma closed_had: "had sample_request True closed_world = []" "had sample_request False closed_world = [tool_claimed\<lparr>pe_status := Ex_Failed\<rparr>]"
  by (simp_all add: closed_world_def world_store_def running_store_def list_procedure_executions_def sample_request_def sample_row_def
      is_open_row_def closed_statuses_def)

lemma start_run: "\<exists>x. fst (start sample_executor sample_definition sample_admission sample_request closed_world) = Inr x"
proof -
  have "list_executions (sq_occurrence_id sample_request) b closed_world = (Inr (had sample_request b closed_world), closed_world)" for b
    by (simp add: list_executions_def on_store_alone closed_world_def put_store_def world_store_def)
  moreover have "dict_get (st_executions (world_store closed_world)) ''f'' = None"
    by (simp add: closed_world_def world_store_def running_store_def dict_get_def)
  moreover have "\<not> clashes (world_store closed_world) i r" for i r
    by (simp add: clashes_def closed_world_def world_store_def running_store_def sample_row_def is_open_row_def closed_statuses_def)
  moreover have "wd_others closed_world = []" "sq_max_executions sample_request = None" "pe_execution_id (new_execution e n i d a q p) = i" for e :: "unit executor" and n i d a q p
    by (simp_all add: closed_world_def sample_request_def new_execution_def Let_def)
  ultimately show ?thesis
    by (simp add: start_def closed_had op_defs with_clock_def Let_def on_store_alone create_procedure_execution_def)
qed

lemma start_resumes_or_inherits_witness:
  "\<exists>x. fst (start sample_executor sample_definition sample_admission sample_request closed_world) = Inr x
     \<and> bg_tool_attempts (pe_budget x) = 1 \<and> pe_deadline_at x \<le> 600"
proof -
  let ?run = "start sample_executor sample_definition sample_admission sample_request closed_world"
  from start_run obtain x where x: "fst ?run = Inr x" by auto
  then have run: "?run = (Inr x, snd ?run)" by (metis prod.collapse)
  have "wd_others closed_world = []" by (simp add: closed_world_def)
  from start_resumes_or_inherits [OF this run] have "bg_tool_attempts (pe_budget x) = 1 \<and> pe_deadline_at x \<le> 600"
    unfolding closed_had by (auto simp: tool_claimed_def sample_execution_def)
  with x show ?thesis by blast
qed

lemma load_alone:
  assumes "wd_others w = []" "load_procedure_execution eid (world_store w) = Some (v, y)"
  obtains w' where "load_op eid w = (Inr v, w')" "wd_others w' = []" "wd_execution w' = y" "world_store w' = world_store w"
  using assms by (simp add: load_op_def op_defs on_store_alone put_store_def world_store_def)

lemma list_alone:
  assumes "wd_others w = []"
  shows "list_operations eid w = (Inr (map snd (list_procedure_operations eid (world_store w))), w)"
  using assms by (simp add: list_operations_def on_store_alone put_store_def world_store_def)

lemma commit_alone:
  assumes "wd_others w = []" "dict_get (st_executions (world_store w)) (pe_execution_id (wd_execution w)) = Some row" "x_version row = v"
    "\<And>p s. \<not> clashes (world_store w) (pe_execution_id (wd_execution w)) (row\<lparr>x_status := s, x_payload := p, x_version := v + 1\<rparr>)"
  obtains now w' where "commit ex v [] w = (Inr True, w')" "wd_execution w' = (wd_execution w)\<lparr>pe_updated_at := now\<rparr>"
    "world_store w' = (world_store w)\<lparr>st_executions := dict_set (pe_execution_id (wd_execution w))
       (row\<lparr>x_status := exec_status_value (pe_status (wd_execution w)), x_payload := (wd_execution w)\<lparr>pe_updated_at := now\<rparr>, x_version := v + 1\<rparr>)
       (st_executions (world_store w))\<rparr>"
  using assms
  by (simp add: commit_def with_clock_def with_execution_def set_execution_def op_defs on_store_alone commit_execution_def
      commit_procedure_transition_def Let_def put_store_def world_store_def load_procedure_execution_def split: prod.splits)

lemma one_open_row:
  assumes "one_open st" "dict_get (st_executions st) eid = Some row" "is_open_row row" "x_occurrence r = x_occurrence row"
  shows "\<not> clashes st eid r"
  using assms dict_get_in [OF assms(2)] unfolding one_open_def clashes_def list_ex_iff by fastforce

lemma open_value: "exec_status_value s \<notin> closed_statuses \<longleftrightarrow> s \<notin> terminal_statuses"
  by (cases s) (simp_all add: closed_statuses_def terminal_statuses_def)

text \<open>
  C11. Asking for cancellation is recorded: with no one in between it always succeeds; an execution
  that had ended is returned unchanged, any other is stored with the intent, and it is cancelled at
  once exactly when none of its operations is dispatching or unknown.
\<close>

theorem cancel_recorded:
  assumes "wd_others w = []" "one_open (world_store w)" "dict_get (st_executions (world_store w)) (pe_execution_id y) = Some row"
    "x_payload row = y" "x_status row = exec_status_value (pe_status y)"
  shows "\<exists>x w'. request_cancel ex (pe_execution_id y) reason w = (Inr x, w')
    \<and> (if exec_terminal y then x = y \<and> world_store w' = world_store w
       else pe_cancel_requested x \<and> load_procedure_execution (pe_execution_id y) (world_store w') = Some (x_version row + 1, x)
         \<and> (pe_status x = Ex_Cancelled \<longleftrightarrow>
              filter (\<lambda>(_, r). unsettled (or_state r)) (list_procedure_operations (pe_execution_id y) (world_store w)) = [])
         \<and> st_operations (world_store w') = st_operations (world_store w))"
proof -
  let ?eid = "pe_execution_id y"
  have five: "(5::nat) = Suc 4" by simp
  have "load_procedure_execution ?eid (world_store w) = Some (x_version row, y)"
    using assms by (simp add: load_procedure_execution_def)
  from load_alone [OF assms(1) this] obtain w1 where l: "load_op ?eid w = (Inr (x_version row), w1)"
    and w1: "wd_others w1 = []" "wd_execution w1 = y" "world_store w1 = world_store w" .
  have run: "request_cancel ex ?eid reason w = (if exec_terminal y then ret_op y
      else bind_op (list_operations ?eid) (\<lambda>ops.
       let in_flight = filter (\<lambda>r. unsettled (or_state r)) ops in
       seq_op (set_execution (\<lambda>x.
         let x = x\<lparr>pe_cancel_requested := True, pe_cancel_reason := (if pe_cancel_reason x \<noteq> [] then pe_cancel_reason x else reason)\<rparr>
         in if in_flight = [] then with_status Ex_Cancelled (pe_cancel_reason x) x
            else if pe_status x \<noteq> Ex_Needs_Reconciliation then with_status Ex_Cancel_Requested (pe_cancel_reason x) x
            else x))
      (bind_op (commit ex (x_version row) []) (\<lambda>won. if won then with_execution ret_op else cancel_loop ex 4 ?eid reason)))) w1"
    unfolding request_cancel_def five cancel_loop.simps(2) using l w1(2) by (simp add: op_defs with_execution_def)
  show ?thesis
  proof (cases "exec_terminal y")
    case True
    with run w1 show ?thesis by (simp add: op_defs)
  next
    case False
    let ?ops = "map snd (list_procedure_operations ?eid (world_store w))"
    let ?z = "let x = y\<lparr>pe_cancel_requested := True, pe_cancel_reason := (if pe_cancel_reason y \<noteq> [] then pe_cancel_reason y else reason)\<rparr>
         in if filter (\<lambda>r. unsettled (or_state r)) ?ops = [] then with_status Ex_Cancelled (pe_cancel_reason x) x
            else if pe_status x \<noteq> Ex_Needs_Reconciliation then with_status Ex_Cancel_Requested (pe_cancel_reason x) x
            else x"
    obtain z where z_eq: "z = ?z" by simp
    let ?w2 = "w1\<lparr>wd_execution := z\<rparr>"
    have z: "pe_execution_id z = ?eid" "pe_cancel_requested z"
      "pe_status z = Ex_Cancelled \<longleftrightarrow> filter (\<lambda>(_, r). unsettled (or_state r)) (list_procedure_operations ?eid (world_store w)) = []"
      using False unfolding z_eq by (auto simp: Let_def with_status_def exec_terminal_def terminal_statuses_def filter_empty_conv)
    have "is_open_row row" using False assms(5) open_value by (simp add: is_open_row_def exec_terminal_def)
    with one_open_row [OF assms(2,3)] have clash: "\<not> clashes (world_store w) ?eid (row\<lparr>x_status := s, x_payload := p, x_version := v\<rparr>)" for s p v by simp
    have w2: "wd_others ?w2 = []" "wd_execution ?w2 = z" "world_store ?w2 = world_store w" using w1 by (simp_all add: world_store_def)
    have "request_cancel ex ?eid reason w = bind_op (commit ex (x_version row) []) (\<lambda>won. if won then with_execution ret_op else cancel_loop ex 4 ?eid reason) ?w2"
      unfolding run z_eq using False list_alone [OF w1(1), of ?eid] w1 by (simp add: op_defs set_execution_def Let_def)
    moreover obtain now w' where "commit ex (x_version row) [] ?w2 = (Inr True, w')" "wd_execution w' = z\<lparr>pe_updated_at := now\<rparr>"
      "world_store w' = (world_store w)\<lparr>st_executions := dict_set ?eid
       (row\<lparr>x_status := exec_status_value (pe_status z), x_payload := z\<lparr>pe_updated_at := now\<rparr>, x_version := x_version row + 1\<rparr>)
       (st_executions (world_store w))\<rparr>"
      using commit_alone [of ?w2 row "x_version row" ex] w2 z(1) assms(3) clash by metis
    ultimately have "request_cancel ex ?eid reason w = (Inr (z\<lparr>pe_updated_at := now\<rparr>), w')"
      "load_procedure_execution ?eid (world_store w') = Some (x_version row + 1, z\<lparr>pe_updated_at := now\<rparr>)"
      "st_operations (world_store w') = st_operations (world_store w)"
      by (simp_all add: op_defs with_execution_def load_procedure_execution_def dict_simps)
    with False z show ?thesis by (intro exI [of _ "z\<lparr>pe_updated_at := now\<rparr>"] exI [of _ w']) simp
  qed
qed

lemma cancel_recorded_witness:
  "\<exists>x w'. request_cancel sample_executor ''e'' ''stop'' child_world = (Inr x, w') \<and> pe_status x = Ex_Cancelled"
proof -
  have "wd_others child_world = []" "one_open (world_store child_world)"
    "dict_get (st_executions (world_store child_world)) (pe_execution_id sample_execution) = Some (sample_row sample_execution 1)"
    "x_payload (sample_row sample_execution 1) = sample_execution"
    "x_status (sample_row sample_execution 1) = exec_status_value (pe_status sample_execution)"
    "list_procedure_operations (pe_execution_id sample_execution) (world_store child_world) = [(''waiting'', child_record)]"
    "or_state child_record = Op_Waiting" "pe_execution_id sample_execution = ''e''" "\<not> exec_terminal sample_execution"
    by (simp_all add: child_world_def world_store_def running_store_def one_open_def dict_ok_def dict_get_def sample_row_def sample_execution_def
        list_procedure_operations_def child_record_def new_operation_def exec_terminal_def terminal_statuses_def)
  from cancel_recorded [OF this(1-5), of sample_executor "''stop''"] this(6-) show ?thesis by (auto simp: unsettled_def)
qed

end
