(* ===== verification/Exec_Service.thy ===== *)
theory Exec_Service
  imports Exec_Advance Mind_State
begin

text \<open>
  The facade an agent's reasoner uses (\<open>ProcedureService\<close> of \<open>procedure_runtime.py\<close>): from a goal to
  the procedure, its parameters, its context and its allowance, and the cancellation of executions
  whose goal is gone.  The blackboard's work items and \<open>dict()\<close> of a value that is no dictionary are
  the fields of a record of parameters; a point in time in a reference is the number it stands for, and a
  work item identifier that is no text is refused before the store is read for the start.
\<close>

section \<open>The request of a goal\<close>

definition bounded_work :: "work_item \<Rightarrow> bool" where
  "bounded_work w \<longleftrightarrow> wb_max_model_calls (w_budget w) \<noteq> None \<or> w_deadline w \<noteq> None \<or> w_resources w \<noteq> []"

definition occurrence_of :: "goal \<Rightarrow> string" where
  "occurrence_of g = g_id g @ ''#'' @ show_nat (g_occurrence g)"

definition delegated_goal_kind :: string where "delegated_goal_kind = ''delegated_work''"
definition reserved_parameters :: "string set" where "reserved_parameters = {''procedure''}"

record 'e service =
  sv_executor :: "'e executor"
  sv_board_work :: "string \<Rightarrow> 'e \<Rightarrow> work_item option"
  sv_dict_of :: "pyval \<Rightarrow> obj result"

text \<open>\<open>goal.parameters.get(key) or otherwise\<close>\<close>

definition param_or :: "obj \<Rightarrow> string \<Rightarrow> pyval \<Rightarrow> pyval" where
  "param_or parameters key otherwise = (let v = get_or parameters key PNone in if truthy v then v else otherwise)"

definition delegated_request :: "'e service \<Rightarrow> obj \<Rightarrow> (string \<times> obj \<times> string option \<times> obj) result" where
  "delegated_request sv ps = (let str = h_str (ex_host (sv_executor sv)) in
     bind_res (iterate (param_or ps ''causation_chain'' (PList []))) (\<lambda>chain.
     bind_res (int_of_value (param_or ps ''delegation_depth'' (PInt 0))) (\<lambda>depth.
     bind_res (case param_or ps ''inputs'' (PDict []) of PDict d \<Rightarrow> Inr d | v \<Rightarrow> sv_dict_of sv v) (\<lambda>inputs.
     Inr (str (param_or ps ''work_type'' (PStr [])), inputs, None,
       [(''work_item_id'', get_or ps ''work_item_id'' PNone), (''causation_chain'', PList chain), (''delegation_depth'', PInt depth),
        (''requester_id'', get_or ps ''requester_id'' PNone)])))))"

definition typed_request :: "'e service \<Rightarrow> goal \<Rightarrow> (string \<times> obj \<times> string option \<times> obj) result" where
  "typed_request sv g = (let ps = g_parameters g; explicit = get_or ps ''procedure'' PNone in
     if g_kind g = delegated_goal_kind then delegated_request sv ps
     else Inr (g_kind g, filter (\<lambda>(k, _). k \<notin> reserved_parameters) ps,
       if truthy explicit then Some (h_str (ex_host (sv_executor sv)) explicit) else None, []))"

section \<open>Context and canonical work\<close>

definition context_ref :: "string \<Rightarrow> string \<Rightarrow> time \<Rightarrow> pyval" where
  "context_ref source key moment = PDict [(''source'', PStr source), (''key'', PStr key), (''at'', PInt moment)]"

definition read_dependency :: "'e host \<Rightarrow> belief list \<Rightarrow> 'e \<Rightarrow> context_dependency \<Rightarrow> obj \<times> obj \<Rightarrow> obj \<times> obj" where
  "read_dependency h bs env c = (\<lambda>(values, refs). case cd_source c of
      From_Belief \<Rightarrow> (case belief_of bs (cd_key c) of None \<Rightarrow> (values, refs)
        | Some b \<Rightarrow> (dict_set (cd_name c) (PStr (b_statement b)) values, dict_set (cd_name c) (context_ref ''belief'' (cd_key c) (b_updated_at b)) refs))
    | From_Fact \<Rightarrow> (case h_fact h (cd_key c) env of None \<Rightarrow> (values, refs)
        | Some f \<Rightarrow> (dict_set (cd_name c) (wf_value f) values, dict_set (cd_name c) (context_ref ''fact'' (cd_key c) (wf_created_at f)) refs)))"

definition context_of :: "'e host \<Rightarrow> belief list \<Rightarrow> 'e \<Rightarrow> procedure_definition \<Rightarrow> obj \<times> obj" where
  "context_of h bs env d = fold (read_dependency h bs env) (pd_context_dependencies d) ([], [])"

text \<open>\<open>_canonical_work\<close>: the durable work item, or why there is none for this agent.\<close>

definition canonical_work :: "'e service \<Rightarrow> obj \<Rightarrow> string \<Rightarrow> ('e, work_item option \<times> string) exec_op" where
  "canonical_work sv work agent =
     (let work_id = h_str (ex_host (sv_executor sv)) (param_or work ''work_item_id'' (PStr [])) in
      bind_op (load_operation (delegate_key work_id)) (\<lambda>row. case row of
        Some (_, r) \<Rightarrow> (case or_work r of None \<Rightarrow> raise_op (KeyError ''work'')
          | Some item \<Rightarrow> if Option.bind (or_child r) ch_assignee \<noteq> Some agent then ret_op (None, ''assigned to someone else'')
              else ret_op (Some item, []))
      | None \<Rightarrow> read_op (\<lambda>w. case sv_board_work sv work_id (sh_env (wd_shared w)) of
            None \<Rightarrow> ret_op (None, ''no durable record'')
          | Some item \<Rightarrow> if w_assigned_agent_id item \<notin> {None, Some agent} then ret_op (None, ''assigned to someone else'')
              else ret_op (Some item, []))))"

section \<open>Beginning\<close>

definition work_fields :: "work_item \<Rightarrow> obj \<Rightarrow> obj" where
  "work_fields item work = fold (\<lambda>(k, v). dict_set k v)
     [(''causation_chain'', PList (map PStr (w_causation_chain item))), (''delegation_depth'', PInt (w_delegation_depth item)),
      (''requester_id'', case w_requester_agent_id item of None \<Rightarrow> PNone | Some i \<Rightarrow> PStr i),
      (''expected_outputs'', PList (map PStr (w_expected_outputs item))),
      (''success_conditions'', PList (map PStr (w_success_conditions item))),
      (''resources'', PDict (map (\<lambda>(mode, paths). (mode, PList (map PStr paths))) (w_resources item)))] work"

definition work_item_ref :: "obj \<Rightarrow> string option result" where
  "work_item_ref work = (case get_or work ''work_item_id'' PNone of PNone \<Rightarrow> Inr None | PStr s \<Rightarrow> Inr (Some s)
     | _ \<Rightarrow> Inl (ValueError ''work_item_id''))"

definition refused_with :: "selection \<Rightarrow> string \<Rightarrow> procedure_execution option \<times> match_result option" where
  "refused_with s reason = (None, Some (no_procedure s reason))"

definition start_refused :: "procedure_execution result \<times> 'e world \<Rightarrow> match_result
    \<Rightarrow> (procedure_execution option \<times> match_result option) result \<times> 'e world" where
  "start_refused out m = (case out of
       (Inr x, w) \<Rightarrow> (Inr (Some x, Some m), w)
     | (Inl (ProcedureError c), w) \<Rightarrow> (Inr (refused_with Budget_Exhausted c), w)
     | (Inl e, w) \<Rightarrow> (Inl e, w))"

text \<open>The part of \<open>begin\<close> from the selection on.\<close>

definition begin_selected :: "'e service \<Rightarrow> goal \<Rightarrow> string \<Rightarrow> belief list \<Rightarrow> string \<Rightarrow> obj \<Rightarrow> string option \<Rightarrow> obj \<Rightarrow> work_item option
    \<Rightarrow> ('e, procedure_execution option \<times> match_result option) exec_op" where
  "begin_selected sv g agent bs kind parameters explicit work delegated =
     (let ex = sv_executor sv; h = ex_host ex in read_op (\<lambda>w.
      bind_op (lift_op (select kind parameters (h_capabilities h agent (sh_env (wd_shared w))) explicit [] (sh_registry (wd_shared w)))) (\<lambda>m.
      case (mr_selection m, mr_definition m, mr_admission m) of
        (Match, Some d, Some a) \<Rightarrow> (case context_of h bs (sh_env (wd_shared w)) d of (values, refs) \<Rightarrow>
          bind_op (lift_op (work_item_ref work)) (\<lambda>item_ref. (\<lambda>w. start_refused (start ex d a
            \<lparr>sq_agent_id = agent, sq_goal_id = g_id g, sq_occurrence_id = occurrence_of g, sq_parameters = parameters, sq_context = values,
             sq_context_refs = refs, sq_work = work, sq_work_item_id = item_ref,
             sq_budget = map_option (\<lambda>item. allocation (ex_limits ex) d (w_budget item)) delegated,
             sq_deadline_at = Option.bind delegated w_deadline,
             sq_max_executions = map_option (\<lambda>item. wb_max_attempts (w_budget item)) delegated\<rparr> w) m)))
      | _ \<Rightarrow> ret_op (if (case delegated of None \<Rightarrow> False | Some item \<Rightarrow> bounded_work item)
          then refused_with Unsupported_Execution ''no admitted typed procedure'' else (None, Some m)))))"

definition begin_goal :: "'e service \<Rightarrow> goal \<Rightarrow> string \<Rightarrow> belief list \<Rightarrow> ('e, procedure_execution option \<times> match_result option) exec_op" where
  "begin_goal sv g agent bs = bind_op (open_for (occurrence_of g)) (\<lambda>existing. case existing of
       Some x \<Rightarrow> ret_op (Some x, None)
     | None \<Rightarrow> bind_op (lift_op (typed_request sv g)) (\<lambda>(kind, parameters, explicit, work).
         if kind = [] then ret_op (None, None)
         else if work = [] then begin_selected sv g agent bs kind parameters explicit work None
         else bind_op (canonical_work sv work agent) (\<lambda>(delegated, refusal). case delegated of
             None \<Rightarrow> ret_op (refused_with Permission_Denied refusal)
           | Some item \<Rightarrow> begin_selected sv g agent bs (w_type item) (w_inputs item) explicit (work_fields item work) (Some item))))"

section \<open>Reaping\<close>

definition goal_gone :: "time \<Rightarrow> goal list \<Rightarrow> procedure_execution \<Rightarrow> bool" where
  "goal_gone now gs x \<longleftrightarrow> (case find (\<lambda>g. g_id g = pe_goal_id x) (rev gs) of
      None \<Rightarrow> True | Some g \<Rightarrow> \<not> (is_open now g \<and> occurrence_of g = pe_occurrence_id x))"

fun reap_loop :: "'e executor \<Rightarrow> time \<Rightarrow> goal list \<Rightarrow> procedure_execution list \<Rightarrow> ('e, string list) exec_op" where
  "reap_loop ex now gs [] = ret_op []"
| "reap_loop ex now gs (x # xs) =
     (if \<not> goal_gone now gs x then reap_loop ex now gs xs
      else seq_op (request_cancel ex (pe_execution_id x) ''the goal closed'')
          (seq_op (advance ex (pe_execution_id x))
          (bind_op (reap_loop ex now gs xs) (\<lambda>reaped. ret_op (pe_execution_id x # reaped)))))"

definition reap :: "'e executor \<Rightarrow> time \<Rightarrow> string \<Rightarrow> goal list \<Rightarrow> ('e, string list) exec_op" where
  "reap ex now agent gs = bind_op (open_executions agent) (reap_loop ex now gs)"

section \<open>Bounded work stays typed\<close>

text \<open>
  The reasoner plans a goal the legacy way when \<open>begin\<close> answers neither an execution nor a selection, or
  a selection that only says that no procedure applies (\<open>bdi.py\<close>).
\<close>

definition falls_through :: "procedure_execution option \<times> match_result option \<Rightarrow> bool" where
  "falls_through out \<longleftrightarrow> fst out = None \<and> (case snd out of None \<Rightarrow> True
     | Some m \<Rightarrow> mr_selection m \<in> {No_Match, Incompatible_Procedure})"

lemma open_for_alone:
  "wd_others w = [] \<Longrightarrow> open_for i w = (Inr (case map snd (list_procedure_executions (Some i) True (world_store w)) of
     [] \<Rightarrow> None | x # _ \<Rightarrow> Some x), w)"
  by (simp add: open_for_def list_executions_def op_defs on_store_alone put_store_def world_store_def)

lemma begin_selected_bounded:
  assumes "begin_selected sv g agent bs kind parameters explicit work (Some item) w = (Inr out, w')" "wd_others w = []" "bounded_work item"
  shows "\<not> falls_through out \<and> (\<forall>x. fst out = Some x \<longrightarrow> pe_occurrence_id x = occurrence_of g
    \<or> map snd (list_procedure_executions (Some (occurrence_of g)) True (world_store w)) \<noteq> [])
    \<and> (\<forall>x. fst out = Some x \<longrightarrow> map snd (list_procedure_executions (Some (occurrence_of g)) True (world_store w)) = []
        \<longrightarrow> (\<forall>t. w_deadline item = Some t \<longrightarrow> pe_deadline_at x \<le> t)
          \<and> (\<forall>n. wb_max_model_calls (w_budget item) = Some n \<longrightarrow> bg_max_model_calls (pe_budget x) \<le> n))"
proof -
  let ?ex = "sv_executor sv"
  consider (refused) "out = refused_with Unsupported_Execution ''no admitted typed procedure''"
    | (failed) c where "out = refused_with Budget_Exhausted c"
    | (started) d a q x m where "out = (Some x, Some m)" "start ?ex d a q w = (Inr x, w')" "sq_occurrence_id q = occurrence_of g"
        "sq_deadline_at q = w_deadline item" "sq_budget q = Some (allocation (ex_limits ?ex) d (w_budget item))"
    using assms(1,3)
    by (auto simp: begin_selected_def op_defs Let_def start_refused_def
        split: sum.splits option.splits selection.splits prod.splits exn.splits)
  then show ?thesis
  proof cases
    case started
    have le: "bg_max_model_calls (allocation l d wb) \<le> n" if "wb_max_model_calls wb = Some n" for l wb n
      using that by (simp add: allocation_def Let_def)
    from start_facts [OF assms(2) started(2)] started(1,3-5) le show ?thesis
      by (auto simp: falls_through_def split: if_splits)
  qed (auto simp: refused_with_def falls_through_def no_procedure_def)
qed


definition bounded_item :: work_item where
  "bounded_item = (new_work ''w'' 0 ''g'' ''count'')\<lparr>w_type := ''k'', w_deadline := Some 5\<rparr>"

definition sample_service :: "unit service" where
  "sample_service = \<lparr>sv_executor = sample_executor\<lparr>ex_host := sample_host\<lparr>h_str := (\<lambda>v. case v of PStr s \<Rightarrow> s | _ \<Rightarrow> [])\<rparr>\<rparr>,
     sv_board_work = (\<lambda>_ _. Some bounded_item), sv_dict_of = (\<lambda>_. Inl TypeError)\<rparr>"

definition delegated_goal :: goal where
  "delegated_goal = (new_goal ''g'' 0 ''count'')\<lparr>g_kind := delegated_goal_kind,
     g_parameters := [(''work_type'', PStr ''k''), (''work_item_id'', PStr ''w'')]\<rparr>"

definition delegated_work_fields :: obj where
  "delegated_work_fields = [(''work_item_id'', PStr ''w''), (''causation_chain'', PList []), (''delegation_depth'', PInt 0), (''requester_id'', PNone)]"

lemma delegated_typed: "typed_request sample_service delegated_goal = Inr (''k'', [], None, delegated_work_fields)"
  by (simp add: typed_request_def delegated_request_def delegated_goal_def sample_service_def param_or_def get_or_def Let_def
      delegated_work_fields_def)

lemma delegated_canonical: "canonical_work sample_service delegated_work_fields ''b'' sample_world = (Inr (Some bounded_item, []), sample_world)"
  by (simp add: canonical_work_def load_operation_def op_defs sample_world_def run_on_store load_procedure_operation_def running_store_def
      dict_get_def sample_service_def bounded_item_def new_work_def param_or_def get_or_def delegated_work_fields_def Let_def)

lemma delegated_begin: "\<exists>out. fst (begin_goal sample_service delegated_goal ''b'' [] sample_world) = Inr out"
proof -
  have none: "map snd (list_procedure_executions (Some (occurrence_of delegated_goal)) True (world_store sample_world)) = []"
    by (simp add: sample_world_def world_store_def running_store_def list_procedure_executions_def sample_row_def occurrence_of_def
        delegated_goal_def new_goal_def)
  have w: "wd_others sample_world = []" by (simp add: sample_world_def)
  have "open_for (occurrence_of delegated_goal) sample_world = (Inr None, sample_world)"
    by (simp add: open_for_alone [OF w] none)
  moreover have "delegated_work_fields \<noteq> []" by (simp add: delegated_work_fields_def)
  ultimately show ?thesis
    using delegated_typed delegated_canonical
    by (simp add: begin_goal_def op_defs begin_selected_def Let_def select_def no_procedure_def selection_candidates_def bounded_item_def)
      (simp add: sample_world_def sample_admission_def new_admission_def sample_shared_def new_registry_def bounded_item_def new_work_def)
qed


end
