(* ===== verification/Core_Adapters.thy ===== *)
theory Core_Adapters
  imports Proc_Execution Blackboard
begin

text \<open>
  The adapters, checks and output contracts that ship with the runtime (\<open>JsonRead\<close> to \<open>CORE_OUTPUTS\<close> of
  \<open>procedure_runtime.py\<close>), over a file system of text files under resolved paths.  A write is its list
  of file-system steps, so that a crash is a run that stops between two steps or inside a write.
  Canonical JSON, the digest, \<open>json.dumps\<close> and \<open>json.loads\<close>, the resolution of a path and the
  permission to use it are the fields of a record of parameters; directories and the tally of
  the tool context are not modelled.
\<close>

section \<open>Files\<close>

type_synonym file_path = "string list"
type_synonym files = "file_path \<Rightarrow> string option"

record adapter_env =
  ae_root :: file_path
  ae_resolve :: "string \<Rightarrow> file_path option"
  ae_permit :: "file_path \<Rightarrow> string \<Rightarrow> bool"
  ae_allow_write :: bool
  ae_canonical :: "pyval \<Rightarrow> string"
  ae_digest :: "string \<Rightarrow> string"
  ae_dump :: "pyval \<Rightarrow> string"
  ae_load :: "string \<Rightarrow> pyval option"
  ae_str :: "pyval \<Rightarrow> string"

definition rel_path :: "adapter_env \<Rightarrow> file_path \<Rightarrow> string" where
  "rel_path E target = (if prefix (ae_root E) target then py_join ''/'' (drop (length (ae_root E)) target)
     else ''/'' @ py_join ''/'' target)"

definition receipts_dir :: string where "receipts_dir = ''.evomesh-receipts''"
definition max_json_read_bytes :: nat where "max_json_read_bytes = 262144"

text \<open>An argument of the kind the schema of the adapter asks for.\<close>

definition text_arg :: "obj \<Rightarrow> string \<Rightarrow> string result" where
  "text_arg args name = (case dict_get args name of None \<Rightarrow> Inl (KeyError name) | Some (PStr s) \<Rightarrow> Inr s | Some _ \<Rightarrow> Inl AttributeError)"

definition value_arg :: "obj \<Rightarrow> string \<Rightarrow> pyval result" where
  "value_arg args name = (case dict_get args name of None \<Rightarrow> Inl (KeyError name) | Some v \<Rightarrow> Inr v)"

section \<open>Contracts\<close>

definition object_schema :: "(string \<times> pyval) list \<Rightarrow> string list \<Rightarrow> obj" where
  "object_schema properties required = [(''type'', PStr ''object''), (''properties'', PDict properties),
     (''required'', PList (map PStr required)), (''additionalProperties'', PBool False)]"

definition opaque_object :: pyval where
  "opaque_object = PDict [(''type'', PStr ''object''), (''additionalProperties'', PBool True)]"

definition text_schema :: "int \<Rightarrow> pyval" where
  "text_schema n = PDict [(''type'', PStr ''string''), (''maxLength'', PInt n)]"

definition texts_schema :: "int \<Rightarrow> int \<Rightarrow> pyval" where
  "texts_schema n items = PDict [(''type'', PStr ''array''), (''items'', text_schema n), (''maxItems'', PInt items)]"

definition new_contract :: "string \<Rightarrow> obj \<Rightarrow> obj \<Rightarrow> side_effect \<Rightarrow> retry_semantics \<Rightarrow> adapter_contract" where
  "new_contract i args res effect retry = \<lparr>ac_adapter_id = i, ac_contract_version = 1, ac_argument_schema = args,
     ac_result_schema = res, ac_required_capabilities = [], ac_side_effect = effect, ac_retry = retry, ac_reconcile_supported = False,
     ac_uses_model = False, ac_timeout_seconds = 30, ac_resource_arguments = []\<rparr>"

definition json_read_contract :: adapter_contract where
  "json_read_contract = (new_contract ''core.json_read'' (object_schema [(''path'', text_schema 500)] [''path''])
     (object_schema [(''value'', opaque_object), (''source_digest'', text_schema 100), (''path'', text_schema 500),
        (''keys'', texts_schema 100 64)] [''value'', ''source_digest'', ''path'', ''keys'']) Read Retry_Safe)
     \<lparr>ac_required_capabilities := [''artifact.read''], ac_resource_arguments := [''path'']\<rparr>"

definition json_write_contract :: adapter_contract where
  "json_write_contract = (new_contract ''core.json_write''
     (object_schema [(''path'', text_schema 500), (''value'', opaque_object)] [''path'', ''value''])
     (object_schema [(''artifact_id'', text_schema 500), (''digest'', text_schema 100),
        (''bytes'', PDict [(''type'', PStr ''integer''), (''minimum'', PInt 0)])] [''artifact_id'', ''digest'', ''bytes'']) Local_Write Retry_None)
     \<lparr>ac_required_capabilities := [''artifact.write''], ac_reconcile_supported := True, ac_resource_arguments := [''path'']\<rparr>"

definition json_project_contract :: adapter_contract where
  "json_project_contract = new_contract ''core.json_project''
     (object_schema [(''value'', opaque_object), (''fields'', texts_schema 100 32)] [''value'', ''fields''])
     (object_schema [(''value'', opaque_object)] [''value'']) Pure Retry_Safe"

definition fact_read_contract :: adapter_contract where
  "fact_read_contract = (new_contract ''core.fact_read'' (object_schema [(''key'', text_schema 200)] [''key''])
     (object_schema [(''found'', PDict [(''type'', PStr ''boolean'')]), (''value'', text_schema 4000), (''source'', text_schema 200)]
        [''found'', ''value'', ''source'']) Read Retry_Safe)\<lparr>ac_required_capabilities := [''blackboard.read'']\<rparr>"

definition fact_publish_contract :: adapter_contract where
  "fact_publish_contract = (new_contract ''core.fact_publish''
     (object_schema [(''key'', text_schema 200), (''value'', text_schema 4000)] [''key'', ''value''])
     (object_schema [(''key'', text_schema 200)] [''key'']) Local_Write Retry_Idempotent)\<lparr>ac_required_capabilities := [''blackboard.write'']\<rparr>"

definition core_contracts :: "adapter_contract list" where
  "core_contracts = [json_read_contract, json_write_contract, json_project_contract, fact_read_contract, fact_publish_contract]"

section \<open>Reading\<close>

definition result_ok :: "obj \<Rightarrow> obj option \<Rightarrow> adapter_result" where
  "result_ok res receipt = \<lparr>ar_ok = True, ar_result = Some res, ar_receipt = receipt, ar_code = [], ar_retryable = False, ar_denied = False\<rparr>"

definition result_failed :: "string \<Rightarrow> bool \<Rightarrow> adapter_result" where
  "result_failed code denied = \<lparr>ar_ok = False, ar_result = None, ar_receipt = None, ar_code = code, ar_retryable = False, ar_denied = denied\<rparr>"

text \<open>\<open>_resolve\<close> and \<open>_permit\<close>, either of which may raise \<open>ToolDenied\<close>.\<close>

definition allowed_target :: "adapter_env \<Rightarrow> string \<Rightarrow> string \<Rightarrow> file_path option" where
  "allowed_target E raw operation = (case ae_resolve E raw of None \<Rightarrow> None
     | Some target \<Rightarrow> if ae_permit E target operation then Some target else None)"

definition json_read :: "adapter_env \<Rightarrow> obj \<Rightarrow> files \<Rightarrow> adapter_result result" where
  "json_read E args fs = bind_res (text_arg args ''path'') (\<lambda>raw.
     Inr (case allowed_target E raw ''read'' of
         None \<Rightarrow> result_failed ''PERMISSION_DENIED'' True
       | Some target \<Rightarrow> (case fs target of
           None \<Rightarrow> result_failed ''NOT_FOUND'' False
         | Some data \<Rightarrow>
             if utf8_length data > max_json_read_bytes then result_failed ''INPUT_TOO_LARGE'' False
             else (case ae_load E data of
                 Some (PDict d) \<Rightarrow> result_ok [(''value'', PDict d), (''source_digest'', PStr (ae_digest E (ae_canonical E (PDict d)))),
                   (''path'', PStr (rel_path E target)),
                   (''keys'', PList (map PStr (take 64 (sort (map (\<lambda>(k, _). take 100 k) d)))))] None
               | _ \<Rightarrow> result_failed ''INVALID_JSON'' False))))"

section \<open>Writing\<close>

definition receipt_path :: "adapter_env \<Rightarrow> string \<Rightarrow> file_path" where
  "receipt_path E key = ae_root E @ [receipts_dir, take 32 (ae_digest E key) @ ''.json'']"

definition owner_path :: "adapter_env \<Rightarrow> string \<Rightarrow> file_path" where
  "owner_path E relative = ae_root E @ [receipts_dir, ''paths'', take 32 (ae_digest E relative) @ ''.json'']"

definition content_of :: "adapter_env \<Rightarrow> pyval \<Rightarrow> string" where
  "content_of E v = ae_canonical E v @ [CHR 0x0A]"

definition owned :: "adapter_env \<Rightarrow> string \<Rightarrow> string option \<Rightarrow> files \<Rightarrow> bool result" where
  "owned E relative actual fs = (case (actual, fs (owner_path E relative)) of
       (Some digest, Some data) \<Rightarrow> (case ae_load E data of
           None \<Rightarrow> Inr False
         | Some rec \<Rightarrow> bind_res (get_attr rec ''path'' PNone) (\<lambda>p.
             if \<not> py_eq p (PStr relative) then Inr False
             else bind_res (get_attr rec ''digest'' PNone) (\<lambda>d. Inr (py_eq d (PStr digest)))))
     | _ \<Rightarrow> Inr False)"

definition write_result :: "adapter_env \<Rightarrow> file_path \<Rightarrow> string \<Rightarrow> obj" where
  "write_result E target content = [(''artifact_id'', PStr (rel_path E target)), (''digest'', PStr (ae_digest E content)),
     (''bytes'', PInt (int (utf8_length content)))]"

text \<open>The receipt on disk: unreadable, absent (or \<open>null\<close>), or what it holds.\<close>

definition read_receipt :: "adapter_env \<Rightarrow> string \<Rightarrow> files \<Rightarrow> pyval option option" where
  "read_receipt E key fs = (case fs (receipt_path E key) of None \<Rightarrow> Some None
     | Some data \<Rightarrow> (case ae_load E data of None \<Rightarrow> None | Some PNone \<Rightarrow> Some None | Some v \<Rightarrow> Some (Some v)))"

definition settle_by_receipt :: "adapter_env \<Rightarrow> pyval option \<Rightarrow> file_path \<Rightarrow> string \<Rightarrow> files \<Rightarrow> (reconcile_state \<times> obj option) result" where
  "settle_by_receipt E receipt target content fs =
     (let actual = map_option (ae_digest E) (fs target); expected = ae_digest E content in
      case receipt of
        Some v \<Rightarrow> bind_res (get_attr v ''digest'' PNone) (\<lambda>d. Inr (
          if \<not> py_eq d (PStr expected) then (Rec_Conflict, None)
          else if actual = Some expected then (Rec_Applied, Some (write_result E target content))
          else if actual = None then (Rec_Not_Applied, None)
          else (Rec_Conflict, None)))
      | None \<Rightarrow> if actual = None then Inr (Rec_Not_Applied, None)
          else bind_res (owned E (rel_path E target) actual fs) (\<lambda>own.
            Inr (if own then Rec_Not_Applied else Rec_Conflict, None)))"

definition json_write_reconcile :: "adapter_env \<Rightarrow> string \<Rightarrow> obj \<Rightarrow> files \<Rightarrow> (reconcile_state \<times> obj option) result" where
  "json_write_reconcile E key args fs = bind_res (text_arg args ''path'') (\<lambda>raw. case ae_resolve E raw of
       None \<Rightarrow> Inr (Rec_Unknown, None)
     | Some target \<Rightarrow> bind_res (value_arg args ''value'') (\<lambda>v. case read_receipt E key fs of
           None \<Rightarrow> Inr (Rec_Unknown, None)
         | Some receipt \<Rightarrow> settle_by_receipt E receipt target (content_of E v) fs))"

text \<open>The steps of a write, in their order; \<open>os.replace\<close> is atomic, the writes are not.\<close>

datatype fs_step = Write_File file_path string | Replace_File file_path file_path

fun apply_step :: "fs_step \<Rightarrow> files \<Rightarrow> files" where
  "apply_step (Write_File p s) fs = fs(p \<mapsto> s)"
| "apply_step (Replace_File p q) fs = fs(q := fs p, p := None)"

definition write_receipt :: "string \<Rightarrow> string \<Rightarrow> string \<Rightarrow> string \<Rightarrow> pyval" where
  "write_receipt key path digest state = PDict [(''operation_key'', PStr key), (''path'', PStr path), (''digest'', PStr digest),
     (''state'', PStr state)]"

definition owner_record :: "string \<Rightarrow> string \<Rightarrow> string \<Rightarrow> pyval" where
  "owner_record key path digest = PDict [(''path'', PStr path), (''digest'', PStr digest), (''operation_key'', PStr key)]"

definition temporary :: "string \<Rightarrow> file_path \<Rightarrow> file_path" where
  "temporary uuid target = butlast target @ [''.'' @ last target @ ''.'' @ uuid @ ''.tmp'']"

definition write_steps :: "adapter_env \<Rightarrow> string \<Rightarrow> string \<Rightarrow> file_path \<Rightarrow> string \<Rightarrow> fs_step list" where
  "write_steps E uuid key target content =
     (let path = rel_path E target; digest = ae_digest E content in
      [Write_File (receipt_path E key) (ae_dump E (write_receipt key path digest ''prepared'')),
       Write_File (temporary uuid target) content,
       Replace_File (temporary uuid target) target,
       Write_File (receipt_path E key) (ae_dump E (write_receipt key path digest ''applied'')),
       Write_File (owner_path E path) (ae_dump E (owner_record key path digest))])"

definition json_write :: "adapter_env \<Rightarrow> string \<Rightarrow> string \<Rightarrow> obj \<Rightarrow> files \<Rightarrow> adapter_result result \<times> fs_step list" where
  "json_write E uuid key args fs =
     (if \<not> ae_allow_write E then (Inr (result_failed ''PERMISSION_DENIED'' True), [])
      else case text_arg args ''path'' of Inl e \<Rightarrow> (Inl e, []) | Inr raw \<Rightarrow>
       (case allowed_target E raw ''write'' of
          None \<Rightarrow> (Inr (result_failed ''PERMISSION_DENIED'' True), [])
        | Some target \<Rightarrow>
            if receipts_dir \<in> set target then (Inr (result_failed ''PERMISSION_DENIED'' True), [])
            else (case bind_res (value_arg args ''value'') (\<lambda>v. bind_res (json_write_reconcile E key args fs) (\<lambda>out. Inr (v, out))) of
                Inl e \<Rightarrow> (Inl e, [])
              | Inr (v, state, prior) \<Rightarrow>
                  if state = Rec_Applied \<and> prior \<noteq> None then (Inr (result_ok (the prior) (Some [(''reconciled'', PBool True)])), [])
                  else if state = Rec_Conflict then (Inr (result_failed ''DESTINATION_CONFLICT'' False), [])
                  else (Inr (result_ok (write_result E target (content_of E v))
                          (Some [(''path'', PStr (''/'' @ py_join ''/'' (receipt_path E key))), (''digest'', PStr (ae_digest E (content_of E v)))])),
                        write_steps E uuid key target (content_of E v)))))"

text \<open>A run that is not interrupted, and one that stops after \<open>n\<close> steps, perhaps inside the next write.\<close>

definition completed_write :: "fs_step list \<Rightarrow> files \<Rightarrow> files" where
  "completed_write steps fs = fold apply_step steps fs"

definition interrupted_write :: "nat \<Rightarrow> nat option \<Rightarrow> fs_step list \<Rightarrow> files \<Rightarrow> files" where
  "interrupted_write n part steps fs = (let fs = fold apply_step (take n steps) fs in
     case (part, drop n steps) of (Some k, Write_File p s # _) \<Rightarrow> fs(p \<mapsto> take k s) | _ \<Rightarrow> fs)"

section \<open>Projection and facts\<close>

text \<open>For a value the schema of the adapter accepts: an object and a list of texts.\<close>

definition json_project :: "obj \<Rightarrow> string list \<Rightarrow> adapter_result" where
  "json_project value names =
     (if list_ex (\<lambda>n. dict_get value n = None) names then result_failed ''MISSING_FIELD'' False
      else result_ok [(''value'', PDict (fold (\<lambda>n d. dict_set n (the (dict_get value n)) d) names []))] None)"

definition fact_read :: "adapter_env \<Rightarrow> time \<Rightarrow> blackboard option \<Rightarrow> string \<Rightarrow> adapter_result" where
  "fact_read E now board key = (case Option.bind board (\<lambda>b. current_fact now b key) of
       None \<Rightarrow> result_ok [(''found'', PBool False), (''value'', PStr []), (''source'', PStr [])] None
     | Some f \<Rightarrow> result_ok [(''found'', PBool True), (''value'', PStr (take 4000 (ae_str E (wf_value f)))), (''source'', PStr (wf_source f))] None)"

definition fact_publish :: "time \<Rightarrow> string \<Rightarrow> string \<Rightarrow> pyval \<Rightarrow> blackboard option \<Rightarrow> adapter_result \<times> blackboard option" where
  "fact_publish now agent key v board = (case board of
       None \<Rightarrow> (result_failed ''UNAVAILABLE'' False, None)
     | Some b \<Rightarrow> (result_ok [(''key'', PStr key)] None,
         Some (publish_fact \<lparr>wf_key = key, wf_value = v, wf_source = agent, wf_confidence = 1, wf_created_at = now, wf_expires_at = None\<rparr> b)))"

definition fact_publish_reconcile :: "time \<Rightarrow> string \<Rightarrow> pyval \<Rightarrow> blackboard option \<Rightarrow> reconcile_state \<times> obj option" where
  "fact_publish_reconcile now key v board = (case Option.bind board (\<lambda>b. current_fact now b key) of
       None \<Rightarrow> (Rec_Not_Applied, None)
     | Some f \<Rightarrow> if py_eq (wf_value f) v then (Rec_Applied, Some [(''key'', PStr key)]) else (Rec_Not_Applied, None))"

section \<open>Checks\<close>

definition write_receipts :: "procedure_execution \<Rightarrow> operation_record list \<Rightarrow> string \<Rightarrow> operation_record list" where
  "write_receipts x ops artifact = filter (\<lambda>r. or_adapter r = ''core.json_write'' \<and> or_state r = Op_Applied
     \<and> or_occurrence_id r = pe_occurrence_id x
     \<and> (case or_result r of None \<Rightarrow> False | Some d \<Rightarrow> (case dict_get d ''artifact_id'' of Some (PStr a) \<Rightarrow> a = artifact | _ \<Rightarrow> False))) ops"

definition check_failed :: "string \<Rightarrow> check_outcome" where
  "check_failed reason = \<lparr>ck_passed = False, ck_reason = reason, ck_evidence = []\<rparr>"

definition artifact_equals :: "adapter_env \<Rightarrow> procedure_execution \<Rightarrow> operation_record list \<Rightarrow> files \<Rightarrow> string \<Rightarrow> pyval \<Rightarrow> obj \<Rightarrow> check_outcome" where
  "artifact_equals E x ops fs artifact expected extra =
     (let receipts = write_receipts x ops artifact in
      if receipts = [] then check_failed ''no applied write receipt''
      else case ae_resolve E artifact of None \<Rightarrow> check_failed ''denied''
        | Some target \<Rightarrow> (case fs target of None \<Rightarrow> check_failed ''does not exist''
            | Some actual \<Rightarrow> if actual \<noteq> content_of E expected then check_failed ''does not match''
                else \<lparr>ck_passed = True, ck_reason = [], ck_evidence = [(''artifact_id'', PStr artifact), (''digest'', PStr (ae_digest E actual)),
                  (''operation_key'', PStr (or_operation_key (last receipts)))] @ extra\<rparr>))"

text \<open>\<open>str(arguments.get(name) or "")\<close>, of arguments that are texts.\<close>

definition text_or :: "obj \<Rightarrow> string \<Rightarrow> string \<Rightarrow> string" where
  "text_or args name otherwise = (case dict_get args name of Some (PStr s) \<Rightarrow> s | _ \<Rightarrow> otherwise)"

definition artifact_matches_source :: "adapter_env \<Rightarrow> obj \<Rightarrow> procedure_execution \<Rightarrow> operation_record list \<Rightarrow> files \<Rightarrow> check_outcome" where
  "artifact_matches_source E args x ops fs =
     (case dict_get (pe_results x) (text_or args ''source_step'' ''None'') of
        Some (PDict captured) \<Rightarrow> (case dict_get captured ''value'' of
            None \<Rightarrow> check_failed ''no captured value''
          | Some v \<Rightarrow> artifact_equals E x ops fs (text_or args ''artifact_id'' []) v
              [(''source_digest'', dict_get_or captured ''source_digest'' (PStr []))])
      | _ \<Rightarrow> check_failed ''no captured value'')"

definition validated_output :: "procedure_execution \<Rightarrow> string \<Rightarrow> bool" where
  "validated_output x sid \<longleftrightarrow> list_ex (\<lambda>e. dict_get e ''kind'' = Some (PStr ''cognitive'') \<and> dict_get e ''step_id'' = Some (PStr sid)) (pe_evidence x)"

definition artifact_matches_output :: "adapter_env \<Rightarrow> obj \<Rightarrow> procedure_execution \<Rightarrow> operation_record list \<Rightarrow> files \<Rightarrow> check_outcome" where
  "artifact_matches_output E args x ops fs =
     (let sid = text_or args ''output_step'' [] in
      if \<not> validated_output x sid then check_failed ''no validated output''
      else case dict_get (pe_results x) sid of None \<Rightarrow> check_failed ''no validated output''
        | Some v \<Rightarrow> artifact_equals E x ops fs (text_or args ''artifact_id'' []) v
            [(''output_step'', PStr sid), (''model_generated'', PBool True)])"

definition core_check_contracts :: "check_contract list" where
  "core_check_contracts =
     [\<lparr>cc_check_id = ''artifact_matches_source'', cc_argument_schema = object_schema [(''artifact_id'', text_schema 500),
         (''source_step'', text_schema 64)] [''artifact_id'', ''source_step''],
       cc_description = ''artifact equals the canonical value captured by this occurrence's source read''\<rparr>,
      \<lparr>cc_check_id = ''artifact_matches_output'', cc_argument_schema = object_schema [(''artifact_id'', text_schema 500),
         (''output_step'', text_schema 64)] [''artifact_id'', ''output_step''],
       cc_description = ''artifact equals the validated output of this occurrence's cognitive step''\<rparr>]"

section \<open>Outputs\<close>

text \<open>The identifiers anywhere in the inputs, and the citations that are not among them.\<close>

function (sequential) collect_ids :: "pyval \<Rightarrow> string list" where
  "collect_ids (PDict d) = (case dict_get d ''id'' of Some (PStr i) \<Rightarrow> [i] | _ \<Rightarrow> []) @ concat (map (\<lambda>(_, v). collect_ids v) d)"
| "collect_ids (PList xs) = concat (map collect_ids xs)"
| "collect_ids _ = []"
  by pat_completeness auto
termination
  by (relation "measure size") (auto intro: size_snd_less size_in_list)

definition unknown_citation :: "string list \<Rightarrow> pyval \<Rightarrow> string list result" where
  "unknown_citation given item = (if \<not> hashable item then Inl TypeError
     else Inr (if (case item of PStr s \<Rightarrow> s \<in> set given | _ \<Rightarrow> False) then [] else [''cites unknown evidence id'']))"

definition cited_ids_within_inputs :: "pyval \<Rightarrow> obj \<Rightarrow> string list result" where
  "cited_ids_within_inputs res inputs =
     (case res of PDict d \<Rightarrow> bind_res (iterate (dict_get_or d ''evidence_ids'' (PList []))) (concat_res (unknown_citation (collect_ids (PDict inputs))))
      | _ \<Rightarrow> Inr [])"

definition inspection_output :: "string \<Rightarrow> output_contract" where
  "inspection_output i = \<lparr>oc_schema_id = i, oc_schema = object_schema [(''artifact_id'', text_schema 500), (''keys'', texts_schema 100 64),
     (''digest'', text_schema 100)] [''artifact_id'', ''keys'', ''digest''], oc_semantic_check = None, oc_required_evidence = []\<rparr>"

definition core_outputs :: "output_contract list" where
  "core_outputs = [\<lparr>oc_schema_id = ''report_comparison_v1'', oc_schema = object_schema [(''summary'', text_schema 1200),
       (''evidence_ids'', texts_schema 64 20)] [''summary'', ''evidence_ids''],
       oc_semantic_check = Some cited_ids_within_inputs, oc_required_evidence = []\<rparr>,
     inspection_output ''local_json_inspection_v1'', inspection_output ''authorized_json_inspection_v1'']"

definition core_catalog :: "string set \<Rightarrow> string set \<Rightarrow> catalog" where
  "core_catalog services reasons = fold add_output core_outputs (fold add_check core_check_contracts (fold add_adapter core_contracts
     \<lparr>adapters = [], checks = [], outputs = [], cognitive_services = services, cognitive_reasons = reasons\<rparr>))"

section \<open>A write, completed or interrupted\<close>

lemma receipt_elsewhere: "receipts_dir \<notin> set target \<Longrightarrow> target \<noteq> receipt_path E key \<and> target \<noteq> owner_path E r \<and> temporary u target \<noteq> receipt_path E key \<and> temporary u target \<noteq> owner_path E r"
proof -
  assume t: "receipts_dir \<notin> set target"
  have in_path: "receipts_dir \<in> set (butlast (receipt_path E key))" "receipts_dir \<in> set (butlast (owner_path E r))"
    by (simp_all add: receipt_path_def owner_path_def butlast_append)
  have "receipts_dir \<notin> set (butlast (temporary u target))" using t by (auto simp: temporary_def dest: in_set_butlastD)
  with in_path have "temporary u target \<noteq> receipt_path E key" "temporary u target \<noteq> owner_path E r" by metis+
  moreover have "target \<noteq> receipt_path E key" "target \<noteq> owner_path E r" using t in_path in_set_butlastD by metis+
  ultimately show ?thesis by simp
qed

lemma owner_not_receipt: "owner_path E r \<noteq> receipt_path E key"
  by (simp add: owner_path_def receipt_path_def)

lemma temporary_fresh: "temporary u target \<noteq> target"
proof (cases "target = []")
  case False
  then have "target = butlast target @ [last target]" by simp
  moreover have "''.'' @ last target @ ''.'' @ u @ ''.tmp'' \<noteq> last target"
  proof
    assume "''.'' @ last target @ ''.'' @ u @ ''.tmp'' = last target"
    then have "length (''.'' @ last target @ ''.'' @ u @ ''.tmp'') = length (last target)" by (rule arg_cong)
    then show False by simp
  qed
  ultimately show ?thesis by (metis temporary_def append1_eq_conv)
qed (simp add: temporary_def)

lemmas apart = receipt_elsewhere temporary_fresh owner_not_receipt

text \<open>What \<open>json.dumps\<close> wrote is read back, and no proper beginning of it is a document.\<close>

definition reads_back :: "adapter_env \<Rightarrow> pyval \<Rightarrow> bool" where
  "reads_back E v \<longleftrightarrow> ae_load E (ae_dump E v) = Some v \<and> (\<forall>n < length (ae_dump E v). ae_load E (take n (ae_dump E v)) = None)"

lemma reads_back_take:
  "reads_back E v \<Longrightarrow> ae_load E (take n (ae_dump E v)) = (if n < length (ae_dump E v) then None else Some v)"
  by (simp add: reads_back_def)

text \<open>What an interrupted write leaves at its destination and of its receipt.\<close>

abbreviation prepared :: "adapter_env \<Rightarrow> string \<Rightarrow> file_path \<Rightarrow> string \<Rightarrow> pyval" where
  "prepared E key target content \<equiv> write_receipt key (rel_path E target) (ae_digest E content) ''prepared''"

abbreviation applied :: "adapter_env \<Rightarrow> string \<Rightarrow> file_path \<Rightarrow> string \<Rightarrow> pyval" where
  "applied E key target content \<equiv> write_receipt key (rel_path E target) (ae_digest E content) ''applied''"

lemma receipt_is_dict: "\<exists>d. write_receipt k p g s = PDict d" "write_receipt k p g s \<noteq> PNone"
  by (simp_all add: write_receipt_def)

lemma five_cases:
  obtains "n = 0" | "n = Suc 0" | "n = Suc (Suc 0)" | "n = Suc (Suc (Suc 0))" | "n = Suc (Suc (Suc (Suc 0)))" | "n \<ge> 5"
  by linarith

lemma interrupted_state:
  assumes "fs target = None" "fs (receipt_path E key) = None" "receipts_dir \<notin> set target"
    "reads_back E (prepared E key target content)" "reads_back E (applied E key target content)"
    "fs' = interrupted_write n part (write_steps E uuid key target content) fs"
  shows "(fs' target = None \<and> read_receipt E key fs' \<in> {Some None, None, Some (Some (prepared E key target content))})
    \<or> (fs' target = Some content \<and> read_receipt E key fs' \<in> {None, Some (Some (prepared E key target content)), Some (Some (applied E key target content))})"
proof -
  have a: "target \<noteq> receipt_path E key" "target \<noteq> owner_path E r" "temporary u target \<noteq> receipt_path E key"
    "temporary u target \<noteq> owner_path E r" "temporary u target \<noteq> target" "owner_path E r \<noteq> receipt_path E key" for u r
    using apart assms(3) by auto
  note a = a a [symmetric]
  have some: "ae_load E (ae_dump E (prepared E key target content)) = Some (prepared E key target content)"
    "ae_load E (ae_dump E (applied E key target content)) = Some (applied E key target content)"
    using assms(4,5) by (simp_all add: reads_back_def)
  show ?thesis
    by (cases n rule: five_cases; cases part)
      (use assms a some in \<open>auto simp: interrupted_write_def write_steps_def Let_def read_receipt_def reads_back_take
        receipt_is_dict(2) split: pyval.splits\<close>)
qed

section \<open>What a write guarantees\<close>

text \<open>Why a write may go ahead over what is at its destination.\<close>

definition may_replace :: "adapter_env \<Rightarrow> string \<Rightarrow> file_path \<Rightarrow> files \<Rightarrow> bool" where
  "may_replace E key target fs \<longleftrightarrow> fs target = None \<or> read_receipt E key fs = None
     \<or> read_receipt E key fs = Some None \<and> owned E (rel_path E target) (map_option (ae_digest E) (fs target)) fs = Inr True"

lemma settle_applied: "settle_by_receipt E receipt target content fs = Inr (Rec_Applied, out)
    \<Longrightarrow> map_option (ae_digest E) (fs target) = Some (ae_digest E content) \<and> out = Some (write_result E target content)"
  by (auto simp: settle_by_receipt_def Let_def bind_res_Inr split: option.splits if_splits)

lemma settle_not_unknown: "settle_by_receipt E receipt target content fs = Inr (state, out) \<Longrightarrow> state \<noteq> Rec_Unknown"
  by (auto simp: settle_by_receipt_def Let_def bind_res_Inr split: option.splits if_splits)

lemma settle_free: "settle_by_receipt E receipt target content fs = Inr (Rec_Not_Applied, out) \<Longrightarrow> read_receipt E key fs = Some receipt
    \<Longrightarrow> may_replace E key target fs"
  by (auto simp: settle_by_receipt_def may_replace_def Let_def bind_res_Inr split: option.splits if_splits)

lemma completed_files:
  assumes "receipts_dir \<notin> set target"
  shows "completed_write (write_steps E uuid key target content) fs target = Some content"
    "p \<notin> {target, receipt_path E key, owner_path E (rel_path E target), temporary uuid target}
      \<Longrightarrow> completed_write (write_steps E uuid key target content) fs p = fs p"
  using apart(1) [OF assms] apart(2) [of uuid target] apart(2) [of uuid target, symmetric] by (auto simp: completed_write_def write_steps_def Let_def)

text \<open>
  C17. A write does what it reports and spares what is not its own: when it reports success it was
  permitted and outside the receipts, the file at the destination has the digest of the canonical
  content, and beside the destination only the receipt, the ownership record and a temporary file
  change; it replaces a file only if that is its own unchanged earlier artifact or its own receipt
  cannot be read; when it reports failure it changes nothing.
\<close>

theorem json_write_exact:
  assumes "json_write E uuid key args fs = (Inr res, steps)"
  shows "if ar_ok res then (\<exists>raw target v. text_arg args ''path'' = Inr raw \<and> value_arg args ''value'' = Inr v
        \<and> allowed_target E raw ''write'' = Some target \<and> ae_allow_write E \<and> receipts_dir \<notin> set target
        \<and> ar_result res = Some (write_result E target (content_of E v))
        \<and> map_option (ae_digest E) (completed_write steps fs target) = Some (ae_digest E (content_of E v))
        \<and> (completed_write steps fs target \<noteq> fs target \<longrightarrow> may_replace E key target fs)
        \<and> (\<forall>p. p \<notin> {target, receipt_path E key, owner_path E (rel_path E target), temporary uuid target}
             \<longrightarrow> completed_write steps fs p = fs p))
      else steps = []"
proof (cases "ar_ok res")
  case False
  with assms show ?thesis
    by (auto simp: json_write_def result_ok_def bind_res_Inr split: if_splits sum.splits option.splits prod.splits)
next
  case True
  with assms obtain raw target v state prior where g: "ae_allow_write E" "text_arg args ''path'' = Inr raw"
    "allowed_target E raw ''write'' = Some target" "receipts_dir \<notin> set target" "value_arg args ''value'' = Inr v"
    "json_write_reconcile E key args fs = Inr (state, prior)"
    and out: "if state = Rec_Applied \<and> prior \<noteq> None then res = result_ok (the prior) (Some [(''reconciled'', PBool True)]) \<and> steps = []
      else ar_result res = Some (write_result E target (content_of E v)) \<and> state \<noteq> Rec_Conflict \<and> steps = write_steps E uuid key target (content_of E v)"
    by (auto simp: json_write_def result_failed_def result_ok_def bind_res_Inr split: if_splits sum.splits option.splits prod.splits)
  from g(3) have r: "ae_resolve E raw = Some target" by (auto simp: allowed_target_def split: option.splits if_splits)
  let ?goal = "ar_result res = Some (write_result E target (content_of E v))
        \<and> map_option (ae_digest E) (completed_write steps fs target) = Some (ae_digest E (content_of E v))
        \<and> (completed_write steps fs target \<noteq> fs target \<longrightarrow> may_replace E key target fs)
        \<and> (\<forall>p. p \<notin> {target, receipt_path E key, owner_path E (rel_path E target), temporary uuid target}
             \<longrightarrow> completed_write steps fs p = fs p)"
  have settled: "(read_receipt E key fs = None \<and> state = Rec_Unknown \<and> prior = None)
      \<or> (\<exists>receipt. read_receipt E key fs = Some receipt \<and> settle_by_receipt E receipt target (content_of E v) fs = Inr (state, prior))"
    using g(2,5,6) r by (auto simp: json_write_reconcile_def split: option.splits)
  have ?goal
  proof (cases "state = Rec_Applied")
    case True
    with settled settle_applied have "map_option (ae_digest E) (fs target) = Some (ae_digest E (content_of E v))"
      "prior = Some (write_result E target (content_of E v))" by auto
    with True out show ?thesis by (simp add: result_ok_def completed_write_def)
  next
    case False
    with out have o: "ar_result res = Some (write_result E target (content_of E v))" "state \<noteq> Rec_Conflict"
      "steps = write_steps E uuid key target (content_of E v)" by auto
    from settled have "may_replace E key target fs"
    proof (elim disjE exE conjE)
      fix receipt assume "read_receipt E key fs = Some receipt" "settle_by_receipt E receipt target (content_of E v) fs = Inr (state, prior)"
      with False o(2) settle_not_unknown [OF this(2)] settle_free show ?thesis by (cases state) blast+
    qed (simp add: may_replace_def)
    with o completed_files [OF g(4)] show ?thesis by simp
  qed
  with True g show ?thesis by auto
qed


text \<open>
  C18. A crash can lose the ownership of an artifact: stopped after the file was put in place and before
  the ownership record was written, the write reconciles as applied and is never resumed, and every
  later operation on that path is refused with a conflict although the file is the runtime's own.
\<close>

theorem crash_loses_ownership:
  assumes "text_arg args ''path'' = Inr raw" "allowed_target E raw ''write'' = Some target" "value_arg args ''value'' = Inr v"
    "receipts_dir \<notin> set target" "ae_allow_write E" "fs target = None" "fs (receipt_path E key) = None"
    "reads_back E (prepared E key target (content_of E v))" "reads_back E (applied E key target (content_of E v))"
    "n \<in> {3, 4}" "fs' = interrupted_write n None (write_steps E uuid key target (content_of E v)) fs"
    "fs (owner_path E (rel_path E target)) = None"
    "text_arg args' ''path'' = Inr raw" "value_arg args' ''value'' = Inr v'" "receipt_path E key' \<noteq> receipt_path E key" "fs (receipt_path E key') = None"
  shows "json_write E uuid' key args fs' = (Inr (result_ok (write_result E target (content_of E v)) (Some [(''reconciled'', PBool True)])), [])
    \<and> json_write E uuid'' key' args' fs' = (Inr (result_failed ''DESTINATION_CONFLICT'' False), [])"
proof -
  have a: "target \<noteq> receipt_path E k" "target \<noteq> owner_path E r" "temporary u target \<noteq> receipt_path E k"
    "temporary u target \<noteq> owner_path E r" "temporary u target \<noteq> target" "owner_path E r \<noteq> receipt_path E k" for u r k
    using apart assms(4) by auto
  note a = a a [symmetric]
  have r: "ae_resolve E raw = Some target" using assms(2) by (auto simp: allowed_target_def split: option.splits if_splits)
  have "ae_load E (ae_dump E (prepared E key target (content_of E v))) = Some (prepared E key target (content_of E v))"
    "ae_load E (ae_dump E (applied E key target (content_of E v))) = Some (applied E key target (content_of E v))"
    using assms(8,9) by (simp_all add: reads_back_def)
  then have s: "fs' target = Some (content_of E v)" "fs' (owner_path E (rel_path E target)) = None" "fs' (receipt_path E key') = None"
    "read_receipt E key fs' \<in> {Some (Some (prepared E key target (content_of E v))), Some (Some (applied E key target (content_of E v)))}"
    using assms(6,7,10-12,15,16) a
    by (auto simp: interrupted_write_def write_steps_def Let_def read_receipt_def receipt_is_dict(2) eval_nat_numeral split: pyval.splits)
  have "json_write_reconcile E key args fs' = Inr (Rec_Applied, Some (write_result E target (content_of E v)))"
    using s assms(1,3) r by (auto simp: json_write_reconcile_def settle_by_receipt_def Let_def write_receipt_def)
  moreover have "json_write_reconcile E key' args' fs' = Inr (Rec_Conflict, None)"
    using s(1-3) assms(13,14) r by (auto simp: json_write_reconcile_def settle_by_receipt_def Let_def read_receipt_def owned_def)
  ultimately show ?thesis using assms(1-5,13,14) by (simp add: json_write_def)
qed

section \<open>A write at work\<close>

definition sample_files_env :: adapter_env where
  "sample_files_env = \<lparr>ae_root = [''r''], ae_resolve = (\<lambda>raw. Some [''r'', raw]), ae_permit = (\<lambda>_ _. True), ae_allow_write = True,
     ae_canonical = (\<lambda>_. ''c''), ae_digest = (\<lambda>s. s),
     ae_dump = (\<lambda>v. if v = write_receipt ''k'' ''f'' [CHR ''c'', CHR 0x0A] ''prepared'' then ''p'' else ''a''),
     ae_load = (\<lambda>s. if s = ''p'' then Some (write_receipt ''k'' ''f'' [CHR ''c'', CHR 0x0A] ''prepared'')
       else if s = ''a'' then Some (write_receipt ''k'' ''f'' [CHR ''c'', CHR 0x0A] ''applied'') else None), ae_str = (\<lambda>_. [])\<rparr>"

definition sample_write_args :: obj where
  "sample_write_args = [(''path'', PStr ''f''), (''value'', PDict [])]"

lemma sample_write:
  "text_arg sample_write_args ''path'' = Inr ''f''" "value_arg sample_write_args ''value'' = Inr (PDict [])"
  "ae_resolve sample_files_env ''f'' = Some [''r'', ''f'']" "allowed_target sample_files_env ''f'' ''write'' = Some [''r'', ''f'']"
  "receipts_dir \<notin> set [''r'', ''f'']" "ae_allow_write sample_files_env" "content_of sample_files_env (PDict []) = [CHR ''c'', CHR 0x0A]"
  "reads_back sample_files_env (prepared sample_files_env ''k'' [''r'', ''f''] (content_of sample_files_env (PDict [])))"
  "reads_back sample_files_env (applied sample_files_env ''k'' [''r'', ''f''] (content_of sample_files_env (PDict [])))"
  by (simp_all add: text_arg_def value_arg_def sample_write_args_def dict_get_def sample_files_env_def allowed_target_def receipts_dir_def
      content_of_def reads_back_def rel_path_def write_receipt_def)

abbreviation no_files :: files where "no_files \<equiv> (\<lambda>_. None)"

lemma sample_write_runs: "json_write sample_files_env ''u'' ''k'' sample_write_args no_files
    = (Inr (result_ok (write_result sample_files_env [''r'', ''f''] [CHR ''c'', CHR 0x0A])
        (Some [(''path'', PStr (''/'' @ py_join ''/'' (receipt_path sample_files_env ''k''))), (''digest'', PStr [CHR ''c'', CHR 0x0A])])),
      write_steps sample_files_env ''u'' ''k'' [''r'', ''f''] [CHR ''c'', CHR 0x0A])"
  using sample_write by (simp add: json_write_def json_write_reconcile_def read_receipt_def settle_by_receipt_def Let_def)
    (simp add: sample_files_env_def)

lemma json_write_exact_witness:
  "completed_write (snd (json_write sample_files_env ''u'' ''k'' sample_write_args no_files)) no_files [''r'', ''f''] = Some [CHR ''c'', CHR 0x0A]"
  using json_write_exact [OF sample_write_runs] sample_write
  by (auto simp: result_ok_def sample_write_runs) (auto simp: sample_files_env_def)


lemma crash_loses_ownership_witness:
  "snd (json_write sample_files_env ''w'' ''l'' sample_write_args
     (interrupted_write 3 None (write_steps sample_files_env ''u'' ''k'' [''r'', ''f''] (content_of sample_files_env (PDict []))) no_files)) = []"
proof -
  have "receipt_path sample_files_env ''l'' \<noteq> receipt_path sample_files_env ''k''"
    by (simp add: receipt_path_def sample_files_env_def)
  from crash_loses_ownership [OF sample_write(1,4,2,5,6) _ _ sample_write(8,9) _ refl _ sample_write(1,2) this, of no_files 3 "''u''"]
  show ?thesis by simp
qed

section \<open>The contracts are contracts\<close>

lemma core_schemas_accepted:
  "list_all (\<lambda>c. schema_problems (PDict (ac_argument_schema c)) ''args'' = Inr [] \<and> schema_problems (PDict (ac_result_schema c)) ''result'' = Inr [])
     core_contracts"
  "list_all (\<lambda>c. schema_problems (PDict (cc_argument_schema c)) ''args'' = Inr []) core_check_contracts"
  "list_all (\<lambda>c. schema_problems (PDict (oc_schema c)) ''output'' = Inr []) core_outputs"
  by code_simp+

lemma core_effects_local: "list_all (\<lambda>c. ac_side_effect c \<noteq> External \<and> \<not> ac_uses_model c) core_contracts"
  by code_simp

end
