(* ===== verification/Learning.thy ===== *)
theory Learning
  imports Mind_State
begin

text \<open>
  The learner of \<open>procedural_learning.py\<close>: finished executions are recorded as traces, repeated
  success without failure promotes a plan to a procedure, a procedure the world stopped matching is
  degraded, and a goal is matched to the best promoted procedure that fits it.  The digest of a trace
  is an argument; \<open>now\<close> stands for the moments of one call.
\<close>

section \<open>The policy\<close>

definition learned_prefix :: string where "learned_prefix = ''learned:''"

definition keep_traces :: nat where "keep_traces = 200"

definition goal_signature :: "goal \<Rightarrow> string" where
  "goal_signature g = py_join '' '' (py_split (py_lower (g_description g)))"

text \<open>\<open>ProcedureLearner.__init__\<close>.\<close>

definition new_learner :: "int \<Rightarrow> nat result" where
  "new_learner minimum_successes = (if minimum_successes < 2 then Inl (ValueError ''minimum_successes must be at least two'')
     else Inr (nat minimum_successes))"

text \<open>\<open>_procedure\<close>.\<close>

definition procedure_from :: "time \<Rightarrow> execution_trace \<Rightarrow> string \<Rightarrow> nat \<Rightarrow> nat \<Rightarrow> rat \<Rightarrow> learned_procedure" where
  "procedure_from now exemplar pattern successes failures duration =
     \<lparr>lp_name = learned_prefix @ tr_goal_type exemplar @ '':'' @ pattern, lp_trigger = tr_context_signature exemplar,
      lp_steps = tr_steps exemplar, lp_successes = successes, lp_failures = failures, lp_source_goal_id = [],
      lp_pattern = pattern, lp_goal_kind = tr_goal_type exemplar,
      lp_parameter_schema = map (\<lambda>(k, v). (k, type_name v)) (tr_goal_parameters exemplar),
      lp_required_capabilities = sorted_list_of_set (set (tr_capabilities exemplar) \<union> set (tr_tools exemplar)),
      lp_context_predicates = tr_context_predicates exemplar, lp_success_conditions = tr_success_conditions exemplar,
      lp_status = Validated, lp_approved = False,
      lp_confidence = of_nat successes / of_nat (max 1 (successes + failures)), lp_uses = 0, lp_model_calls_saved = 0,
      lp_total_duration_seconds = duration,
      lp_validator_passes = (if tr_validator_passed exemplar = Some True then 1 else 0),
      lp_validator_failures = (if tr_validator_passed exemplar = Some False then 1 else 0),
      lp_last_used_at = None, lp_updated_at = now\<rparr>"

definition traces_of :: "(string \<Rightarrow> string) \<Rightarrow> mind \<Rightarrow> string \<Rightarrow> execution_trace list" where
  "traces_of sha m pattern = filter (\<lambda>t. trace_pattern sha t = pattern) (m_execution_traces m)"

definition candidate_procedure :: "(string \<Rightarrow> string) \<Rightarrow> time \<Rightarrow> nat \<Rightarrow> mind \<Rightarrow> string \<Rightarrow> learned_procedure option" where
  "candidate_procedure sha now minimum m pattern =
     (let matches = traces_of sha m pattern;
          successes = filter tr_succeeded matches;
          failures = filter (\<lambda>t. \<not> tr_succeeded t) matches
      in if length successes < minimum \<or> failures \<noteq> [] then None
         else Some (procedure_from now (last successes) pattern (length successes) 0
                (sum_list (map tr_duration_seconds successes))))"

definition promote :: "(string \<Rightarrow> string) \<Rightarrow> time \<Rightarrow> nat \<Rightarrow> string \<Rightarrow> bool \<Rightarrow> mind \<Rightarrow> learned_procedure option \<times> mind" where
  "promote sha now minimum pattern human_approved m =
     (let matches = traces_of sha m pattern;
          made = (if human_approved \<and> matches \<noteq> [] \<and> tr_succeeded (last matches)
            then Some ((procedure_from now (last matches) pattern (length (filter tr_succeeded matches))
                   (length (filter (\<lambda>t. \<not> tr_succeeded t) matches)) (sum_list (map tr_duration_seconds matches)))
                 \<lparr>lp_approved := True\<rparr>)
            else candidate_procedure sha now minimum m pattern)
      in case made of None \<Rightarrow> (None, m)
         | Some p \<Rightarrow> (let p = p\<lparr>lp_status := Promoted\<rparr> in (Some p, remember_procedure p m)))"

text \<open>What \<open>observe\<close> does to a procedure it already has.\<close>

definition count_outcome :: "time \<Rightarrow> execution_trace \<Rightarrow> learned_procedure \<Rightarrow> learned_procedure" where
  "count_outcome now t p =
     (let p = (if tr_succeeded t then p\<lparr>lp_successes := lp_successes p + 1\<rparr> else p\<lparr>lp_failures := lp_failures p + 1\<rparr>);
          p = p\<lparr>lp_total_duration_seconds := lp_total_duration_seconds p + tr_duration_seconds t\<rparr>;
          p = (case tr_validator_passed t of None \<Rightarrow> p
            | Some b \<Rightarrow> if b then p\<lparr>lp_validator_passes := lp_validator_passes p + 1\<rparr>
                        else p\<lparr>lp_validator_failures := lp_validator_failures p + 1\<rparr>);
          p = p\<lparr>lp_confidence := of_nat (lp_successes p) / of_nat (max 1 (lp_successes p + lp_failures p)), lp_updated_at := now\<rparr>
      in if tr_validator_passed t = Some False \<or> \<not> tr_succeeded t \<and> lp_failures p * 2 \<ge> lp_successes p
         then p\<lparr>lp_status := Degraded\<rparr> else p)"

definition observe_trace :: "(string \<Rightarrow> string) \<Rightarrow> time \<Rightarrow> nat \<Rightarrow> execution_trace \<Rightarrow> mind \<Rightarrow> learned_procedure option \<times> mind" where
  "observe_trace sha now minimum t m =
     (let m = record_trace keep_traces t m in
      case find (\<lambda>(_, p). lp_pattern p = trace_pattern sha t) (m_procedures m) of
        Some (k, p) \<Rightarrow> (None, m\<lparr>m_procedures := dict_set k (count_outcome now t p) (m_procedures m)\<rparr>)
      | None \<Rightarrow> if \<not> tr_succeeded t then (None, m) else promote sha now minimum (trace_pattern sha t) False m)"

section \<open>Matching\<close>

definition parameters_match :: "learned_procedure \<Rightarrow> goal \<Rightarrow> bool" where
  "parameters_match p g \<longleftrightarrow> list_all (\<lambda>(k, expected). case dict_get (g_parameters g) k of
     None \<Rightarrow> False | Some v \<Rightarrow> type_name v = expected) (lp_parameter_schema p)"

definition fits :: "(string, pyval) dict \<Rightarrow> goal \<Rightarrow> learned_procedure \<Rightarrow> bool" where
  "fits context g p \<longleftrightarrow> lp_trigger p = goal_signature g \<and> lp_steps p \<noteq> [] \<and> (lp_goal_kind p = [] \<or> lp_goal_kind p = g_kind g)
     \<and> lp_status p = Promoted \<and> parameters_match p g
     \<and> list_all (\<lambda>(k, v). py_eq (dict_get_or context k PNone) v) (lp_context_predicates p)"

definition capable :: "string list \<Rightarrow> learned_procedure \<Rightarrow> bool" where
  "capable capabilities p \<longleftrightarrow> set (lp_required_capabilities p) \<subseteq> set capabilities"

text \<open>\<open>max(xs, key=...)\<close>: the first of the greatest.\<close>

fun py_max :: "('a \<Rightarrow> 'k :: linorder) \<Rightarrow> 'a list \<Rightarrow> 'a option" where
  "py_max key [] = None"
| "py_max key (x # xs) = (case py_max key xs of None \<Rightarrow> Some x | Some y \<Rightarrow> if key x < key y then Some y else Some x)"

definition record_of :: "learned_procedure \<Rightarrow> int \<times> time" where
  "record_of p = (int (lp_successes p) - int (lp_failures p), lp_updated_at p)"

definition degrade_unable :: "time \<Rightarrow> string list \<Rightarrow> (string, pyval) dict \<Rightarrow> goal \<Rightarrow> learned_procedure \<Rightarrow> learned_procedure" where
  "degrade_unable now capabilities context g p =
     (if fits context g p \<and> \<not> capable capabilities p then p\<lparr>lp_status := Degraded, lp_updated_at := now\<rparr> else p)"

definition count_use :: "time \<Rightarrow> learned_procedure \<Rightarrow> learned_procedure" where
  "count_use now p = p\<lparr>lp_uses := lp_uses p + 1, lp_model_calls_saved := lp_model_calls_saved p + 1,
     lp_last_used_at := Some now, lp_updated_at := now\<rparr>"

definition match_procedure :: "time \<Rightarrow> string list \<Rightarrow> (string, pyval) dict \<Rightarrow> goal \<Rightarrow> mind \<Rightarrow> learned_procedure option \<times> mind" where
  "match_procedure now capabilities context g m =
     (let ps = map (\<lambda>(k, p). (k, degrade_unable now capabilities context g p)) (m_procedures m)
      in case py_max (record_of \<circ> snd) (filter (\<lambda>(_, p). fits context g p \<and> capable capabilities p) (m_procedures m)) of
           None \<Rightarrow> (None, m\<lparr>m_procedures := ps\<rparr>)
         | Some (k, p) \<Rightarrow> (Some (count_use now p), m\<lparr>m_procedures := dict_set k (count_use now p) ps\<rparr>))"

section \<open>What matching guarantees\<close>

lemma py_max_None [simp]: "py_max key xs = None \<longleftrightarrow> xs = []"
  by (cases xs) (auto split: option.splits)

lemma py_max_Some: "py_max key xs = Some x \<Longrightarrow> x \<in> set xs \<and> (\<forall>y \<in> set xs. key y \<le> key x)"
  by (induction xs arbitrary: x) (fastforce split: option.splits if_splits)+

lemma dict_ok_map: "dict_ok (map (\<lambda>(k, v). (k, f v)) d) = dict_ok d"
  by (simp add: dict_ok_def comp_def case_prod_unfold)

text \<open>
  A goal gets the best procedure there is for it: \<open>match\<close> answers nothing exactly when no promoted
  procedure fits the goal and the capabilities; otherwise one that fits and that no other fitting one
  surpasses in successes less failures, then in age, with its use counted in the mind.
\<close>

theorem match_best:
  assumes "dict_ok (m_procedures m)" "match_procedure now capabilities context g m = (r, m')"
  shows "(r = None \<longleftrightarrow> (\<forall>p \<in> snd ` set (m_procedures m). fits context g p \<longrightarrow> \<not> capable capabilities p))
    \<and> (\<forall>q. r = Some q \<longrightarrow> (\<exists>k p. dict_get (m_procedures m) k = Some p \<and> fits context g p \<and> capable capabilities p
         \<and> q = count_use now p \<and> dict_get (m_procedures m') k = Some q
         \<and> (\<forall>p' \<in> snd ` set (m_procedures m). fits context g p' \<longrightarrow> capable capabilities p' \<longrightarrow> record_of p' \<le> record_of p)))"
proof -
  let ?xs = "filter (\<lambda>(_, p). fits context g p \<and> capable capabilities p) (m_procedures m)"
  show ?thesis
  proof (cases "py_max (record_of \<circ> snd) ?xs")
    case None
    then have "?xs = []" by simp
    with assms(2) show ?thesis by (auto simp: match_procedure_def filter_empty_conv)
  next
    case (Some e)
    obtain k p where e: "e = (k, p)" by (cases e)
    from py_max_Some [OF Some] have p: "(k, p) \<in> set (m_procedures m)" "fits context g p" "capable capabilities p"
      "\<forall>p' \<in> snd ` set (m_procedures m). fits context g p' \<longrightarrow> capable capabilities p' \<longrightarrow> record_of p' \<le> record_of p"
      by (auto simp: e)
    from assms(2) Some have run: "r = Some (count_use now p)" "dict_get (m_procedures m') k = Some (count_use now p)"
      by (auto simp: match_procedure_def e Let_def dict_simps)
    have "dict_get (m_procedures m) k = Some p" using p(1) assms(1) by (simp add: dict_get_in_iff)
    with run p show ?thesis by force
  qed
qed

section \<open>What is learned was earned\<close>

text \<open>A run of the learner on one mind without a human's approval.\<close>

inductive learn_step :: "(string \<Rightarrow> string) \<Rightarrow> nat \<Rightarrow> mind \<Rightarrow> mind \<Rightarrow> bool" for sha minimum where
  Observe: "learn_step sha minimum m (snd (observe_trace sha now minimum t m))"
| Match: "learn_step sha minimum m (snd (match_procedure now capabilities context g m))"
| Promote: "learn_step sha minimum m (snd (promote sha now minimum pattern False m))"

definition earned :: "nat \<Rightarrow> learned_procedure \<Rightarrow> bool" where
  "earned minimum p \<longleftrightarrow> lp_successes p \<ge> minimum \<and> lp_status p \<in> {Promoted, Degraded} \<and> \<not> lp_approved p
     \<and> (lp_status p = Promoted \<longrightarrow> 2 * lp_failures p < lp_successes p)"

definition all_earned :: "nat \<Rightarrow> (string, learned_procedure) dict \<Rightarrow> bool" where
  "all_earned n d \<longleftrightarrow> (\<forall>e \<in> set d. earned n (snd e))"

lemma all_earned_set: "all_earned n d \<Longrightarrow> earned n p \<Longrightarrow> all_earned n (dict_set k p d)"
  unfolding all_earned_def by (auto dest!: dict_set_entries)

lemma earned_use [simp]: "earned n (count_use now p) = earned n p"
  by (simp add: earned_def count_use_def)

lemma earned_degrade: "earned n p \<Longrightarrow> earned n (degrade_unable now cs c g p)"
  by (auto simp: earned_def degrade_unable_def)

lemma earned_count: "earned n p \<Longrightarrow> 0 < n \<Longrightarrow> earned n (count_outcome now t p)"
  by (auto simp: earned_def count_outcome_def Let_def split: option.splits)

lemma earned_promote: "all_earned n (m_procedures m) \<Longrightarrow> 0 < n \<Longrightarrow> all_earned n (m_procedures (snd (promote sha now n pattern False m)))"
  by (auto simp: promote_def candidate_procedure_def Let_def remember_procedure_def procedure_from_def earned_def
      intro!: all_earned_set)

lemma earned_observe:
  assumes "all_earned n (m_procedures m)" "0 < n"
  shows "all_earned n (m_procedures (snd (observe_trace sha now n t m)))"
proof -
  let ?m = "record_trace keep_traces t m"
  have kept: "m_procedures ?m = m_procedures m" by (simp add: record_trace_def)
  show ?thesis
  proof (cases "find (\<lambda>(_, p). lp_pattern p = trace_pattern sha t) (m_procedures m)")
    case None
    with assms earned_promote [of n ?m] kept show ?thesis by (simp add: observe_trace_def Let_def)
  next
    case (Some e)
    then have "e \<in> set (m_procedures m)" using find_Some_in by fast
    with assms have "earned n (count_outcome now t (snd e))" by (auto simp: all_earned_def intro: earned_count)
    with Some assms kept show ?thesis by (cases e) (simp add: observe_trace_def Let_def all_earned_set)
  qed
qed

lemma earned_match:
  assumes "all_earned n (m_procedures m)"
  shows "all_earned n (m_procedures (snd (match_procedure now cs c g m)))"
proof -
  let ?ps = "map (\<lambda>(k, p). (k, degrade_unable now cs c g p)) (m_procedures m)"
  have ps: "all_earned n ?ps" using assms by (auto simp: all_earned_def intro!: earned_degrade)
  show ?thesis
  proof (cases "py_max (record_of \<circ> snd) (filter (\<lambda>(_, p). fits c g p \<and> capable cs p) (m_procedures m))")
    case None
    with ps show ?thesis by (simp add: match_procedure_def Let_def)
  next
    case (Some e)
    with py_max_Some [OF Some] have "e \<in> set (m_procedures m)" by simp
    with assms have "earned n (snd e)" by (simp add: all_earned_def)
    with Some ps show ?thesis by (cases e) (simp add: match_procedure_def Let_def all_earned_set)
  qed
qed

lemma earned_step: "learn_step sha n m m' \<Longrightarrow> 0 < n \<Longrightarrow> all_earned n (m_procedures m) \<Longrightarrow> all_earned n (m_procedures m')"
  by (cases rule: learn_step.cases) (auto intro: earned_observe earned_match earned_promote)

text \<open>
  C24. Nothing is learned that was not earned: in every run of a learner without a human's approval,
  from a mind with nothing learned, each procedure has at least the minimum of successes, is promoted
  or degraded, and is no longer promoted once its failures are half of its successes.
\<close>

theorem learned_earned:
  assumes "new_learner minimum = Inr n" "(learn_step sha n)\<^sup>*\<^sup>* m m'" "m_procedures m = []" "(k, p) \<in> set (m_procedures m')"
  shows "int (lp_successes p) \<ge> minimum \<and> lp_status p \<in> {Promoted, Degraded} \<and> \<not> lp_approved p
    \<and> (lp_status p = Promoted \<longrightarrow> 2 * lp_failures p < lp_successes p)"
proof -
  have n: "0 < n" "int n = minimum" using assms(1) by (auto simp: new_learner_def split: if_splits)
  from assms(2,3) n(1) have "all_earned n (m_procedures m')"
    by (induction rule: rtranclp_induct) (simp add: all_earned_def, blast intro: earned_step)
  with assms(4) have "earned n p" by (force simp: all_earned_def)
  with n show ?thesis by (simp add: earned_def)
qed

text \<open>A procedure once degraded is never promoted again: the runs above can only count for it.\<close>

lemma count_outcome_degraded: "lp_status p = Degraded \<Longrightarrow> lp_status (count_outcome now t p) = Degraded"
  by (auto simp: count_outcome_def Let_def split: option.splits)

definition sample_trace :: execution_trace where
  "sample_trace = \<lparr>tr_goal_type = ''goal'', tr_context_signature = ''tidy up'', tr_plan_name = ''p'', tr_steps = [''look''], tr_tools = [],
     tr_agents = [], tr_goal_parameters = [], tr_capabilities = [], tr_context_predicates = [], tr_success_conditions = [],
     tr_succeeded = True, tr_model_calls = 0, tr_duration_seconds = 1, tr_validator_passed = None, tr_created_at = 0\<rparr>"

definition blank_mind :: mind where
  "blank_mind = \<lparr>m_beliefs = [], m_goals = [], m_intentions = [], m_plan_statistics = [], m_episodes = [], m_procedures = [],
     m_execution_traces = []\<rparr>"

definition taught_mind :: mind where
  "taught_mind = snd (observe_trace (\<lambda>s. s) 3 2 sample_trace (snd (observe_trace (\<lambda>s. s) 2 2 sample_trace blank_mind)))"

lemma taught: "m_procedures taught_mind = [(''learned:goal:goal|tidy up|loo'', (procedure_from 3 sample_trace ''goal|tidy up|loo'' 2 0 2)\<lparr>lp_status := Promoted\<rparr>)]"
  by code_simp

lemma taught_run: "(learn_step (\<lambda>s. s) 2)\<^sup>*\<^sup>* blank_mind taught_mind"
  unfolding taught_mind_def by (meson Observe rtranclp.rtrancl_refl rtranclp.rtrancl_into_rtrancl)

lemma learned_earned_witness: "(\<exists>k p. (k, p) \<in> set (m_procedures taught_mind) \<and> lp_status p = Promoted \<and> 2 * lp_failures p < lp_successes p)"
proof -
  let ?p = "(procedure_from 3 sample_trace ''goal|tidy up|loo'' 2 0 2)\<lparr>lp_status := Promoted\<rparr>"
  have "new_learner 2 = Inr 2" by (simp add: new_learner_def)
  from learned_earned [OF this taught_run, of "''learned:goal:goal|tidy up|loo''" ?p]
  have "2 * lp_failures ?p < lp_successes ?p" by (simp add: taught blank_mind_def)
  moreover have "lp_status ?p = Promoted" by simp
  ultimately show ?thesis by (metis list.set_intros(1) taught)
qed

lemma match_best_witness:
  "\<exists>q m'. match_procedure 9 [] [] (new_goal ''g'' 0 ''Tidy  up'') taught_mind = (Some q, m') \<and> lp_uses q = 1"
proof -
  let ?g = "new_goal ''g'' 0 ''Tidy  up''" and ?p = "(procedure_from 3 sample_trace ''goal|tidy up|loo'' 2 0 2)\<lparr>lp_status := Promoted\<rparr>"
  have d: "dict_ok (m_procedures taught_mind)" by (simp add: taught dict_simps)
  have "goal_signature ?g = ''tidy up''" by code_simp
  then have f: "fits [] ?g ?p" "capable [] ?p"
    by (simp_all add: fits_def capable_def procedure_from_def sample_trace_def parameters_match_def new_goal_def)
  obtain r m' where run: "match_procedure 9 [] [] ?g taught_mind = (r, m')" by fastforce
  from match_best [OF d run] f have "r \<noteq> None" by (auto simp: taught)
  then obtain q where "r = Some q" by blast
  with match_best [OF d run] have "\<exists>p. q = count_use 9 p \<and> p = ?p" by (auto simp: taught dict_simps split: if_splits)
  with run \<open>r = Some q\<close> show ?thesis by (auto simp: count_use_def procedure_from_def)
qed

end
