(* ===== verification/Proc_Traces.thy ===== *)
theory Proc_Traces
  imports Exec_Service Core_Adapters Learning Goal_Manager
begin

text \<open>
  Learning typed procedures from what a model did (\<open>procedure_traces.py\<close>): contract-backed tools
  whose calls are journaled against the goal occurrence they serve, the traces of occurrences that
  completed on evidence, the extraction of a candidate procedure from them under an operator's
  binding map, and the validation of a candidate by sandboxed replays.  Canonical JSON, the digest, the text of
  a value that has no simple one, and pydantic's parser are the fields of a record of parameters; the
  prose of a refusal is left out, its code is kept.
\<close>

section \<open>Redaction\<close>

definition redacted_text :: string where "redacted_text = ''[redacted]''"
definition trace_value_bytes :: nat where "trace_value_bytes = 8192"
definition minimum_occurrences :: nat where "minimum_occurrences = 3"
definition learnable_effects :: "string set" where "learnable_effects = {''read'', ''local_write''}"

function (sequential) redacted :: "pyval \<Rightarrow> pyval \<times> bool" where
  "redacted (PDict d) =
     (PDict (map (\<lambda>(k, v). (k, if secret_name k then PStr redacted_text else fst (redacted v))) d),
      list_ex (\<lambda>(k, v). secret_name k \<or> snd (redacted v)) d)"
| "redacted (PList xs) = (PList (map (\<lambda>v. fst (redacted v)) xs), list_ex (\<lambda>v. snd (redacted v)) xs)"
| "redacted v = (v, False)"
  by pat_completeness auto
termination
  by (relation "measure size") (auto intro: size_snd_less size_in_list)

definition redacted_fields :: "obj \<Rightarrow> obj \<times> bool" where
  "redacted_fields d = (case redacted (PDict d) of (PDict clean, hid) \<Rightarrow> (clean, hid) | (_, hid) \<Rightarrow> ([], hid))"

section \<open>Traces\<close>

record trace_env =
  te_canonical :: "pyval \<Rightarrow> string"
  te_digest :: "string \<Rightarrow> string"
  te_repr :: "pyval \<Rightarrow> string"
  te_validate :: "pyval \<Rightarrow> pydantic_error list + procedure_definition"

record trace_step =
  tp_index :: nat
  tp_operation_key :: string
  tp_adapter :: string
  tp_contract_version :: int
  tp_side_effect :: string
  tp_arguments :: "obj option"
  tp_argument_digest :: string
  tp_ok :: bool
  tp_code :: string
  tp_result :: "obj option"
  tp_result_digest :: string
  tp_redacted :: bool

record operation_trace =
  ot_trace_id :: string
  ot_occurrence_id :: string
  ot_goal_id :: string
  ot_goal_kind :: string
  ot_agent_id :: string
  ot_parameters :: obj
  ot_steps :: "trace_step list"
  ot_model_calls :: int
  ot_completion_basis :: "string list"
  ot_eligible :: bool
  ot_ineligible :: "string list"
  ot_recorded_at :: time

fun side_effect_value :: "side_effect \<Rightarrow> string" where
  "side_effect_value Pure = ''pure''"
| "side_effect_value Read = ''read''"
| "side_effect_value Local_Write = ''local_write''"
| "side_effect_value External = ''external''"

definition trace_signature :: "operation_trace \<Rightarrow> (string \<times> int) list" where
  "trace_signature t = map (\<lambda>s. (tp_adapter s, tp_contract_version s)) (ot_steps t)"

definition bounded_fields :: "trace_env \<Rightarrow> obj \<Rightarrow> obj option" where
  "bounded_fields T d = (if utf8_length (te_canonical T (PDict d)) \<le> trace_value_bytes then Some d else None)"

definition step_reasons :: "trace_step \<Rightarrow> string list" where
  "step_reasons s = (let operation = ''operation '' @ show_nat (tp_index s) in
     (if tp_ok s then [] else [operation @ '' failed ('' @ tp_code s @ ''); a correction is not taught''])
     @ (if tp_arguments s = None \<or> tp_result s = None then [operation @ '' was too large to keep''] else [])
     @ (if tp_side_effect s \<in> learnable_effects then [] else [operation @ '' has effect '' @ tp_side_effect s])
     @ (if tp_redacted s then [operation @ '' carried secret-named fields''] else []))"

definition ineligibility :: "goal \<Rightarrow> trace_step list \<Rightarrow> string list \<Rightarrow> obj option \<Rightarrow> string list" where
  "ineligibility g steps basis parameters =
     (if g_kind g \<in> {''goal'', [], delegated_goal_kind} then [''no structured goal kind''] else [])
     @ (if g_parameters g = [] \<or> parameters = None then [''no bounded input contract''] else [])
     @ (if steps = [] then [''no contract-backed operation''] else [])
     @ (if basis = [] then [''no authoritative completion evidence''] else [])
     @ concat (map step_reasons steps)"

section \<open>The recorder\<close>

record pending_entry =
  pn_goal_id :: string
  pn_agent_id :: string
  pn_steps :: "trace_step list"

type_synonym recorder = "(string, pending_entry) dict"

definition next_index :: "string \<Rightarrow> recorder \<Rightarrow> nat" where
  "next_index occurrence r = (case dict_get r occurrence of None \<Rightarrow> 0 | Some e \<Rightarrow> length (pn_steps e))"

definition record_step :: "string \<Rightarrow> string \<Rightarrow> string \<Rightarrow> trace_step \<Rightarrow> recorder \<Rightarrow> recorder" where
  "record_step occurrence goal_id agent s r =
     (let e = dict_get_or r occurrence \<lparr>pn_goal_id = goal_id, pn_agent_id = agent, pn_steps = []\<rparr>
      in dict_set occurrence (e\<lparr>pn_steps := pn_steps e @ [s]\<rparr>) r)"

definition discard_pending :: "string \<Rightarrow> recorder \<Rightarrow> recorder" where
  "discard_pending goal_id r = fold dict_del (map fst (filter (\<lambda>(_, e). pn_goal_id e = goal_id) r)) r"

text \<open>\<open>now\<close> and \<open>tid\<close> are the moment and the fresh identifier of one trace.\<close>

definition settled_trace :: "trace_env \<Rightarrow> goal \<Rightarrow> string list \<Rightarrow> int \<Rightarrow> time \<Rightarrow> string \<Rightarrow> string \<Rightarrow> pending_entry \<Rightarrow> operation_trace" where
  "settled_trace T g basis model_calls now tid occurrence e =
     (case redacted_fields (g_parameters g) of (clean, hidden) \<Rightarrow>
      let parameters = bounded_fields T clean;
          reasons = ineligibility g (pn_steps e) basis parameters
            @ (if hidden then [''the goal's parameters carried secret-named fields''] else [])
      in \<lparr>ot_trace_id = tid, ot_occurrence_id = occurrence, ot_goal_id = g_id g, ot_goal_kind = g_kind g,
          ot_agent_id = pn_agent_id e, ot_parameters = (case parameters of None \<Rightarrow> [] | Some p \<Rightarrow> p), ot_steps = pn_steps e,
          ot_model_calls = model_calls, ot_completion_basis = basis, ot_eligible = (reasons = []), ot_ineligible = reasons,
          ot_recorded_at = now\<rparr>)"

text \<open>
  What \<open>finalize\<close> works on: the pending occurrences, the store, the moment and the identifier the next
  trace takes, and what other tasks do while an insert is awaited.
\<close>

record ('x, 'o) tracing =
  tg_pending :: recorder
  tg_store :: "('x, 'o) store"
  tg_clock :: "nat \<Rightarrow> time"
  tg_new_id :: "nat \<Rightarrow> string"
  tg_ticks :: nat
  tg_others :: "(recorder \<times> ('x, 'o) store \<Rightarrow> recorder \<times> ('x, 'o) store) list"

definition pop_pending :: "string \<Rightarrow> (('x, 'o) tracing, pending_entry) op" where
  "pop_pending occurrence = read_op (\<lambda>w. case dict_get (tg_pending w) occurrence of
       None \<Rightarrow> raise_op (KeyError occurrence)
     | Some e \<Rightarrow> seq_op (modify_op (\<lambda>w. w\<lparr>tg_pending := dict_del occurrence (tg_pending w)\<rparr>)) (ret_op e))"

definition tracing_suspend :: "(('x, 'o) tracing, unit) op" where
  "tracing_suspend = modify_op (\<lambda>w. case tg_others w of [] \<Rightarrow> w
     | f # fs \<Rightarrow> (case f (tg_pending w, tg_store w) of (r, st) \<Rightarrow> w\<lparr>tg_pending := r, tg_store := st, tg_others := fs\<rparr>))"

definition store_trace :: "(operation_trace \<Rightarrow> string) \<Rightarrow> operation_trace \<Rightarrow> (('x, 'o) tracing, unit) op" where
  "store_trace render t = seq_op tracing_suspend (modify_op (\<lambda>w. w\<lparr>tg_store :=
     snd (insert_procedure_trace (ot_trace_id t) (ot_goal_kind t) (ot_occurrence_id t) (render t) (tg_store w))\<rparr>))"

fun finalize_loop :: "trace_env \<Rightarrow> (operation_trace \<Rightarrow> string) \<Rightarrow> goal \<Rightarrow> string list \<Rightarrow> int \<Rightarrow> string list \<Rightarrow> operation_trace list
    \<Rightarrow> (('x, 'o) tracing, operation_trace list) op" where
  "finalize_loop T render g basis calls [] made = ret_op made"
| "finalize_loop T render g basis calls (k # ks) made = bind_op (pop_pending k) (\<lambda>e. read_op (\<lambda>w.
     let t = settled_trace T g basis calls (tg_clock w (tg_ticks w)) (tg_new_id w (tg_ticks w)) k e in
     seq_op (modify_op (\<lambda>w. w\<lparr>tg_ticks := tg_ticks w + 1\<rparr>))
    (seq_op (store_trace render t) (finalize_loop T render g basis calls ks (made @ [t])))))"

definition finalize :: "trace_env \<Rightarrow> (operation_trace \<Rightarrow> string) \<Rightarrow> goal \<Rightarrow> string list \<Rightarrow> int
    \<Rightarrow> (('x, 'o) tracing, operation_trace list) op" where
  "finalize T render g basis calls = read_op (\<lambda>w. finalize_loop T render g basis calls
     (map fst (filter (\<lambda>(_, e). pn_goal_id e = g_id g) (tg_pending w))) [])"

text \<open>\<open>traces\<close>: \<open>parse\<close> stands for pydantic's parser of a stored trace.\<close>

definition stored_traces :: "(string \<Rightarrow> operation_trace result) \<Rightarrow> string option \<Rightarrow> ('x, 'o) store \<Rightarrow> operation_trace list result" where
  "stored_traces parse goal_kind st = map_res parse (list_procedure_traces goal_kind st)"

section \<open>Contract-backed tools\<close>

datatype typed_tool = Json_Read_Tool | Json_Write_Tool

fun tool_contract :: "typed_tool \<Rightarrow> adapter_contract" where
  "tool_contract Json_Read_Tool = json_read_contract"
| "tool_contract Json_Write_Tool = json_write_contract"

fun invoke_tool :: "adapter_env \<Rightarrow> string \<Rightarrow> string \<Rightarrow> typed_tool \<Rightarrow> obj \<Rightarrow> files \<Rightarrow> adapter_result result \<times> files" where
  "invoke_tool E uuid key Json_Read_Tool args fs = (json_read E args fs, fs)"
| "invoke_tool E uuid key Json_Write_Tool args fs = (case json_write E uuid key args fs of (r, steps) \<Rightarrow> (r, completed_write steps fs))"

definition journal_step :: "trace_env \<Rightarrow> nat \<Rightarrow> string \<Rightarrow> adapter_contract \<Rightarrow> obj \<Rightarrow> adapter_result \<Rightarrow> trace_step" where
  "journal_step T index key c args out =
     (case (redacted_fields args, map_option redacted_fields (ar_result out)) of ((clean_args, hid_args), clean_result) \<Rightarrow>
      \<lparr>tp_index = index, tp_operation_key = key, tp_adapter = ac_adapter_id c, tp_contract_version = ac_contract_version c,
       tp_side_effect = side_effect_value (ac_side_effect c), tp_arguments = bounded_fields T clean_args,
       tp_argument_digest = te_digest T (te_canonical T (PDict clean_args)), tp_ok = ar_ok out, tp_code = ar_code out,
       tp_result = (case clean_result of None \<Rightarrow> None | Some (d, _) \<Rightarrow> bounded_fields T d),
       tp_result_digest = te_digest T (te_canonical T (PDict (case clean_result of None \<Rightarrow> [] | Some (d, _) \<Rightarrow> d))),
       tp_redacted = (hid_args \<or> (case clean_result of None \<Rightarrow> False | Some (_, hid) \<Rightarrow> hid))\<rparr>)"

text \<open>
  \<open>call\<close>: \<open>served\<close> is the goal and the occurrence the job serves, \<open>uuid\<close> what is drawn for an operation that
  serves none and for the temporary file.  The job calls its tools one after the other.
\<close>

definition typed_call :: "trace_env \<Rightarrow> adapter_env \<Rightarrow> string \<Rightarrow> (string \<times> string) option \<Rightarrow> string \<Rightarrow> typed_tool \<Rightarrow> obj
    \<Rightarrow> recorder \<times> files \<Rightarrow> string result \<times> recorder \<times> files" where
  "typed_call T E agent served uuid tool args = (\<lambda>(r, fs).
     let index = (case served of None \<Rightarrow> 0 | Some (_, k) \<Rightarrow> next_index k r);
         key = ''harness:'' @ (case served of None \<Rightarrow> uuid | Some (_, k) \<Rightarrow> k) @ '':'' @ show_nat index
     in case invoke_tool E uuid key tool args fs of
         (Inl e, fs') \<Rightarrow> (Inl e, r, fs')
       | (Inr out, fs') \<Rightarrow>
           (Inr (if ar_ok out then take trace_value_bytes (te_canonical T (case ar_result out of None \<Rightarrow> PNone | Some d \<Rightarrow> PDict d))
              else ''DENIED: '' @ ar_code out),
            (case served of None \<Rightarrow> r | Some (g, k) \<Rightarrow> record_step k g agent (journal_step T index key (tool_contract tool) args out) r), fs'))"

definition path_text :: "trace_env \<Rightarrow> obj \<Rightarrow> pyval" where
  "path_text T args = PStr (py_str (te_repr T) (get_or args ''path'' (PStr [])))"

definition harness_json_read :: "trace_env \<Rightarrow> adapter_env \<Rightarrow> string \<Rightarrow> (string \<times> string) option \<Rightarrow> string \<Rightarrow> obj
    \<Rightarrow> recorder \<times> files \<Rightarrow> string result \<times> recorder \<times> files" where
  "harness_json_read T E agent served uuid args = typed_call T E agent served uuid Json_Read_Tool [(''path'', path_text T args)]"

definition harness_json_write :: "trace_env \<Rightarrow> adapter_env \<Rightarrow> string \<Rightarrow> (string \<times> string) option \<Rightarrow> string \<Rightarrow> obj
    \<Rightarrow> recorder \<times> files \<Rightarrow> string result \<times> recorder \<times> files" where
  "harness_json_write T E agent served uuid args s =
     (case (case get_or args ''value'' PNone of PStr text \<Rightarrow> ae_load E text | v \<Rightarrow> Some v) of
        None \<Rightarrow> (Inl (ValueError ''value is not JSON''), s)
      | Some (PDict d) \<Rightarrow> typed_call T E agent served uuid Json_Write_Tool [(''path'', path_text T args), (''value'', PDict d)] s
      | Some _ \<Rightarrow> (Inl (ValueError ''value must be a JSON object''), s))"

text \<open>The tools a job is offered.\<close>

definition typed_harness_tools :: "bool \<Rightarrow> typed_tool list" where
  "typed_harness_tools allow_write = Json_Read_Tool # (if allow_write then [Json_Write_Tool] else [])"

section \<open>Candidate extraction\<close>

record binding_map =
  bm_goal_kind :: string
  bm_approved_by :: string
  bm_bindings :: "(string, obj) dict"

record candidate_report =
  cr_ok :: bool
  cr_code :: string
  cr_definition :: "obj option"
  cr_source_traces :: "string list"
  cr_restrictions :: "string list"
  cr_exact_scope :: bool
  cr_model_calls_observed :: rat

definition refused_candidate :: "string \<Rightarrow> operation_trace list \<Rightarrow> candidate_report" where
  "refused_candidate code ts = \<lparr>cr_ok = False, cr_code = code, cr_definition = None, cr_source_traces = map ot_trace_id ts,
     cr_restrictions = [], cr_exact_scope = False, cr_model_calls_observed = 0\<rparr>"

text \<open>A computation may raise, and it may stop with a refusal.\<close>

type_synonym 'a extraction = "(candidate_report + 'a) result"

fun bind_ext :: "'a extraction \<Rightarrow> ('a \<Rightarrow> 'b extraction) \<Rightarrow> 'b extraction" where
  "bind_ext (Inl e) f = Inl e"
| "bind_ext (Inr (Inl r)) f = Inr (Inl r)"
| "bind_ext (Inr (Inr x)) f = f x"

fun fold_ext :: "('a \<Rightarrow> 's \<Rightarrow> 's extraction) \<Rightarrow> 'a list \<Rightarrow> 's \<Rightarrow> 's extraction" where
  "fold_ext f [] s = Inr (Inr s)"
| "fold_ext f (x # xs) s = bind_ext (f x s) (fold_ext f xs)"

definition not_compilable :: "operation_trace list \<Rightarrow> 'a extraction" where
  "not_compilable ts = Inr (Inl (refused_candidate ''NOT_COMPILABLE'' ts))"

text \<open>\<open>xs[i]\<close>, which counts from the end when \<open>i\<close> is negative.\<close>

definition py_item :: "'a list \<Rightarrow> int \<Rightarrow> 'a result" where
  "py_item xs i = (if 0 \<le> i \<and> i < int (length xs) then Inr (xs ! nat i)
     else if i < 0 \<and> - i \<le> int (length xs) then Inr (xs ! nat (int (length xs) + i)) else Inl IndexError)"

text \<open>The loop over the fields of a \<open>result\<close> source.\<close>

fun result_field :: "pyval \<Rightarrow> pyval list \<Rightarrow> pyval option result" where
  "result_field node [] = Inr (Some node)"
| "result_field node (f # fs) = (case node of
      PDict d \<Rightarrow> if \<not> hashable f then Inl TypeError
        else (case f of PStr k \<Rightarrow> (case dict_get d k of None \<Rightarrow> Inr None | Some v \<Rightarrow> result_field v fs) | _ \<Rightarrow> Inr None)
    | _ \<Rightarrow> Inr None)"

definition result_path :: "obj \<Rightarrow> (int \<times> pyval list) result" where
  "result_path source = bind_res (dict_item source ''result'') (\<lambda>r. bind_res (iterate r) (\<lambda>path. case path of
       [] \<Rightarrow> Inl IndexError | p # parts \<Rightarrow> bind_res (int_of_value p) (\<lambda>j. Inr (j, parts))))"

definition source_name :: "trace_env \<Rightarrow> pyval \<Rightarrow> string" where
  "source_name T p = py_str (te_repr T) p"

definition lookup_source :: "trace_env \<Rightarrow> obj \<Rightarrow> operation_trace \<Rightarrow> pyval option result" where
  "lookup_source T source t = (case dict_get source ''param'' of
      Some p \<Rightarrow> Inr (dict_get (ot_parameters t) (source_name T p))
    | None \<Rightarrow> if dict_get source ''result'' = None then Inr None
        else bind_res (result_path source) (\<lambda>(j, parts).
          if j \<ge> int (length (ot_steps t)) then Inr None
          else bind_res (py_item (ot_steps t) j) (\<lambda>s. case tp_result s of
            None \<Rightarrow> Inr None | Some d \<Rightarrow> result_field (PDict d) parts)))"

fun parameter_schema :: "pyval \<Rightarrow> pyval option" where
  "parameter_schema (PStr _) = Some (text_schema 500)"
| "parameter_schema (PBool _) = Some (PDict [(''type'', PStr ''boolean'')])"
| "parameter_schema (PInt _) = Some (PDict [(''type'', PStr ''integer'')])"
| "parameter_schema _ = None"

definition arguments_at :: "nat \<Rightarrow> operation_trace \<Rightarrow> obj" where
  "arguments_at i t = (case tp_arguments (ot_steps t ! i) of None \<Rightarrow> [] | Some d \<Rightarrow> d)"

text \<open>Whether every trace has, where the map says the argument comes from, the argument it was observed with.\<close>

fun traces_agree :: "trace_env \<Rightarrow> obj \<Rightarrow> (operation_trace \<times> pyval) list \<Rightarrow> bool result" where
  "traces_agree T source [] = Inr True"
| "traces_agree T source ((t, v) # rest) = bind_res (lookup_source T source t) (\<lambda>expected. case expected of
      None \<Rightarrow> Inr False
    | Some x \<Rightarrow> if te_canonical T x \<noteq> te_canonical T v then Inr False else traces_agree T source rest)"

definition bound_later :: "obj \<Rightarrow> nat \<Rightarrow> bool result" where
  "bound_later source i = (if dict_get source ''result'' = None then Inr False
     else bind_res (result_path source) (\<lambda>(j, _). Inr (j \<ge> int i)))"

text \<open>The binding of an argument the map covers, with the parameter it declares.\<close>

definition bind_source :: "trace_env \<Rightarrow> string list \<Rightarrow> operation_trace \<Rightarrow> obj \<Rightarrow> (pyval \<times> obj) extraction" where
  "bind_source T ids first source = (case dict_get source ''param'' of
      Some p \<Rightarrow> (case parameter_schema (get_or (ot_parameters first) (source_name T p) PNone) of
          None \<Rightarrow> not_compilable []
        | Some schema \<Rightarrow> Inr (Inr (ref_to ''goal'' [PStr ''parameters'', PStr (source_name T p)], [(source_name T p, schema)])))
    | None \<Rightarrow> bind_res (result_path source) (\<lambda>(j, parts). bind_res (py_item ids j) (\<lambda>sid.
        Inr (Inr (ref_to ''result'' (PStr sid # parts), [])))))"

definition bind_argument :: "trace_env \<Rightarrow> (string, obj) dict \<Rightarrow> string list \<Rightarrow> operation_trace \<Rightarrow> operation_trace list \<Rightarrow> nat \<Rightarrow> string
    \<Rightarrow> (pyval \<times> obj \<times> string list) extraction" where
  "bind_argument T bindings ids first cohort i name =
     (let key = show_nat i @ ''.'' @ name in
      bind_res (map_res (\<lambda>t. dict_item (arguments_at i t) name) cohort) (\<lambda>observed.
      case dict_get bindings key of
        Some source \<Rightarrow> bind_res (bound_later source i) (\<lambda>later. if later then not_compilable []
          else bind_res (traces_agree T source (zip cohort observed)) (\<lambda>agree. if \<not> agree then not_compilable cohort
          else bind_ext (bind_source T ids first source) (\<lambda>(b, declared). Inr (Inr (b, declared, [])))))
      | None \<Rightarrow> (case observed of
          v # rest \<Rightarrow> if list_all (\<lambda>u. te_canonical T u = te_canonical T v) rest
            then Inr (Inr (PDict [(''literal'', v)], [], [key @ '' is fixed to the observed value'']))
            else not_compilable cohort
        | [] \<Rightarrow> not_compilable cohort)))"

definition compiled_id :: "nat \<Rightarrow> string" where
  "compiled_id i = ''step_'' @ show_nat (i + 1)"

definition tool_entry :: "nat \<Rightarrow> nat \<Rightarrow> trace_step \<Rightarrow> obj \<Rightarrow> obj" where
  "tool_entry n i s args = [(''id'', PStr (compiled_id i)), (''kind'', PStr ''tool''), (''adapter'', PStr (tp_adapter s)),
     (''contract_version'', PInt (tp_contract_version s)), (''arguments'', PDict args),
     (''next'', PStr (if i + 1 < n then compiled_id (i + 1) else ''check''))]"

definition compile_step :: "trace_env \<Rightarrow> (string, obj) dict \<Rightarrow> operation_trace \<Rightarrow> operation_trace list \<Rightarrow> nat \<Rightarrow> obj list \<times> obj \<times> string list
    \<Rightarrow> (obj list \<times> obj \<times> string list) extraction" where
  "compile_step T bindings first cohort i = (\<lambda>(steps, parameters, restrictions).
     let n = length (ot_steps first); names = fst ` set (arguments_at i first) in
     if list_ex (\<lambda>t. fst ` set (arguments_at i t) \<noteq> names) cohort then not_compilable cohort
     else bind_ext (fold_ext (\<lambda>name (args, parameters, restrictions).
            bind_ext (bind_argument T bindings (map compiled_id [0..<n]) first cohort i name) (\<lambda>(b, declared, fixed).
              Inr (Inr (dict_set name b args, dict_update parameters declared, restrictions @ fixed))))
          (sorted_list_of_set names) ([], parameters, restrictions))
        (\<lambda>(args, parameters, restrictions). Inr (Inr (steps @ [tool_entry n i (ot_steps first ! i) args], parameters, restrictions))))"

text \<open>\<open>_terminal\<close>.\<close>

definition done_step :: "obj \<Rightarrow> obj" where
  "done_step res = [(''id'', PStr ''done''), (''kind'', PStr ''complete''), (''result'', PDict res)]"

definition check_step :: "pyval \<Rightarrow> string \<Rightarrow> obj" where
  "check_step artifact source = [(''id'', PStr ''check''), (''kind'', PStr ''validate''), (''check'', PStr ''artifact_matches_source''),
     (''arguments'', PDict [(''artifact_id'', artifact), (''source_step'', PDict [(''literal'', PStr source)])]), (''next'', PStr ''done'')]"

definition terminal_steps :: "operation_trace \<Rightarrow> string list \<Rightarrow> (string, obj) dict \<Rightarrow> (obj \<times> obj \<times> obj option) result" where
  "terminal_steps t ids bindings =
     (let writes = filter (\<lambda>i. tp_adapter (ot_steps t ! i) = ''core.json_write'') [0..<length (ot_steps t)] in
      if writes = [] then bind_res (py_item ids (int (length ids) - 1)) (\<lambda>sid.
        Inr (object_schema [(''digest'', text_schema 100)] [''digest''],
             done_step [(''digest'', ref_to ''result'' [PStr sid, PStr ''source_digest''])], None))
      else
        let lst = last writes; artifact = ref_to ''result'' [PStr (compiled_id lst), PStr ''artifact_id''];
            schema = object_schema [(''artifact_id'', text_schema 500)] [''artifact_id''];
            fin = done_step [(''artifact_id'', artifact)] in
        bind_res (iterate (get_or (dict_get_or bindings (show_nat lst @ ''.value'') []) ''result'' (PList []))) (\<lambda>path.
          case path of
            [p, q] \<Rightarrow> if \<not> py_eq q (PStr ''value'') then Inr (schema, fin, None)
              else bind_res (int_of_value p) (\<lambda>j. bind_res (py_item (ot_steps t) j) (\<lambda>s.
                if tp_adapter s \<noteq> ''core.json_read'' then Inr (schema, fin, None)
                else bind_res (py_item ids j) (\<lambda>sid. Inr (schema, fin, Some (check_step artifact sid)))))
          | _ \<Rightarrow> Inr (schema, fin, None)))"

definition close_steps :: "obj list \<Rightarrow> obj \<Rightarrow> obj option \<Rightarrow> obj list" where
  "close_steps steps fin check = (case check of
      Some c \<Rightarrow> steps @ [c] | None \<Rightarrow> butlast steps @ [dict_set ''next'' (PStr ''done'') (last steps)]) @ [fin]"

definition candidate_definition :: "catalog \<Rightarrow> int \<Rightarrow> operation_trace list \<Rightarrow> operation_trace \<Rightarrow> obj \<Rightarrow> string list \<Rightarrow> obj \<Rightarrow> obj list \<Rightarrow> obj" where
  "candidate_definition cat revision cohort first parameters restrictions output_schema steps =
     [(''schema_version'', PInt 1), (''procedure_id'', PStr (''learned_'' @ ot_goal_kind first)), (''revision'', PInt revision),
      (''name'', PStr (''Learned: '' @ ot_goal_kind first)),
      (''description'', PStr (take 1000 (''Compiled from '' @ show_nat (length cohort) @ '' verified model-directed occurrences; restrictions: ''
         @ (if restrictions = [] then ''none'' else py_join ''; '' restrictions)))),
      (''entry_step_id'', PStr (compiled_id 0)), (''goal_kind'', PStr (ot_goal_kind first)),
      (''parameter_schema'', PDict (object_schema parameters (sorted_list_of_set (fst ` set parameters)))),
      (''output_schema'', PDict output_schema),
      (''required_capabilities'', PList (map PStr (sorted_list_of_set (set (concat (map (\<lambda>s.
         case dict_get (adapters cat) (tp_adapter s) of None \<Rightarrow> [] | Some c \<Rightarrow> ac_required_capabilities c) (ot_steps first))))))),
      (''steps'', PList (map PDict steps))]"

text \<open>The first trace of every occurrence, and those of the most frequent sequence of operations.\<close>

definition add_occurrence :: "operation_trace \<Rightarrow> (string, operation_trace) dict \<Rightarrow> (string, operation_trace) dict" where
  "add_occurrence t d = (if dict_get d (ot_occurrence_id t) = None then dict_set (ot_occurrence_id t) t d else d)"

definition distinct_occurrences :: "operation_trace list \<Rightarrow> operation_trace list" where
  "distinct_occurrences ts = map snd (fold add_occurrence (filter ot_eligible ts) [])"

definition cohort_of :: "operation_trace list \<Rightarrow> operation_trace list" where
  "cohort_of ts = (let sigs = map trace_signature ts in
     case py_max (count_list sigs) sigs of None \<Rightarrow> [] | Some sig \<Rightarrow> filter (\<lambda>t. trace_signature t = sig) ts)"

text \<open>The refusals on the map itself.\<close>

definition map_refused :: "binding_map option \<Rightarrow> string \<Rightarrow> bool" where
  "map_refused bm kind \<longleftrightarrow> (case bm of None \<Rightarrow> False | Some m \<Rightarrow> bm_goal_kind m \<noteq> kind \<or> \<not> trusted_actor (bm_approved_by m))"

definition compile_cohort :: "trace_env \<Rightarrow> operation_trace list \<Rightarrow> operation_trace \<Rightarrow> (string, obj) dict \<Rightarrow> catalog \<Rightarrow> int \<Rightarrow> candidate_report extraction" where
  "compile_cohort T cohort first bindings cat revision =
     bind_ext (fold_ext (compile_step T bindings first cohort) [0..<length (ot_steps first)] ([], [], [])) (\<lambda>(steps, parameters, restrictions).
     bind_res (terminal_steps first (map compiled_id [0..<length (ot_steps first)]) bindings) (\<lambda>(output_schema, fin, check).
     let d = candidate_definition cat revision cohort first parameters restrictions output_schema (close_steps steps fin check) in
     bind_res (validate_definition (\<lambda>v. utf8_length (te_canonical T v)) (te_validate T) (Raw (PDict d)) cat default_limits) (\<lambda>report.
     if \<not> vr_ok report \<or> vr_definition report = None then not_compilable cohort
     else Inr (Inr \<lparr>cr_ok = True, cr_code = [], cr_definition = Some d, cr_source_traces = map ot_trace_id cohort,
       cr_restrictions = restrictions, cr_exact_scope = (restrictions \<noteq> []),
       cr_model_calls_observed = of_int (sum_list (map ot_model_calls cohort)) / of_nat (length cohort)\<rparr>))))"

definition extract_candidate :: "trace_env \<Rightarrow> operation_trace list \<Rightarrow> binding_map option \<Rightarrow> catalog \<Rightarrow> int \<Rightarrow> int \<Rightarrow> candidate_report result" where
  "extract_candidate T ts bm cat revision minimum = (case cohort_of (distinct_occurrences ts) of
      [] \<Rightarrow> Inr (refused_candidate ''INSUFFICIENT_EVIDENCE'' [])
    | first # rest \<Rightarrow> let cohort = first # rest in
        if \<not> list_all (\<lambda>t. ot_goal_kind t = ot_goal_kind first) rest then Inr (refused_candidate ''NOT_COMPILABLE'' cohort)
        else if int (length cohort) < minimum then Inr (refused_candidate ''INSUFFICIENT_EVIDENCE'' cohort)
        else if map_refused bm (ot_goal_kind first) then Inr (refused_candidate ''NOT_COMPILABLE'' [])
        else map_sum id (case_sum id id) (compile_cohort T cohort first (case bm of None \<Rightarrow> [] | Some m \<Rightarrow> bm_bindings m) cat revision))"

section \<open>Sandboxed replay\<close>

record replay_report =
  ry_key :: string
  ry_completed :: bool
  ry_status :: string
  ry_code :: string
  ry_validators :: "(string, bool) dict"
  ry_output :: "pyval option"
  ry_held_out :: bool

definition replay_passed :: "replay_report \<Rightarrow> bool" where
  "replay_passed r \<longleftrightarrow> ry_completed r \<and> list_all snd (ry_validators r)"

text \<open>\<open>_ReplayHost\<close>: the capabilities of the definition, no blackboard, no model and no peers.\<close>

definition replay_host :: "string set \<Rightarrow> 'e host \<Rightarrow> 'e host" where
  "replay_host caps h = h\<lparr>h_capabilities := (\<lambda>_ _. caps), h_fact := (\<lambda>_ _. None),
     h_think := (\<lambda>_ _ _ _ e. (Inl (RuntimeError ''a replay makes no model call''), e)), h_route := (\<lambda>_ _ e. (Inr None, e)),
     h_deliver := (\<lambda>_ _ _ e. (Inl (RuntimeError ''a replay does not delegate''), e))\<rparr>"

text \<open>The disposable copy of the fixture and the grant scoped to it, as changes of the environment.\<close>

record 'e sandbox =
  sx_copy :: "'e \<Rightarrow> unit result \<times> 'e"
  sx_grant :: "'e \<Rightarrow> unit result \<times> 'e"
  sx_revoke :: "'e \<Rightarrow> unit result \<times> 'e"
  sx_remove :: "'e \<Rightarrow> 'e"

definition always_op :: "('s, 'a) op \<Rightarrow> ('s, unit) op \<Rightarrow> ('s, 'a) op" where
  \<comment> \<open>\<open>try\<close> with a \<open>finally\<close> that may raise itself\<close>
  "always_op m cleanup = (\<lambda>s. case m s of (r, t) \<Rightarrow> (case cleanup t of (Inl e, u) \<Rightarrow> (Inl e, u) | (Inr _, u) \<Rightarrow> (r, u)))"

fun replay_loop :: "'e executor \<Rightarrow> string \<Rightarrow> nat \<Rightarrow> step_outcome option \<Rightarrow> ('e, step_outcome option) exec_op" where
  "replay_loop ex eid 0 lst = ret_op lst"
| "replay_loop ex eid (Suc n) lst = bind_op (advance ex eid) (\<lambda>out.
     if out_kind out \<in> {Completed_Step, Failed_Step, Cancelled_Step, Must_Reconcile} then ret_op (Some out)
     else replay_loop ex eid n (Some out))"

definition replay_report_of :: "'e executor \<Rightarrow> string \<Rightarrow> bool \<Rightarrow> step_outcome option \<Rightarrow> procedure_execution \<Rightarrow> replay_report result" where
  "replay_report_of ex key held_out out x = map_sum id (\<lambda>(validators, _).
     \<lparr>ry_key = key, ry_completed = (pe_status x = Ex_Completed), ry_status = exec_status_value (pe_status x),
      ry_code = (case out of None \<Rightarrow> [] | Some o' \<Rightarrow> out_code o'), ry_validators = validators, ry_output = pe_output x, ry_held_out = held_out\<rparr>)
     (execution_evidence (h_str (ex_host ex)) x)"

definition replay_request :: "string \<Rightarrow> string \<Rightarrow> string \<Rightarrow> obj \<Rightarrow> start_request" where
  "replay_request agent key tag parameters = \<lparr>sq_agent_id = agent, sq_goal_id = ''replay:'' @ key, sq_occurrence_id = ''replay:'' @ tag,
     sq_parameters = parameters, sq_context = [], sq_context_refs = [], sq_work = [], sq_work_item_id = None, sq_budget = None,
     sq_deadline_at = None, sq_max_executions = None\<rparr>"

text \<open>\<open>agent\<close> and \<open>tag\<close> are drawn afresh.\<close>

definition replay :: "'e executor \<Rightarrow> 'e sandbox \<Rightarrow> string \<Rightarrow> obj \<Rightarrow> operation_trace list \<Rightarrow> string \<Rightarrow> string \<Rightarrow> ('e, replay_report) exec_op" where
  "replay ex sx key parameters training agent tag = read_op (\<lambda>w.
     case (dict_get (rg_definitions (sh_registry (wd_shared w))) key, dict_get (rg_admissions (sh_registry (wd_shared w))) key) of
       (Some d, Some a) \<Rightarrow>
         let held_out = list_all (\<lambda>t. \<not> py_eq (PDict (ot_parameters t)) (PDict parameters)) training;
             ex' = ex\<lparr>ex_host := replay_host (set (pd_required_capabilities d)) (ex_host ex)\<rparr> in
         always_op
           (seq_op (\<lambda>w. case sx_copy sx (sh_env (wd_shared w)) of (r, e) \<Rightarrow> (r, put_env e w))
           (seq_op (on_env (sx_grant sx))
           (bind_op (start ex' d a (replay_request agent key tag parameters)) (\<lambda>x.
            bind_op (replay_loop ex' (pe_execution_id x) (3 * length (pd_steps d) + 3) None) (\<lambda>out.
            seq_op (load_op (pe_execution_id x))
            (with_execution (\<lambda>final. lift_op (replay_report_of ex' key held_out out final))))))))
           (seq_op (on_env (sx_revoke sx)) (modify_op (\<lambda>w. put_env (sx_remove sx (sh_env (wd_shared w))) w)))
     | _ \<Rightarrow> raise_op (ProcedureError ''UNKNOWN_PROCEDURE''))"

section \<open>Validation of a candidate\<close>

text \<open>\<open>validate_candidate\<close>; \<open>render\<close> is the text the reports are kept as.\<close>

definition validate_candidate :: "codec \<Rightarrow> time \<Rightarrow> (replay_report list \<Rightarrow> string) \<Rightarrow> string \<Rightarrow> replay_report list
    \<Rightarrow> ('x, 'o) registry \<Rightarrow> unit result \<times> ('x, 'o) registry" where
  "validate_candidate fx now render key reports r = (case dict_get (rg_admissions r) key of
      None \<Rightarrow> (Inl (ProcedureError ''NOT_A_CANDIDATE''), r)
    | Some a \<Rightarrow>
        if ad_status a \<noteq> admission_status.Candidate then (Inl (ProcedureError ''NOT_A_CANDIDATE''), r)
        else if reports = [] \<or> \<not> list_all replay_passed reports then (Inl (ProcedureError ''REPLAY_FAILED''), r)
        else if \<not> list_ex ry_held_out reports then (Inl (ProcedureError ''NO_HELD_OUT_REPLAY''), r)
        else (case mark_validated fx now key (take 4000 (render reports)) r of (res, r') \<Rightarrow> (map_sum id (\<lambda>_. ()) res, r')))"

section \<open>What redaction hides\<close>

text \<open>A field with a secret name anywhere, and values that differ at most below such fields.\<close>

function (sequential) carries_secret :: "pyval \<Rightarrow> bool" where
  "carries_secret (PDict d) = list_ex (\<lambda>(k, v). secret_name k \<or> carries_secret v) d"
| "carries_secret (PList xs) = list_ex carries_secret xs"
| "carries_secret v = False"
  by pat_completeness auto
termination
  by (relation "measure size") (auto intro: size_snd_less size_in_list)

function (sequential) same_but_secrets :: "pyval \<Rightarrow> pyval \<Rightarrow> bool" where
  "same_but_secrets (PDict d) (PDict e) = (map fst d = map fst e
     \<and> list_all (\<lambda>((k, v), (_, w)). secret_name k \<or> same_but_secrets v w) (zip d e))"
| "same_but_secrets (PList xs) (PList ys) = (length xs = length ys \<and> list_all (\<lambda>(v, w). same_but_secrets v w) (zip xs ys))"
| "same_but_secrets v w = (v = w)"
  by pat_completeness auto
termination
  by (relation "measure (size \<circ> fst)") (auto dest!: set_zip_leftD intro: size_in_list size_snd_less)

function (sequential) secrets_masked :: "pyval \<Rightarrow> bool" where
  "secrets_masked (PDict d) = list_all (\<lambda>(k, v). if secret_name k then v = PStr redacted_text else secrets_masked v) d"
| "secrets_masked (PList xs) = list_all secrets_masked xs"
| "secrets_masked v = True"
  by pat_completeness auto
termination
  by (relation "measure size") (auto intro: size_snd_less size_in_list)

lemma redacted_flag: "snd (redacted v) = carries_secret v"
  by (induction v rule: redacted.induct) (fastforce simp: list_ex_iff)+

lemma redacted_masked: "secrets_masked (fst (redacted v))"
  by (induction v rule: redacted.induct) (auto simp: list_all_iff)

lemma redacted_atoms:
  "(fst (redacted v) = PNone) = (v = PNone)" "(PNone = fst (redacted v)) = (PNone = v)"
  "(fst (redacted v) = PBool b) = (v = PBool b)" "(PBool b = fst (redacted v)) = (PBool b = v)"
  "(fst (redacted v) = PInt i) = (v = PInt i)" "(PInt i = fst (redacted v)) = (PInt i = v)"
  "(fst (redacted v) = PFloat f) = (v = PFloat f)" "(PFloat f = fst (redacted v)) = (PFloat f = v)"
  "(fst (redacted v) = PStr s) = (v = PStr s)" "(PStr s = fst (redacted v)) = (PStr s = v)"
  "(fst (redacted v) = POther s) = (v = POther s)" "(POther s = fst (redacted v)) = (POther s = v)"
  by (cases v; simp)+

lemma redacted_same: "fst (redacted v) = fst (redacted w) \<longleftrightarrow> same_but_secrets v w"
proof (induction v w rule: same_but_secrets.induct)
  case (1 d e)
  have "map (\<lambda>(k, v). (k, if secret_name k then PStr redacted_text else fst (redacted v))) d
      = map (\<lambda>(k, v). (k, if secret_name k then PStr redacted_text else fst (redacted v))) e
    \<longleftrightarrow> map fst d = map fst e \<and> list_all (\<lambda>((k, v), (_, w)). secret_name k \<or> fst (redacted v) = fst (redacted w)) (zip d e)"
    by (induction d e rule: list_induct2') (auto split: if_splits)
  moreover have "list_all (\<lambda>((k, v), (_, w)). secret_name k \<or> fst (redacted v) = fst (redacted w)) (zip d e)
    = list_all (\<lambda>((k, v), (_, w)). secret_name k \<or> same_but_secrets v w) (zip d e)"
    using "1.IH" by (intro list.pred_cong refl) fastforce
  ultimately show ?case by simp
next
  case (2 xs ys)
  have "map (\<lambda>v. fst (redacted v)) xs = map (\<lambda>v. fst (redacted v)) ys
    \<longleftrightarrow> length xs = length ys \<and> list_all (\<lambda>(v, w). fst (redacted v) = fst (redacted w)) (zip xs ys)"
    by (induction xs ys rule: list_induct2') auto
  moreover have "list_all (\<lambda>(v, w). fst (redacted v) = fst (redacted w)) (zip xs ys) = list_all (\<lambda>(v, w). same_but_secrets v w) (zip xs ys)"
    using "2.IH" by (intro list.pred_cong refl) fastforce
  ultimately show ?case by simp
qed (auto simp: redacted_atoms)

text \<open>
  C15. Redaction is exact: two values are redacted alike exactly when they differ at most below secret-named
  fields, so what is stored says nothing about a secret and loses nothing else; it is flagged exactly when
  there was such a field; and afterwards every one of them, at any depth, is masked.
\<close>

theorem redaction_hides:
  "(fst (redacted v) = fst (redacted w)) = same_but_secrets v w \<and> snd (redacted v) = carries_secret v
    \<and> secrets_masked (fst (redacted v))"
  by (simp add: redacted_same redacted_flag redacted_masked)

section \<open>The journal\<close>

lemma digit_cases: "n < 10 \<Longrightarrow> is_digit (char_of (48 + n)) \<and> digit_value (char_of (48 + n)) = n"
  for n :: nat
proof -
  assume "n < 10"
  then have "n \<in> {0, 1, 2, 3, 4, 5, 6, 7, 8, 9}" by auto
  then show ?thesis by (auto simp: is_digit_def digit_value_def)
qed

lemma show_nat_digits: "list_all is_digit (show_nat n) \<and> py_int (show_nat n) = n"
proof (induction n rule: show_nat.induct)
  case (1 n)
  show ?case
  proof (cases "n < 10")
    case True
    with digit_cases show ?thesis by (simp add: show_nat.simps [of n] py_int_def)
  next
    case False
    have "n mod 10 < 10" by simp
    with 1 [OF False] digit_cases [OF this] False show ?thesis by (simp add: show_nat.simps [of n] py_int_def)
  qed
qed

lemma show_nat_inj [simp]: "show_nat m = show_nat n \<longleftrightarrow> m = n"
  using show_nat_digits by metis

lemma digits_after_colon: "takeWhile (\<lambda>c. c \<noteq> CHR '':'') (rev (k @ '':'' @ show_nat i)) = rev (show_nat i)"
proof -
  have "list_all (\<lambda>c. c \<noteq> CHR '':'') (show_nat i)" using show_nat_digits [of i] by (auto simp: list_all_iff is_digit_def)
  then have "\<forall>c\<in>set (rev (show_nat i)). c \<noteq> CHR '':''" by (simp add: list_all_iff)
  then have "takeWhile (\<lambda>c. c \<noteq> CHR '':'') (rev (show_nat i) @ CHR '':'' # rev k) = rev (show_nat i)"
    by (simp add: takeWhile_append)
  then show ?thesis by simp
qed

lemma numbered_inj: "(k @ '':'' @ show_nat i = l @ '':'' @ show_nat j) = (k = l \<and> i = j)"
proof
  assume eq: "k @ '':'' @ show_nat i = l @ '':'' @ show_nat j"
  from digits_after_colon [of k i] have "takeWhile (\<lambda>c. c \<noteq> CHR '':'') (rev (l @ '':'' @ show_nat j)) = rev (show_nat i)" unfolding eq .
  then have "i = j" unfolding digits_after_colon by simp
  with eq show "k = l \<and> i = j" by simp
qed simp

text \<open>What reaches the recorder: a call of a tool, a goal that failed, an occurrence that settled.\<close>

datatype journal_event = Called string "(string \<times> string) option" string typed_tool obj | Dropped string | Settled string

fun journal_step_of :: "trace_env \<Rightarrow> adapter_env \<Rightarrow> journal_event \<Rightarrow> recorder \<times> files \<Rightarrow> recorder \<times> files" where
  "journal_step_of T E (Called agent served uuid tool args) s = snd (typed_call T E agent served uuid tool args s)"
| "journal_step_of T E (Dropped g) (r, fs) = (discard_pending g r, fs)"
| "journal_step_of T E (Settled k) (r, fs) = (dict_del k r, fs)"

definition kept_clean :: "trace_env \<Rightarrow> obj option \<Rightarrow> bool" where
  "kept_clean T x = (case x of None \<Rightarrow> True
     | Some d \<Rightarrow> secrets_masked (PDict d) \<and> utf8_length (te_canonical T (PDict d)) \<le> trace_value_bytes)"

definition harness_key :: "string \<Rightarrow> nat \<Rightarrow> string" where
  "harness_key k i = ''harness:'' @ k @ '':'' @ show_nat i"

definition journal_entry_ok :: "trace_env \<Rightarrow> string \<Rightarrow> nat \<Rightarrow> trace_step \<Rightarrow> bool" where
  "journal_entry_ok T k i s \<longleftrightarrow> tp_index s = i \<and> tp_operation_key s = harness_key k i
     \<and> (\<exists>tool. tp_adapter s = ac_adapter_id (tool_contract tool) \<and> tp_contract_version s = ac_contract_version (tool_contract tool)
          \<and> tp_side_effect s = side_effect_value (ac_side_effect (tool_contract tool)))
     \<and> tp_side_effect s \<in> learnable_effects \<and> kept_clean T (tp_arguments s) \<and> kept_clean T (tp_result s)"

definition journal_ok :: "trace_env \<Rightarrow> recorder \<Rightarrow> bool" where
  "journal_ok T r \<longleftrightarrow> dict_ok r \<and> (\<forall>k e. dict_get r k = Some e \<longrightarrow>
     (\<forall>i<length (pn_steps e). journal_entry_ok T k i (pn_steps e ! i)))"

lemma redacted_fields_dict: "PDict (fst (redacted_fields d)) = fst (redacted (PDict d)) \<and> snd (redacted_fields d) = carries_secret (PDict d)"
  using redacted_flag [of "PDict d"] by (simp add: redacted_fields_def)

lemma bounded_clean: "kept_clean T (bounded_fields T (fst (redacted_fields d)))"
  using redacted_fields_dict [of d] redacted_masked [of "PDict d"]
  by (simp add: kept_clean_def bounded_fields_def split: if_splits)

lemma tool_learnable: "side_effect_value (ac_side_effect (tool_contract tool)) \<in> learnable_effects"
  by (cases tool) (simp_all add: json_read_contract_def json_write_contract_def new_contract_def learnable_effects_def)

lemma nothing_clean [simp]: "kept_clean T None"
  by (simp add: kept_clean_def)

lemma journal_step_ok: "journal_entry_ok T k i (journal_step T i (harness_key k i) (tool_contract tool) args out)"
  using tool_learnable [of tool]
  by (cases "ar_result out") (auto simp: journal_entry_ok_def journal_step_def case_prod_unfold bounded_clean)

lemma record_step_ok:
  assumes "journal_ok T r" "journal_entry_ok T k (next_index k r) s"
  shows "journal_ok T (record_step k g agent s r)"
  using assms
  by (auto simp: journal_ok_def record_step_def next_index_def Let_def dict_simps dict_get_or_def nth_append less_Suc_eq
      split: option.splits if_splits)

lemma journal_ok_del: "journal_ok T r \<Longrightarrow> journal_ok T (dict_del k r)"
  by (auto simp: journal_ok_def dict_simps split: if_splits)

lemma typed_call_ok:
  assumes "journal_ok T r"
  shows "journal_ok T (fst (snd (typed_call T E agent served uuid tool args (r, fs))))"
proof (cases served)
  case None
  with assms show ?thesis by (auto simp: typed_call_def Let_def split: prod.splits sum.splits)
next
  case (Some p)
  obtain g k where p: "p = (g, k)" by (cases p)
  have "journal_ok T (record_step k g agent (journal_step T (next_index k r) (harness_key k (next_index k r)) (tool_contract tool) args out) r)" for out
    by (rule record_step_ok [OF assms journal_step_ok])
  with assms show ?thesis unfolding Some p
    by (auto simp: typed_call_def Let_def harness_key_def split: prod.splits sum.splits)
qed

lemma fold_del_ok: "journal_ok T r \<Longrightarrow> journal_ok T (fold dict_del ks r)"
  by (induction ks arbitrary: r) (simp_all add: journal_ok_del)

lemma journal_event_ok: "journal_ok T (fst s) \<Longrightarrow> journal_ok T (fst (journal_step_of T E ev s))"
  by (cases ev; cases s) (simp_all add: typed_call_ok discard_pending_def fold_del_ok journal_ok_del)

lemma journal_run_ok: "journal_ok T (fst s) \<Longrightarrow> journal_ok T (fst (fold (journal_step_of T E) evs s))"
  by (induction evs arbitrary: s) (simp_all add: journal_event_ok)

definition recorded :: "recorder \<Rightarrow> trace_step list" where
  "recorded r = concat (map (\<lambda>(_, e). pn_steps e) r)"

lemma journal_ok_iff:
  "journal_ok T r \<longleftrightarrow> dict_ok r \<and> list_all (\<lambda>(k, e). list_all2 (journal_entry_ok T k) [0..<length (pn_steps e)] (pn_steps e)) r"
proof -
  have "list_all (\<lambda>(k, e). list_all2 (journal_entry_ok T k) [0..<length (pn_steps e)] (pn_steps e)) r
    \<longleftrightarrow> (\<forall>k e. (k, e) \<in> set r \<longrightarrow> (\<forall>i<length (pn_steps e). journal_entry_ok T k i (pn_steps e ! i)))"
    by (fastforce simp: list_all_iff list_all2_conv_all_nth)
  then show ?thesis by (cases "dict_ok r") (simp_all add: journal_ok_def dict_get_in_iff)
qed

lemma harness_keys: "(harness_key k i = harness_key l j) = (k = l \<and> i = j)"
  using numbered_inj [of k i l j] by (simp add: harness_key_def)

lemma recorded_keys:
  assumes "dict_ok r" "list_all (\<lambda>(k, e). list_all2 (journal_entry_ok T k) [0..<length (pn_steps e)] (pn_steps e)) r"
  shows "distinct (map tp_operation_key (recorded r)) \<and> set (map tp_operation_key (recorded r)) \<subseteq> {harness_key k i | k i. k \<in> fst ` set r}"
  using assms
proof (induction r)
  case Nil
  then show ?case by (simp add: recorded_def)
next
  case (Cons x r)
  obtain k e where x: "x = (k, e)" by (cases x)
  with Cons.prems(2) have "\<forall>i<length (pn_steps e). tp_operation_key (pn_steps e ! i) = harness_key k i"
    by (simp add: list_all2_conv_all_nth journal_entry_ok_def)
  then have keys: "map tp_operation_key (pn_steps e) = map (harness_key k) [0..<length (pn_steps e)]"
    by (intro nth_equalityI) simp_all
  have split: "map tp_operation_key (recorded (x # r)) = map (harness_key k) [0..<length (pn_steps e)] @ map tp_operation_key (recorded r)"
    by (simp add: recorded_def x keys)
  from Cons.prems x have k: "k \<notin> fst ` set r" by (simp add: dict_ok_Cons)
  from Cons.prems x Cons.IH have IH: "distinct (map tp_operation_key (recorded r))"
    "set (map tp_operation_key (recorded r)) \<subseteq> {harness_key k i | k i. k \<in> fst ` set r}" by (simp_all add: dict_ok_Cons)
  have "distinct (map tp_operation_key (recorded (x # r)))"
  proof -
    have "distinct (map (harness_key k) [0..<length (pn_steps e)])"
      by (simp add: distinct_map inj_on_def harness_keys)
    moreover have "harness_key k i \<notin> set (map tp_operation_key (recorded r))" for i
      using subsetD [OF IH(2), of "harness_key k i"] k by (auto simp: harness_keys)
    then have "set (map (harness_key k) [0..<length (pn_steps e)]) \<inter> set (map tp_operation_key (recorded r)) = {}"
      unfolding set_map [of "harness_key k"] by blast
    ultimately show ?thesis unfolding split using IH(1) by (simp only: distinct_append)
  qed
  moreover have "set (map tp_operation_key (recorded (x # r))) \<subseteq> {harness_key k i | k i. k \<in> fst ` set (x # r)}"
  proof
    fix y assume "y \<in> set (map tp_operation_key (recorded (x # r)))"
    then have "y \<in> set (map (harness_key k) [0..<length (pn_steps e)]) \<or> y \<in> set (map tp_operation_key (recorded r))"
      unfolding split by (simp only: set_append Un_iff)
    then show "y \<in> {harness_key k i | k i. k \<in> fst ` set (x # r)}"
    proof
      assume "y \<in> set (map tp_operation_key (recorded r))"
      from subsetD [OF IH(2) this] show ?thesis by auto
    qed (auto simp: x)
  qed
  ultimately show ?case ..
qed

text \<open>
  In every run of tool calls, failed goals and settled occurrences the journal is in order: the operations of an
  occurrence are numbered from zero, no two operations share a key, each names the contract it ran under,
  and what is kept of it is masked and bounded.
\<close>

theorem journal_sound:
  "case fold (journal_step_of T E) evs ([], fs) of (r, _) \<Rightarrow> distinct (map tp_operation_key (recorded r))
     \<and> list_all (\<lambda>(k, e). list_all2 (journal_entry_ok T k) [0..<length (pn_steps e)] (pn_steps e)) r"
proof -
  have "journal_ok T (fst ([] :: recorder, fs))" by (simp add: journal_ok_def dict_simps)
  from journal_run_ok [OF this, of E evs] recorded_keys show ?thesis
    by (auto simp: journal_ok_iff split: prod.split)
qed

section \<open>Settling a goal\<close>

text \<open>What makes the operations of an occurrence fit to learn from.\<close>

definition teachable :: "trace_env \<Rightarrow> goal \<Rightarrow> string list \<Rightarrow> trace_step list \<Rightarrow> bool" where
  "teachable T g basis steps \<longleftrightarrow> g_kind g \<notin> {''goal'', [], delegated_goal_kind} \<and> g_parameters g \<noteq> []
     \<and> \<not> carries_secret (PDict (g_parameters g)) \<and> utf8_length (te_canonical T (PDict (g_parameters g))) \<le> trace_value_bytes
     \<and> steps \<noteq> [] \<and> basis \<noteq> []
     \<and> list_all (\<lambda>s. tp_ok s \<and> tp_arguments s \<noteq> None \<and> tp_result s \<noteq> None \<and> tp_side_effect s \<in> learnable_effects \<and> \<not> tp_redacted s) steps"

lemma redacted_nothing: "\<not> carries_secret v \<Longrightarrow> fst (redacted v) = v"
  by (induction v rule: redacted.induct) (fastforce simp: list_ex_iff intro!: map_idI)+

lemma redacted_fields_nothing: "\<not> carries_secret (PDict d) \<Longrightarrow> fst (redacted_fields d) = d"
  using redacted_fields_dict [of d] redacted_nothing [of "PDict d"] by simp

lemma step_reasons_none: "step_reasons s = [] \<longleftrightarrow>
    tp_ok s \<and> tp_arguments s \<noteq> None \<and> tp_result s \<noteq> None \<and> tp_side_effect s \<in> learnable_effects \<and> \<not> tp_redacted s"
  by (auto simp: step_reasons_def Let_def)

lemma settled_eligible: "ot_eligible (settled_trace T g basis calls now tid k e) = teachable T g basis (pn_steps e)"
proof (cases "carries_secret (PDict (g_parameters g))")
  case True
  then show ?thesis using redacted_fields_dict [of "g_parameters g"]
    by (simp add: settled_trace_def teachable_def case_prod_unfold Let_def)
next
  case False
  then show ?thesis using redacted_fields_dict [of "g_parameters g"] redacted_fields_nothing [OF False]
    by (auto simp: settled_trace_def teachable_def case_prod_unfold Let_def ineligibility_def bounded_fields_def step_reasons_none list_all_iff)
qed

definition stored_occurrences :: "('x, 'o) store \<Rightarrow> string list" where
  "stored_occurrences st = map (\<lambda>(_, r). tr_occurrence r) (st_traces st)"

text \<open>
  What another task may do meanwhile: anything to other goals, and to the table of traces what
  the repository does: insert a trace under an identifier of its own unless its occurrence is there.
\<close>

definition harmless :: "string \<Rightarrow> string set \<Rightarrow> (recorder \<times> ('x, 'o) store \<Rightarrow> recorder \<times> ('x, 'o) store) \<Rightarrow> bool" where
  "harmless gid ids f \<longleftrightarrow> (\<forall>r st. case f (r, st) of (r', st') \<Rightarrow>
     (\<forall>k e. dict_get r k = Some e \<and> pn_goal_id e = gid \<longrightarrow> dict_get r' k = Some e)
     \<and> set (stored_occurrences st) \<subseteq> set (stored_occurrences st')
     \<and> (distinct (stored_occurrences st) \<longrightarrow> distinct (stored_occurrences st'))
     \<and> (\<forall>i\<in>ids. dict_get (st_traces st) i = None \<longrightarrow> dict_get (st_traces st') i = None))"

text \<open>The state \<open>finalize\<close> keeps: unique occurrences, and the identifiers it will draw are unused.\<close>

definition settling :: "string \<Rightarrow> ('x, 'o) tracing \<Rightarrow> bool" where
  "settling gid w \<longleftrightarrow> distinct (stored_occurrences (tg_store w)) \<and> inj (tg_new_id w)
     \<and> (\<forall>n\<ge>tg_ticks w. dict_get (st_traces (tg_store w)) (tg_new_id w n) = None)
     \<and> (\<forall>f\<in>set (tg_others w). harmless gid (range (tg_new_id w)) f)"

lemma insert_stores:
  assumes "dict_get (st_traces st) tid = None"
  shows "stored_occurrences (snd (insert_procedure_trace tid kind k payload st))
      = (if k \<in> set (stored_occurrences st) then stored_occurrences st else stored_occurrences st @ [k])"
    and "dict_get (st_traces (snd (insert_procedure_trace tid kind k payload st))) i
      = (if k \<notin> set (stored_occurrences st) \<and> i = tid then Some \<lparr>tr_goal_kind = kind, tr_occurrence = k, tr_payload = payload\<rparr>
         else dict_get (st_traces st) i)"
proof -
  have "list_ex (\<lambda>(_, r). tr_occurrence r = k) (st_traces st) = (k \<in> set (stored_occurrences st))"
    by (force simp: list_ex_iff stored_occurrences_def)
  moreover have "tid \<notin> fst ` set (st_traces st)" using assms by (simp add: dict_get_None)
  ultimately have ins: "snd (insert_procedure_trace tid kind k payload st) = (if k \<in> set (stored_occurrences st) then st
      else st\<lparr>st_traces := dict_set tid \<lparr>tr_goal_kind = kind, tr_occurrence = k, tr_payload = payload\<rparr> (st_traces st)\<rparr>)"
    and new: "tid \<notin> fst ` set (st_traces st)" using assms by (simp_all add: insert_procedure_trace_def)
  show "stored_occurrences (snd (insert_procedure_trace tid kind k payload st))
      = (if k \<in> set (stored_occurrences st) then stored_occurrences st else stored_occurrences st @ [k])"
    by (simp add: ins dict_set_absent [OF new] stored_occurrences_def)
  show "dict_get (st_traces (snd (insert_procedure_trace tid kind k payload st))) i
      = (if k \<notin> set (stored_occurrences st) \<and> i = tid then Some \<lparr>tr_goal_kind = kind, tr_occurrence = k, tr_payload = payload\<rparr>
         else dict_get (st_traces st) i)"
    by (simp add: ins dict_get_set)
qed

lemma harmlessD:
  assumes "harmless gid ids f" "f (r, st) = (r', st')"
  shows "dict_get r k = Some e \<Longrightarrow> pn_goal_id e = gid \<Longrightarrow> dict_get r' k = Some e"
    and "set (stored_occurrences st) \<subseteq> set (stored_occurrences st')"
    and "distinct (stored_occurrences st) \<Longrightarrow> distinct (stored_occurrences st')"
    and "i \<in> ids \<Longrightarrow> dict_get (st_traces st) i = None \<Longrightarrow> dict_get (st_traces st') i = None"
  using assms(1) [unfolded harmless_def, THEN spec, THEN spec, of r st] assms(2) by simp_all

definition gone_on :: "('x, 'o) tracing \<Rightarrow> ('x, 'o) tracing" where
  "gone_on w = (case tg_others w of [] \<Rightarrow> w
     | f # fs \<Rightarrow> (case f (tg_pending w, tg_store w) of (r, st) \<Rightarrow> w\<lparr>tg_pending := r, tg_store := st, tg_others := fs\<rparr>))"

definition keeps_pending :: "string \<Rightarrow> ('x, 'o) tracing \<Rightarrow> ('x, 'o) tracing \<Rightarrow> bool" where
  "keeps_pending gid w w' \<longleftrightarrow> (\<forall>k e. dict_get (tg_pending w) k = Some e \<and> pn_goal_id e = gid \<longrightarrow> dict_get (tg_pending w') k = Some e)"

lemma gone_on_settling:
  assumes "settling gid w"
  shows "settling gid (gone_on w) \<and> set (stored_occurrences (tg_store w)) \<subseteq> set (stored_occurrences (tg_store (gone_on w)))
    \<and> keeps_pending gid w (gone_on w) \<and> tg_new_id (gone_on w) = tg_new_id w \<and> tg_ticks (gone_on w) = tg_ticks w"
proof (cases "tg_others w")
  case Nil
  with assms show ?thesis by (simp add: gone_on_def keeps_pending_def)
next
  case (Cons f fs)
  obtain r st where f: "f (tg_pending w, tg_store w) = (r, st)" by (cases "f (tg_pending w, tg_store w)")
  from assms Cons have "harmless gid (range (tg_new_id w)) f" by (simp add: settling_def)
  note h = harmlessD [OF this f]
  from assms Cons f h show ?thesis by (auto simp: gone_on_def settling_def keeps_pending_def)
qed

text \<open>One round of the loop, after the entry was popped.\<close>

definition stored_round :: "(operation_trace \<Rightarrow> string) \<Rightarrow> operation_trace \<Rightarrow> ('x, 'o) tracing \<Rightarrow> ('x, 'o) tracing" where
  "stored_round render t w = (let u = gone_on (w\<lparr>tg_ticks := Suc (tg_ticks w)\<rparr>) in u\<lparr>tg_store :=
     snd (insert_procedure_trace (ot_trace_id t) (ot_goal_kind t) (ot_occurrence_id t) (render t) (tg_store u))\<rparr>)"

lemma stored_round_settling:
  assumes "settling gid w" "ot_trace_id t = tg_new_id w (tg_ticks w)"
  shows "settling gid (stored_round render t w) \<and> keeps_pending gid w (stored_round render t w)
    \<and> insert (ot_occurrence_id t) (set (stored_occurrences (tg_store w))) \<subseteq> set (stored_occurrences (tg_store (stored_round render t w)))"
proof -
  let ?u = "gone_on (w\<lparr>tg_ticks := Suc (tg_ticks w)\<rparr>)"
  have "settling gid (w\<lparr>tg_ticks := Suc (tg_ticks w)\<rparr>)" using assms(1) by (simp add: settling_def)
  note u = gone_on_settling [OF this]
  have harmless: "\<forall>f\<in>set (tg_others ?u). harmless gid (range (tg_new_id w)) f" using u unfolding settling_def by auto
  have fresh: "dict_get (st_traces (tg_store ?u)) (tg_new_id w (tg_ticks w)) = None"
  proof (cases "tg_others w")
    case Nil
    with assms(1) show ?thesis by (simp add: gone_on_def settling_def)
  next
    case (Cons f fs)
    with assms(1) have h: "harmless gid (range (tg_new_id w)) f" and none: "dict_get (st_traces (tg_store w)) (tg_new_id w (tg_ticks w)) = None"
      by (simp_all add: settling_def)
    obtain r st where f: "f (tg_pending w, tg_store w) = (r, st)" by (cases "f (tg_pending w, tg_store w)")
    from harmlessD(4) [OF h f rangeI none] Cons f show ?thesis by (simp add: gone_on_def)
  qed
  note ins = insert_stores [OF fresh, of "ot_goal_kind t" "ot_occurrence_id t" "render t"]
  have "inj (tg_new_id w)" using assms(1) by (simp add: settling_def)
  then have "tg_new_id w n \<noteq> tg_new_id w (tg_ticks w)" if "n > tg_ticks w" for n
    using that by (metis injD less_irrefl)
  with u harmless have "settling gid (stored_round render t w)"
    by (auto simp: settling_def stored_round_def Let_def assms(2) ins)
  moreover have "keeps_pending gid w (stored_round render t w)"
    using u by (simp add: keeps_pending_def stored_round_def Let_def)
  moreover have "insert (ot_occurrence_id t) (set (stored_occurrences (tg_store w))) \<subseteq> set (stored_occurrences (tg_store (stored_round render t w)))"
    using u by (auto simp: stored_round_def Let_def assms(2) ins)
  ultimately show ?thesis by simp
qed

lemma finalize_step:
  assumes "dict_get (tg_pending w) k = Some e"
  shows "finalize_loop T render g basis calls (k # ks) made w = (let w1 = w\<lparr>tg_pending := dict_del k (tg_pending w)\<rparr>;
      t = settled_trace T g basis calls (tg_clock w (tg_ticks w)) (tg_new_id w (tg_ticks w)) k e
    in finalize_loop T render g basis calls ks (made @ [t]) (stored_round render t w1))"
  using assms
  by (simp add: pop_pending_def op_defs store_trace_def tracing_suspend_def stored_round_def gone_on_def Let_def split: list.split prod.split)

lemma finalize_loop_settles:
  assumes "settling (g_id g) w" "distinct ks"
    and "\<forall>k\<in>set ks. \<exists>e. dict_get (tg_pending w) k = Some e \<and> pn_goal_id e = g_id g \<and> dict_get P0 k = Some e"
  shows "\<exists>new w'. finalize_loop T render g basis calls ks made w = (Inr (made @ new), w') \<and> map ot_occurrence_id new = ks
    \<and> (\<forall>t\<in>set new. \<exists>e. dict_get P0 (ot_occurrence_id t) = Some e \<and> ot_steps t = pn_steps e
         \<and> ot_eligible t = teachable T g basis (pn_steps e))
    \<and> distinct (stored_occurrences (tg_store w')) \<and> set (stored_occurrences (tg_store w)) \<union> set ks \<subseteq> set (stored_occurrences (tg_store w'))"
  using assms
proof (induction ks arbitrary: w made)
  case Nil
  then show ?case by (simp add: op_defs settling_def)
next
  case (Cons k ks)
  then obtain e where e: "dict_get (tg_pending w) k = Some e" "pn_goal_id e = g_id g" "dict_get P0 k = Some e" by auto
  let ?w1 = "w\<lparr>tg_pending := dict_del k (tg_pending w)\<rparr>"
  let ?t = "settled_trace T g basis calls (tg_clock w (tg_ticks w)) (tg_new_id w (tg_ticks w)) k e"
  have t: "ot_occurrence_id ?t = k" "ot_steps ?t = pn_steps e" "ot_trace_id ?t = tg_new_id w (tg_ticks w)"
    by (simp_all add: settled_trace_def case_prod_unfold Let_def)
  have "settling (g_id g) ?w1" using Cons.prems(1) by (simp add: settling_def)
  from stored_round_settling [OF this, of ?t render] t
  have r: "settling (g_id g) (stored_round render ?t ?w1)" "keeps_pending (g_id g) ?w1 (stored_round render ?t ?w1)"
    "insert k (set (stored_occurrences (tg_store w))) \<subseteq> set (stored_occurrences (tg_store (stored_round render ?t ?w1)))" by simp_all
  have "\<exists>e. dict_get (tg_pending (stored_round render ?t ?w1)) l = Some e \<and> pn_goal_id e = g_id g \<and> dict_get P0 l = Some e"
    if l: "l \<in> set ks" for l
  proof -
    from l Cons.prems(2,3) obtain e' where "dict_get (tg_pending w) l = Some e'" "pn_goal_id e' = g_id g" "dict_get P0 l = Some e'" "l \<noteq> k"
      by auto
    with r(2) show ?thesis by (auto simp: keeps_pending_def dict_get_del)
  qed
  then obtain new w' where IH: "finalize_loop T render g basis calls ks (made @ [?t]) (stored_round render ?t ?w1) = (Inr ((made @ [?t]) @ new), w')"
    "map ot_occurrence_id new = ks"
    "\<forall>t\<in>set new. \<exists>e. dict_get P0 (ot_occurrence_id t) = Some e \<and> ot_steps t = pn_steps e \<and> ot_eligible t = teachable T g basis (pn_steps e)"
    "distinct (stored_occurrences (tg_store w'))"
    "set (stored_occurrences (tg_store (stored_round render ?t ?w1))) \<union> set ks \<subseteq> set (stored_occurrences (tg_store w'))"
    using Cons.IH [OF r(1), of "made @ [?t]"] Cons.prems(2) by auto
  have "finalize_loop T render g basis calls (k # ks) made w = (Inr (made @ (?t # new)), w')"
    using finalize_step [OF e(1), of T render g basis calls ks made] IH(1) by (simp add: Let_def)
  moreover have "\<forall>t\<in>set (?t # new). \<exists>e. dict_get P0 (ot_occurrence_id t) = Some e \<and> ot_steps t = pn_steps e \<and> ot_eligible t = teachable T g basis (pn_steps e)"
    using IH(3) e(3) t settled_eligible [of T g basis calls] by auto
  moreover have "set (stored_occurrences (tg_store w)) \<union> set (k # ks) \<subseteq> set (stored_occurrences (tg_store w'))"
    using r(3) IH(5) by auto
  ultimately show ?case using IH(2,4) t(1) by (intro exI [of _ "?t # new"] exI [of _ w']) simp
qed


text \<open>Storing a trace under another identifier is harmless.\<close>

lemma insert_harmless: "tid \<notin> ids \<Longrightarrow> harmless gid ids (\<lambda>(r, st :: ('x, 'o) store). (r, snd (insert_procedure_trace tid kind k payload st)))"
proof -
  assume tid: "tid \<notin> ids"
  have "set (stored_occurrences st) \<subseteq> set (stored_occurrences (snd (insert_procedure_trace tid kind k payload st)))
    \<and> (distinct (stored_occurrences st) \<longrightarrow> distinct (stored_occurrences (snd (insert_procedure_trace tid kind k payload st))))
    \<and> (\<forall>i\<in>ids. dict_get (st_traces st) i = None \<longrightarrow> dict_get (st_traces (snd (insert_procedure_trace tid kind k payload st))) i = None)"
    for st :: "('x, 'o) store"
  proof (cases "dict_get (st_traces st) tid")
    case None
    from insert_stores [OF this] tid show ?thesis by auto
  next
    case (Some r)
    then show ?thesis by (simp add: insert_procedure_trace_def)
  qed
  then show ?thesis by (simp add: harmless_def)
qed

definition sample_step :: trace_step where
  "sample_step = \<lparr>tp_index = 0, tp_operation_key = harness_key ''g#0'' 0, tp_adapter = ''core.json_read'', tp_contract_version = 1,
     tp_side_effect = ''read'', tp_arguments = Some [(''path'', PStr ''a'')], tp_argument_digest = [], tp_ok = True, tp_code = [],
     tp_result = Some [(''value'', PDict [])], tp_result_digest = [], tp_redacted = False\<rparr>"

definition sample_trace_env :: trace_env where
  "sample_trace_env = \<lparr>te_canonical = (\<lambda>_. []), te_digest = (\<lambda>_. []), te_repr = (\<lambda>_. []), te_validate = (\<lambda>_. Inl [])\<rparr>"

definition sample_tracing :: "(unit, unit) tracing" where
  "sample_tracing = \<lparr>tg_pending = [(''g#0'', \<lparr>pn_goal_id = ''g'', pn_agent_id = ''a'', pn_steps = [sample_step]\<rparr>)],
     tg_store = empty_store, tg_clock = int, tg_new_id = show_nat, tg_ticks = 0,
     tg_others = [\<lambda>(r, st). (r, snd (insert_procedure_trace ''z'' ''copy'' ''h#0'' [] st))]\<rparr>"


section \<open>What an extracted procedure rests on\<close>

lemma bind_ext_Inr: "(bind_ext m f = Inr (Inr y)) = (\<exists>x. m = Inr (Inr x) \<and> f x = Inr (Inr y))"
  by (cases "(m, f)" rule: bind_ext.cases) auto

lemma not_compilable_Inr [simp]: "not_compilable ts \<noteq> Inr (Inr y)"
  by (simp add: not_compilable_def)

text \<open>An invariant of a fold is indexed by what has been processed.\<close>

lemma fold_ext_invariant:
  assumes "fold_ext f xs s = Inr (Inr s')" "P [] s"
    and "\<And>ys x zs s s'. xs = ys @ x # zs \<Longrightarrow> P ys s \<Longrightarrow> f x s = Inr (Inr s') \<Longrightarrow> P (ys @ [x]) s'"
  shows "P xs s'"
proof -
  have "P (ys @ rest) s'" if "xs = ys @ rest" "P ys s" "fold_ext f rest s = Inr (Inr s')" for ys rest s
    using that
  proof (induction rest arbitrary: ys s)
    case (Cons x rest)
    from Cons.prems(3) obtain u where u: "f x s = Inr (Inr u)" "fold_ext f rest u = Inr (Inr s')" by (auto simp: bind_ext_Inr)
    from assms(3) [OF Cons.prems(1,2) u(1)] Cons.IH [of "ys @ [x]", OF _ _ u(2)] Cons.prems(1) show ?case by simp
  qed simp
  from this [of "[]"] assms show ?thesis by simp
qed

text \<open>What a trace offers as the scopes of a run: its parameters, and the results of its first operations.\<close>

definition trace_result :: "operation_trace \<Rightarrow> nat \<Rightarrow> obj" where
  "trace_result t k = (case tp_result (ot_steps t ! k) of None \<Rightarrow> [] | Some d \<Rightarrow> d)"

definition trace_scopes :: "operation_trace \<Rightarrow> nat \<Rightarrow> scopes" where
  "trace_scopes t n = [(''goal'', PDict [(''parameters'', PDict (ot_parameters t))]),
     (''result'', PDict (map (\<lambda>k. (compiled_id k, PDict (trace_result t k))) [0..<n]))]"

text \<open>A binding that has, in every trace, the canonical text of the argument observed there.\<close>

definition matches_observed :: "trace_env \<Rightarrow> nat \<Rightarrow> string \<Rightarrow> operation_trace \<Rightarrow> pyval \<Rightarrow> bool" where
  "matches_observed T i name t x \<longleftrightarrow> (\<exists>u. dict_get (arguments_at i t) name = Some u \<and> te_canonical T x = te_canonical T u)"

definition fixed_value :: "trace_env \<Rightarrow> operation_trace list \<Rightarrow> nat \<Rightarrow> string \<Rightarrow> pyval \<Rightarrow> bool" where
  "fixed_value T cohort i name b \<longleftrightarrow> (\<exists>v. b = PDict [(''literal'', v)] \<and> (\<forall>t\<in>set cohort. matches_observed T i name t v))"

definition from_parameter :: "trace_env \<Rightarrow> operation_trace list \<Rightarrow> nat \<Rightarrow> string \<Rightarrow> pyval \<Rightarrow> bool" where
  "from_parameter T cohort i name b \<longleftrightarrow> (\<exists>p. b = ref_to ''goal'' [PStr ''parameters'', PStr p]
     \<and> (\<forall>t\<in>set cohort. \<exists>x. dict_get (ot_parameters t) p = Some x \<and> matches_observed T i name t x))"

definition from_result :: "trace_env \<Rightarrow> operation_trace list \<Rightarrow> nat \<Rightarrow> nat \<Rightarrow> string \<Rightarrow> pyval \<Rightarrow> bool" where
  "from_result T cohort n i name b \<longleftrightarrow> (\<exists>k parts. k < n \<and> b = ref_to ''result'' (PStr (compiled_id k) # parts)
     \<and> (\<forall>t\<in>set cohort. \<exists>x. result_field (PDict (trace_result t k)) parts = Inr (Some x) \<and> matches_observed T i name t x))"

definition justified :: "trace_env \<Rightarrow> operation_trace list \<Rightarrow> nat \<Rightarrow> nat \<Rightarrow> string \<Rightarrow> pyval \<Rightarrow> bool" where
  "justified T cohort n i name b \<longleftrightarrow> fixed_value T cohort i name b \<or> from_parameter T cohort i name b \<or> from_result T cohort n i name b"

lemma traces_agree_True:
  "traces_agree T source ps = Inr True \<Longrightarrow> (t, v) \<in> set ps \<Longrightarrow> \<exists>x. lookup_source T source t = Inr (Some x) \<and> te_canonical T x = te_canonical T v"
  by (induction T source ps rule: traces_agree.induct) (auto simp: bind_res_Inr split: option.splits if_splits)

lemma py_item_same:
  assumes "py_item xs j = Inr x" "length ys = length xs"
  shows "\<exists>k<length xs. x = xs ! k \<and> py_item ys j = Inr (ys ! k)"
proof (cases "j < 0")
  case True
  with assms show ?thesis by (intro exI [of _ "nat (int (length xs) + j)"]) (auto simp: py_item_def split: if_splits)
next
  case False
  with assms show ?thesis by (intro exI [of _ "nat j"]) (auto simp: py_item_def split: if_splits)
qed

lemma observed_arguments:
  assumes "map_res (\<lambda>t. dict_item (arguments_at i t) name) cohort = Inr observed" "t \<in> set cohort"
  shows "\<exists>u. dict_get (arguments_at i t) name = Some u \<and> (t, u) \<in> set (zip cohort observed)"
proof -
  from assms(1) have l: "list_all2 (\<lambda>t u. dict_item (arguments_at i t) name = Inr u) cohort observed" by (simp add: map_res_Inr)
  from assms(2) obtain k where k: "k < length cohort" "cohort ! k = t" by (auto simp: in_set_conv_nth)
  from l k have "dict_item (arguments_at i t) name = Inr (observed ! k)" "(t, observed ! k) \<in> set (zip cohort observed)"
    by (auto simp: list_all2_conv_all_nth set_zip)
  then show ?thesis by (auto simp: dict_item_def split: option.splits)
qed

lemma agreeing_source:
  assumes "traces_agree T source (zip cohort observed) = Inr True" "t \<in> set cohort"
    and "map_res (\<lambda>t. dict_item (arguments_at i t) name) cohort = Inr observed"
  shows "\<exists>x. lookup_source T source t = Inr (Some x) \<and> matches_observed T i name t x"
  using observed_arguments [OF assms(3,2)] traces_agree_True [OF assms(1)] unfolding matches_observed_def by blast

lemma source_justified:
  assumes agree: "\<And>t. t \<in> set cohort \<Longrightarrow> \<exists>x. lookup_source T source t = Inr (Some x) \<and> matches_observed T i name t x"
    and bind: "bind_source T (map compiled_id [0..<n]) first source = Inr (Inr (b, declared))"
    and len: "\<And>t. t \<in> set cohort \<Longrightarrow> length (ot_steps t) = n"
  shows "justified T cohort n i name b"
proof (cases "dict_get source ''param''")
  case (Some p)
  with bind have "b = ref_to ''goal'' [PStr ''parameters'', PStr (source_name T p)]"
    by (auto simp: bind_source_def split: option.splits)
  moreover have "\<exists>x. dict_get (ot_parameters t) (source_name T p) = Some x \<and> matches_observed T i name t x" if "t \<in> set cohort" for t
    using agree [OF that] Some by (simp add: lookup_source_def)
  ultimately show ?thesis unfolding justified_def from_parameter_def by blast
next
  case None
  with bind obtain j parts sid where j: "result_path source = Inr (j, parts)" "py_item (map compiled_id [0..<n]) j = Inr sid"
    "b = ref_to ''result'' (PStr sid # parts)" by (auto simp: bind_source_def bind_res_Inr)
  from py_item_same [OF j(2), of "[0..<n]"] obtain k where k: "k < n" "sid = compiled_id k" "py_item [0..<n] j = Inr k" by auto
  have "\<exists>x. result_field (PDict (trace_result t k)) parts = Inr (Some x) \<and> matches_observed T i name t x" if t: "t \<in> set cohort" for t
  proof -
    from agree [OF t] obtain x where x: "lookup_source T source t = Inr (Some x)" "matches_observed T i name t x" by blast
    with None j(1) obtain s d where s: "py_item (ot_steps t) j = Inr s" "tp_result s = Some d" "result_field (PDict d) parts = Inr (Some x)"
      by (auto simp: lookup_source_def bind_res_Inr split: if_splits option.splits)
    from py_item_same [OF k(3), of "ot_steps t"] len [OF t] k(1) s(1) have "s = ot_steps t ! k" by auto
    with s x(2) show ?thesis by (auto simp: trace_result_def)
  qed
  with k j(3) show ?thesis unfolding justified_def from_result_def by blast
qed

lemma argument_justified:
  assumes bind: "bind_argument T bindings (map compiled_id [0..<n]) first cohort i name = Inr (Inr (b, declared, fixed))"
    and len: "\<And>t. t \<in> set cohort \<Longrightarrow> length (ot_steps t) = n"
  shows "justified T cohort n i name b"
proof -
  from bind obtain observed where o: "map_res (\<lambda>t. dict_item (arguments_at i t) name) cohort = Inr observed"
    by (auto simp: bind_argument_def Let_def bind_res_Inr)
  show ?thesis
  proof (cases "dict_get bindings (show_nat i @ ''.'' @ name)")
    case (Some source)
    with bind o have "traces_agree T source (zip cohort observed) = Inr True"
      and s: "bind_source T (map compiled_id [0..<n]) first source = Inr (Inr (b, declared))"
      by (auto simp: bind_argument_def Let_def bind_res_Inr bind_ext_Inr split: if_splits)
    from agreeing_source [OF this(1) _ o] source_justified [OF _ s len] show ?thesis by blast
  next
    case None
    with bind o obtain v rest where v: "observed = v # rest" "list_all (\<lambda>u. te_canonical T u = te_canonical T v) rest" "b = PDict [(''literal'', v)]"
      by (auto simp: bind_argument_def Let_def bind_res_Inr split: list.splits if_splits)
    have "matches_observed T i name t v" if t: "t \<in> set cohort" for t
    proof -
      from observed_arguments [OF o t] obtain u where "dict_get (arguments_at i t) name = Some u" "u \<in> set observed"
        by (auto dest: set_zip_rightD)
      with v show ?thesis unfolding matches_observed_def by (auto simp: list_all_iff)
    qed
    with v(3) show ?thesis unfolding justified_def fixed_value_def by blast
  qed
qed

definition compiled :: "trace_env \<Rightarrow> operation_trace list \<Rightarrow> nat \<Rightarrow> nat \<Rightarrow> obj \<Rightarrow> bool" where
  "compiled T cohort n i args \<longleftrightarrow> dict_ok args \<and> (\<forall>t\<in>set cohort. fst ` set args = fst ` set (arguments_at i t))
     \<and> (\<forall>(name, b)\<in>set args. justified T cohort n i name b)"

lemma step_compiled:
  assumes run: "compile_step T bindings first cohort i (steps, parameters, restrictions) = Inr (Inr (steps', rest))"
    and len: "\<And>t. t \<in> set cohort \<Longrightarrow> length (ot_steps t) = length (ot_steps first)"
  shows "\<exists>args. steps' = steps @ [tool_entry (length (ot_steps first)) i (ot_steps first ! i) args]
    \<and> compiled T cohort (length (ot_steps first)) i args"
proof -
  let ?n = "length (ot_steps first)" and ?names = "fst ` set (arguments_at i first)"
  let ?add = "\<lambda>name (args, parameters, restrictions).
      bind_ext (bind_argument T bindings (map compiled_id [0..<?n]) first cohort i name) (\<lambda>(b, declared, fixed).
        Inr (Inr (dict_set name b args, dict_update parameters declared, restrictions @ fixed)))"
  from run have same: "\<forall>t\<in>set cohort. fst ` set (arguments_at i t) = ?names"
    by (auto simp: compile_step_def Let_def list_ex_iff split: if_splits)
  from run same obtain args ps rs where f: "fold_ext ?add (sorted_list_of_set ?names) ([], parameters, restrictions) = Inr (Inr (args, ps, rs))"
    "steps' = steps @ [tool_entry ?n i (ot_steps first ! i) args]"
    by (auto simp: compile_step_def Let_def bind_ext_Inr split: if_splits)
  have "(\<lambda>ys (args, _). dict_ok args \<and> fst ` set args = set ys \<and> (\<forall>(name, b)\<in>set args. justified T cohort ?n i name b))
      (sorted_list_of_set ?names) (args, ps, rs)"
  proof (rule fold_ext_invariant [OF f(1)])
    fix ys x zs s s'
    assume inv: "case s of (args, _) \<Rightarrow> dict_ok args \<and> fst ` set args = set ys \<and> (\<forall>(name, b)\<in>set args. justified T cohort ?n i name b)"
      and step: "?add x s = Inr (Inr s')"
    obtain args parameters restrictions where s: "s = (args, parameters, restrictions)" by (cases s)
    with step obtain b declared fixed where b: "bind_argument T bindings (map compiled_id [0..<?n]) first cohort i x = Inr (Inr (b, declared, fixed))"
      "s' = (dict_set x b args, dict_update parameters declared, restrictions @ fixed)"
      by (auto simp: bind_ext_Inr)
    from argument_justified [OF b(1) len] have "justified T cohort ?n i x b" .
    with inv s show "case s' of (args, _) \<Rightarrow> dict_ok args \<and> fst ` set args = set (ys @ [x]) \<and> (\<forall>(name, b)\<in>set args. justified T cohort ?n i name b)"
      unfolding b(2) by (auto simp: keys_dict_set dest!: dict_set_entries)
  qed simp
  with same f(2) show ?thesis by (auto simp: compiled_def)
qed

lemma steps_compiled:
  assumes run: "fold_ext (compile_step T bindings first cohort) [0..<length (ot_steps first)] ([], [], []) = Inr (Inr (steps, rest))"
    and len: "\<And>t. t \<in> set cohort \<Longrightarrow> length (ot_steps t) = length (ot_steps first)"
  shows "length steps = length (ot_steps first) \<and> (\<forall>i<length (ot_steps first). \<exists>args.
    steps ! i = tool_entry (length (ot_steps first)) i (ot_steps first ! i) args \<and> compiled T cohort (length (ot_steps first)) i args)"
proof -
  let ?n = "length (ot_steps first)"
  let ?P = "\<lambda>ys (steps :: obj list, _). length steps = length ys \<and> (\<forall>i<length ys. \<exists>args.
    steps ! i = tool_entry ?n i (ot_steps first ! i) args \<and> compiled T cohort ?n i args)"
  have "?P [0..<?n] (steps, rest)"
  proof (rule fold_ext_invariant [OF run])
    fix ys x zs s s'
    assume upt: "[0..<?n] = ys @ x # zs" and inv: "?P ys s" and step: "compile_step T bindings first cohort x s = Inr (Inr s')"
    from upt have x: "x = length ys" by (metis add_0 le_add1 length_append length_upt nth_append_length nth_upt length_Cons minus_nat.diff_0 less_add_same_cancel1 zero_less_Suc)
    obtain st parameters restrictions where s: "s = (st, parameters, restrictions)" by (cases s)
    obtain st' r' where s': "s' = (st', r')" by (cases s')
    from step_compiled [OF step [unfolded s s'] len] obtain args where "st' = st @ [tool_entry ?n x (ot_steps first ! x) args]" "compiled T cohort ?n x args" by blast
    with inv s s' x show "?P (ys @ [x]) s'" by (auto simp: nth_append less_Suc_eq)
  qed simp
  then show ?thesis by simp
qed

section \<open>What its arguments resolve to\<close>

lemma compiled_id_inj [simp]: "compiled_id i = compiled_id j \<longleftrightarrow> i = j"
  by (simp add: compiled_id_def)

lemma result_field_lookup: "result_field node parts = Inr (Some x) \<Longrightarrow> lookup_parts node parts = Inr (Some x)"
  by (induction node parts rule: result_field.induct)
    (auto simp: lookup_part_def dict_get_def bind_res_Inr split: pyval.splits if_splits option.splits)

lemma resolve_ref_to:
  assumes "lookup scopes (PStr scope) (PList parts) = Inr (Some v)"
  shows "resolve (ref_to scope parts) scopes path = Inr v"
  using assms by (simp add: ref_to_def resolve.simps is_ref_def)

lemma resolve_literal: "resolve (PDict [(''literal'', v)]) scopes path = Inr v"
  by (simp add: resolve.simps is_ref_def is_literal_def)

lemma map_of_upt:
  assumes "k < m"
  shows "map_of (map (\<lambda>k. (compiled_id k, f k)) [0..<m]) (compiled_id k) = Some (f k)"
proof -
  have "distinct (map fst (map (\<lambda>k. (compiled_id k, f k)) [0..<m]))" by (simp add: distinct_map inj_on_def comp_def)
  with assms show ?thesis by (auto intro: map_of_is_SomeI)
qed

lemma justified_resolves:
  assumes "justified T cohort n i name b" "t \<in> set cohort"
    and "\<And>k parts. b = ref_to ''result'' (PStr (compiled_id k) # parts) \<Longrightarrow> k < m"
  shows "\<exists>x. (\<forall>path. resolve b (trace_scopes t m) path = Inr x) \<and> matches_observed T i name t x"
proof -
  consider "fixed_value T cohort i name b" | "from_parameter T cohort i name b" | "from_result T cohort n i name b"
    using assms(1) unfolding justified_def by blast
  then show ?thesis
  proof cases
    case 1
    with assms(2) show ?thesis unfolding fixed_value_def using resolve_literal by blast
  next
    case 2
    then obtain p x where b: "b = ref_to ''goal'' [PStr ''parameters'', PStr p]" "dict_get (ot_parameters t) p = Some x" "matches_observed T i name t x"
      using assms(2) unfolding from_parameter_def by blast
    have "lookup (trace_scopes t m) (PStr ''goal'') (PList [PStr ''parameters'', PStr p]) = Inr (Some x)"
      using b(2) by (simp add: lookup_def trace_scopes_def lookup_part_def dict_get_def)
    with b resolve_ref_to show ?thesis by blast
  next
    case 3
    then obtain k parts x where b: "b = ref_to ''result'' (PStr (compiled_id k) # parts)" "matches_observed T i name t x"
      "result_field (PDict (trace_result t k)) parts = Inr (Some x)"
      using assms(2) unfolding from_result_def by blast
    have "lookup (trace_scopes t m) (PStr ''result'') (PList (PStr (compiled_id k) # parts)) = Inr (Some x)"
      using result_field_lookup [OF b(3)] map_of_upt [OF assms(3) [OF b(1)], of "\<lambda>k. PDict (trace_result t k)"]
      by (simp add: lookup_def trace_scopes_def lookup_part_def dict_get_def)
    with b resolve_ref_to show ?thesis by blast
  qed
qed

lemma map_res_exists:
  assumes "\<And>x. x \<in> set xs \<Longrightarrow> \<exists>y. f x = Inr y \<and> Q x y"
  shows "\<exists>ys. map_res f xs = Inr ys \<and> list_all2 Q xs ys"
  using assms
proof (induction xs)
  case (Cons x xs)
  then obtain y ys where "f x = Inr y" "Q x y" "map_res f xs = Inr ys" "list_all2 Q xs ys" by (metis list.set_intros)
  then show ?case by auto
qed simp

text \<open>The arguments of operation \<open>i\<close>, resolved with what the trace had after \<open>m\<close> operations, are the observed ones.\<close>

definition reproduces :: "trace_env \<Rightarrow> nat \<Rightarrow> nat \<Rightarrow> obj \<Rightarrow> operation_trace \<Rightarrow> bool" where
  "reproduces T i m args t \<longleftrightarrow> (\<exists>vs. resolve (PDict args) (trace_scopes t m) ''$'' = Inr (PDict vs)
     \<and> fst ` set vs = fst ` set (arguments_at i t) \<and> (\<forall>(name, x)\<in>set vs. matches_observed T i name t x))"

lemma compiled_reproduces:
  assumes c: "compiled T cohort n i args" and t: "t \<in> set cohort" and names: "fst ` set args \<inter> {''ref'', ''literal''} = {}"
    and early: "\<And>name k parts. (name, ref_to ''result'' (PStr (compiled_id k) # parts)) \<in> set args \<Longrightarrow> k < m"
  shows "reproduces T i m args t"
proof -
  let ?f = "\<lambda>(name, b). bind_res (resolve b (trace_scopes t m) (dot ''$'' name)) (\<lambda>v. Inr (name, v))"
  let ?Q = "\<lambda>(name, b) (name', x). name' = name \<and> matches_observed T i name t x"
  have "\<exists>y. ?f e = Inr y \<and> ?Q e y" if e: "e \<in> set args" for e
  proof -
    obtain name b where eb: "e = (name, b)" by (cases e)
    with e c have "justified T cohort n i name b" by (auto simp: compiled_def)
    from justified_resolves [OF this t, of m] early e eb
    obtain x where "\<forall>path. resolve b (trace_scopes t m) path = Inr x" "matches_observed T i name t x" by blast
    with eb show ?thesis by auto
  qed
  from map_res_exists [of args ?f ?Q, OF this] obtain vs where vs: "map_res ?f args = Inr vs" "list_all2 ?Q args vs" by blast
  have "\<not> is_ref (PDict args) \<and> \<not> is_literal (PDict args)" using names by (intro not_reserved) auto
  with vs(1) have "resolve (PDict args) (trace_scopes t m) ''$'' = Inr (PDict vs)" by (simp add: resolve.simps)
  moreover from vs(2) have "map fst vs = map fst args" "\<forall>(name, x)\<in>set vs. matches_observed T i name t x"
    by (induction rule: list_all2_induct) auto
  moreover from this(1) have "fst ` set vs = fst ` set args" by (metis set_map)
  moreover from c t have "fst ` set args = fst ` set (arguments_at i t)" by (simp add: compiled_def)
  ultimately show ?thesis unfolding reproduces_def by (intro exI [of _ vs] conjI) simp_all
qed

section \<open>Lineage only from earlier operations\<close>

text \<open>What pydantic makes of the dictionaries of a learned definition: the fields as they are written.\<close>

fun reads_step :: "obj \<Rightarrow> step \<Rightarrow> bool" where
  "reads_step e (Tool s) \<longleftrightarrow> dict_get e ''kind'' = Some (PStr ''tool'') \<and> dict_get e ''id'' = Some (PStr (ts_id s))
     \<and> dict_get e ''adapter'' = Some (PStr (ts_adapter s)) \<and> dict_get e ''contract_version'' = Some (PInt (ts_contract_version s))
     \<and> dict_get e ''arguments'' = Some (PDict (ts_arguments s)) \<and> dict_get e ''next'' = Some (PStr (ts_next s))"
| "reads_step e (Validate s) \<longleftrightarrow> dict_get e ''kind'' = Some (PStr ''validate'') \<and> dict_get e ''id'' = Some (PStr (vs_id s))
     \<and> dict_get e ''check'' = Some (PStr (vs_check s)) \<and> dict_get e ''arguments'' = Some (PDict (vs_arguments s))
     \<and> dict_get e ''next'' = Some (PStr (vs_next s))"
| "reads_step e (Complete s) \<longleftrightarrow> dict_get e ''kind'' = Some (PStr ''complete'') \<and> dict_get e ''id'' = Some (PStr (ks_id s))
     \<and> dict_get e ''result'' = Some (PDict (ks_result s))"
| "reads_step e _ \<longleftrightarrow> dict_get e ''kind'' \<notin> {Some (PStr ''tool''), Some (PStr ''validate''), Some (PStr ''complete'')}"

definition faithful_parser :: "trace_env \<Rightarrow> bool" where
  "faithful_parser T \<longleftrightarrow> (\<forall>raw d. te_validate T (PDict raw) = Inr d \<longrightarrow> dict_get raw ''entry_step_id'' = Some (PStr (pd_entry_step_id d))
     \<and> (\<exists>es. dict_get raw ''steps'' = Some (PList (map PDict es)) \<and> list_all2 reads_step es (pd_steps d)))"

text \<open>The step of an operation, in the compiled list and in the definition it is closed into.\<close>

lemma close_steps_nth:
  assumes "i < length steps"
  shows "close_steps steps fin check ! i = (if i + 1 = length steps \<and> check = None then dict_set ''next'' (PStr ''done'') (steps ! i) else steps ! i)"
  using assms by (cases steps rule: rev_cases) (auto simp: close_steps_def nth_append split: option.split)

lemma close_steps_length: "steps \<noteq> [] \<Longrightarrow> length (close_steps steps fin check) > length steps"
  by (cases check) (simp_all add: close_steps_def)

lemma tool_entry_get:
  "dict_get (tool_entry n i s args) ''kind'' = Some (PStr ''tool'')" "dict_get (tool_entry n i s args) ''id'' = Some (PStr (compiled_id i))"
  "dict_get (tool_entry n i s args) ''adapter'' = Some (PStr (tp_adapter s))"
  "dict_get (tool_entry n i s args) ''contract_version'' = Some (PInt (tp_contract_version s))"
  "dict_get (tool_entry n i s args) ''arguments'' = Some (PDict args)"
  "i + 1 < n \<Longrightarrow> dict_get (tool_entry n i s args) ''next'' = Some (PStr (compiled_id (i + 1)))"
  by (simp_all add: tool_entry_def dict_get_def)

definition is_operation :: "trace_step \<Rightarrow> nat \<Rightarrow> obj \<Rightarrow> obj \<Rightarrow> bool" where
  \<comment> \<open>a tool step for an operation, with these arguments\<close>
  "is_operation s i args e \<longleftrightarrow> dict_get e ''kind'' = Some (PStr ''tool'') \<and> dict_get e ''id'' = Some (PStr (compiled_id i))
     \<and> dict_get e ''adapter'' = Some (PStr (tp_adapter s)) \<and> dict_get e ''contract_version'' = Some (PInt (tp_contract_version s))
     \<and> dict_get e ''arguments'' = Some (PDict args)"

lemma closed_operation:
  assumes "i < length steps" "steps ! i = tool_entry (length steps) i s args"
  shows "is_operation s i args (close_steps steps fin check ! i)"
    and "i + 1 < length steps \<Longrightarrow> dict_get (close_steps steps fin check ! i) ''next'' = Some (PStr (compiled_id (i + 1)))"
  using assms by (auto simp: close_steps_nth is_operation_def dict_get_set tool_entry_get)

lemma reads_operation:
  assumes "reads_step e st" "is_operation s i args e"
  shows "\<exists>t. st = Tool t \<and> ts_id t = compiled_id i \<and> ts_arguments t = args \<and> dict_get e ''next'' = Some (PStr (ts_next t))"
  using assms by (cases st) (auto simp: is_operation_def)

text \<open>The operations form a path from the entry, so what is guaranteed at one of them is produced by an earlier one.\<close>

lemma compiled_walk:
  assumes steps: "\<And>i. i < n \<Longrightarrow> \<exists>t. Tool t \<in> set (pd_steps d) \<and> ts_id t = compiled_id i \<and> (i + 1 < n \<longrightarrow> ts_next t = compiled_id (i + 1))"
    and i: "i < n"
  shows "walk (step_arcs d) (map compiled_id [0..<i] @ [compiled_id i])"
  using i
proof (induction i)
  case (Suc i)
  from steps [of i] Suc.prems obtain t where "Tool t \<in> set (pd_steps d)" "ts_id t = compiled_id i" "ts_next t = compiled_id (Suc i)" by auto
  then have "(compiled_id i, compiled_id (Suc i)) \<in> step_arcs d" unfolding step_arcs_def by force
  with Suc show ?case by (simp add: walk_snoc)
qed simp

lemma guaranteed_earlier:
  assumes steps: "\<And>i. i < n \<Longrightarrow> \<exists>t. Tool t \<in> set (pd_steps d) \<and> ts_id t = compiled_id i \<and> (i + 1 < n \<longrightarrow> ts_next t = compiled_id (i + 1))"
    and entry: "pd_entry_step_id d = compiled_id 0" and i: "i < n" and g: "compiled_id k \<in> guaranteed d (compiled_id i)"
  shows "k < i"
proof -
  have "hd (map compiled_id [0..<i] @ [compiled_id i]) = pd_entry_step_id d" using entry by (cases i) (simp_all add: upt_rec [of 0])
  with compiled_walk [OF steps i] g have "compiled_id k \<in> set (map compiled_id [0..<i])" unfolding guaranteed_def by blast
  then show ?thesis by auto
qed

lemma iter_refs_binding:
  assumes "justified T cohort n i name b"
  shows "\<exists>refs. iter_refs b path = Inr refs \<and> (\<forall>scope parts. parts \<noteq> [] \<longrightarrow> b = ref_to scope parts \<longrightarrow> (path, PStr scope, parts) \<in> set refs)"
proof -
  have refs: "iter_refs (ref_to scope parts) path = Inr [(path, PStr scope, parts)]" if "parts \<noteq> []" for scope parts
    using that by (simp add: ref_to_def iter_refs.simps is_ref_def ref_parts_def)
  have none: "iter_refs (PDict [(''literal'', v)]) path = Inr []" for v
    by (simp add: iter_refs.simps is_ref_def is_literal_def)
  have ne: "ref_to scope parts \<noteq> PDict [(''literal'', v)]" for scope parts v by (simp add: ref_to_def)
  have inj: "ref_to scope parts = ref_to scope' parts' \<longleftrightarrow> scope = scope' \<and> parts = parts'" for scope parts scope' parts'
    by (auto simp: ref_to_def)
  from assms consider (lit) v where "b = PDict [(''literal'', v)]" | (ref) scope parts where "b = ref_to scope parts" "parts \<noteq> []"
    unfolding justified_def fixed_value_def from_parameter_def from_result_def by blast
  then show ?thesis
  proof cases
    case lit
    with none ne show ?thesis by metis
  next
    case ref
    have "iter_refs b path = Inr [(path, PStr scope, parts)]" unfolding ref(1) by (rule refs [OF ref(2)])
    with ref(1) inj show ?thesis by auto
  qed
qed

lemma arguments_refs:
  assumes c: "compiled T cohort n i args" and names: "fst ` set args \<inter> {''ref'', ''literal''} = {}"
    and r: "(name, ref_to scope parts) \<in> set args" "parts \<noteq> []"
  shows "\<exists>refs q. iter_refs (PDict args) ''$'' = Inr refs \<and> (q, PStr scope, parts) \<in> set refs"
proof -
  have plain: "\<not> is_ref (PDict args) \<and> \<not> is_literal (PDict args)" using names by (intro not_reserved) auto
  have each: "\<exists>ys. (\<lambda>(name, b). iter_refs b (dot ''$'' name)) e = Inr ys" if "e \<in> set args" for e
    using that c iter_refs_binding by (fastforce simp: compiled_def)
  obtain refs where refs: "concat_res (\<lambda>(name, b). iter_refs b (dot ''$'' name)) args = Inr refs"
    "set refs = (\<Union>e\<in>set args. case (\<lambda>(name, b). iter_refs b (dot ''$'' name)) e of Inr zs \<Rightarrow> set zs | Inl _ \<Rightarrow> {})"
    using concat_res_total [of args "\<lambda>(name, b). iter_refs b (dot ''$'' name)", OF each] by auto
  from r(1) c have "justified T cohort n i name (ref_to scope parts)" by (auto simp: compiled_def)
  from iter_refs_binding [OF this, of "dot ''$'' name"] r(2) obtain ys where "iter_refs (ref_to scope parts) (dot ''$'' name) = Inr ys"
    "(dot ''$'' name, PStr scope, parts) \<in> set ys" by blast
  with r(1) refs(2) have "(dot ''$'' name, PStr scope, parts) \<in> set refs" by force
  with refs(1) plain show ?thesis by (auto simp: iter_refs.simps)
qed

section \<open>The properties of an extracted procedure\<close>

definition by_occurrence :: "(string, operation_trace) dict \<Rightarrow> bool" where
  "by_occurrence d \<longleftrightarrow> dict_ok d \<and> map fst d = map (\<lambda>e. ot_occurrence_id (snd e)) d"

lemma add_occurrence_facts:
  assumes "by_occurrence d"
  shows "by_occurrence (add_occurrence t d)" "snd ` set (add_occurrence t d) \<subseteq> insert t (snd ` set d)"
    "fst ` set (add_occurrence t d) = insert (ot_occurrence_id t) (fst ` set d)"
proof -
  have "dict_set (ot_occurrence_id t) t d = d @ [(ot_occurrence_id t, t)]" if "dict_get d (ot_occurrence_id t) = None"
    using that by (simp add: dict_set_absent dict_get_None)
  moreover have "dict_ok (dict_set (ot_occurrence_id t) t d)" using assms by (auto simp: by_occurrence_def)
  ultimately show "by_occurrence (add_occurrence t d)" "snd ` set (add_occurrence t d) \<subseteq> insert t (snd ` set d)"
    using assms by (auto simp: add_occurrence_def by_occurrence_def)
  show "fst ` set (add_occurrence t d) = insert (ot_occurrence_id t) (fst ` set d)"
    by (auto simp: add_occurrence_def keys_dict_set dict_get_None)
qed

lemma fold_add_occurrence:
  "by_occurrence d \<Longrightarrow> by_occurrence (fold add_occurrence us d) \<and> snd ` set (fold add_occurrence us d) \<subseteq> snd ` set d \<union> set us
    \<and> fst ` set (fold add_occurrence us d) = fst ` set d \<union> ot_occurrence_id ` set us"
proof (induction us arbitrary: d)
  case (Cons t us)
  note step = add_occurrence_facts [OF Cons.prems, of t]
  from Cons.IH [OF step(1)] have run: "by_occurrence (fold add_occurrence (t # us) d)"
    "snd ` set (fold add_occurrence (t # us) d) \<subseteq> snd ` set (add_occurrence t d) \<union> set us"
    "fst ` set (fold add_occurrence (t # us) d) = fst ` set (add_occurrence t d) \<union> ot_occurrence_id ` set us" by simp_all
  with step(2,3) show ?case by (intro conjI; simp; blast)
qed simp

lemma distinct_occurrences_facts:
  "distinct (map ot_occurrence_id (distinct_occurrences ts))" "set (distinct_occurrences ts) \<subseteq> {t \<in> set ts. ot_eligible t}"
  "ot_occurrence_id ` set (distinct_occurrences ts) = ot_occurrence_id ` {t \<in> set ts. ot_eligible t}"
proof -
  let ?d = "fold add_occurrence (filter ot_eligible ts) []"
  have empty: "by_occurrence []" by (simp add: by_occurrence_def)
  have d: "by_occurrence ?d" "snd ` set ?d \<subseteq> set (filter ot_eligible ts)" "fst ` set ?d = ot_occurrence_id ` set (filter ot_eligible ts)"
    using fold_add_occurrence [OF empty, of "filter ot_eligible ts"] by simp_all
  from d(1) have keys: "map ot_occurrence_id (distinct_occurrences ts) = map fst ?d"
    by (simp add: by_occurrence_def distinct_occurrences_def)
  with d(1) show "distinct (map ot_occurrence_id (distinct_occurrences ts))" by (simp add: by_occurrence_def dict_ok_def)
  show "set (distinct_occurrences ts) \<subseteq> {t \<in> set ts. ot_eligible t}" using d(2) by (auto simp: distinct_occurrences_def)
  from keys have "ot_occurrence_id ` set (distinct_occurrences ts) = fst ` set ?d" by (metis set_map)
  then show "ot_occurrence_id ` set (distinct_occurrences ts) = ot_occurrence_id ` {t \<in> set ts. ot_eligible t}" unfolding d(3) by auto
qed

lemma cohort_facts:
  assumes "cohort_of us = first # rest"
  shows "first # rest = filter (\<lambda>t. trace_signature t = trace_signature first) us"
    and "count_list (map trace_signature us) sig \<le> length (first # rest)"
proof -
  let ?sigs = "map trace_signature us"
  from assms obtain best where best: "py_max (count_list ?sigs) ?sigs = Some best" "first # rest = filter (\<lambda>t. trace_signature t = best) us"
    by (auto simp: cohort_of_def Let_def split: option.splits)
  have "first \<in> set (filter (\<lambda>t. trace_signature t = best) us)" unfolding best(2) [symmetric] by simp
  then have "trace_signature first = best" by simp
  with best(2) show "first # rest = filter (\<lambda>t. trace_signature t = trace_signature first) us" by simp
  have count: "count_list ?sigs s = length (filter (\<lambda>t. trace_signature t = s) us)" for s by (induction us) auto
  show "count_list ?sigs sig \<le> length (first # rest)"
  proof (cases "sig \<in> set ?sigs")
    case True
    with py_max_Some [OF best(1)] have "count_list ?sigs sig \<le> count_list ?sigs best" by blast
    then show ?thesis unfolding best(2) count .
  next
    case False
    then show ?thesis by (simp add: count_list_0_iff)
  qed
qed

text \<open>What stops an extraction early is a refusal.\<close>

definition only_refuses :: "'a extraction \<Rightarrow> bool" where
  "only_refuses m \<longleftrightarrow> (\<forall>r. m = Inr (Inl r) \<longrightarrow> \<not> cr_ok r)"

lemma only_refuses_base [intro!]: "only_refuses (not_compilable ts)" "only_refuses (Inr (Inr x))" "only_refuses (Inl e)"
  by (simp_all add: only_refuses_def not_compilable_def refused_candidate_def)

lemma only_refuses_bind_res [intro!]: "(\<And>x. only_refuses (f x)) \<Longrightarrow> only_refuses (bind_res m f)"
  by (cases m) (auto simp: only_refuses_def)

lemma only_refuses_bind_ext [intro!]: "only_refuses m \<Longrightarrow> (\<And>x. only_refuses (f x)) \<Longrightarrow> only_refuses (bind_ext m f)"
  by (cases "(m, f)" rule: bind_ext.cases) (auto simp: only_refuses_def)

lemma only_refuses_fold_ext [intro!]: "(\<And>x s. only_refuses (f x s)) \<Longrightarrow> only_refuses (fold_ext f xs s)"
  by (induction xs arbitrary: s) auto

lemma bind_source_refuses [intro!]: "only_refuses (bind_source T ids first source)"
  by (auto simp: bind_source_def split: option.split prod.split)

lemma bind_argument_refuses [intro!]: "only_refuses (bind_argument T bindings ids first cohort i name)"
  by (auto simp: bind_argument_def Let_def split: option.split list.split)

lemma compile_step_refuses [intro!]: "only_refuses (compile_step T bindings first cohort i s)"
  by (auto simp: compile_step_def Let_def split: prod.split)

lemma compile_cohort_refuses [intro!]: "only_refuses (compile_cohort T cohort first bindings cat revision)"
  by (auto simp: compile_cohort_def Let_def split: prod.split)

lemma extract_candidate_ok:
  assumes "extract_candidate T ts bm cat revision minimum = Inr r" "cr_ok r"
  obtains first rest d report steps parameters restrictions output_schema fin check
  where "cohort_of (distinct_occurrences ts) = first # rest" "\<forall>t\<in>set (first # rest). ot_goal_kind t = ot_goal_kind first"
    "minimum \<le> int (length (first # rest))" "\<not> map_refused bm (ot_goal_kind first)"
    "fold_ext (compile_step T (case bm of None \<Rightarrow> [] | Some m \<Rightarrow> bm_bindings m) first (first # rest)) [0..<length (ot_steps first)] ([], [], [])
       = Inr (Inr (steps, parameters, restrictions))"
    "terminal_steps first (map compiled_id [0..<length (ot_steps first)]) (case bm of None \<Rightarrow> [] | Some m \<Rightarrow> bm_bindings m)
       = Inr (output_schema, fin, check)"
    "d = candidate_definition cat revision (first # rest) first parameters restrictions output_schema (close_steps steps fin check)"
    "validate_definition (\<lambda>v. utf8_length (te_canonical T v)) (te_validate T) (Raw (PDict d)) cat default_limits = Inr report" "vr_ok report"
    "cr_definition r = Some d" "cr_source_traces r = map ot_trace_id (first # rest)" "cr_restrictions r = restrictions"
proof (cases "cohort_of (distinct_occurrences ts)")
  case Nil
  with assms show thesis by (auto simp: extract_candidate_def refused_candidate_def)
next
  case (Cons first rest)
  let ?B = "case bm of None \<Rightarrow> [] | Some m \<Rightarrow> bm_bindings m"
  have kinds: "list_all (\<lambda>t. ot_goal_kind t = ot_goal_kind first) rest"
    using assms Cons by (auto simp: extract_candidate_def refused_candidate_def Let_def split: if_splits)
  have size: "minimum \<le> int (length (first # rest))"
    using assms Cons kinds by (auto simp: extract_candidate_def refused_candidate_def Let_def split: if_splits)
  have map_ok: "\<not> map_refused bm (ot_goal_kind first)"
    using assms Cons kinds size by (auto simp: extract_candidate_def refused_candidate_def Let_def split: if_splits)
  obtain res where res: "compile_cohort T (first # rest) first ?B cat revision = Inr res" "r = case_sum id id res"
    using assms(1) Cons kinds size map_ok by (auto simp: extract_candidate_def Let_def map_sum_Inr split: if_splits)
  have "only_refuses (compile_cohort T (first # rest) first ?B cat revision)" ..
  with res assms(2) obtain rep where rep: "res = Inr rep" "r = rep" by (cases res) (auto simp: only_refuses_def)
  from res(1) rep obtain steps parameters restrictions output_schema fin check report where c:
    "fold_ext (compile_step T ?B first (first # rest)) [0..<length (ot_steps first)] ([], [], []) = Inr (Inr (steps, parameters, restrictions))"
    "terminal_steps first (map compiled_id [0..<length (ot_steps first)]) ?B = Inr (output_schema, fin, check)"
    "validate_definition (\<lambda>v. utf8_length (te_canonical T v)) (te_validate T)
       (Raw (PDict (candidate_definition cat revision (first # rest) first parameters restrictions output_schema (close_steps steps fin check)))) cat default_limits
     = Inr report" "vr_ok report"
    "cr_definition r = Some (candidate_definition cat revision (first # rest) first parameters restrictions output_schema (close_steps steps fin check))"
    "cr_source_traces r = map ot_trace_id (first # rest)" "cr_restrictions r = restrictions"
    by (auto simp: compile_cohort_def Let_def bind_ext_Inr bind_res_Inr split: if_splits)
  from kinds have "\<forall>t\<in>set (first # rest). ot_goal_kind t = ot_goal_kind first" by (simp add: list_all_iff)
  from that [OF Cons this size map_ok c(1,2) refl c(3-7)] show thesis .
qed

text \<open>The entry of step \<open>i\<close> in a learned definition.\<close>

definition step_entry :: "obj \<Rightarrow> nat \<Rightarrow> obj option" where
  "step_entry d i = (case dict_get d ''steps'' of
      Some (PList es) \<Rightarrow> if i < length es then (case es ! i of PDict e \<Rightarrow> Some e | _ \<Rightarrow> None) else None | _ \<Rightarrow> None)"

lemma candidate_steps: "dict_get (candidate_definition cat revision cohort first ps rs out steps) ''steps'' = Some (PList (map PDict steps))"
  "dict_get (candidate_definition cat revision cohort first ps rs out steps) ''entry_step_id'' = Some (PStr (compiled_id 0))"
  by (simp_all add: candidate_definition_def dict_get_def)

lemma step_entry_candidate: "i < length steps \<Longrightarrow> step_entry (candidate_definition cat revision cohort first ps rs out steps) i = Some (steps ! i)"
  by (simp add: step_entry_def candidate_steps)

text \<open>What the parser makes of a compiled definition whose steps the validator accepts.\<close>

lemma accepted_lineage:
  assumes parser: "faithful_parser T"
    and d: "d = candidate_definition cat revision cohort first ps rs out (close_steps steps fin check)"
    and valid: "validate_definition sz (te_validate T) (Raw (PDict d)) cat limits = Inr report" "vr_ok report"
    and steps: "\<And>i. i < length steps \<Longrightarrow> \<exists>s. steps ! i = tool_entry (length steps) i s (args i) \<and> compiled T cohort (length steps) i (args i)"
    and names: "\<And>i. i < length steps \<Longrightarrow> fst ` set (args i) \<inter> {''ref'', ''literal''} = {}"
    and i: "i < length steps" and r: "(name, ref_to ''result'' (PStr (compiled_id k) # parts)) \<in> set (args i)"
  shows "k < i"
proof -
  from accepted_runs [OF valid] obtain p where p: "vr_definition report = Some p"
    "\<forall>s\<in>set (pd_steps p). \<forall>refs. step_refs s = Inr refs \<longrightarrow> (\<forall>q parts. (q, PStr ''result'', parts) \<in> set refs \<longrightarrow>
       (\<exists>n rest. parts = PStr n # rest \<and> n \<in> guaranteed p (step_id s)))" by blast
  have "te_validate T (PDict d) = Inr p"
    using valid p(1) by (auto simp: validate_definition_def parse_definition_def refused_def validate_parsed_def map_sum_Inr Let_def
        split: if_splits sum.splits)
  with parser obtain es where es: "dict_get d ''entry_step_id'' = Some (PStr (pd_entry_step_id p))"
    "dict_get d ''steps'' = Some (PList (map PDict es))" "list_all2 reads_step es (pd_steps p)" unfolding faithful_parser_def by blast
  have "map PDict es = map PDict (close_steps steps fin check)" using es(2) unfolding d candidate_steps by simp
  then have es_eq: "es = close_steps steps fin check" by (simp add: inj_map_eq_map inj_def)
  have entry: "pd_entry_step_id p = compiled_id 0" using es(1) unfolding d candidate_steps by simp
  have read: "\<exists>t. Tool t \<in> set (pd_steps p) \<and> ts_id t = compiled_id j \<and> ts_arguments t = args j
      \<and> (j + 1 < length steps \<longrightarrow> ts_next t = compiled_id (j + 1))" if j: "j < length steps" for j
  proof -
    from steps [OF j] obtain s where s: "steps ! j = tool_entry (length steps) j s (args j)" by blast
    have "j < length es" using close_steps_length [of steps fin check] j unfolding es_eq by force
    with es(3) have "reads_step (es ! j) (pd_steps p ! j)" "pd_steps p ! j \<in> set (pd_steps p)" by (auto simp: list_all2_conv_all_nth)
    with reads_operation [OF _ closed_operation(1) [OF j s]] obtain t where t: "pd_steps p ! j = Tool t" "ts_id t = compiled_id j"
      "ts_arguments t = args j" "dict_get (close_steps steps fin check ! j) ''next'' = Some (PStr (ts_next t))" unfolding es_eq by blast
    with closed_operation(2) [OF j s] \<open>pd_steps p ! j \<in> set (pd_steps p)\<close> show ?thesis by (intro exI [of _ t]) auto
  qed
  from read [OF i] obtain t where t: "Tool t \<in> set (pd_steps p)" "ts_id t = compiled_id i" "ts_arguments t = args i" by blast
  from steps [OF i] have "compiled T cohort (length steps) i (args i)" by blast
  from arguments_refs [OF this names [OF i] r] obtain refs q where "step_refs (Tool t) = Inr refs"
    "(q, PStr ''result'', PStr (compiled_id k) # parts) \<in> set refs" by (auto simp: step_refs_def t(3))
  with p(2) t(1,2) have "compiled_id k \<in> guaranteed p (compiled_id i)" by fastforce
  from guaranteed_earlier [OF _ entry i this] read show ?thesis by blast
qed


section \<open>A cohort\<close>

definition cohort_trace :: "string \<Rightarrow> string \<Rightarrow> operation_trace" where
  "cohort_trace k who = \<lparr>ot_trace_id = k, ot_occurrence_id = k, ot_goal_id = ''g'', ot_goal_kind = ''k'', ot_agent_id = ''a'',
     ot_parameters = [(''who'', PStr who)], ot_steps = [sample_step\<lparr>tp_adapter := ''read'', tp_arguments := Some [(''x'', PStr who)]\<rparr>],
     ot_model_calls = 2, ot_completion_basis = [''done''], ot_eligible = True, ot_ineligible = [], ot_recorded_at = 0\<rparr>"

definition cohort_map :: binding_map where
  "cohort_map = \<lparr>bm_goal_kind = ''k'', bm_approved_by = ''operator'', bm_bindings = [(''0.x'', [(''param'', PStr ''who'')])]\<rparr>"

definition cohort_traces :: "operation_trace list" where
  "cohort_traces = [cohort_trace ''1'' ''a'', cohort_trace ''2'' ''b'', cohort_trace ''1'' ''a'', cohort_trace ''3'' ''c'']"

definition cohort_raw :: obj where
  "cohort_raw = candidate_definition sample_catalog 1 [cohort_trace ''1'' ''a'', cohort_trace ''2'' ''b'', cohort_trace ''3'' ''c'']
     (cohort_trace ''1'' ''a'') [(''who'', text_schema 500)] [] (object_schema [(''digest'', text_schema 100)] [''digest''])
     (close_steps [tool_entry 1 0 (sample_step\<lparr>tp_adapter := ''read''\<rparr>) [(''x'', ref_to ''goal'' [PStr ''parameters'', PStr ''who''])]]
        (done_step [(''digest'', ref_to ''result'' [PStr (compiled_id 0), PStr ''source_digest''])]) None)"

definition cohort_parsed :: procedure_definition where
  "cohort_parsed = \<lparr>pd_schema_version = 1, pd_procedure_id = ''learned_k'', pd_revision = 1, pd_name = ''Learned: k'', pd_description = [],
     pd_entry_step_id = ''step_1'', pd_goal_kind = ''k'', pd_parameter_schema = object_schema [(''who'', text_schema 500)] [''who''],
     pd_output_schema = object_schema [(''digest'', text_schema 100)] [''digest''], pd_required_capabilities = [''fs.read''],
     pd_preconditions = [], pd_context_dependencies = [], pd_constants = [],
     pd_steps = [Tool \<lparr>ts_id = ''step_1'', ts_adapter = ''read'', ts_contract_version = 1,
         ts_arguments = [(''x'', ref_to ''goal'' [PStr ''parameters'', PStr ''who''])], ts_next = ''done'', ts_max_attempts = 1\<rparr>,
       Complete \<lparr>ks_id = ''done'', ks_result = [(''digest'', ref_to ''result'' [PStr ''step_1'', PStr ''source_digest''])]\<rparr>]\<rparr>"

definition cohort_env :: trace_env where
  "cohort_env = \<lparr>te_canonical = (\<lambda>v. case v of PStr s \<Rightarrow> s | _ \<Rightarrow> ''?''), te_digest = (\<lambda>s. s), te_repr = (\<lambda>_. []),
     te_validate = (\<lambda>v. if v = PDict cohort_raw then Inr cohort_parsed else Inl [])\<rparr>"

abbreviation cohort_sample :: "operation_trace list" where
  "cohort_sample \<equiv> [cohort_trace ''1'' ''a'', cohort_trace ''2'' ''b'', cohort_trace ''3'' ''c'']"

lemma cohort_sample_of: "cohort_of (distinct_occurrences cohort_traces) = cohort_sample"
  by (simp add: cohort_traces_def distinct_occurrences_def cohort_trace_def add_occurrence_def dict_get_def dict_set_def
      cohort_of_def trace_signature_def sample_step_def)

lemma show_zero: "show_nat 0 = ''0''" "show_nat (Suc 0) = ''1''"
  by code_simp+

lemma cohort_compiled:
  "fold_ext (compile_step cohort_env (bm_bindings cohort_map) (cohort_trace ''1'' ''a'') cohort_sample) [0..<length (ot_steps (cohort_trace ''1'' ''a''))] ([], [], [])
    = Inr (Inr ([tool_entry 1 0 (sample_step\<lparr>tp_adapter := ''read''\<rparr>) [(''x'', ref_to ''goal'' [PStr ''parameters'', PStr ''who''])]],
        [(''who'', text_schema 500)], []))"
  by (simp add: compile_step_def arguments_at_def cohort_trace_def bind_argument_def dict_item_def dict_get_def cohort_map_def show_zero
      bound_later_def bind_source_def source_name_def get_or_def lookup_source_def cohort_env_def dict_set_def dict_update_def tool_entry_def sample_step_def)

lemma cohort_terminal:
  "terminal_steps (cohort_trace ''1'' ''a'') (map compiled_id [0..<length (ot_steps (cohort_trace ''1'' ''a''))]) (bm_bindings cohort_map)
    = Inr (object_schema [(''digest'', text_schema 100)] [''digest''],
        done_step [(''digest'', ref_to ''result'' [PStr (compiled_id 0), PStr ''source_digest''])], None)"
  by (simp add: terminal_steps_def cohort_trace_def sample_step_def py_item_def)

lemma cohort_graph: "graph_issues cohort_parsed default_limits = Inr []"
    by (simp add: graph_issues_def cohort_parsed_def step_ids_def size_issues_def dangling_issues_def
        default_limits_def successors_def dict_get_def dict_set_def)

lemma cohort_dataflow: "dataflow_issues cohort_parsed = Inr []"
  by (simp add: dataflow_issues_def predecessors_def cohort_parsed_def add_pred_def dict_item_def
      dict_get_def dict_set_def topological_def order_loop.simps find_step_def release_def flow_step_def step_refs_def
      ref_to_def is_ref_def is_literal_def ref_parts_def with_result_def ref_issues_def flag_def head_unknown_def in_names_def
      parameter_unknown_def object_schema_def get_or_def)

lemma cohort_contracts: "contract_issues cohort_parsed sample_catalog default_limits = Inr []"
  by (simp add: contract_issues_def cohort_parsed_def object_schema_def text_schema_def sample_catalog_def add_adapter_def dict_get_def
      dict_set_def schema_problems.simps schema_keywords_def schema_types_def get_or_def in_names_def required_issues_def
      object_flag_issues_def opaque_def item_set_def step_issues_def tool_issues_def argument_issues_def missing_names_def
      sortable_def default_limits_def binding_problems.simps ref_to_def ref_problems_def scope_names_def part_ok_def
      complete_issues_def insert_commute indexed_def)

lemma cohort_accepted: "\<exists>report. validate_definition (\<lambda>v. utf8_length (te_canonical cohort_env v)) (te_validate cohort_env)
    (Raw (PDict cohort_raw)) sample_catalog default_limits = Inr report \<and> vr_ok report \<and> vr_definition report = Some cohort_parsed"
proof -
  have "definition_issues cohort_parsed sample_catalog default_limits = Inr []"
    by (simp add: definition_issues_def cohort_graph cohort_dataflow cohort_contracts effective_of_def)
      (simp add: cohort_parsed_def sample_catalog_def add_adapter_def dict_get_def dict_set_def)
  then have "\<exists>report. validate_parsed cohort_parsed sample_catalog default_limits = Inr report \<and> vr_ok report \<and> vr_definition report = Some cohort_parsed"
    by (simp add: validate_parsed_def Let_def)
  then show ?thesis by (simp add: validate_definition_def Let_def parse_definition_def cohort_env_def utf8_length_def default_limits_def)
qed

lemma cohort_extracts:
  "\<exists>r. extract_candidate cohort_env cohort_traces (Some cohort_map) sample_catalog 1 3 = Inr r \<and> cr_ok r
     \<and> cr_definition r = Some cohort_raw \<and> cr_source_traces r = [''1'', ''2'', ''3'']"
proof -
  from cohort_accepted obtain report where v: "validate_definition (\<lambda>v. utf8_length (te_canonical cohort_env v)) (te_validate cohort_env)
    (Raw (PDict cohort_raw)) sample_catalog default_limits = Inr report" "vr_ok report" "vr_definition report = Some cohort_parsed" by blast
  have raw: "candidate_definition sample_catalog 1 cohort_sample (cohort_trace ''1'' ''a'') [(''who'', text_schema 500)] []
      (object_schema [(''digest'', text_schema 100)] [''digest''])
      (close_steps [tool_entry 1 0 (sample_step\<lparr>tp_adapter := ''read''\<rparr>) [(''x'', ref_to ''goal'' [PStr ''parameters'', PStr ''who''])]]
        (done_step [(''digest'', ref_to ''result'' [PStr (compiled_id 0), PStr ''source_digest''])]) None) = cohort_raw"
    by (simp only: cohort_raw_def)
  have "\<exists>r. compile_cohort cohort_env cohort_sample (cohort_trace ''1'' ''a'') (bm_bindings cohort_map) sample_catalog 1 = Inr (Inr r) \<and> cr_ok r
     \<and> cr_definition r = Some cohort_raw \<and> cr_source_traces r = map ot_trace_id cohort_sample"
    unfolding compile_cohort_def cohort_compiled cohort_terminal bind_ext.simps bind_res.simps prod.case raw Let_def v(1) using v(2,3) by simp
  then obtain r where r: "compile_cohort cohort_env cohort_sample (cohort_trace ''1'' ''a'') (bm_bindings cohort_map) sample_catalog 1 = Inr (Inr r)"
    "cr_ok r" "cr_definition r = Some cohort_raw" "cr_source_traces r = map ot_trace_id cohort_sample" by blast
  have kinds: "ot_goal_kind (cohort_trace k who) = ''k''" "ot_trace_id (cohort_trace k who) = k" for k who by (simp_all add: cohort_trace_def)
  have "\<not> map_refused (Some cohort_map) ''k''" by (simp add: map_refused_def cohort_map_def trusted_actor_def)
  with r kinds have "extract_candidate cohort_env cohort_traces (Some cohort_map) sample_catalog 1 3 = Inr r"
    by (simp add: extract_candidate_def cohort_sample_of Let_def)
  with r kinds show ?thesis by auto
qed

lemma cohort_parser: "faithful_parser cohort_env"
proof -
  have "dict_get cohort_raw ''entry_step_id'' = Some (PStr (pd_entry_step_id cohort_parsed))"
    by (simp add: cohort_raw_def candidate_steps cohort_parsed_def compiled_id_def show_zero)
  moreover have "list_all2 reads_step (close_steps [tool_entry 1 0 (sample_step\<lparr>tp_adapter := ''read''\<rparr>) [(''x'', ref_to ''goal'' [PStr ''parameters'', PStr ''who''])]]
        (done_step [(''digest'', ref_to ''result'' [PStr (compiled_id 0), PStr ''source_digest''])]) None) (pd_steps cohort_parsed)"
    by (simp add: close_steps_def tool_entry_def done_step_def cohort_parsed_def dict_set_def dict_get_def compiled_id_def show_zero sample_step_def)
  ultimately show ?thesis
    by (auto simp: faithful_parser_def cohort_env_def cohort_raw_def candidate_steps split: if_splits)
qed


section \<open>Validation rests on replays\<close>

text \<open>
  A replay leaves nothing behind: however its run ends, the grant is revoked and then the sandbox
  removed, and an error of the revocation is not hidden.
\<close>

lemma replay_disposes:
  assumes "dict_get (rg_definitions (sh_registry (wd_shared w))) key = Some d" "dict_get (rg_admissions (sh_registry (wd_shared w))) key = Some a"
    and run: "replay ex sx key parameters training agent tag w = (res, w')" and revoke: "\<And>e. fst (sx_revoke sx e) = Inr ()"
  shows "\<exists>u. sh_env (wd_shared w') = sx_remove sx (snd (sx_revoke sx (sh_env (wd_shared (snd (suspend u))))))"
proof -
  define body where "body = (let held_out = list_all (\<lambda>t. \<not> py_eq (PDict (ot_parameters t)) (PDict parameters)) training;
      ex' = ex\<lparr>ex_host := replay_host (set (pd_required_capabilities d)) (ex_host ex)\<rparr> in
      seq_op (\<lambda>w. case sx_copy sx (sh_env (wd_shared w)) of (r, e) \<Rightarrow> (r, put_env e w))
        (seq_op (on_env (sx_grant sx))
        (bind_op (start ex' d a (replay_request agent key tag parameters)) (\<lambda>x.
         bind_op (replay_loop ex' (pe_execution_id x) (3 * length (pd_steps d) + 3) None) (\<lambda>out.
         seq_op (load_op (pe_execution_id x))
         (with_execution (\<lambda>final. lift_op (replay_report_of ex' key held_out out final))))))))"
  have "always_op body (seq_op (on_env (sx_revoke sx)) (modify_op (\<lambda>w. put_env (sx_remove sx (sh_env (wd_shared w))) w))) w = (res, w')"
    using run assms(1,2) by (simp add: replay_def body_def read_op_def Let_def)
  moreover obtain r u where "body w = (r, u)" by (cases "body w")
  moreover obtain r' e where e: "sx_revoke sx (sh_env (wd_shared (snd (suspend u)))) = (r', e)" by (cases "sx_revoke sx (sh_env (wd_shared (snd (suspend u))))")
  moreover from revoke [of "sh_env (wd_shared (snd (suspend u)))"] e have "r' = Inr ()" by simp
  ultimately have "w' = put_env (sx_remove sx e) (put_env e (snd (suspend u)))"
    by (auto simp: always_op_def on_env_def op_defs suspend_def put_env_def split: list.splits prod.splits sum.splits)
  with e show ?thesis by (intro exI [of _ u]) (simp add: put_env_def)
qed

text \<open>
  A candidate becomes VALIDATED exactly when there is a report, every report passed with every check, and one
  was on held-out parameters; nothing else of the registry changes, and otherwise nothing changes at all.
\<close>

theorem validation_needs_replays:
  assumes "validate_candidate fx now render key reports r = (res, r')"
  shows "if (\<exists>a. dict_get (rg_admissions r) key = Some a \<and> ad_status a = admission_status.Candidate) \<and> reports \<noteq> []
      \<and> list_all (\<lambda>p. ry_completed p \<and> list_all snd (ry_validators p)) reports \<and> list_ex ry_held_out reports
    then res = Inr () \<and> map_option ad_status (dict_get (rg_admissions r') key) = Some admission_status.Validated
      \<and> (\<forall>k. k \<noteq> key \<longrightarrow> dict_get (rg_admissions r') k = dict_get (rg_admissions r) k) \<and> rg_definitions r' = rg_definitions r
    else (\<exists>code. res = Inl (ProcedureError code)) \<and> r' = r"
proof (cases "dict_get (rg_admissions r) key")
  case None
  with assms show ?thesis by (auto simp: validate_candidate_def)
next
  case (Some a)
  have passed: "list_all (\<lambda>p. ry_completed p \<and> list_all snd (ry_validators p)) reports = list_all replay_passed reports"
    by (simp add: list_all_iff replay_passed_def)
  from assms Some show ?thesis unfolding passed
    by (auto simp: validate_candidate_def mark_validated_def find_admission_def Let_def put_admission_def admission_note_def dict_simps
        split: if_splits)
qed

end
