(* ===== verification/Script_Tokens.thy ===== *)
theory Script_Tokens
  imports Py_Prelude
begin

text \<open>
  The script parser of \<open>harness_script.py\<close>: the tokenizer with POSIX quoting, the treatment of
  redirects, and the split into commands and pipelines.  An unquoted run of operator characters is
  a constructor of its own, as it is a subclass of \<open>str\<close> in the code.  Of a refusal the kind is
  kept, not the advice.
\<close>

section \<open>Tables\<close>

definition connectors :: "string list" where
  "connectors = [''&&'', ''||'', '';'']"

definition filters :: "string set" where
  "filters = {''head'', ''tail'', ''grep'', ''egrep'', ''fgrep'', ''wc'', ''sort'', ''uniq'', ''cat'', ''sed''}"

definition null_targets :: "string set" where
  "null_targets = {''/dev/null'', ''nul'', ''NUL'', ''$null''}"

definition fd_tokens :: "string set" where
  "fd_tokens = {''0'', ''1'', ''2''}"

definition stdout_redirects :: "string set" where
  "stdout_redirects = {''>'', ''>>'', ''>|'', ''&>'', ''&>>''}"

definition dup_redirects :: "string set" where
  "dup_redirects = {''>&'', ''<&''}"

definition input_redirects :: "string set" where
  "input_redirects = {''<'', ''<<'', ''<<<'', ''<<-''}"

definition punctuation :: "char set" where
  "punctuation = set ''();<>|&''"

abbreviation (input) quote_char :: char where "quote_char \<equiv> CHR 0x27"
abbreviation (input) double_char :: char where "double_char \<equiv> CHR 0x22"
abbreviation (input) backslash :: char where "backslash \<equiv> CHR 0x5C"
abbreviation (input) newline :: char where "newline \<equiv> CHR 0x0A"
abbreviation (input) backtick :: char where "backtick \<equiv> CHR 0x60"

section \<open>Names and the quick test\<close>

definition remove_suffix :: "string \<Rightarrow> string \<Rightarrow> string" where
  "remove_suffix suf s = (if suf \<noteq> [] \<and> suffix suf s then take (length s - length suf) s else s)"

definition program_name :: "string \<Rightarrow> string" where
  "program_name w = remove_suffix ''.exe'' (py_lower (last (split_on (CHR ''/'')
     (map (\<lambda>c. if c = backslash then CHR ''/'' else c) w))))"

definition operator_part :: "string \<Rightarrow> bool" where
  "operator_part p \<longleftrightarrow> p \<in> set connectors \<or> p \<in> {''|'', ''&''}
     \<or> list_ex (\<lambda>q. prefix q p) [''<'', ''>'', ''2>'', ''1>'', ''&>''] \<or> suffix '';'' p"

definition needs_script :: "string list \<Rightarrow> bool result" where
  "needs_script parts = (if list_ex operator_part (tl parts) then Inr True
     else case parts of [] \<Rightarrow> Inl IndexError | p # _ \<Rightarrow> Inr (suffix '';'' p))"

section \<open>Tokens\<close>

datatype token = Word string | Operator string

fun token_text :: "token \<Rightarrow> string" where
  "token_text (Word s) = s"
| "token_text (Operator s) = s"

datatype quoting = Bare | Single | Double

text \<open>\<open>flush\<close>.\<close>

definition flush :: "bool \<Rightarrow> string \<Rightarrow> token list \<Rightarrow> token list" where
  "flush started w found = (if started then found @ [Word w] else found)"

text \<open>The loop over the characters; the rest of the text, the quoting, the word so far, whether one has started.\<close>

function (sequential) scan :: "string \<Rightarrow> quoting \<Rightarrow> string \<Rightarrow> bool \<Rightarrow> token list \<Rightarrow> token list result" where
  "scan [] q w started found =
     (if q \<noteq> Bare then Inl (ValueError ''No closing quotation'') else Inr (flush started w found))"
| "scan (c # cs) Single w started found =
     (if c = quote_char then scan cs Bare w started found else scan cs Single (w @ [c]) started found)"
| "scan (c # cs) Double w started found =
     (if c = double_char then scan cs Bare w started found
      else if c = backslash \<and> cs \<noteq> [] \<and> hd cs \<in> {double_char, backslash, CHR ''$'', backtick}
      then scan (tl cs) Double (w @ [hd cs]) started found
      else scan cs Double (w @ [c]) started found)"
| "scan (c # cs) Bare w started found =
     (if c = backslash then
        (if cs = [] then scan [] Bare w started found
         else if hd cs = newline then scan (tl cs) Bare w started found
         else scan (tl cs) Bare (w @ [hd cs]) True found)
      else if c = quote_char then scan cs Single w True found
      else if c = double_char then scan cs Double w True found
      else if is_space c then scan cs Bare [] False (flush started w found)
      else if c \<in> punctuation then
        scan (dropWhile (\<lambda>x. x \<in> punctuation) cs) Bare [] False
          (flush started w found @ [Operator (c # takeWhile (\<lambda>x. x \<in> punctuation) cs)])
      else if c = backtick \<or> (c = CHR ''$'' \<and> cs \<noteq> [] \<and> hd cs = CHR ''('')
      then Inl (ScriptRefused ''command substitution'')
      else scan cs Bare (w @ [c]) True found)"
  by pat_completeness auto
termination
  by (relation "measure (length \<circ> fst)") (auto simp: less_Suc_eq_le neq_Nil_conv length_dropWhile_le)

definition tokens :: "string \<Rightarrow> token list result" where
  "tokens raw = scan raw Bare [] False []"

section \<open>Redirects\<close>

record stage =
  sg_words :: "string list"
  sg_discard :: bool

record command =
  cm_connector :: string
  cm_stages :: "stage list"

definition stage_word :: "string list \<Rightarrow> bool" where
  \<comment> \<open>a descriptor number in front of a redirect belongs to it\<close>
  "stage_word kept \<longleftrightarrow> kept \<noteq> [] \<and> last kept \<in> fd_tokens \<and> length kept > 1"

function stage_loop :: "token list \<Rightarrow> string list \<Rightarrow> bool \<Rightarrow> (string list \<times> bool) result" where
  "stage_loop [] kept discard = Inr (kept, discard)"
| "stage_loop (Word w # ws) kept discard = stage_loop ws (kept @ [w]) discard"
| "stage_loop (Operator r # ws) kept discard =
     (let redirect = r \<in> stdout_redirects \<union> dup_redirects \<union> input_redirects;
          descriptor = (if redirect \<and> stage_word kept then last kept else []);
          kept' = (if redirect \<and> stage_word kept then butlast kept else kept)
      in if r \<in> dup_redirects then stage_loop (drop 1 ws) kept' discard
         else if r \<in> stdout_redirects then
           (if (case ws of [] \<Rightarrow> [] | t # _ \<Rightarrow> token_text t) \<notin> null_targets then Inl (ScriptRefused ''writes a file'')
            else stage_loop (drop 1 ws) kept' (discard \<or> descriptor \<noteq> ''2''))
         else if r \<in> input_redirects then Inl (ScriptRefused ''feeds the program input'')
         else Inl (ScriptRefused ''not supported''))"
  by pat_completeness auto
termination
  by (relation "measure (length \<circ> fst)") auto

definition make_stage :: "token list \<Rightarrow> stage result" where
  "make_stage ws = bind_res (stage_loop ws [] False) (\<lambda>(kept, discard).
     if kept = [] then Inl (ScriptRefused ''a redirect with no command'')
     else Inr \<lparr>sg_words = kept, sg_discard = discard\<rparr>)"

section \<open>Commands\<close>

record parse_state =
  ps_commands :: "command list"
  ps_connector :: string
  ps_pipeline :: "token list list"

text \<open>One turn of the loop of \<open>parse\<close>.\<close>

definition parse_token :: "token \<Rightarrow> parse_state \<Rightarrow> parse_state result" where
  "parse_token t s = (case t of
      Operator r \<Rightarrow>
        if r \<in> set connectors then
          (if list_ex (\<lambda>ws. ws \<noteq> []) (ps_pipeline s) then
             (if \<not> list_all (\<lambda>ws. ws \<noteq> []) (ps_pipeline s) then Inl (ScriptRefused ''a pipe with nothing on one side'')
              else bind_res (map_res make_stage (ps_pipeline s)) (\<lambda>stages.
                Inr \<lparr>ps_commands = ps_commands s @ [\<lparr>cm_connector = ps_connector s, cm_stages = stages\<rparr>],
                     ps_connector = r, ps_pipeline = [[]]\<rparr>))
           else if r \<noteq> '';'' \<or> ps_connector s \<notin> {[], '';''} then Inl (ScriptRefused ''no command before it'')
           else Inr (s\<lparr>ps_connector := r, ps_pipeline := [[]]\<rparr>))
        else if r = ''|'' then Inr (s\<lparr>ps_pipeline := ps_pipeline s @ [[]]\<rparr>)
        else Inr (s\<lparr>ps_pipeline := butlast (ps_pipeline s) @ [last (ps_pipeline s) @ [t]]\<rparr>)
    | Word w \<Rightarrow> Inr (s\<lparr>ps_pipeline := butlast (ps_pipeline s) @ [last (ps_pipeline s) @ [t]]\<rparr>))"

definition check_filters :: "command \<Rightarrow> unit result" where
  "check_filters c = bind_res (map_res (\<lambda>st. if program_name (hd (sg_words st)) \<in> filters then Inr ()
     else Inl (ScriptRefused ''not available after a pipe'')) (tl (cm_stages c))) (\<lambda>_. Inr ())"

definition parse :: "string \<Rightarrow> command list result" where
  "parse raw = bind_res (tokens raw) (\<lambda>ts.
     bind_res (fold_res parse_token (ts @ [Operator '';'']) \<lparr>ps_commands = [], ps_connector = [], ps_pipeline = [[]]\<rparr>) (\<lambda>s.
     if ps_commands s = [] then Inl (ScriptRefused ''no command'')
     else bind_res (map_res check_filters (ps_commands s)) (\<lambda>_. Inr (ps_commands s))))"

text \<open>\<open>shlex.quote\<close> and \<open>shlex.join\<close> of the standard library, and \<open>Command.shown\<close>.\<close>

definition shell_safe :: "char \<Rightarrow> bool" where
  "shell_safe c \<longleftrightarrow> c \<in> set ''ABCDEFGHIJKLMNOPQRSTUVWXYZabcdefghijklmnopqrstuvwxyz0123456789_@%+=:,./-''"

fun escape_quotes :: "string \<Rightarrow> string" where
  "escape_quotes [] = []"
| "escape_quotes (c # cs) = (if c = quote_char then [quote_char, double_char, quote_char, double_char, quote_char] else [c])
     @ escape_quotes cs"

definition shlex_quote :: "string \<Rightarrow> string" where
  "shlex_quote s = (if s \<noteq> [] \<and> list_all shell_safe s then s else [quote_char] @ escape_quotes s @ [quote_char])"

definition shlex_join :: "string list \<Rightarrow> string" where
  "shlex_join ws = py_join '' '' (map shlex_quote ws)"

definition shown :: "command \<Rightarrow> string" where
  "shown c = py_join '' | '' (map (\<lambda>st. shlex_join (sg_words st)) (cm_stages c))"

section \<open>Quoting is undone\<close>

lemma shell_safe_cases: "shell_safe c \<Longrightarrow> c \<noteq> backslash \<and> c \<noteq> quote_char \<and> c \<noteq> double_char \<and> c \<noteq> backtick
    \<and> c \<noteq> CHR ''$'' \<and> \<not> is_space c \<and> c \<notin> punctuation"
  unfolding shell_safe_def
  by (simp add: punctuation_def is_space_def, elim disjE; simp)

lemma scan_safe: "list_all shell_safe w \<Longrightarrow> scan (w @ rest) Bare acc started found = scan rest Bare (acc @ w) (started \<or> w \<noteq> []) found"
proof (induction w arbitrary: acc started)
  case (Cons c w)
  with shell_safe_cases [of c] show ?case by simp
qed simp

lemma scan_single: "scan (escape_quotes s @ quote_char # rest) Single acc True found = scan rest Bare (acc @ s) True found"
proof (induction s arbitrary: acc)
  case (Cons c s)
  show ?case
  proof (cases "c = quote_char")
    case True
    with Cons show ?thesis by (simp add: is_space_def)
  qed (simp add: Cons)
qed simp

lemma scan_quote: "scan (shlex_quote w @ rest) Bare [] False found = scan rest Bare w True found"
proof (cases "w \<noteq> [] \<and> list_all shell_safe w")
  case True
  with scan_safe [of w rest "[]" False found] show ?thesis by (simp add: shlex_quote_def)
next
  case False
  with scan_single [of w rest "[]" found] show ?thesis by (auto simp: shlex_quote_def is_space_def)
qed

lemma scan_space: "scan (CHR '' '' # rest) Bare w True found = scan rest Bare [] False (found @ [Word w])"
  by (simp add: is_space_def flush_def)

lemma scan_join:
  "scan (shlex_join (w # ws) @ rest) Bare [] False found
     = scan rest Bare (last (w # ws)) True (found @ map Word (butlast (w # ws)))"
proof (induction ws arbitrary: w found)
  case Nil
  show ?case by (simp add: shlex_join_def scan_quote)
next
  case (Cons v ws)
  have "shlex_join (w # v # ws) @ rest = shlex_quote w @ CHR '' '' # shlex_join (v # ws) @ rest"
    by (simp add: shlex_join_def)
  with Cons.IH [of v "found @ [Word w]"] show ?case by (simp only: scan_quote scan_space) simp
qed

lemma scan_words: "ws \<noteq> [] \<Longrightarrow> scan (shlex_join ws @ rest) Bare [] False found
    = scan rest Bare (last ws) True (found @ map Word (butlast ws))"
  using scan_join [of "hd ws" "tl ws"] by simp

lemma map_last: "ws \<noteq> [] \<Longrightarrow> map f (butlast ws) @ f (last ws) # xs = map f ws @ xs"
  by (induction ws) auto

lemma tokens_join: "tokens (shlex_join ws) = Inr (map Word ws)"
proof (cases "ws = []")
  case False
  from scan_words [OF this, of "[]" "[]"] map_last [OF this, of Word "[]"] show ?thesis
    by (simp add: tokens_def flush_def)
qed (simp add: tokens_def shlex_join_def flush_def)

text \<open>Shown commands: the words of every stage, and a bar between two stages.\<close>

lemma scan_bar: "scan ('' | '' @ rest) Bare w True found = scan rest Bare [] False (found @ [Word w, Operator ''|''])"
  by (simp add: is_space_def flush_def punctuation_def)

fun piped :: "string list list \<Rightarrow> token list" where
  "piped [] = []"
| "piped [ws] = map Word ws"
| "piped (ws # vs # wss) = map Word ws @ Operator ''|'' # piped (vs # wss)"

lemma scan_shown:
  "list_all (\<lambda>ws. ws \<noteq> []) wss \<Longrightarrow> wss \<noteq> [] \<Longrightarrow>
   scan (py_join '' | '' (map shlex_join wss)) Bare [] False found = Inr (found @ piped wss)"
proof (induction wss arbitrary: found rule: piped.induct)
  case (2 ws)
  then have ws: "ws \<noteq> []" by simp
  from scan_words [OF this, of "[]" found] map_last [OF this, of Word "[]"] show ?case
    by (simp add: flush_def)
next
  case (3 ws vs wss)
  then have ws: "ws \<noteq> []" by simp
  let ?rest = "py_join '' | '' (map shlex_join (vs # wss))"
  have "scan (py_join '' | '' (map shlex_join (ws # vs # wss))) Bare [] False found
      = scan (shlex_join ws @ '' | '' @ ?rest) Bare [] False found" by simp
  also have "\<dots> = scan ?rest Bare [] False ((found @ map Word (butlast ws)) @ [Word (last ws), Operator ''|''])"
    by (simp only: scan_words [OF ws] scan_bar)
  also have "\<dots> = Inr (found @ piped (ws # vs # wss))"
    using 3 map_last [OF ws, of Word "Operator ''|'' # piped (vs # wss)"] by simp
  finally show ?case .
qed simp

lemma tokens_shown:
  assumes "cm_stages c \<noteq> []" "\<And>st. st \<in> set (cm_stages c) \<Longrightarrow> sg_words st \<noteq> []"
  shows "tokens (shown c) = Inr (piped (map sg_words (cm_stages c)))"
  using scan_shown [of "map sg_words (cm_stages c)" "[]"] assms
  by (simp add: tokens_def shown_def comp_def list_all_iff)

section \<open>What parsing yields\<close>

lemma stage_loop_words:
  "stage_loop ws kept discard = Inr (kept', discard') \<Longrightarrow> set kept' \<subseteq> set kept \<union> {w. Word w \<in> set ws}"
proof (induction ws kept discard rule: stage_loop.induct)
  case (3 r ws kept discard)
  let ?kept = "if (r \<in> stdout_redirects \<union> dup_redirects \<union> input_redirects) \<and> stage_word kept then butlast kept else kept"
  have sub: "set ?kept \<subseteq> set kept" by (auto dest: in_set_butlastD)
  have drop: "{w. Word w \<in> set (drop 1 ws)} \<subseteq> {w. Word w \<in> set ws}" by (auto dest: in_set_dropD)
  from "3.prems" consider "r \<in> dup_redirects" "stage_loop (drop 1 ws) ?kept discard = Inr (kept', discard')"
    | d where "r \<notin> dup_redirects" "r \<in> stdout_redirects"
        "(case ws of [] \<Rightarrow> [] | t # _ \<Rightarrow> token_text t) \<in> null_targets" "stage_loop (drop 1 ws) ?kept d = Inr (kept', discard')"
        "d = (discard \<or> (if (r \<in> stdout_redirects \<union> dup_redirects \<union> input_redirects) \<and> stage_word kept then last kept else []) \<noteq> ''2'')"
    by (simp add: Let_def split: if_splits)
  then have "set kept' \<subseteq> set ?kept \<union> {w. Word w \<in> set (drop 1 ws)}"
  proof cases
    case 1
    from "3.IH"(1) [OF refl refl refl this] show ?thesis .
  next
    case (2 d)
    from "3.IH"(2) [OF refl refl refl 2(1,2) _ 2(4) [unfolded 2(5)]] 2(3) show ?thesis by simp
  qed
  with sub drop show ?case by auto
qed auto

definition stage_from :: "token set \<Rightarrow> stage \<Rightarrow> bool" where
  "stage_from T st \<longleftrightarrow> sg_words st \<noteq> [] \<and> (\<forall>w\<in>set (sg_words st). Word w \<in> T)"

lemma make_stage_from: "make_stage ws = Inr st \<Longrightarrow> stage_from (set ws) st"
  using stage_loop_words [of ws "[]" False "sg_words st" "sg_discard st"]
  by (auto simp: make_stage_def stage_from_def bind_res_Inr split: if_splits)

definition command_from :: "token set \<Rightarrow> command \<Rightarrow> bool" where
  "command_from T c \<longleftrightarrow> cm_stages c \<noteq> [] \<and> (\<forall>st\<in>set (cm_stages c). stage_from T st)
     \<and> cm_connector c \<in> insert [] (set connectors)"

definition parse_inv :: "token set \<Rightarrow> parse_state \<Rightarrow> bool" where
  "parse_inv T s \<longleftrightarrow> (\<forall>c\<in>set (ps_commands s). command_from T c) \<and> ps_connector s \<in> insert [] (set connectors)
     \<and> ps_pipeline s \<noteq> [] \<and> (\<forall>ws\<in>set (ps_pipeline s). set ws \<subseteq> T)"

lemma parse_inv_word:
  assumes "parse_inv T s" "t \<in> T"
  shows "parse_inv T (s\<lparr>ps_pipeline := butlast (ps_pipeline s) @ [last (ps_pipeline s) @ [t]]\<rparr>)"
proof -
  have "set (last (ps_pipeline s)) \<subseteq> T" using assms(1) by (simp add: parse_inv_def)
  with assms show ?thesis by (auto simp: parse_inv_def dest: in_set_butlastD)
qed

lemma parse_inv_token:
  assumes inv: "parse_inv T s" and run: "parse_token t s = Inr s'" and t: "t \<in> T"
  shows "parse_inv T s'"
proof (cases t)
  case (Word w)
  with run have "s' = s\<lparr>ps_pipeline := butlast (ps_pipeline s) @ [last (ps_pipeline s) @ [t]]\<rparr>" by (simp add: parse_token_def)
  with parse_inv_word [OF inv t] show ?thesis by simp
next
  case (Operator r)
  consider (sep) "r \<in> set connectors" | (bar) "r \<notin> set connectors" "r = ''|''" | (other) "r \<notin> set connectors" "r \<noteq> ''|''" by blast
  then show ?thesis
  proof cases
    case sep
    show ?thesis
    proof (cases "list_ex (\<lambda>ws. ws \<noteq> []) (ps_pipeline s)")
      case True
      with run Operator sep obtain stages where stages: "map_res make_stage (ps_pipeline s) = Inr stages"
        and s': "s' = \<lparr>ps_commands = ps_commands s @ [\<lparr>cm_connector = ps_connector s, cm_stages = stages\<rparr>],
                     ps_connector = r, ps_pipeline = [[]]\<rparr>"
        by (auto simp: parse_token_def bind_res_Inr split: if_splits)
      have "stage_from T st" if st: "st \<in> set stages" for st
      proof -
        from map_res_all [OF stages] st obtain ws where "ws \<in> set (ps_pipeline s)" "make_stage ws = Inr st" by blast
        with make_stage_from inv show ?thesis unfolding stage_from_def parse_inv_def by blast
      qed
      moreover have "stages \<noteq> []" using map_res_all [OF stages] inv by (auto simp: parse_inv_def)
      ultimately show ?thesis using inv sep s' by (auto simp: parse_inv_def command_from_def)
    next
      case False
      with run Operator sep have "s' = s\<lparr>ps_connector := r, ps_pipeline := [[]]\<rparr>"
        by (auto simp: parse_token_def split: if_splits)
      with inv sep show ?thesis by (auto simp: parse_inv_def)
    qed
  next
    case bar
    with run Operator have "s' = s\<lparr>ps_pipeline := ps_pipeline s @ [[]]\<rparr>" by (simp add: parse_token_def)
    with inv show ?thesis by (auto simp: parse_inv_def)
  next
    case other
    with run Operator have "s' = s\<lparr>ps_pipeline := butlast (ps_pipeline s) @ [last (ps_pipeline s) @ [t]]\<rparr>"
      by (simp add: parse_token_def)
    with parse_inv_word [OF inv t] show ?thesis by simp
  qed
qed

lemma parse_inv_loop: "fold_res parse_token ts s = Inr s' \<Longrightarrow> set ts \<subseteq> T \<Longrightarrow> parse_inv T s \<Longrightarrow> parse_inv T s'"
proof (induction ts arbitrary: s)
  case (Cons t ts)
  then obtain s1 where "parse_token t s = Inr s1" "fold_res parse_token ts s1 = Inr s'" by (auto simp: bind_res_Inr)
  with Cons parse_inv_token [of T s t s1] show ?case by simp
qed simp

lemma check_filters_ok: "(check_filters c = Inr ()) = (\<forall>st\<in>set (tl (cm_stages c)). program_name (hd (sg_words st)) \<in> filters)"
proof -
  have "(\<exists>us. map_res (\<lambda>st. if P st then Inr () else Inl e) xs = Inr us) = (\<forall>st\<in>set xs. P st)"
    for P :: "stage \<Rightarrow> bool" and e :: exn and xs
    by (induction xs) (auto simp: bind_res_Inr)
  then show ?thesis by (simp add: check_filters_def bind_res_Inr)
qed

lemma parse_result:
  assumes "parse raw = Inr cs"
  shows "cs \<noteq> []" "\<exists>ts. tokens raw = Inr ts \<and> (\<forall>c\<in>set cs. command_from (set ts \<union> {Operator '';''}) c)"
    "\<forall>c\<in>set cs. check_filters c = Inr ()"
proof -
  let ?s0 = "\<lparr>ps_commands = [], ps_connector = [], ps_pipeline = [[]]\<rparr>"
  from assms obtain ts s us where p: "tokens raw = Inr ts" "fold_res parse_token (ts @ [Operator '';'']) ?s0 = Inr s"
    "ps_commands s \<noteq> []" "map_res check_filters (ps_commands s) = Inr us" "cs = ps_commands s"
    by (auto simp: parse_def bind_res_Inr split: if_splits)
  show "cs \<noteq> []" using p by simp
  have "parse_inv (set ts \<union> {Operator '';''}) s"
    by (rule parse_inv_loop [OF p(2)]) (auto simp: parse_inv_def)
  with p show "\<exists>ts. tokens raw = Inr ts \<and> (\<forall>c\<in>set cs. command_from (set ts \<union> {Operator '';''}) c)"
    by (auto simp: parse_inv_def)
  show "\<forall>c\<in>set cs. check_filters c = Inr ()" using p(4,5) map_res_Inr [of check_filters "ps_commands s" us]
    by (auto simp: list_all2_conv_all_nth in_set_conv_nth)
qed

lemma parse_facts:
  assumes "parse raw = Inr cs"
  shows "cs \<noteq> [] \<and> (\<exists>ts. tokens raw = Inr ts \<and> (\<forall>c\<in>set cs.
     cm_connector c \<in> {[], ''&&'', ''||'', '';''} \<and> cm_stages c \<noteq> []
     \<and> (\<forall>st\<in>set (cm_stages c). sg_words st \<noteq> [] \<and> (\<forall>w\<in>set (sg_words st). Word w \<in> set ts))
     \<and> (\<forall>st\<in>set (tl (cm_stages c)). program_name (hd (sg_words st)) \<in> filters)))"
proof -
  from parse_result(2) [OF assms] obtain ts where ts: "tokens raw = Inr ts"
    "\<forall>c\<in>set cs. command_from (set ts \<union> {Operator '';''}) c" by blast
  with parse_result(1,3) [OF assms] show ?thesis
    by (intro conjI exI [of _ ts]) (auto simp: command_from_def stage_from_def connectors_def check_filters_ok)
qed

text \<open>
  C29. A parsed script is a word-only sequence: at least one command, each joined by a known
  connector; every stage of every pipeline has a program, all of its words are words of the script
  (no operator of the script, quoted text aside, ever reaches a program), and after a pipe there
  are only the filters that are applied to text.
\<close>

theorem parse_safe:
  assumes "parse raw = Inr cs"
  shows "cs \<noteq> [] \<and> (\<exists>ts. tokens raw = Inr ts \<and> (\<forall>c\<in>set cs.
     cm_connector c \<in> {[], ''&&'', ''||'', '';''} \<and> cm_stages c \<noteq> []
     \<and> (\<forall>st\<in>set (cm_stages c). sg_words st \<noteq> [] \<and> (\<forall>w\<in>set (sg_words st). Word w \<in> set ts))
     \<and> (\<forall>st\<in>set (tl (cm_stages c)). program_name (hd (sg_words st)) \<in> filters)))"
  by (rule parse_facts [OF assms])

section \<open>A shown command parses back\<close>

lemma stage_loop_plain: "stage_loop (map Word ws) kept discard = Inr (kept @ ws, discard)"
  by (induction ws arbitrary: kept) simp_all

lemma words_loop:
  "ps_pipeline s = ps @ [p] \<Longrightarrow> fold_res parse_token (map Word ws) s = Inr (s\<lparr>ps_pipeline := ps @ [p @ map Word ws]\<rparr>)"
  by (induction ws arbitrary: s p) (simp_all add: parse_token_def)

lemma piped_loop:
  "wss \<noteq> [] \<Longrightarrow> ps_pipeline s = ps @ [[]] \<Longrightarrow>
   fold_res parse_token (piped wss) s = Inr (s\<lparr>ps_pipeline := ps @ map (map Word) wss\<rparr>)"
proof (induction wss arbitrary: s ps rule: piped.induct)
  case (2 ws)
  then show ?case by (simp add: words_loop)
next
  case (3 ws vs wss)
  let ?s = "s\<lparr>ps_pipeline := (ps @ [map Word ws]) @ [[]]\<rparr>"
  have "fold_res parse_token (map Word ws) s = Inr (s\<lparr>ps_pipeline := ps @ [map Word ws]\<rparr>)"
    using words_loop [OF 3(3), of ws] by simp
  moreover have "parse_token (Operator ''|'') (s\<lparr>ps_pipeline := ps @ [map Word ws]\<rparr>) = Inr ?s"
    by (simp add: parse_token_def connectors_def)
  ultimately have "fold_res parse_token (piped (ws # vs # wss)) s = fold_res parse_token (piped (vs # wss)) ?s" by simp
  with 3(1) [of ?s "ps @ [map Word ws]"] show ?case by simp
qed simp

text \<open>
  C30. What a parsed command is shown as parses to that command again: the same words in the same
  pipeline, however they were quoted, with nothing but its connector and its dropped output
  forgotten.
\<close>

theorem shown_parses_back:
  assumes "parse raw = Inr cs" "c \<in> set cs"
  shows "parse (shown c) = Inr [\<lparr>cm_connector = [], cm_stages = map (\<lambda>st. \<lparr>sg_words = sg_words st, sg_discard = False\<rparr>) (cm_stages c)\<rparr>]"
proof -
  let ?wss = "map sg_words (cm_stages c)"
  let ?s0 = "\<lparr>ps_commands = [], ps_connector = [], ps_pipeline = [[]]\<rparr>"
  let ?new = "\<lparr>cm_connector = [], cm_stages = map (\<lambda>st. \<lparr>sg_words = sg_words st, sg_discard = False\<rparr>) (cm_stages c)\<rparr>"
  from parse_facts [OF assms(1)] assms(2) have c: "cm_stages c \<noteq> []" "\<And>st. st \<in> set (cm_stages c) \<Longrightarrow> sg_words st \<noteq> []"
    by auto
  have stages: "map_res make_stage (map (map Word) ?wss) = Inr (cm_stages ?new)"
    using c(2) by (auto simp: map_res_Inr list_all2_map1 list_all2_map2 list_all2_same make_stage_def stage_loop_plain)
  have loop: "fold_res parse_token (piped ?wss) ?s0 = Inr (?s0\<lparr>ps_pipeline := map (map Word) ?wss\<rparr>)"
    using piped_loop [of ?wss ?s0 "[]"] c(1) by simp
  have some: "list_ex (\<lambda>ws. ws \<noteq> []) (map (map Word) ?wss)" "list_all (\<lambda>ws. ws \<noteq> []) (map (map Word) ?wss)"
    using c by (cases "cm_stages c"; auto simp: list_all_iff)+
  have "parse_token (Operator '';'') (?s0\<lparr>ps_pipeline := map (map Word) ?wss\<rparr>)
      = Inr \<lparr>ps_commands = [?new], ps_connector = '';'', ps_pipeline = [[]]\<rparr>"
    using some stages by (simp add: parse_token_def connectors_def)
  with loop have "fold_res parse_token (piped ?wss @ [Operator '';'']) ?s0
      = Inr \<lparr>ps_commands = [?new], ps_connector = '';'', ps_pipeline = [[]]\<rparr>" by simp
  moreover have "check_filters ?new = Inr ()"
    using parse_result(3) [OF assms(1)] assms(2) by (cases "cm_stages c") (auto simp: check_filters_ok)
  moreover have "tokens (shown c) = Inr (piped ?wss)" by (rule tokens_shown) (use c in auto)
  ultimately show ?thesis by (simp add: parse_def)
qed

lemma sample_script: "\<exists>c. parse ''ls -a | head'' = Inr [c]"
  by (simp add: parse_def tokens_def is_space_def punctuation_def flush_def parse_token_def connectors_def make_stage_def
      check_filters_def program_name_def remove_suffix_def filters_def py_lower_def lower_char_def suffix_to_prefix)

lemma parse_safe_witness: "\<exists>c. parse ''ls -a | head'' = Inr [c] \<and> cm_stages c \<noteq> []"
  using sample_script parse_safe by fastforce

lemma shown_parses_back_witness: "\<exists>c. parse ''ls -a | head'' = Inr [c] \<and> (\<exists>c'. parse (shown c) = Inr [c'])"
  using sample_script shown_parses_back by fastforce

end
