(* ===== verification/Script_Filters.thy ===== *)
theory Script_Filters
  imports Script_Tokens
begin

text \<open>
  The filters of \<open>harness_script.py\<close> that need no regular expressions (\<open>head\<close>, \<open>tail\<close>, \<open>wc\<close>,
  \<open>sort\<close>, \<open>uniq\<close>) and \<open>clip_middle\<close>.  Text is a list of characters up to 255; \<open>float()\<close> of a decimal
  literal, which rounds, is a parameter of the numeric sort.
\<close>

section \<open>Lines and slices\<close>

definition line_break :: "char \<Rightarrow> bool" where
  "line_break c \<longleftrightarrow> (let n = of_char c :: nat in (10 \<le> n \<and> n \<le> 13) \<or> (28 \<le> n \<and> n \<le> 30) \<or> n = 133)"

text \<open>\<open>text.splitlines()\<close>: no line after a final line break.\<close>

fun split_lines :: "string \<Rightarrow> string \<Rightarrow> string list" where
  "split_lines acc [] = (if acc = [] then [] else [acc])"
| "split_lines acc [c] = (if line_break c then [acc] else [acc @ [c]])"
| "split_lines acc (c # d # cs) =
     (if c = CHR 0x0D \<and> d = CHR 0x0A then acc # split_lines [] cs
      else if line_break c then acc # split_lines [] (d # cs)
      else split_lines (acc @ [c]) (d # cs))"

definition lines :: "string \<Rightarrow> string list" where
  "lines s = split_lines [] s"

definition join_lines :: "string list \<Rightarrow> string" where
  "join_lines = py_join [CHR 0x0A]"

text \<open>\<open>xs[:n]\<close> and \<open>xs[n:]\<close> for any integer.\<close>

definition slice_to :: "int \<Rightarrow> 'a list \<Rightarrow> 'a list" where
  "slice_to n xs = take (nat (if n < 0 then int (length xs) + n else n)) xs"

definition slice_from :: "int \<Rightarrow> 'a list \<Rightarrow> 'a list" where
  "slice_from n xs = drop (nat (if n < 0 then int (length xs) + n else n)) xs"

section \<open>head and tail\<close>

definition all_digits :: "string \<Rightarrow> bool" where
  "all_digits s \<longleftrightarrow> s \<noteq> [] \<and> list_all is_digit s"

definition superscript :: "char \<Rightarrow> bool" where
  "superscript c \<longleftrightarrow> (of_char c :: nat) \<in> {178, 179, 185}"

definition count_arg :: "string \<Rightarrow> nat \<Rightarrow> (nat \<times> bool) result" where
  "count_arg v default_count = (let digits = dropWhile (\<lambda>c. c \<in> {CHR ''+'', CHR ''-''}) v in
     if digits \<noteq> [] \<and> list_all (\<lambda>c. is_digit c \<or> superscript c) digits then
       (if list_ex superscript digits then Inl (ValueError ''invalid literal for int() with base 10'') else Inr (py_int digits, prefix ''+'' v))
     else Inr (default_count, prefix ''+'' v))"

record ht_options =
  ht_count :: nat
  ht_plus :: bool
  ht_chars :: bool
  ht_all_but :: bool

definition ht_value :: "string \<Rightarrow> string \<Rightarrow> ht_options \<Rightarrow> ht_options result" where
  "ht_value name v opts = map_sum id (\<lambda>(n, from_line).
     opts\<lparr>ht_count := n, ht_plus := from_line, ht_all_but := (name = ''head'' \<and> prefix ''-'' v)\<rparr>) (count_arg v 10)"

text \<open>\<open>-[nc][+-]?\d+\<close> and \<open>[-+]\d+\<close> as tests of the whole argument.\<close>

definition short_count :: "string \<Rightarrow> bool" where
  "short_count arg \<longleftrightarrow> length arg > 2 \<and> arg ! 0 = CHR ''-'' \<and> arg ! 1 \<in> {CHR ''n'', CHR ''c''}
     \<and> (all_digits (drop 2 arg) \<or> (arg ! 2 \<in> {CHR ''+'', CHR ''-''} \<and> all_digits (drop 3 arg)))"

definition bare_count :: "string \<Rightarrow> bool" where
  "bare_count arg \<longleftrightarrow> arg \<noteq> [] \<and> hd arg \<in> {CHR ''-'', CHR ''+''} \<and> all_digits (tl arg)"

fun ht_loop :: "string \<Rightarrow> string list \<Rightarrow> ht_options \<Rightarrow> ht_options result" where
  "ht_loop name [] opts = Inr opts"
| "ht_loop name (arg # args) opts =
     (if arg \<in> {''-n'', ''-c'', ''--lines'', ''--bytes''} \<and> args \<noteq> [] then
        (case args of v # rest \<Rightarrow>
           bind_res (ht_value name v (opts\<lparr>ht_chars := arg \<in> {''-c'', ''--bytes''}\<rparr>)) (ht_loop name rest)
         | [] \<Rightarrow> Inr opts)
      else if prefix ''--lines='' arg \<or> prefix ''--bytes='' arg then
        bind_res (ht_value name (drop 8 arg) (opts\<lparr>ht_chars := prefix ''--bytes'' arg\<rparr>)) (ht_loop name args)
      else if short_count arg then
        bind_res (ht_value name (drop 2 arg) (opts\<lparr>ht_chars := (arg ! 1 = CHR ''c'')\<rparr>)) (ht_loop name args)
      else if bare_count arg then
        bind_res (ht_value name (if prefix ''-'' arg then tl arg else arg) opts) (ht_loop name args)
      else if arg \<in> {''-q'', ''-v'', ''-f'', ''--quiet'', ''--follow''} then ht_loop name args opts
      else Inl (ScriptRefused ''drop the file name''))"

definition ht_take :: "string \<Rightarrow> ht_options \<Rightarrow> 'a list \<Rightarrow> 'a list" where
  "ht_take name opts xs = (let n = int (ht_count opts) in
     if name = ''head'' then (if ht_all_but opts then slice_to (- n) xs else slice_to n xs)
     else if ht_plus opts then slice_from (n - 1) xs
     else if n \<noteq> 0 then slice_from (- n) xs else [])"

definition head_tail :: "string \<Rightarrow> string list \<Rightarrow> string \<Rightarrow> string result" where
  "head_tail name args text = map_sum id (\<lambda>opts.
     if ht_chars opts then ht_take name opts text else join_lines (ht_take name opts (lines text)))
     (ht_loop name args \<lparr>ht_count = 10, ht_plus = False, ht_chars = False, ht_all_but = False\<rparr>)"

section \<open>wc\<close>

definition wc :: "string list \<Rightarrow> string \<Rightarrow> string result" where
  "wc args text =
     (let wanted = concat (map tl (filter (prefix ''-'') args)) in
      if list_ex (\<lambda>a. \<not> prefix ''-'' a) args then Inl (ScriptRefused ''drop the file name'')
      else let counts = (\<lambda>l. if l = CHR ''l'' then length (lines text) else if l = CHR ''w'' then length (py_split text)
                else if l = CHR ''c'' then utf8_length text else length text);
               order = filter (\<lambda>l. l \<in> set wanted) ''lwmc'';
               order' = (if order = [] then ''lwc'' else order)
        in Inr (py_join '' '' (map (\<lambda>l. show_nat (counts l)) order')))"

section \<open>sort\<close>

definition leading_int :: "string \<Rightarrow> nat" where
  "leading_int v = py_int (takeWhile is_digit v)"

record sort_options =
  so_flags :: "char set"
  so_key :: nat
  so_separator :: "string option"

fun sort_loop :: "string list \<Rightarrow> sort_options \<Rightarrow> sort_options result" where
  "sort_loop [] opts = Inr opts"
| "sort_loop (arg # args) opts =
     (if arg \<in> {''-k'', ''-t''} \<and> args \<noteq> [] then
        (case args of v # rest \<Rightarrow>
           sort_loop rest (if arg = ''-k'' then opts\<lparr>so_key := leading_int v\<rparr> else opts\<lparr>so_separator := Some v\<rparr>)
         | [] \<Rightarrow> Inr opts)
      else if prefix ''-k'' arg \<and> length arg > 2 then sort_loop args (opts\<lparr>so_key := leading_int (drop 2 arg)\<rparr>)
      else if prefix ''-t'' arg \<and> length arg > 2 then sort_loop args (opts\<lparr>so_separator := Some (drop 2 arg)\<rparr>)
      else if prefix ''-'' arg then sort_loop args (opts\<lparr>so_flags := so_flags opts \<union> set (tl arg)\<rparr>)
      else Inl (ScriptRefused ''drop the file name''))"

text \<open>\<open>line.split(separator)\<close> for a separator of any length but zero.\<close>

function split_str :: "string \<Rightarrow> string \<Rightarrow> string \<Rightarrow> string list" where
  "split_str sep acc s =
     (if s = [] then [acc]
      else if sep \<noteq> [] \<and> prefix sep s then acc # split_str sep [] (drop (length sep) s)
      else split_str sep (acc @ [hd s]) (tl s))"
  by pat_completeness auto
termination
  by (relation "measure (\<lambda>(sep, acc, s). length s)") (auto simp: neq_Nil_conv)

definition field_of :: "sort_options \<Rightarrow> string \<Rightarrow> string" where
  "field_of opts line =
     (if so_key opts = 0 then line
      else case so_separator opts of
        Some sep \<Rightarrow> if sep \<noteq> [] then py_join sep (drop (so_key opts - 1) (split_str sep [] line))
          else py_join '' '' (drop (so_key opts - 1) (py_split line))
      | None \<Rightarrow> py_join '' '' (drop (so_key opts - 1) (py_split line)))"

text \<open>The longest match of \<open>\s*(-?\d+(?:\.\d+)?)\<close> at the start, without the white space.\<close>

definition leading_number :: "string \<Rightarrow> string option" where
  "leading_number v =
     (let s = dropWhile is_space v;
          sign = (if s \<noteq> [] \<and> hd s = CHR ''-'' then ''-'' else []);
          s1 = drop (length sign) s;
          whole = takeWhile is_digit s1;
          s2 = drop (length whole) s1;
          frac = (if s2 \<noteq> [] \<and> hd s2 = CHR ''.'' then takeWhile is_digit (tl s2) else [])
      in if whole = [] then None
         else Some (sign @ whole @ (if frac = [] then [] else CHR ''.'' # frac)))"

definition sort_order :: "(string \<Rightarrow> 'f::{linorder,zero}) \<Rightarrow> sort_options \<Rightarrow> string \<Rightarrow> 'f \<times> string" where
  "sort_order float opts line =
     (let v = field_of opts line in
      if so_flags opts \<inter> {CHR ''n'', CHR ''h''} \<noteq> {} then
        ((case leading_number v of None \<Rightarrow> 0 | Some n \<Rightarrow> float n), v)
      else (0, if CHR ''f'' \<in> so_flags opts then py_lower v else v))"

fun sort_unique :: "sort_options \<Rightarrow> string list \<Rightarrow> string list \<Rightarrow> string list" where
  "sort_unique opts kept [] = kept"
| "sort_unique opts kept (l # ls) =
     sort_unique opts (if kept = [] \<or> field_of opts (last kept) \<noteq> field_of opts l then kept @ [l] else kept) ls"

text \<open>A reversed sort is stable too: equal lines keep their order.\<close>

definition sort_lines :: "(string \<Rightarrow> 'f::{linorder,zero}) \<Rightarrow> string list \<Rightarrow> string \<Rightarrow> string result" where
  "sort_lines float args text = map_sum id (\<lambda>opts.
     let sorted = (if CHR ''r'' \<in> so_flags opts then rev (sort_key (sort_order float opts) (rev (lines text)))
                   else sort_key (sort_order float opts) (lines text))
     in join_lines (if CHR ''u'' \<in> so_flags opts then sort_unique opts [] sorted else sorted))
     (sort_loop args \<lparr>so_flags = {}, so_key = 0, so_separator = None\<rparr>)"

section \<open>uniq\<close>

fun uniq_groups :: "(string \<times> nat) list \<Rightarrow> string list \<Rightarrow> (string \<times> nat) list" where
  "uniq_groups groups [] = groups"
| "uniq_groups groups (l # ls) =
     uniq_groups (if groups \<noteq> [] \<and> fst (last groups) = l then butlast groups @ [(l, snd (last groups) + 1)]
                  else groups @ [(l, 1)]) ls"

definition right_align :: "nat \<Rightarrow> string \<Rightarrow> string" where
  "right_align n s = replicate (n - length s) CHR '' '' @ s"

definition uniq :: "string list \<Rightarrow> string \<Rightarrow> string" where
  "uniq args text =
     (let flags = set (concat (map tl (filter (prefix ''-'') args)));
          groups = uniq_groups [] (lines text);
          groups = (if CHR ''d'' \<in> flags then filter (\<lambda>(l, n). n > 1) groups else groups);
          groups = (if CHR ''u'' \<in> flags then filter (\<lambda>(l, n). n = 1) groups else groups)
      in join_lines (if CHR ''c'' \<in> flags then map (\<lambda>(l, n). right_align 7 (show_nat n) @ '' '' @ l) groups
         else map fst groups))"

section \<open>Clipping\<close>

text \<open>The longest run of lines that fits, each with its line break.\<close>

fun fill :: "nat \<Rightarrow> nat \<Rightarrow> string list \<Rightarrow> string list" where
  "fill limit used [] = []"
| "fill limit used (l # ls) = (if used + length l + 1 > limit then [] else l # fill limit (used + length l + 1) ls)"

definition omitted_lines :: "nat \<Rightarrow> string" where
  "omitted_lines n = ''[... '' @ show_nat n @ '' lines omitted from the middle; this tool has no offset, so ask for less: narrow its arguments, or filter with | grep / | tail -n N ...]''"

definition omitted_chars :: "int \<Rightarrow> string" where
  "omitted_chars n = [CHR 0x0A] @ ''[... '' @ show_int n @ '' characters omitted from the middle ...]'' @ [CHR 0x0A]"

definition clip_head :: "string list \<Rightarrow> nat \<Rightarrow> nat \<Rightarrow> string list" where
  "clip_head ls max_lines max_chars = fill (max 1 (max_chars div 3)) 0 (take (max 1 (max_lines div 3)) ls)"

definition clip_tail :: "string list \<Rightarrow> nat \<Rightarrow> nat \<Rightarrow> string list" where
  "clip_tail ls max_lines max_chars =
     (let head_lines = max 1 (max_lines div 3); head_chars = max 1 (max_chars div 3);
          tail_lines = max 1 (int max_lines - int head_lines); tail_chars = max 1 (int max_chars - int head_chars)
      in rev (fill (nat tail_chars) 0 (rev (slice_from (- tail_lines) (drop (length (clip_head ls max_lines max_chars)) ls)))))"

definition clip_middle :: "string \<Rightarrow> nat \<Rightarrow> nat \<Rightarrow> string" where
  "clip_middle text max_lines max_chars =
     (let ls = lines text;
          head_chars = max 1 (max_chars div 3);
          tail_chars = max 1 (int max_chars - int head_chars);
          head = clip_head ls max_lines max_chars;
          tail = clip_tail ls max_lines max_chars
      in if length ls \<le> max_lines \<and> length text \<le> max_chars then text
         else if head = [] \<and> tail = [] then
           take head_chars text @ omitted_chars (int (length text) - int head_chars - tail_chars) @ slice_from (- tail_chars) text
         else join_lines (head @ [omitted_lines (length ls - length head - length tail)] @ tail))"


section \<open>Properties of the filters\<close>

lemma uniq_groups_step:
  assumes "groups \<noteq> []"
  shows "uniq_groups groups ls = butlast groups @ uniq_groups [last groups] ls"
  using assms
proof (induction ls arbitrary: groups)
  case Nil
  then show ?case by simp
next
  case (Cons l ls)
  show ?case
  proof (cases "fst (last groups) = l")
    case True
    with Cons.prems Cons.IH [of "butlast groups @ [(l, Suc (snd (last groups)))]"] show ?thesis by simp
  next
    case False
    with Cons.prems Cons.IH [of "groups @ [(l, 1)]"] Cons.IH [of "[last groups, (l, 1)]"] show ?thesis by simp
  qed
qed

lemma uniq_groups_from:
  "0 < n \<Longrightarrow> (concat (map (\<lambda>(l, n). replicate n l) (uniq_groups [(l, n)] ls)) = replicate n l @ ls
     \<and> (\<forall>g\<in>set (uniq_groups [(l, n)] ls). 0 < snd g)
     \<and> successively (\<lambda>g h. fst g \<noteq> fst h) (uniq_groups [(l, n)] ls)
     \<and> (\<exists>m gs. uniq_groups [(l, n)] ls = (l, m) # gs))"
proof (induction ls arbitrary: l n)
  case Nil
  then show ?case by simp
next
  case (Cons k ls)
  show ?case
  proof (cases "l = k")
    case True
    with Cons.IH [of "Suc n" k] show ?thesis by (simp add: replicate_append_same flip: append_assoc replicate_Suc)
  next
    case False
    from Cons.IH [of 1 k] obtain m gs where "uniq_groups [(k, 1)] ls = (k, m) # gs" by auto
    with Cons.IH [of 1 k] Cons.prems False uniq_groups_step [of "[(l, n), (k, 1)]" ls] show ?thesis by simp
  qed
qed

text \<open>\<open>uniq\<close> counts runs exactly: its groups spell out the lines, every count is positive and adjacent groups
  differ.\<close>

theorem uniq_run_lengths:
  "concat (map (\<lambda>(l, n). replicate n l) (uniq_groups [] ls)) = ls
    \<and> list_all (\<lambda>(l, n). 0 < n) (uniq_groups [] ls)
    \<and> successively (\<lambda>g h. fst g \<noteq> fst h) (uniq_groups [] ls)"
proof (cases ls)
  case (Cons l ks)
  with uniq_groups_from [of 1 l ks] show ?thesis by (auto simp: list_all_iff)
qed simp

lemma split_lines_length:
  "sum_list (map (\<lambda>l. length l + 1) (split_lines acc s)) \<le> length acc + length s + 1"
  by (induction acc s rule: split_lines.induct) (auto simp del: sum_list.eq_foldr)

lemma fill_prefix: "prefix (fill limit used ls) ls"
  by (induction limit used ls rule: fill.induct) auto

lemma fill_size: "used + sum_list (map (\<lambda>l. length l + 1) (fill limit used ls)) \<le> max used limit"
  by (induction limit used ls rule: fill.induct) (auto simp: le_max_iff_disj)

lemma fill_stops: "fill limit used (l # ls) = [] \<Longrightarrow> limit \<le> used + length l"
  by (auto split: if_splits)


lemma slice_from_suffix: "\<exists>front. xs = front @ slice_from n xs"
  by (rule exI [of _ "take (nat (if n < 0 then int (length xs) + n else n)) xs"]) (simp add: slice_from_def)

lemma slice_from_end_length: "n \<le> int (length xs) \<Longrightarrow> 0 < n \<Longrightarrow> length (slice_from (- n) xs) = nat n"
  by (auto simp: slice_from_def)

lemma slice_from_end_bound: "0 < n \<Longrightarrow> length (slice_from (- n) xs) \<le> nat n"
  by (auto simp: slice_from_def)

lemma lines_length: "sum_list (map (\<lambda>l. length l + 1) (lines s)) \<le> length s + 1"
  using split_lines_length [of "[]" s] by (simp add: lines_def)

lemma clip_tail_suffix:
  "\<exists>mid. drop (length (clip_head ls ml mc)) ls = mid @ clip_tail ls ml mc"
proof -
  let ?rest = "drop (length (clip_head ls ml mc)) ls"
  let ?last = "slice_from (- max 1 (int ml - int (max 1 (ml div 3)))) ?rest"
  obtain front where front: "?rest = front @ ?last" using slice_from_suffix by blast
  have "\<exists>cut. rev ?last = rev (clip_tail ls ml mc) @ cut"
    using fill_prefix [of "nat (max 1 (int mc - int (max 1 (mc div 3))))" 0 "rev ?last"]
    by (auto simp: clip_tail_def Let_def prefix_def)
  then obtain cut where "rev ?last = rev (clip_tail ls ml mc) @ cut" ..
  then have "?last = rev cut @ clip_tail ls ml mc" by (metis rev_append rev_rev_ident)
  with front show ?thesis by (metis append_assoc)
qed

lemma clip_head_prefix: "\<exists>rest. ls = clip_head ls ml mc @ rest"
  using fill_prefix [of "max 1 (mc div 3)" 0 "take (max 1 (ml div 3)) ls"] append_take_drop_id [of "max 1 (ml div 3)" ls]
  unfolding clip_head_def prefix_def by (metis append_assoc)

lemma clip_parts:
  obtains mid where "ls = clip_head ls ml mc @ mid @ clip_tail ls ml mc"
proof -
  obtain rest where rest: "ls = clip_head ls ml mc @ rest" using clip_head_prefix by blast
  moreover obtain mid where "drop (length (clip_head ls ml mc)) ls = mid @ clip_tail ls ml mc" using clip_tail_suffix by blast
  ultimately have "ls = clip_head ls ml mc @ mid @ clip_tail ls ml mc" by (metis append_eq_conv_conj)
  then show ?thesis by (rule that)
qed

lemma clip_counts:
  assumes "2 \<le> ml"
  shows "length (clip_head ls ml mc) + length (clip_tail ls ml mc) \<le> ml"
proof -
  have "length (clip_head ls ml mc) \<le> max 1 (ml div 3)"
    using prefix_length_le [OF fill_prefix [of "max 1 (mc div 3)" 0 "take (max 1 (ml div 3)) ls"]]
    by (simp add: clip_head_def)
  moreover have "length (clip_tail ls ml mc) \<le> nat (max 1 (int ml - int (max 1 (ml div 3))))"
    unfolding clip_tail_def Let_def length_rev
    by (rule order_trans [OF prefix_length_le [OF fill_prefix]]) (simp only: length_rev, rule slice_from_end_bound, simp)
  moreover have "max 1 (ml div 3) + nat (max 1 (int ml - int (max 1 (ml div 3)))) = ml" using assms by linarith
  ultimately show ?thesis by linarith
qed

abbreviation line_sizes :: "string list \<Rightarrow> nat" where
  "line_sizes ls \<equiv> sum_list (map (\<lambda>l. length l + 1) ls)"

lemma line_sizes_rev: "line_sizes (rev ls) = line_sizes ls"
  by (induction ls) simp_all

lemma clip_chars_bound:
  assumes "2 \<le> mc"
  shows "line_sizes (clip_head ls ml mc) + line_sizes (clip_tail ls ml mc) \<le> mc"
proof -
  have "line_sizes (clip_head ls ml mc) \<le> max 1 (mc div 3)"
    using fill_size [of 0 "max 1 (mc div 3)" "take (max 1 (ml div 3)) ls"] by (simp add: clip_head_def)
  moreover have "line_sizes (clip_tail ls ml mc) \<le> nat (max 1 (int mc - int (max 1 (mc div 3))))"
    unfolding clip_tail_def Let_def line_sizes_rev
    using fill_size [of 0 "nat (max 1 (int mc - int (max 1 (mc div 3))))"] by simp
  moreover have "max 1 (mc div 3) + nat (max 1 (int mc - int (max 1 (mc div 3)))) = mc" using assms by linarith
  ultimately show ?thesis by linarith
qed


lemma mid_length: "h + t = m \<Longrightarrow> m < length xs \<Longrightarrow> length (take (length xs - m) (drop h xs)) = length xs - m"
  by simp

lemma ends_length: "h + t = m \<Longrightarrow> m < length xs \<Longrightarrow> length (take h xs) + length (drop (length xs - t) xs) = m"
  by simp

lemma take_drop_three: "xs = take h xs @ take k (drop h xs) @ drop (h + k) xs"
  by (metis add.commute append_take_drop_id drop_drop)

lemma slice_from_end: "0 < n \<Longrightarrow> slice_from (- n) xs = drop (length xs - nat n) xs"
  by (auto simp: slice_from_def nat_diff_distrib' intro: arg_cong [where f = "\<lambda>k. drop k xs"])

lemma slice_from_last: "0 < n \<Longrightarrow> xs \<noteq> [] \<Longrightarrow> slice_from (- n) xs \<noteq> [] \<and> last (slice_from (- n) xs) = last xs"
proof -
  assume "0 < n" "xs \<noteq> []"
  then have "length xs - nat n < length xs" by (cases xs) auto
  with \<open>0 < n\<close> show ?thesis by (simp add: slice_from_end last_drop)
qed

lemma fill_nothing: "fill limit 0 ls = [] \<Longrightarrow> ls \<noteq> [] \<Longrightarrow> limit \<le> length (hd ls)"
  by (cases ls) (auto split: if_splits)

lemma clip_nothing_head:
  assumes "clip_head ls ml mc = []" "ls \<noteq> []"
  shows "max 1 (mc div 3) \<le> length (hd ls)"
proof -
  from assms have "max 1 (mc div 3) \<le> length (hd (take (max 1 (ml div 3)) ls))"
    unfolding clip_head_def by (intro fill_nothing) auto
  with \<open>ls \<noteq> []\<close> show ?thesis by (cases ls) auto
qed

lemma clip_nothing_tail:
  assumes "clip_head ls ml mc = []" "clip_tail ls ml mc = []" "ls \<noteq> []"
  shows "nat (max 1 (int mc - int (max 1 (mc div 3)))) \<le> length (last ls)"
proof -
  let ?n = "max 1 (int ml - int (max 1 (ml div 3)))"
  have "0 < ?n" by simp
  then have last: "slice_from (- ?n) ls \<noteq> []" "last (slice_from (- ?n) ls) = last ls"
    using slice_from_last [of ?n ls] \<open>ls \<noteq> []\<close> by blast+
  have "fill (nat (max 1 (int mc - int (max 1 (mc div 3))))) 0 (rev (slice_from (- ?n) ls)) = []"
    using assms(1,2) by (simp add: clip_tail_def Let_def)
  then have "nat (max 1 (int mc - int (max 1 (mc div 3)))) \<le> length (hd (rev (slice_from (- ?n) ls)))"
    by (rule fill_nothing) (simp only: rev_is_Nil_conv last, simp)
  then show ?thesis by (simp only: hd_rev last)
qed

lemma two_lines_long:
  assumes "2 \<le> length ls"
  shows "length (hd ls) + length (last ls) + 2 \<le> line_sizes ls"
proof -
  obtain l k ks where "ls = l # k # ks" using assms by (cases ls; cases "tl ls") auto
  moreover have "length (last (k # ks)) + 1 \<le> line_sizes (k # ks)"
    by (rule member_le_sum_list) auto
  ultimately show ?thesis by simp
qed

lemma clip_nothing_long:
  assumes "clip_head (lines s) ml mc = []" "clip_tail (lines s) ml mc = []" "2 \<le> ml" "2 \<le> mc"
    and "ml < length (lines s) \<or> mc < length s"
  shows "mc < length s"
proof (rule ccontr)
  assume "\<not> mc < length s"
  with assms have two: "2 \<le> length (lines s)" by auto
  then have "lines s \<noteq> []" by auto
  note clip_nothing_head [OF assms(1) this] clip_nothing_tail [OF assms(1,2) this] two_lines_long [OF two] lines_length [of s]
  then have "max 1 (mc div 3) + nat (max 1 (int mc - int (max 1 (mc div 3)))) + 2 \<le> length s + 1" by linarith
  with \<open>\<not> mc < length s\<close> \<open>2 \<le> mc\<close> show False by linarith
qed

text \<open>\<open>clip_middle\<close> returns a text within the limits unchanged; otherwise it keeps a start and an end that
  together stay within both limits and reports exactly the number of lines, or for one enormous line the
  number of characters, that were cut from between them.\<close>

theorem clip_middle_exact:
  assumes "2 \<le> max_lines" "2 \<le> max_chars"
  shows "if length (lines s) \<le> max_lines \<and> length s \<le> max_chars then clip_middle s max_lines max_chars = s
    else (\<exists>head mid tail. lines s = head @ mid @ tail
        \<and> clip_middle s max_lines max_chars = join_lines (head @ [omitted_lines (length mid)] @ tail)
        \<and> length head + length tail \<le> max_lines \<and> line_sizes head + line_sizes tail \<le> max_chars)
      \<or> (\<exists>head mid tail. s = head @ mid @ tail \<and> mid \<noteq> []
        \<and> clip_middle s max_lines max_chars = head @ omitted_chars (int (length mid)) @ tail
        \<and> length head + length tail = max_chars)"
proof (cases "length (lines s) \<le> max_lines \<and> length s \<le> max_chars")
  case True
  then show ?thesis by (simp add: clip_middle_def Let_def)
next
  case False
  let ?head = "clip_head (lines s) max_lines max_chars" and ?tail = "clip_tail (lines s) max_lines max_chars"
  show ?thesis
  proof (cases "?head = [] \<and> ?tail = []")
    case True
    let ?h = "max 1 (max_chars div 3)" and ?t = "max 1 (int max_chars - int (max 1 (max_chars div 3)))"
    have long: "max_chars < length s" using clip_nothing_long [of s max_lines max_chars] True assms False by auto
    have sum: "int ?h + ?t = int max_chars" using assms by linarith
    let ?mid = "take (length s - max_chars) (drop ?h s)"
    have split: "?h + nat ?t = max_chars" using sum by linarith
    have tail: "slice_from (- ?t) s = drop (length s - nat ?t) s" by (rule slice_from_end) simp
    have start: "length s - nat ?t = ?h + (length s - max_chars)" using long split by linarith
    have mid: "length ?mid = length s - max_chars" using split long by (rule mid_length)
    have "s = take ?h s @ ?mid @ slice_from (- ?t) s"
      unfolding tail start by (rule take_drop_three)
    moreover have count: "int (length ?mid) = int (length s) - int ?h - ?t" unfolding mid using long sum by linarith
    moreover have "length (take ?h s) + length (slice_from (- ?t) s) = max_chars"
      unfolding tail using split long by (rule ends_length)
    moreover have "?mid \<noteq> []" using mid long by (metis length_0_conv zero_less_diff less_irrefl)
    moreover have "clip_middle s max_lines max_chars = take ?h s @ omitted_chars (int (length ?mid)) @ slice_from (- ?t) s"
      unfolding count unfolding clip_middle_def Let_def if_not_P [OF False] if_P [OF True] ..
    ultimately have "\<exists>head mid tail. s = head @ mid @ tail \<and> mid \<noteq> []
        \<and> clip_middle s max_lines max_chars = head @ omitted_chars (int (length mid)) @ tail
        \<and> length head + length tail = max_chars"
      by - (rule exI [of _ "take ?h s"], rule exI [of _ ?mid], rule exI [of _ "slice_from (- ?t) s"], intro conjI)
    then show ?thesis unfolding if_not_P [OF False] by (rule disjI2)
  next
    case some: False
    obtain mid where mid: "lines s = ?head @ mid @ ?tail" by (rule clip_parts)
    from mid have "length (lines s) - length ?head - length ?tail = length mid"
      by (metis add_diff_cancel_left' add_diff_cancel_right' length_append)
    with some False have "clip_middle s max_lines max_chars = join_lines (?head @ [omitted_lines (length mid)] @ ?tail)"
      unfolding clip_middle_def Let_def by (simp only: if_False if_not_P)
    with mid clip_counts [OF assms(1), of "lines s" max_chars] clip_chars_bound [OF assms(2), of "lines s" max_lines]
    show ?thesis unfolding if_not_P [OF False] by blast
  qed
qed

lemma clip_middle_exact_witness:
  "clip_middle ''ab'' 2 2 = ''ab''"
  using clip_middle_exact [of 2 2 "''ab''"] by (simp add: lines_def line_break_def)

end
