(* ===== verification/Spec2Isabelle.thy ===== *)
theory Spec2Isabelle
  imports Rule_Engine Agent_Ids Fs_Policy Proc_Traces Script_Filters
begin

text \<open>
  A verification development for EvoMesh, a mesh of goal-driven agents in Python.  The paths below are
  under \<open>src/src/evomesh/\<close>.

  \<^bold>\<open>The program.\<close>  An agent owns a mind (\<open>contracts.py\<close>): beliefs, goals, intentions, traces.
  The goal manager (\<open>goal_manager.py\<close>) decides which goal may run, rules (\<open>rules.py\<close>) derive
  beliefs and propose goals, and a learner (\<open>procedural_learning.py\<close>) turns repeated success into
  plans.  For work that must be reproducible a goal is handed to a typed procedure
  (\<open>procedures.py\<close>, \<open>procedure_runtime.py\<close>): a definition is validated statically, admitted by a
  registry only with a human's approval bound to its digest, selected for a goal, and run by an
  executor one step at a time over a journal in SQLite (\<open>storage.py\<close>), so that effects survive
  crashes, retries and competing processes.  Agents meet on a blackboard, an event bus, mailboxes
  and a contract net (\<open>blackboard.py\<close>, \<open>events.py\<close>, \<open>messaging.py\<close>, \<open>coordination.py\<close>).  A
  model that looks at files does so through a small script language instead of a shell
  (\<open>harness_script.py\<close>), under filesystem grants (\<open>permissions.py\<close>).

  \<^bold>\<open>The theories.\<close>
  \<^item> \<^theory_text>\<open>Py_Prelude\<close>, \<^theory_text>\<open>Py_Graph\<close>, \<^theory_text>\<open>Py_Value\<close>: exceptions as values, methods that mutate and may
    raise, insertion-ordered dictionaries, bounded logs, text, time; graphs and paths; the values of
    type \<open>Any\<close> with Python's equality and truth.  The interfaces \<open>keyed_store\<close> (what a lookup gives
    after an update) and \<open>bounded_log\<close> (what a history that keeps its last entries holds) are locales,
    interpreted on the dictionary, the mailboxes, the episodes, the traces, the event history and the
    blackboard's diagnostics.
  \<^item> \<^theory_text>\<open>Cron\<close> (\<open>cron.py\<close>), \<^theory_text>\<open>Mind\<close> and \<^theory_text>\<open>Mind_State\<close> (\<open>MindState\<close> of \<open>contracts.py\<close>),
    \<^theory_text>\<open>Goal_Manager\<close> with its properties in \<^theory_text>\<open>Goal_Lifecycle\<close> and \<^theory_text>\<open>Goal_Graph\<close>
    (\<open>goal_manager.py\<close>), \<^theory_text>\<open>Rule_Engine\<close> (\<open>rules.py\<close>), \<^theory_text>\<open>Learning\<close> (\<open>procedural_learning.py\<close>),
    \<^theory_text>\<open>Agent_Ids\<close> (\<open>_agent_ids.py\<close>).
  \<^item> \<^theory_text>\<open>Coordination\<close> (\<open>coordination.py\<close>), \<^theory_text>\<open>Events\<close> (\<open>events.py\<close>, \<open>messaging.py\<close>,
    \<open>progress.py\<close>), \<^theory_text>\<open>Blackboard\<close> (\<open>blackboard.py\<close>), \<^theory_text>\<open>Fs_Policy\<close> (\<open>permissions.py\<close> over the
    grant table of \<open>storage.py\<close>).
  \<^item> The procedure contract, \<open>procedures.py\<close>: \<^theory_text>\<open>Proc_Binding\<close> (references, bindings, resolution),
    \<^theory_text>\<open>Proc_Predicate\<close> (three-valued predicates), \<^theory_text>\<open>Proc_Schema\<close> (the schema subset),
    \<^theory_text>\<open>Proc_Definition\<close> (steps, catalogs, the checks of each step), \<^theory_text>\<open>Proc_Graph\<close> (the step graph),
    \<^theory_text>\<open>Proc_Flow\<close> (topological order, data flow, the validator as a whole).
  \<^item> \<^theory_text>\<open>Proc_Store\<close>: the procedure tables of \<open>storage.py\<close>; the locale \<open>compare_and_swap\<close> (of the
    calls that expect one version at most one takes effect) is interpreted on the versions of the
    executions.  \<^theory_text>\<open>Proc_Registry\<close>: \<open>ProcedureRegistry\<close>.
  \<^item> The executor, \<open>ProcedureExecutor\<close>: \<^theory_text>\<open>Proc_Execution\<close> (its records), \<^theory_text>\<open>Exec_Core\<close> (its world,
    loading and committing, tool steps, recovery), \<^theory_text>\<open>Exec_Steps\<close> (the other steps, one advance, the
    operations around it), \<^theory_text>\<open>Exec_Rules\<close> (weakest preconditions and the legal transitions),
    \<^theory_text>\<open>Exec_Safety\<close> (every handler is correct), \<^theory_text>\<open>Exec_Sample\<close> (a deployment to run) and
    \<^theory_text>\<open>Exec_Advance\<close> (the properties).  \<^theory_text>\<open>Exec_Service\<close>: \<open>ProcedureService\<close>, the facade the
    reasoner calls.  \<^theory_text>\<open>Core_Adapters\<close>: the adapters, checks and outputs that ship with the runtime.
  \<^item> \<^theory_text>\<open>Proc_Traces\<close> (\<open>procedure_traces.py\<close>): the journal of a harness job, the traces of
    completed occurrences, candidate extraction, replay and validation of a candidate.
  \<^item> \<^theory_text>\<open>Script_Tokens\<close> and \<^theory_text>\<open>Script_Filters\<close> (\<open>harness_script.py\<close>).

  \<^bold>\<open>How code is modelled.\<close>  A class is a record with its fields' names under a prefix, an enumeration a
  datatype, a method a definition of the same name where HOL allows it.  What raises returns
  \<open>exn + 'a\<close>; a method that mutates before it raises is a function from the state to the result and the
  state it leaves.  Loops are structural recursion or functions with a termination proof, so nothing
  needs fuel to be defined: the bounded loops of the code keep their own bounds (three rounds of
  \<open>settle_loop\<close>, five of \<open>cancel_loop\<close>, the calls a cognitive step may make, the firings of a rule
  run, the days the cron search visits, the \<open>3 n + 3\<close> advances of a replay).

  A handler of the executor is a function of a world that holds the store, the registry, the
  environment, the execution object the handler owns, and a list \<open>wd_others\<close> of what other tasks do:
  at every \<open>await\<close> the next of them is applied.  A theorem for every \<open>wd_others\<close> is therefore one for
  every interleaving.  \<open>wd_log\<close> and \<open>wd_known\<close> are ghosts: what the handler committed and called, and
  the execution it takes to be stored.  One call of the repository is one step, as one transaction is.
  In \<^theory_text>\<open>Core_Adapters\<close> a write is its list of file-system steps, and a crash is a run that stops
  between two of them or inside one.

  \<^bold>\<open>What is proved.\<close>
  \<^item> Execution: everything an advance commits is a legal transition, whatever happens meanwhile; an
    adapter is invoked only under its own durable claim; among tasks that keep to versions no
    transition is lost and no unsettled effect is repeated; a start resumes or inherits; a
    cancellation is recorded; a child is settled once.  A cognitive step is the exception: it can
    overwrite a cancellation.
  \<^item> Crashes: a JSON write leaves nothing or the whole content and is reconciled accordingly; but a crash
    before the ownership record is written locks the path for later occurrences.
  \<^item> Admission: an accepted definition is runnable, the data-flow and graph checks are exact, values
    are validated exactly, predicates and bindings that are accepted evaluate; promotion needs a
    trusted approval of exactly this content; only an admitted procedure is selected; delegated work
    with limits is never left to legacy planning.
  \<^item> Learning procedures: a learned definition comes from enough distinct eligible occurrences under an
    operator's map, and what it binds redoes each of them from parameters and earlier results; traces
    hold no secret-named field and are stored once per occurrence whatever other tasks do; a candidate
    is validated only by replays that all passed, one of them on held-out parameters.
  \<^item> Store: one transition per version, all or nothing, one open execution per occurrence.
  \<^item> Minds: goals move along legal transitions and closed goals stay closed, the dependency check is
    exact and kept by creation and by rules (pruning can break it), belief revision is exact, rules
    reach a fixed point, what is learned was earned, cron times are the least ones.
  \<^item> Coordination and tools: the best bidder, bounded blackboards that load what they dumped, stall
    signals, identifiers, grants; scripts that parse are words and filters only, and are shown as
    they parse.

  \<^bold>\<open>Parameters.\<close>  Code that is not in the repository or is pure encoding is an argument: pydantic's
  parsing, \<open>json.dumps\<close> and \<open>json.loads\<close>, SHA-256, the model, adapters and peers of the host, path
  resolution, fresh identifiers and the clock.  What is stored as JSON is stored as the value.
  Where a theorem needs more of a parameter (that a receipt reads back, that identifiers are fresh) it
  says so, and its witness gives an instance.

  \<^bold>\<open>Conventions.\<close>  Text is a list of characters up to 255; case mapping and digits are ASCII's.
  Floats that carry scores, durations and configuration are exact rationals; where the code meets the
  limits of floats (infinities, NaN, integers too large) they are modelled.  Points in time are
  microseconds.  Of a message or reason the code is kept, not the prose.

  \<^bold>\<open>Not modelled.\<close>  The evolution loop, the deliberation cycle and its prompts, the harness's tool loop, the
  runtime environment, consoles, transports, model clients, configuration, skills and memory files:
  they are asyncio wiring, processes, files and text around a model, whose decisions the components
  above take.  Of \<open>harness_script.py\<close> the here-documents and the filters \<open>grep\<close> and \<open>sed\<close>, which
  run Python's regular expressions; of \<open>storage.py\<close> the tables that only save and load JSON.
  Directories and operating system errors are outside the file system of \<^theory_text>\<open>Core_Adapters\<close>.
\<close>

end
